(* ===== verification/Tillit_Prelude.thy ===== *)
theory Tillit_Prelude
  imports Main "HOL-Library.Multiset" "HOL-Library.Char_ord" "HOL-Library.List_Lexorder"
    "HOL-Library.Option_ord"
begin

text \<open>
  Shared ground of the development: the theorem collections the component
  theories fill, the three-way comparison results that Go's \<open>cmp.Compare\<close> and
  \<open>strings.Compare\<close> return, and the generic facts on association lists,
  write-once and upsert tables and folds that several components use.
\<close>

section \<open>Theorem collections\<close>

named_theorems cmp_intros \<open>ways to build a comparison that is a total preorder\<close>
named_theorems cmp_defs \<open>definitions of the comparison routines\<close>
named_theorems table_simps \<open>rewrite rules of the row tables\<close>

section \<open>Three-way comparison\<close>

text \<open>Go's \<open>cmp.Compare\<close> and \<open>strings.Compare\<close>: the result is -1, 0 or 1.\<close>

definition go_cmp :: "'a::linorder \<Rightarrow> 'a \<Rightarrow> int" where
  "go_cmp a b = (if a < b then - 1 else if b < a then 1 else 0)"

text \<open>The idiom \<open>if c := ...; c != 0 { return c }\<close> followed by the next comparison.\<close>

definition then_cmp :: "int \<Rightarrow> int \<Rightarrow> int" where
  "then_cmp c d = (if c \<noteq> 0 then c else d)"

lemma then_cmp_simps [simp]:
  "then_cmp 0 d = d" "then_cmp c 0 = c" "then_cmp 1 d = 1" "then_cmp (- 1) d = - 1"
  by (simp_all add: then_cmp_def)

lemma then_cmp_eq_0 [simp]: "then_cmp c d = 0 \<longleftrightarrow> c = 0 \<and> d = 0"
  by (simp add: then_cmp_def)

lemma then_cmp_uminus: "then_cmp (- c) (- d) = - then_cmp c d"
  by (simp add: then_cmp_def)

lemma then_cmp_swap: "c' = - c \<Longrightarrow> d' = - d \<Longrightarrow> then_cmp c' d' = - then_cmp c d"
  by (simp add: then_cmp_def)

lemma then_cmp_range:
  "c \<in> {- 1, 0, 1} \<Longrightarrow> d \<in> {- 1, 0, 1} \<Longrightarrow> then_cmp c d \<in> {- 1, 0, 1}"
  by (auto simp: then_cmp_def)

lemma then_cmp_le: "then_cmp c d \<le> 0 \<Longrightarrow> c \<le> 0"
  by (simp add: then_cmp_def split: if_splits)

lemma go_cmp_self [simp]: "go_cmp a a = 0"
  by (simp add: go_cmp_def)

lemma go_cmp_eq_0 [simp]: "go_cmp a b = 0 \<longleftrightarrow> a = b"
  by (auto simp: go_cmp_def)

lemma go_cmp_less_0 [simp]: "go_cmp a b < 0 \<longleftrightarrow> a < b"
  by (auto simp: go_cmp_def)

lemma go_cmp_le_0 [simp]: "go_cmp a b \<le> 0 \<longleftrightarrow> a \<le> b"
  by (auto simp: go_cmp_def)

lemma go_cmp_gt_0 [simp]: "0 < go_cmp a b \<longleftrightarrow> b < a"
  by (auto simp: go_cmp_def)

lemma go_cmp_swap: "go_cmp b a = - go_cmp a b"
  by (auto simp: go_cmp_def)

section \<open>Errors as values\<close>

text \<open>Go's \<open>x, err := f(); if err != nil { return ..., err }\<close>.\<close>

definition bindE :: "'e + 'a \<Rightarrow> ('a \<Rightarrow> 'e + 'b) \<Rightarrow> 'e + 'b" where
  "bindE r k = (case r of Inl e \<Rightarrow> Inl e | Inr x \<Rightarrow> k x)"

lemma bindE_simps [simp]: "bindE (Inl e) k = Inl e" "bindE (Inr x) k = k x"
  by (simp_all add: bindE_def)

lemma bindE_eq_Inr: "bindE r k = Inr y \<longleftrightarrow> (\<exists>x. r = Inr x \<and> k x = Inr y)"
  by (cases r) auto

text \<open>A loop that stops at the first element with an error and collects the
  results otherwise.\<close>

fun mapE :: "('a \<Rightarrow> 'e + 'b) \<Rightarrow> 'a list \<Rightarrow> 'e + 'b list" where
  "mapE f [] = Inr []"
| "mapE f (x # xs) = bindE (f x) (\<lambda>y. bindE (mapE f xs) (\<lambda>ys. Inr (y # ys)))"

lemma mapE_Inr: "mapE f xs = Inr ys \<longleftrightarrow> list_all2 (\<lambda>x y. f x = Inr y) xs ys"
  by (induction xs arbitrary: ys) (auto simp: bindE_eq_Inr list_all2_Cons1)

section \<open>Lists\<close>

lemma find_Some_D: "find P xs = Some x \<Longrightarrow> x \<in> set xs \<and> P x"
  by (auto simp: find_Some_iff)

lemma find_append: "find P (xs @ ys) = (case find P xs of None \<Rightarrow> find P ys | Some x \<Rightarrow> Some x)"
  by (induction xs) auto

lemma find_None_I: "(\<And>x. x \<in> set xs \<Longrightarrow> \<not> P x) \<Longrightarrow> find P xs = None"
  by (simp add: find_None_iff)

lemma find_map: "find P (map f xs) = map_option f (find (P \<circ> f) xs)"
  by (induction xs) auto

lemma distinct_map_inj: "distinct (map f xs) \<Longrightarrow> x \<in> set xs \<Longrightarrow> y \<in> set xs \<Longrightarrow> f x = f y \<Longrightarrow> x = y"
  by (induction xs) (auto simp: rev_image_eqI)

lemma ex_unique:
  "g \<in> S \<Longrightarrow> P g \<Longrightarrow> (\<And>h. h \<in> S \<Longrightarrow> P h \<Longrightarrow> h = g) \<Longrightarrow> (\<exists>h\<in>S. P h \<and> Q h) \<longleftrightarrow> Q g"
  by blast

text \<open>A property of the accumulator kept by every step of a left fold.\<close>

lemma foldl_invariant:
  assumes "P s" and "\<And>s x. x \<in> set xs \<Longrightarrow> P s \<Longrightarrow> P (f s x)"
  shows "P (foldl f s xs)"
  using assms by (induction xs arbitrary: s) auto

lemma fold_invariant':
  assumes "P s" and "\<And>s x. x \<in> set xs \<Longrightarrow> P s \<Longrightarrow> P (f x s)"
  shows "P (fold f xs s)"
  using assms by (induction xs arbitrary: s) auto

end
