(* ===== verification/Tables.thy ===== *)
theory Tables
  imports Tillit_Prelude
begin

text \<open>
  SQL tables as lists of rows in insertion order, with the four statements the
  program issues: an insert that an existing key turns into a no-op
  (\<open>ON CONFLICT DO NOTHING\<close>), an upsert, a delete and a lookup by key.  Two
  interfaces say what the rest of the program relies on: a write-once table never
  changes a row it has, an upsert table returns the last row written.  Both are
  interpreted on every table of the client and the server.
\<close>

section \<open>Statements\<close>

definition rowByKey :: "('r \<Rightarrow> 'k) \<Rightarrow> 'k \<Rightarrow> 'r list \<Rightarrow> 'r option" where
  "rowByKey key k rows = find (\<lambda>x. key x = k) rows"

definition insertIgnore :: "('r \<Rightarrow> 'k) \<Rightarrow> 'r \<Rightarrow> 'r list \<Rightarrow> 'r list" where
  "insertIgnore key r rows = (if list_ex (\<lambda>x. key x = key r) rows then rows else rows @ [r])"

text \<open>\<open>merge old new\<close> is the row the conflict clause leaves.\<close>

definition upsertRow :: "('r \<Rightarrow> 'k) \<Rightarrow> ('r \<Rightarrow> 'r \<Rightarrow> 'r) \<Rightarrow> 'r \<Rightarrow> 'r list \<Rightarrow> 'r list" where
  "upsertRow key merge r rows =
     (if list_ex (\<lambda>x. key x = key r) rows
      then map (\<lambda>x. if key x = key r then merge x r else x) rows
      else rows @ [r])"

definition deleteRows :: "('r \<Rightarrow> 'k) \<Rightarrow> 'k \<Rightarrow> 'r list \<Rightarrow> 'r list" where
  "deleteRows key k rows = filter (\<lambda>x. key x \<noteq> k) rows"

definition keysDistinct :: "('r \<Rightarrow> 'k) \<Rightarrow> 'r list \<Rightarrow> bool" where
  "keysDistinct key rows \<longleftrightarrow> distinct (map key rows)"

section \<open>Their laws\<close>

lemma rowByKey_Some: "rowByKey key k rows = Some r \<Longrightarrow> r \<in> set rows \<and> key r = k"
  unfolding rowByKey_def by (drule find_Some_D) simp

lemma rowByKey_None [table_simps]: "rowByKey key k rows = None \<longleftrightarrow> (\<forall>x\<in>set rows. key x \<noteq> k)"
  by (auto simp: rowByKey_def find_None_iff)

lemma rowByKey_in:
  "keysDistinct key rows \<Longrightarrow> r \<in> set rows \<Longrightarrow> rowByKey key (key r) rows = Some r"
  unfolding rowByKey_def keysDistinct_def
  by (induction rows) (auto simp: rev_image_eqI)

lemma rowByKey_iff:
  "keysDistinct key rows \<Longrightarrow> rowByKey key k rows = Some r \<longleftrightarrow> r \<in> set rows \<and> key r = k"
  using rowByKey_in rowByKey_Some by metis

lemma keysDistinct_insertIgnore [table_simps]:
  "keysDistinct key rows \<Longrightarrow> keysDistinct key (insertIgnore key r rows)"
  by (auto simp: keysDistinct_def insertIgnore_def list_ex_iff)

lemma set_insertIgnore:
  "set (insertIgnore key r rows) = (if \<exists>x\<in>set rows. key x = key r then set rows else insert r (set rows))"
  by (auto simp: insertIgnore_def list_ex_iff)

lemma rows_kept_insertIgnore: "x \<in> set rows \<Longrightarrow> x \<in> set (insertIgnore key r rows)"
  by (simp add: set_insertIgnore)

lemma rowByKey_insertIgnore [table_simps]:
  "rowByKey key k (insertIgnore key r rows) =
     (case rowByKey key k rows of Some x \<Rightarrow> Some x | None \<Rightarrow> if k = key r then Some r else None)"
proof (cases "list_ex (\<lambda>x. key x = key r) rows")
  case True
  then have "rowByKey key (key r) rows \<noteq> None"
    by (auto simp: rowByKey_None list_ex_iff)
  with True show ?thesis
    by (auto simp: insertIgnore_def split: option.split)
next
  case False
  then show ?thesis
    by (auto simp: insertIgnore_def rowByKey_def find_append split: option.split)
qed

lemma keys_upsert_map:
  "(\<And>x. key x = key r \<Longrightarrow> key (merge x r) = key r) \<Longrightarrow>
   map key (map (\<lambda>x. if key x = key r then merge x r else x) rows) = map key rows"
  by (induction rows) auto

lemma keysDistinct_upsertRow:
  assumes "\<And>x. key x = key r \<Longrightarrow> key (merge x r) = key r" and "keysDistinct key rows"
  shows "keysDistinct key (upsertRow key merge r rows)"
proof (cases "list_ex (\<lambda>x. key x = key r) rows")
  case True
  then show ?thesis
    using assms(2) keys_upsert_map[where key = key and merge = merge and r = r, OF assms(1)]
    by (simp only: keysDistinct_def upsertRow_def if_True)
next
  case False
  then show ?thesis
    using assms(2) by (auto simp: keysDistinct_def upsertRow_def list_ex_iff)
qed

lemma rowByKey_upsertRow:
  assumes "\<And>x. key x = key r \<Longrightarrow> key (merge x r) = key r"
  shows "rowByKey key k (upsertRow key merge r rows) =
     (if k = key r
      then Some (case rowByKey key k rows of Some x \<Rightarrow> merge x r | None \<Rightarrow> r)
      else rowByKey key k rows)"
proof (cases "list_ex (\<lambda>x. key x = key r) rows")
  case True
  have mapped: "find (\<lambda>x. key x = k) (map (\<lambda>x. if key x = key r then merge x r else x) rows)
      = map_option (\<lambda>x. if key x = key r then merge x r else x) (find (\<lambda>x. key x = k) rows)"
    by (induction rows) (auto simp: assms)
  show ?thesis
  proof (cases "find (\<lambda>x. key x = k) rows")
    case None
    with True have "k \<noteq> key r" by (auto simp: list_ex_iff find_None_iff)
    with None True mapped show ?thesis by (simp add: upsertRow_def rowByKey_def)
  next
    case (Some x)
    then have "key x = k" using find_Some_D by fastforce
    with Some True mapped show ?thesis by (auto simp: upsertRow_def rowByKey_def)
  qed
next
  case False
  then have "find (\<lambda>x. key x = key r) rows = None"
    by (auto simp: list_ex_iff find_None_iff)
  then show ?thesis
    using False by (auto simp: upsertRow_def rowByKey_def find_append split: option.split)
qed

lemma keysDistinct_deleteRows: "keysDistinct key rows \<Longrightarrow> keysDistinct key (deleteRows key k rows)"
  by (simp add: keysDistinct_def deleteRows_def distinct_map_filter)

lemma rowByKey_deleteRows [table_simps]:
  "rowByKey key k (deleteRows key k' rows) = (if k = k' then None else rowByKey key k rows)"
  by (induction rows) (auto simp: rowByKey_def deleteRows_def)

section \<open>Loading rows twice\<close>

text \<open>A loop over rows that writes each of them can be run again: its second run changes nothing,
  whether a row that is there stays or is replaced.\<close>

lemma insertIgnore_keys: "key ` set (insertIgnore key r rows) = insert (key r) (key ` set rows)"
  by (auto simp: set_insertIgnore intro: image_eqI[OF sym])

lemma insertIgnore_same: "key r \<in> key ` set rows \<Longrightarrow> insertIgnore key r rows = rows"
  by (auto simp: insertIgnore_def list_ex_iff)

lemma fold_insertIgnore_keys: "key ` set (fold (insertIgnore key) xs rows) = key ` set xs \<union> key ` set rows"
  by (induction xs arbitrary: rows) (auto simp: insertIgnore_keys)

lemma fold_insertIgnore_same: "key ` set xs \<subseteq> key ` set rows \<Longrightarrow> fold (insertIgnore key) xs rows = rows"
  by (induction xs) (auto simp: insertIgnore_same)

lemma fold_insertIgnore_twice: "fold (insertIgnore key) xs (fold (insertIgnore key) xs rows) = fold (insertIgnore key) xs rows"
  by (rule fold_insertIgnore_same) (simp add: fold_insertIgnore_keys)

abbreviation replaceRow :: "('r \<Rightarrow> 'k) \<Rightarrow> 'r \<Rightarrow> 'r list \<Rightarrow> 'r list" where
  "replaceRow key \<equiv> upsertRow key (\<lambda>old new. new)"

lemma replaceRow_eq:
  "replaceRow key r rows = (if key r \<in> key ` set rows then map (\<lambda>x. if key x = key r then r else x) rows else rows @ [r])"
  by (auto simp: upsertRow_def list_ex_iff intro: image_eqI[OF sym])

lemma replaceRow_keys: "key ` set (replaceRow key r rows) = insert (key r) (key ` set rows)"
proof -
  have "key ` (\<lambda>x. if key x = key r then r else x) ` A = key ` A" for A
    unfolding image_image by (rule image_cong) auto
  then show ?thesis unfolding replaceRow_eq by auto
qed

lemma replaceRow_again: "key x = key y \<Longrightarrow> replaceRow key y (replaceRow key x rows) = replaceRow key y rows"
  unfolding replaceRow_eq[of key y "replaceRow key x rows"] replaceRow_keys
  by (auto simp: replaceRow_eq image_iff intro!: map_idI)

lemma replaceRow_commute:
  assumes "key x \<noteq> key y" and "key x \<in> key ` set rows \<or> key y \<in> key ` set rows"
  shows "replaceRow key y (replaceRow key x rows) = replaceRow key x (replaceRow key y rows)"
  unfolding replaceRow_eq[of key y "replaceRow key x rows"] replaceRow_eq[of key x "replaceRow key y rows"] replaceRow_keys
  using assms by (auto simp: replaceRow_eq)

lemma fold_replaceRow_keys: "key ` set (fold (replaceRow key) xs rows) = key ` set xs \<union> key ` set rows"
  by (induction xs arbitrary: rows) (auto simp: replaceRow_keys)

lemma fold_replaceRow_late:
  assumes "key x \<notin> key ` set xs" and "key x \<in> key ` set rows \<or> key ` set xs \<subseteq> key ` set rows"
  shows "fold (replaceRow key) xs (replaceRow key x rows) = replaceRow key x (fold (replaceRow key) xs rows)"
  using assms
proof (induction xs arbitrary: rows)
  case (Cons y ys)
  have "replaceRow key y (replaceRow key x rows) = replaceRow key x (replaceRow key y rows)"
    by (rule replaceRow_commute) (use Cons.prems in auto)
  moreover have "fold (replaceRow key) ys (replaceRow key x (replaceRow key y rows))
      = replaceRow key x (fold (replaceRow key) ys (replaceRow key y rows))"
    by (rule Cons.IH) (use Cons.prems in \<open>auto simp: replaceRow_keys\<close>)
  ultimately show ?case by simp
qed simp

lemma fold_replaceRow_over:
  "key x \<in> key ` set xs \<Longrightarrow> key x \<in> key ` set rows \<Longrightarrow>
     fold (replaceRow key) xs (replaceRow key x rows) = fold (replaceRow key) xs rows"
proof (induction xs arbitrary: rows)
  case (Cons y ys)
  show ?case
  proof (cases "key y = key x")
    case True
    then show ?thesis using replaceRow_again[of key x y] by simp
  next
    case False
    then have "replaceRow key y (replaceRow key x rows) = replaceRow key x (replaceRow key y rows)"
      using Cons.prems by (intro replaceRow_commute) auto
    then show ?thesis using Cons False by (simp add: replaceRow_keys)
  qed
qed simp

lemma fold_replaceRow_twice: "fold (replaceRow key) xs (fold (replaceRow key) xs rows) = fold (replaceRow key) xs rows"
proof (induction xs rule: rev_induct)
  case (snoc x xs)
  let ?rows = "fold (replaceRow key) xs rows"
  show ?case
  proof (cases "key x \<in> key ` set xs")
    case True
    then show ?thesis using snoc fold_replaceRow_over[of key x xs ?rows] by (simp add: fold_replaceRow_keys)
  next
    case False
    then show ?thesis using snoc fold_replaceRow_late[of key x xs ?rows] replaceRow_again[of key x x]
      by (simp add: fold_replaceRow_keys)
  qed
qed simp

section \<open>Interfaces\<close>

text \<open>A table whose rows are written once.  \<open>norm\<close> is what storing does to a row
  (timestamps are cut to seconds).\<close>

locale write_once_table =
  fixes key :: "'r \<Rightarrow> 'k" and norm :: "'r \<Rightarrow> 'r"
    and get :: "'t \<Rightarrow> 'k \<Rightarrow> 'r option" and put :: "'t \<Rightarrow> 'r \<Rightarrow> 't"
  assumes get_put: "get (put t r) k =
      (case get t k of Some x \<Rightarrow> Some x | None \<Rightarrow> if k = key r then Some (norm r) else None)"
begin

lemma get_put_kept: "get t k = Some x \<Longrightarrow> get (put t r) k = Some x"
  by (simp add: get_put)

lemma get_put_all_kept: "get t k = Some x \<Longrightarrow> get (foldl put t rs) k = Some x"
  by (induction rs arbitrary: t) (auto simp: get_put)

lemma get_put_same: "get (put t r) (key r) \<noteq> None"
  by (auto simp: get_put split: option.split)

lemma get_put_fresh: "get t (key r) = None \<Longrightarrow> get (put t r) (key r) = Some (norm r)"
  by (simp add: get_put)

text \<open>Saving is idempotent and saves of different keys commute, as far as lookups can tell.\<close>

lemma get_put_twice: "get (put (put t r) r') k = get (put t r) k" if "key r' = key r"
  using that by (auto simp: get_put split: option.split)

lemma get_put_comm:
  "key r \<noteq> key r' \<Longrightarrow> get (put (put t r) r') k = get (put (put t r') r) k"
  by (auto simp: get_put split: option.split)

lemma get_put_all:
  "get (foldl put t rs) k =
     (case get t k of Some x \<Rightarrow> Some x | None \<Rightarrow> map_option norm (find (\<lambda>r. key r = k) rs))"
  by (induction rs arbitrary: t) (auto simp: get_put split: option.splits)

end

text \<open>A table where the last write of a key counts; \<open>stored old r\<close> is the row a write
  of \<open>r\<close> leaves over the one that was there.\<close>

locale upsert_table =
  fixes key :: "'r \<Rightarrow> 'k" and stored :: "'r option \<Rightarrow> 'r \<Rightarrow> 'r"
    and get :: "'t \<Rightarrow> 'k \<Rightarrow> 'r option" and put :: "'t \<Rightarrow> 'r \<Rightarrow> 't"
  assumes get_put: "get (put t r) k = (if k = key r then Some (stored (get t k) r) else get t k)"
begin

lemma get_put_same: "get (put t r) (key r) = Some (stored (get t (key r)) r)"
  by (simp add: get_put)

lemma get_put_other: "k \<noteq> key r \<Longrightarrow> get (put t r) k = get t k"
  by (simp add: get_put)

lemma get_put_comm:
  "key r \<noteq> key r' \<Longrightarrow> get (put (put t r) r') k = get (put (put t r') r) k"
  by (simp add: get_put)

lemma get_put_all_other:
  "\<forall>r\<in>set rs. key r \<noteq> k \<Longrightarrow> get (foldl put t rs) k = get t k"
  by (induction rs arbitrary: t) (auto simp: get_put)

end

end
