(* ===== verification/Go_Strings.thy ===== *)
theory Go_Strings
  imports Tillit_Prelude
begin

text \<open>
  The parts of Go's \<open>strings\<close> and \<open>strconv\<close> packages that the program uses.  A
  Go string is a sequence of bytes, here a HOL \<open>string\<close>; \<open>strings.Compare\<close>
  and \<open><\<close> order strings byte by byte, which is the lexicographic order of
  \<open>List_Lexorder\<close> over the byte order of \<open>Char_ord\<close>.  Where a loop of the program
  ranges over runes, the tests it makes accept ASCII only, and every byte of a
  multi-byte or invalid encoding fails them just as its rune does, so the loops
  are over bytes here.
\<close>

definition byte :: "char \<Rightarrow> nat" where
  "byte c = of_char c"

definition isDigit :: "char \<Rightarrow> bool" where
  "isDigit c \<longleftrightarrow> 48 \<le> byte c \<and> byte c \<le> 57"

definition isLower :: "char \<Rightarrow> bool" where
  "isLower c \<longleftrightarrow> 97 \<le> byte c \<and> byte c \<le> 122"

definition isUpper :: "char \<Rightarrow> bool" where
  "isUpper c \<longleftrightarrow> 65 \<le> byte c \<and> byte c \<le> 90"

definition isAlnum :: "char \<Rightarrow> bool" where
  "isAlnum c \<longleftrightarrow> isDigit c \<or> isLower c \<or> isUpper c"

section \<open>Prefixes, suffixes, searching\<close>

definition hasPrefix :: "string \<Rightarrow> string \<Rightarrow> bool" where
  "hasPrefix s p \<longleftrightarrow> take (length p) s = p"

definition hasSuffix :: "string \<Rightarrow> string \<Rightarrow> bool" where
  "hasSuffix s p \<longleftrightarrow> length p \<le> length s \<and> drop (length s - length p) s = p"

definition trimPrefix :: "string \<Rightarrow> string \<Rightarrow> string" where
  "trimPrefix s p = (if hasPrefix s p then drop (length p) s else s)"

definition trimSuffix :: "string \<Rightarrow> string \<Rightarrow> string" where
  "trimSuffix s p = (if hasSuffix s p then take (length s - length p) s else s)"

text \<open>\<open>strings.Index\<close>: the first position of a substring, \<open>None\<close> for -1.\<close>

fun indexOf :: "string \<Rightarrow> string \<Rightarrow> nat option" where
  "indexOf [] p = (if p = [] then Some 0 else None)"
| "indexOf (x # xs) p = (if hasPrefix (x # xs) p then Some 0 else map_option Suc (indexOf xs p))"

definition contains :: "string \<Rightarrow> string \<Rightarrow> bool" where
  "contains s p \<longleftrightarrow> indexOf s p \<noteq> None"

text \<open>\<open>strings.Cut\<close> at a one-byte separator: before, after, found.\<close>

fun cutChar :: "char \<Rightarrow> string \<Rightarrow> string \<times> string \<times> bool" where
  "cutChar c [] = ([], [], False)"
| "cutChar c (x # xs) = (if x = c then ([], xs, True)
     else (case cutChar c xs of (b, a, f) \<Rightarrow> (x # b, a, f)))"

text \<open>\<open>strings.Split\<close> at a one-byte separator.\<close>

fun splitChar :: "char \<Rightarrow> string \<Rightarrow> string list" where
  "splitChar c [] = [[]]"
| "splitChar c (x # xs) = (if x = c then [] # splitChar c xs
     else (case splitChar c xs of [] \<Rightarrow> [[x]] | y # ys \<Rightarrow> (x # y) # ys))"

text \<open>\<open>strings.Join\<close>.\<close>

fun join :: "string \<Rightarrow> string list \<Rightarrow> string" where
  "join sep [] = []"
| "join sep [x] = x"
| "join sep (x # y # ys) = x @ sep @ join sep (y # ys)"

lemma splitChar_not_Nil [simp]: "splitChar c s \<noteq> []"
  by (cases s) (auto split: list.splits)

lemma join_splitChar: "join [c] (splitChar c s) = s"
proof (induction s)
  case (Cons x s)
  then show ?case
    by (cases "splitChar c s"; cases "tl (splitChar c s)") auto
qed simp

lemma splitChar_no_sep: "seg \<in> set (splitChar c s) \<Longrightarrow> c \<notin> set seg"
proof (induction s arbitrary: seg)
  case (Cons x s)
  then show ?case
    by (cases "splitChar c s") (auto split: if_splits)
qed simp

lemma cutChar_eq:
  "cutChar c s = (takeWhile (\<lambda>x. x \<noteq> c) s, tl (dropWhile (\<lambda>x. x \<noteq> c) s), c \<in> set s)"
  by (induction s) auto

lemma cutChar_append [simp]: "c \<notin> set b \<Longrightarrow> cutChar c (b @ c # a) = (b, a, True)"
  by (induction b) auto

lemma cutChar_absent [simp]: "c \<notin> set s \<Longrightarrow> cutChar c s = (s, [], False)"
  by (induction s) auto

lemma cutChar_found: "cutChar c s = (b, a, True) \<longleftrightarrow> s = b @ c # a \<and> c \<notin> set b"
proof
  assume l: "cutChar c s = (b, a, True)"
  then have "c \<in> set s" using cutChar_absent[of c s] by fastforce
  then obtain b' a' where s: "s = b' @ c # a'" "c \<notin> set b'"
    using split_list_first by metis
  with l show "s = b @ c # a \<and> c \<notin> set b" by simp
qed auto

lemma cutChar_not_found: "cutChar c s = (b, a, False) \<longleftrightarrow> b = s \<and> a = [] \<and> c \<notin> set s"
proof
  assume l: "cutChar c s = (b, a, False)"
  have "c \<notin> set s"
  proof
    assume "c \<in> set s"
    then obtain b' a' where "s = b' @ c # a'" "c \<notin> set b'"
      using split_list_first by metis
    with l show False by simp
  qed
  with l show "b = s \<and> a = [] \<and> c \<notin> set s" by simp
qed auto

lemma join_eq_Nil: "[] \<notin> set xs \<Longrightarrow> join sep xs = [] \<longleftrightarrow> xs = []"
  by (induction sep xs rule: join.induct) auto

lemma splitChar_join:
  "xs \<noteq> [] \<Longrightarrow> \<forall>x\<in>set xs. c \<notin> set x \<Longrightarrow> splitChar c (join [c] xs) = xs"
proof (induction "[c]" xs rule: join.induct)
  case (2 x)
  then show ?case by (induction x) auto
next
  case (3 x y ys)
  have pre: "c \<notin> set x \<Longrightarrow> splitChar c (x @ c # r) = x # splitChar c r" for x r
    by (induction x) auto
  show ?case using 3 pre[of x "join [c] (y # ys)"] by simp
qed simp

lemma splitChar_iff:
  "splitChar c s = xs \<longleftrightarrow> xs \<noteq> [] \<and> s = join [c] xs \<and> (\<forall>x\<in>set xs. c \<notin> set x)"
  using splitChar_join[of xs c] join_splitChar[of c s] splitChar_no_sep[of _ c s] by auto

lemma splitChar_append:
  "splitChar c (a @ c # s) = splitChar c a @ splitChar c s"
proof (induction a)
  case (Cons x a)
  then show ?case by (cases "splitChar c a") auto
qed simp

lemma splitChar_absent [simp]: "c \<notin> set s \<Longrightarrow> splitChar c s = [s]"
  by (induction s) auto

lemma set_join: "set (join sep xs) \<subseteq> set sep \<union> \<Union> (set ` set xs)"
  by (induction sep xs rule: join.induct) auto

section \<open>Spaces\<close>

definition asciiSpace :: "char \<Rightarrow> bool" where
  "asciiSpace c \<longleftrightarrow> (9 \<le> byte c \<and> byte c \<le> 13) \<or> byte c = 32"

text \<open>
  The number of bytes of the white-space rune (\<open>unicode.IsSpace\<close>) a string
  starts with, 0 when it starts with none: the ASCII spaces, U+0085, U+00A0,
  U+1680, U+2000 to U+200A, U+2028, U+2029, U+202F, U+205F and U+3000 in UTF-8.
\<close>

fun spaceLen :: "string \<Rightarrow> nat" where
  "spaceLen [] = 0"
| "spaceLen (c # r) = (if asciiSpace c then 1 else
     (case (byte c, map byte (take 2 r)) of (b0, bs) \<Rightarrow>
       if b0 = 0xC2 \<and> (take 1 bs = [0x85] \<or> take 1 bs = [0xA0]) then 2
       else if b0 = 0xE1 \<and> bs = [0x9A, 0x80] then 3
       else if b0 = 0xE2 \<and> length bs = 2 \<and> bs ! 0 = 0x80
          \<and> ((0x80 \<le> bs ! 1 \<and> bs ! 1 \<le> 0x8A) \<or> bs ! 1 = 0xA8 \<or> bs ! 1 = 0xA9 \<or> bs ! 1 = 0xAF) then 3
       else if b0 = 0xE2 \<and> bs = [0x81, 0x9F] then 3
       else if b0 = 0xE3 \<and> bs = [0x80, 0x80] then 3
       else 0))"

function trimSpaceLeft :: "string \<Rightarrow> string" where
  "trimSpaceLeft s = (if spaceLen s = 0 then s else trimSpaceLeft (drop (spaceLen s) s))"
  by auto
termination
proof (relation "measure length")
  fix s :: string
  assume "spaceLen s \<noteq> 0"
  then show "(drop (spaceLen s) s, s) \<in> measure length"
    by (cases s) auto
qed simp

declare trimSpaceLeft.simps [simp del]

text \<open>The white-space rune a string ends with, in bytes.\<close>

definition spaceLenEnd :: "string \<Rightarrow> nat" where
  "spaceLenEnd s =
     (let n = length s in
      if 1 \<le> n \<and> spaceLen (drop (n - 1) s) = 1 then 1
      else if 2 \<le> n \<and> spaceLen (drop (n - 2) s) = 2 then 2
      else if 3 \<le> n \<and> spaceLen (drop (n - 3) s) = 3 then 3
      else 0)"

function trimSpaceRight :: "string \<Rightarrow> string" where
  "trimSpaceRight s =
     (if spaceLenEnd s = 0 then s else trimSpaceRight (take (length s - spaceLenEnd s) s))"
  by auto
termination
proof (relation "measure length")
  fix s :: string
  assume "spaceLenEnd s \<noteq> 0"
  then have "0 < length s"
    by (auto simp: spaceLenEnd_def Let_def split: if_splits)
  then show "(take (length s - spaceLenEnd s) s, s) \<in> measure length"
    using \<open>spaceLenEnd s \<noteq> 0\<close> by simp
qed simp

declare trimSpaceRight.simps [simp del]

definition trimSpace :: "string \<Rightarrow> string" where
  "trimSpace s = trimSpaceRight (trimSpaceLeft s)"

text \<open>\<open>strings.Fields\<close>: the maximal runs without white space.  \<open>acc\<close> is the
  current run, reversed.\<close>

function fieldsFrom :: "string \<Rightarrow> string \<Rightarrow> string list" where
  "fieldsFrom acc s = (case s of
       [] \<Rightarrow> (if acc = [] then [] else [rev acc])
     | c # r \<Rightarrow> (if spaceLen s = 0 then fieldsFrom (c # acc) r
         else (if acc = [] then [] else [rev acc]) @ fieldsFrom [] (drop (spaceLen s) s)))"
  by auto
termination
  by (relation "measure (\<lambda>(_, s). length s)") auto

declare fieldsFrom.simps [simp del]

definition fields :: "string \<Rightarrow> string list" where
  "fields s = fieldsFrom [] s"

section \<open>Case\<close>

definition lowerByte :: "char \<Rightarrow> char" where
  "lowerByte c = (if isUpper c then char_of (byte c + 32) else c)"

text \<open>
  \<open>strings.ToLower\<close> as far as its result can be ASCII: the ASCII letters, and the
  two code points whose lower case is an ASCII letter (U+0130 and U+212A).  The
  other bytes above 127 are kept; the callers modelled here reject or replace
  every such byte, whichever it is.
\<close>

fun toLower :: "string \<Rightarrow> string" where
  "toLower (a # b # c # r) =
     (if byte a = 0xC4 \<and> byte b = 0xB0 then CHR ''i'' # toLower (c # r)
      else if byte a = 0xE2 \<and> byte b = 0x84 \<and> byte c = 0xAA then CHR ''k'' # toLower r
      else lowerByte a # toLower (b # c # r))"
| "toLower [a, b] = (if byte a = 0xC4 \<and> byte b = 0xB0 then ''i'' else [lowerByte a, lowerByte b])"
| "toLower [a] = [lowerByte a]"
| "toLower [] = []"

section \<open>Integers\<close>

definition digitVal :: "char \<Rightarrow> int" where
  "digitVal c = int (byte c) - 48"

definition decimal :: "string \<Rightarrow> int" where
  "decimal s = foldl (\<lambda>n c. 10 * n + digitVal c) 0 s"

definition maxInt :: int where "maxInt = 2 ^ 63 - 1"

definition minInt :: int where "minInt = - (2 ^ 63)"

text \<open>
  \<open>strconv.Atoi\<close> on a 64-bit platform: the value and whether the error is nil.  A
  syntax error gives 0, a range error the nearest representable value.
\<close>

definition atoi :: "string \<Rightarrow> int \<times> bool" where
  "atoi s =
     (let neg = (s \<noteq> [] \<and> hd s = CHR ''-'');
          ds = (if s \<noteq> [] \<and> (hd s = CHR ''-'' \<or> hd s = CHR ''+'') then tl s else s)
      in if ds = [] \<or> \<not> list_all isDigit ds then (0, False)
         else (let n = (if neg then - decimal ds else decimal ds)
               in if n > maxInt then (maxInt, False)
                  else if n < minInt then (minInt, False)
                  else (n, True)))"

definition atoiVal :: "string \<Rightarrow> int" where "atoiVal s = fst (atoi s)"

definition atoiOk :: "string \<Rightarrow> bool" where "atoiOk s = snd (atoi s)"

lemma atoiOk_Nil [simp]: "\<not> atoiOk []"
  by (simp add: atoiOk_def atoi_def)

lemma atoi_bounds: "minInt \<le> atoiVal s \<and> atoiVal s \<le> maxInt"
  by (auto simp: atoiVal_def atoi_def Let_def minInt_def maxInt_def)

text \<open>The decimal digits of a natural number, \<open>strconv.Itoa\<close> for values of at least 0.\<close>

definition digitChar :: "nat \<Rightarrow> char" where
  "digitChar d = char_of (48 + d)"

fun itoa :: "nat \<Rightarrow> string" where
  "itoa n = (if n < 10 then [digitChar n] else itoa (n div 10) @ [digitChar (n mod 10)])"

declare itoa.simps [simp del]

lemma byte_digitChar: "d < 10 \<Longrightarrow> byte (digitChar d) = 48 + d"
  by (simp add: byte_def digitChar_def)

lemma isDigit_digitChar [simp]: "d < 10 \<Longrightarrow> isDigit (digitChar d)"
  by (simp add: isDigit_def byte_digitChar)

lemma digitVal_digitChar [simp]: "d < 10 \<Longrightarrow> digitVal (digitChar d) = int d"
  by (simp add: digitVal_def byte_digitChar)

lemma digitChar_digitVal: "isDigit c \<Longrightarrow> digitChar (nat (digitVal c)) = c"
  by (simp add: isDigit_def digitVal_def digitChar_def byte_def nat_diff_distrib)

lemma digitVal_range: "isDigit c \<Longrightarrow> 0 \<le> digitVal c \<and> digitVal c < 10"
  by (auto simp: isDigit_def digitVal_def)

lemma decimal_snoc: "decimal (s @ [c]) = 10 * decimal s + digitVal c"
  by (simp add: decimal_def)

lemma decimal_Nil [simp]: "decimal [] = 0"
  by (simp add: decimal_def)

lemma decimal_single [simp]: "decimal [c] = digitVal c"
  by (simp add: decimal_def)

lemma digitChar_0: "digitChar 0 = CHR ''0''"
  by code_simp

lemma decimal_itoa [simp]: "decimal (itoa n) = int n"
proof (induction n rule: itoa.induct)
  case (1 n)
  then show ?case
    by (subst itoa.simps) (auto simp: decimal_snoc zdiv_int zmod_int)
qed

lemma itoa_digits [simp]: "list_all isDigit (itoa n)"
proof (induction n rule: itoa.induct)
  case (1 n)
  then show ?case by (subst itoa.simps) auto
qed

lemma itoa_not_Nil [simp]: "itoa n \<noteq> []"
  by (subst itoa.simps) auto

lemma decimal_nonneg: "list_all isDigit s \<Longrightarrow> 0 \<le> decimal s"
  by (induction s rule: rev_induct) (auto simp: decimal_snoc dest: digitVal_range)

lemma decimal_pos: "list_all isDigit s \<Longrightarrow> s \<noteq> [] \<Longrightarrow> hd s \<noteq> CHR ''0'' \<Longrightarrow> 0 < decimal s"
proof (induction s rule: rev_induct)
  case (snoc c s)
  show ?case
  proof (cases "s = []")
    case True
    with snoc.prems have "digitVal c \<noteq> 0"
      using digitChar_digitVal[of c] by (auto simp: digitChar_0)
    with True snoc.prems digitVal_range[of c] show ?thesis by (simp add: decimal_snoc)
  qed (use snoc digitVal_range[of c] in \<open>auto simp: decimal_snoc\<close>)
qed simp

text \<open>A number without a superfluous leading zero is the one its value prints as.\<close>

lemma itoa_decimal:
  "list_all isDigit s \<Longrightarrow> s \<noteq> [] \<Longrightarrow> \<not> (1 < length s \<and> hd s = CHR ''0'') \<Longrightarrow> itoa (nat (decimal s)) = s"
proof (induction s rule: rev_induct)
  case (snoc c s)
  have c: "0 \<le> digitVal c" "digitVal c < 10" "digitChar (nat (digitVal c)) = c"
    using snoc.prems digitVal_range[of c] digitChar_digitVal[of c] by auto
  show ?case
  proof (cases "s = []")
    case True
    have "nat (decimal (s @ [c])) = nat (digitVal c)" "nat (digitVal c) < 10"
      using True c by (auto simp: decimal_snoc)
    then show ?thesis using True c by (subst itoa.simps) simp
  next
    case False
    then have hd: "hd s \<noteq> CHR ''0''" and ds: "list_all isDigit s"
      using snoc.prems by auto
    have pos: "0 < decimal s" by (rule decimal_pos[OF ds False hd])
    have n: "nat (decimal (s @ [c])) = 10 * nat (decimal s) + nat (digitVal c)"
      using pos c by (simp add: decimal_snoc nat_add_distrib nat_mult_distrib)
    have s: "itoa (nat (decimal s)) = s"
      using snoc.IH[OF ds False] hd by simp
    have "\<not> 10 * nat (decimal s) + nat (digitVal c) < 10" "nat (digitVal c) < 10"
      using pos c by linarith+
    then show ?thesis
      using n s c by (subst itoa.simps) simp
  qed
qed simp

lemma itoa_hd: "1 < length (itoa n) \<Longrightarrow> hd (itoa n) \<noteq> CHR ''0''"
proof (induction n rule: itoa.induct)
  case (1 n)
  show ?case
  proof (cases "n < 10")
    case False
    have "hd (itoa (n div 10)) \<noteq> CHR ''0''"
    proof (cases "n div 10 < 10")
      case True
      then have "itoa (n div 10) = [digitChar (n div 10)]" by (subst itoa.simps) simp
      moreover have "byte (digitChar (n div 10)) \<noteq> byte (CHR ''0'')"
        using True False by (subst byte_digitChar) (auto simp: byte_def)
      ultimately show ?thesis by auto
    next
      case ge: False
      then have "1 < length (itoa (n div 10))" by (subst itoa.simps) (simp add: neq_Nil_conv[symmetric])
      with "1.IH"[OF False] show ?thesis by simp
    qed
    then show ?thesis using False by (subst itoa.simps) simp
  qed (use "1.prems" in \<open>subst (asm) itoa.simps, simp\<close>)
qed

lemma atoi_digits:
  assumes "s \<noteq> []" and "list_all isDigit s" and "decimal s \<le> maxInt"
  shows "atoiOk s" and "atoiVal s = decimal s"
proof -
  have "hd s \<noteq> CHR ''-''" "hd s \<noteq> CHR ''+''"
    using assms(1,2) by (cases s; auto simp: isDigit_def byte_def)+
  then show "atoiOk s" "atoiVal s = decimal s"
    using assms decimal_nonneg[OF assms(2)]
    by (auto simp: atoiOk_def atoiVal_def atoi_def Let_def minInt_def)
qed

lemma atoiOk_unsigned:
  assumes "atoiOk s" and "CHR ''-'' \<notin> set s" and "CHR ''+'' \<notin> set s"
  shows "s \<noteq> [] \<and> list_all isDigit s \<and> decimal s \<le> maxInt \<and> atoiVal s = decimal s"
proof -
  have "s \<noteq> []" using assms(1) by auto
  then have "hd s \<noteq> CHR ''-''" "hd s \<noteq> CHR ''+''"
    using assms(2,3) hd_in_set by fastforce+
  then show ?thesis
    using assms(1) \<open>s \<noteq> []\<close>
    by (auto simp: atoiOk_def atoiVal_def atoi_def Let_def split: if_splits)
qed

end
