(* ===== verification/Models.thy ===== *)
theory Models
  imports Go_Strings
begin

text \<open>
  The data the program signs and stores, \<open>models/\<close>: payloads and their
  validation (\<open>payload.go\<close>), content-addressed signature ids (\<open>signature.go\<close>),
  connections and users (\<open>connection.go\<close>, \<open>user.go\<close>) and authentication tokens
  (\<open>authtoken.go\<close>).  SHA-256, the JSON decoder and the RFC 3339 parser are
  arguments of the definitions that call them.  A point in time is an integer
  number of nanoseconds.
\<close>

section \<open>Payloads\<close>

definition PayloadTypeDecision :: string where "PayloadTypeDecision = ''decision''"
definition PayloadTypeDeltaDecision :: string where "PayloadTypeDeltaDecision = ''delta_decision''"
definition PayloadTypeRevocation :: string where "PayloadTypeRevocation = ''revocation''"
definition PayloadTypeConnection :: string where "PayloadTypeConnection = ''connection''"
definition PayloadTypeConnectionRevocation :: string where
  "PayloadTypeConnectionRevocation = ''connection_revocation''"

definition DecisionAllowed :: string where "DecisionAllowed = ''allowed''"
definition DecisionVetted :: string where "DecisionVetted = ''vetted''"
definition DecisionRejected :: string where "DecisionRejected = ''rejected''"

lemmas payload_consts [simp] =
  PayloadTypeDecision_def PayloadTypeDeltaDecision_def PayloadTypeRevocation_def
  PayloadTypeConnection_def PayloadTypeConnectionRevocation_def
  DecisionAllowed_def DecisionVetted_def DecisionRejected_def

definition validLevels :: "string \<Rightarrow> bool" where
  "validLevels l \<longleftrightarrow> l = DecisionAllowed \<or> l = DecisionVetted \<or> l = DecisionRejected"

record payload =
  pType :: string
  pSigner :: string
  pEcosystem :: string
  pPackageID :: string
  pLevel :: string
  pReason :: string
  pTargetID :: string
  pVersion :: string
  pFromVersion :: string
  pToVersion :: string
  pOtherID :: string
  pPublic :: bool
  pTrust :: bool
  pTrustExtends :: int

text \<open>The zero value of the struct.\<close>

definition emptyPayload :: payload where
  "emptyPayload = \<lparr>pType = [], pSigner = [], pEcosystem = [], pPackageID = [], pLevel = [],
     pReason = [], pTargetID = [], pVersion = [], pFromVersion = [], pToVersion = [],
     pOtherID = [], pPublic = False, pTrust = False, pTrustExtends = 0\<rparr>"

datatype payloadError =
    InvalidPayloadJSON
  | SignerRequired
  | EcosystemRequired
  | PackageRequired
  | VersionRequired
  | FromVersionRequired
  | ToVersionRequired
  | VersionsMustDiffer string
  | LevelInvalid string
  | TargetRequired
  | OtherRequired
  | UnknownPayloadType string

text \<open>\<open>unmarshal\<close> is \<open>json.Unmarshal\<close> into a zero payload.\<close>

definition ParsePayload :: "(string \<Rightarrow> payload option) \<Rightarrow> string \<Rightarrow> payloadError + payload" where
  "ParsePayload unmarshal data =
     (case unmarshal data of None \<Rightarrow> Inl InvalidPayloadJSON | Some p \<Rightarrow> Inr p)"

definition IsRevocation :: "payload \<Rightarrow> bool" where
  "IsRevocation p \<longleftrightarrow> pType p = PayloadTypeRevocation"

definition Validate :: "payload \<Rightarrow> payloadError option" where
  "Validate p =
     (if pSigner p = [] then Some SignerRequired
      else if pType p = PayloadTypeDecision then
        (if pEcosystem p = [] then Some EcosystemRequired
         else if pPackageID p = [] then Some PackageRequired
         else if pVersion p = [] then Some VersionRequired
         else if \<not> validLevels (pLevel p) then Some (LevelInvalid (pLevel p))
         else None)
      else if pType p = PayloadTypeDeltaDecision then
        (if pEcosystem p = [] then Some EcosystemRequired
         else if pPackageID p = [] then Some PackageRequired
         else if pFromVersion p = [] then Some FromVersionRequired
         else if pToVersion p = [] then Some ToVersionRequired
         else if pFromVersion p = pToVersion p then Some (VersionsMustDiffer (pFromVersion p))
         else if \<not> validLevels (pLevel p) then Some (LevelInvalid (pLevel p))
         else None)
      else if pType p = PayloadTypeRevocation then
        (if pTargetID p = [] then Some TargetRequired else None)
      else if pType p = PayloadTypeConnection then
        (if pOtherID p = [] then Some OtherRequired else None)
      else if pType p = PayloadTypeConnectionRevocation then
        (if pTargetID p = [] then Some TargetRequired else None)
      else Some (UnknownPayloadType (pType p)))"

text \<open>The five kinds of payload that may be signed.\<close>

definition decisionOk :: "payload \<Rightarrow> bool" where
  "decisionOk p \<longleftrightarrow> pType p = ''decision'' \<and> pEcosystem p \<noteq> [] \<and> pPackageID p \<noteq> []
     \<and> pVersion p \<noteq> [] \<and> validLevels (pLevel p)"

definition deltaOk :: "payload \<Rightarrow> bool" where
  "deltaOk p \<longleftrightarrow> pType p = ''delta_decision'' \<and> pEcosystem p \<noteq> [] \<and> pPackageID p \<noteq> []
     \<and> pFromVersion p \<noteq> [] \<and> pToVersion p \<noteq> [] \<and> pFromVersion p \<noteq> pToVersion p \<and> validLevels (pLevel p)"

definition connectionOk :: "payload \<Rightarrow> bool" where
  "connectionOk p \<longleftrightarrow> pType p = ''connection'' \<and> pOtherID p \<noteq> []"

definition revocationOk :: "payload \<Rightarrow> bool" where
  "revocationOk p \<longleftrightarrow> (pType p = ''revocation'' \<or> pType p = ''connection_revocation'') \<and> pTargetID p \<noteq> []"

text \<open>Validation accepts exactly the payloads with a signer that are a complete
  decision, a complete delta between two different versions, a connection with a
  target, or a revocation with a target; every other payload gets an error.\<close>

theorem Validate_iff:
  "Validate p = None \<longleftrightarrow>
     pSigner p \<noteq> [] \<and> (decisionOk p \<or> deltaOk p \<or> connectionOk p \<or> revocationOk p)"
  by (simp add: Validate_def decisionOk_def deltaOk_def connectionOk_def revocationOk_def)

section \<open>Encodings\<close>

text \<open>\<open>binary.BigEndian.PutUint64\<close>: the \<open>k\<close> low bytes of a number, most significant first.\<close>

fun bigEndian :: "nat \<Rightarrow> nat \<Rightarrow> string" where
  "bigEndian 0 n = []"
| "bigEndian (Suc k) n = bigEndian k (n div 256) @ [char_of (n mod 256)]"

definition putUint64 :: "nat \<Rightarrow> string" where
  "putUint64 n = bigEndian 8 n"

definition hexDigit :: "nat \<Rightarrow> char" where
  "hexDigit n = (if n < 10 then char_of (48 + n) else char_of (87 + n))"

definition hexEncode :: "string \<Rightarrow> string" where
  "hexEncode s = concat (map (\<lambda>c. [hexDigit (byte c div 16), hexDigit (byte c mod 16)]) s)"

lemma length_bigEndian [simp]: "length (bigEndian k n) = k"
  by (induction k arbitrary: n) auto

lemma bigEndian_inj: "m < 256 ^ k \<Longrightarrow> n < 256 ^ k \<Longrightarrow> bigEndian k m = bigEndian k n \<Longrightarrow> m = n"
proof (induction k arbitrary: m n)
  case (Suc k)
  have "m div 256 < 256 ^ k" "n div 256 < 256 ^ k"
    using Suc.prems(1,2) by (simp_all add: less_mult_imp_div_less mult.commute)
  moreover have "bigEndian k (m div 256) = bigEndian k (n div 256)" "m mod 256 = n mod 256"
    using Suc.prems(3) by (auto dest!: arg_cong[where f = "of_char :: char \<Rightarrow> nat"])
  ultimately have "m div 256 = n div 256" "m mod 256 = n mod 256"
    using Suc.IH by blast+
  then show ?case by (metis div_mult_mod_eq)
qed simp

lemma byte_lt_256: "byte c < 256"
  by (simp add: byte_def)

lemma byte_hexDigit: "n < 16 \<Longrightarrow> byte (hexDigit n) = (if n < 10 then 48 + n else 87 + n)"
  by (simp add: byte_def hexDigit_def)

lemma hexDigit_inj: "m < 16 \<Longrightarrow> n < 16 \<Longrightarrow> hexDigit m = hexDigit n \<Longrightarrow> m = n"
  by (drule arg_cong[where f = byte]) (simp add: byte_hexDigit split: if_splits)

lemma hexEncode_inj: "hexEncode s = hexEncode t \<Longrightarrow> s = t"
proof (induction s arbitrary: t)
  case Nil
  then show ?case by (cases t) (auto simp: hexEncode_def)
next
  case (Cons c s)
  then obtain d t' where t: "t = d # t'" by (cases t) (auto simp: hexEncode_def)
  with Cons.prems have h: "hexDigit (byte c div 16) = hexDigit (byte d div 16)"
      "hexDigit (byte c mod 16) = hexDigit (byte d mod 16)" "hexEncode s = hexEncode t'"
    by (auto simp: hexEncode_def)
  have "byte c div 16 < 16" "byte d div 16 < 16"
    using byte_lt_256[of c] byte_lt_256[of d] by auto
  with h have "byte c div 16 = byte d div 16" "byte c mod 16 = byte d mod 16"
    using hexDigit_inj by auto
  then have "byte c = byte d" by (metis div_mult_mod_eq)
  then have "c = d" by (simp add: byte_def)
  with h(3) Cons.IH t show ?case by simp
qed

section \<open>Signature ids\<close>

text \<open>The bytes that are hashed: payload and signature, each with its length in front.\<close>

definition sigFrame :: "string \<Rightarrow> string \<Rightarrow> string" where
  "sigFrame payload sig = putUint64 (length payload) @ payload @ putUint64 (length sig) @ sig"

definition SignatureID :: "(string \<Rightarrow> string) \<Rightarrow> string \<Rightarrow> string \<Rightarrow> string" where
  "SignatureID sha256 payload sig = hexEncode (sha256 (sigFrame payload sig))"

lemma putUint64_inj: "m < 2 ^ 64 \<Longrightarrow> n < 2 ^ 64 \<Longrightarrow> putUint64 m = putUint64 n \<Longrightarrow> m = n"
  using bigEndian_inj[of m 8 n] by (simp add: putUint64_def)

lemma length_putUint64 [simp]: "length (putUint64 n) = 8"
  by (simp add: putUint64_def)

lemma sigFrame_inj:
  assumes "length p < 2 ^ 64" and "length p' < 2 ^ 64"
    and "sigFrame p s = sigFrame p' s'"
  shows "p = p' \<and> s = s'"
proof -
  have "putUint64 (length p) = putUint64 (length p')"
      and rest: "p @ putUint64 (length s) @ s = p' @ putUint64 (length s') @ s'"
    using assms(3) by (simp_all add: sigFrame_def)
  then have "length p = length p'"
    using putUint64_inj[OF assms(1,2)] by blast
  with rest show ?thesis by simp
qed

text \<open>Signature ids are unambiguous: two different pairs of payload and signature
  get the same id only if SHA-256 maps two different inputs, the framings of
  the pairs, to the same hash.\<close>

theorem SignatureID_unambiguous:
  assumes "length p < 2 ^ 64" and "length p' < 2 ^ 64"
    and "SignatureID sha256 p s = SignatureID sha256 p' s'" and "(p, s) \<noteq> (p', s')"
  shows "sigFrame p s \<noteq> sigFrame p' s' \<and> sha256 (sigFrame p s) = sha256 (sigFrame p' s')"
proof
  show "sha256 (sigFrame p s) = sha256 (sigFrame p' s')"
    by (rule hexEncode_inj[OF assms(3)[unfolded SignatureID_def]])
  show "sigFrame p s \<noteq> sigFrame p' s'"
    using sigFrame_inj[OF assms(1,2), of s s'] assms(4) by blast
qed

lemma SignatureID_unambiguous_witness:
  "sigFrame ''ab'' ''cd'' \<noteq> sigFrame ''abc'' ''d''
   \<and> (\<lambda>x. drop (length x) x) (sigFrame ''ab'' ''cd'') = (\<lambda>x. drop (length x) x) (sigFrame ''abc'' ''d'')"
proof -
  have "SignatureID (\<lambda>x. drop (length x) x) ''ab'' ''cd'' = SignatureID (\<lambda>x. drop (length x) x) ''abc'' ''d''"
    by (simp add: SignatureID_def)
  then show ?thesis
    by (intro SignatureID_unambiguous) simp_all
qed

section \<open>Stored objects\<close>

record signature =
  sgID :: string
  sgSigner :: string
  sgPayload :: string
  sgAlgorithm :: string
  sgSig :: string
  sgUploadedAt :: int
  sgRevoked :: bool
  sgRevokedAt :: "int option"
  sgPublic :: bool

record connection =
  cnID :: string
  cnOwner :: string
  cnOtherID :: string
  cnPublic :: bool
  cnTrust :: bool
  cnTrustExtends :: int
  cnPayload :: string
  cnAlgorithm :: string
  cnSig :: string
  cnCreatedAt :: int
  cnRevoked :: bool
  cnRevokedAt :: "int option"

record user =
  usID :: string
  usUsername :: string
  usPubKey :: string
  usAlgorithm :: string
  usIsAdmin :: bool

definition connection_String :: "connection \<Rightarrow> string" where
  "connection_String c = ''Connection. Owner: '' @ cnOwner c @ '', Other: '' @ cnOtherID c"

definition user_String :: "user \<Rightarrow> string" where
  "user_String u = ''User{ID: '' @ usID u @ '', Username: '' @ usUsername u @ '', Algorithm: '' @ usAlgorithm u @ ''}''"

section \<open>Authentication tokens\<close>

definition second :: int where "second = 1000000000"

text \<open>\<open>t.UTC().Format(time.RFC3339)\<close> followed by \<open>time.Parse\<close>.\<close>

definition cutToSecond :: "int \<Rightarrow> int" where
  "cutToSecond t = t div second * second"

definition AuthTokenType :: string where "AuthTokenType = ''auth''"
definition AuthTokenClockSkew :: int where "AuthTokenClockSkew = 60 * second"
definition MaxAuthTokenLifetime :: int where "MaxAuthTokenLifetime = 5 * 60 * second"

record authToken =
  atType :: string
  atSigner :: string
  atServer :: string
  atIAT :: string
  atEXP :: string

datatype authTokenError =
    WrongTokenType string
  | EmptyTokenSigner
  | WrongServer string string
  | BadIAT
  | BadEXP
  | TokenExpired
  | TokenFromFuture
  | LifetimeTooLong
  | ExpNotAfterIat

text \<open>\<open>t.Sub(u)\<close> saturates at the range of a 64-bit duration.\<close>

definition timeSub :: "int \<Rightarrow> int \<Rightarrow> int" where
  "timeSub t u = max minInt (min maxInt (t - u))"

definition authToken_Validate ::
  "(string \<Rightarrow> int option) \<Rightarrow> int \<Rightarrow> string \<Rightarrow> authToken \<Rightarrow> authTokenError option" where
  "authToken_Validate parseRFC3339 now expectedServer a =
     (if atType a \<noteq> AuthTokenType then Some (WrongTokenType (atType a))
      else if atSigner a = [] then Some EmptyTokenSigner
      else if atServer a \<noteq> expectedServer then Some (WrongServer (atServer a) expectedServer)
      else (case parseRFC3339 (atIAT a) of
        None \<Rightarrow> Some BadIAT
      | Some iat \<Rightarrow> (case parseRFC3339 (atEXP a) of
          None \<Rightarrow> Some BadEXP
        | Some ex \<Rightarrow>
            if now > ex then Some TokenExpired
            else if iat > now + AuthTokenClockSkew then Some TokenFromFuture
            else if timeSub ex iat > MaxAuthTokenLifetime then Some LifetimeTooLong
            else if \<not> ex > iat then Some ExpNotAfterIat
            else None)))"

lemma authToken_Validate_None:
  "authToken_Validate parseRFC3339 now srv a = None \<longleftrightarrow>
     atType a = ''auth'' \<and> atSigner a \<noteq> [] \<and> atServer a = srv
     \<and> (\<exists>iat ex. parseRFC3339 (atIAT a) = Some iat \<and> parseRFC3339 (atEXP a) = Some ex
          \<and> iat - 60 * second \<le> now \<and> now \<le> ex \<and> iat < ex \<and> ex \<le> iat + 300 * second)"
  by (auto simp: authToken_Validate_def AuthTokenType_def timeSub_def MaxAuthTokenLifetime_def
      AuthTokenClockSkew_def second_def minInt_def maxInt_def split: option.splits)

text \<open>The replay window of an authentication token is bounded: any two moments at
  which the same token is accepted, by any servers, lie within six minutes of
  each other (five minutes of life and one of clock skew), and the token names
  the server that accepts it.\<close>

theorem authToken_replay_window:
  assumes "authToken_Validate parseRFC3339 now srv a = None"
    and "authToken_Validate parseRFC3339 later srv' a = None"
  shows "later - now \<le> 360 * second \<and> srv = srv' \<and> atSigner a \<noteq> []"
  using assms by (auto simp: authToken_Validate_None)

lemma authToken_replay_window_witness:
  "360 * second - 0 \<le> 360 * second \<and> ''https://t'' = ''https://t'' \<and> ''alice'' \<noteq> []"
proof -
  define a where "a = \<lparr>atType = ''auth'', atSigner = ''alice'', atServer = ''https://t'',
    atIAT = ''i'', atEXP = ''e''\<rparr>"
  define clock where "clock = (\<lambda>s. if s = ''i'' then Some (60 * second) else Some (360 * second))"
  have "authToken_Validate clock 0 ''https://t'' a = None"
      "authToken_Validate clock (360 * second) ''https://t'' a = None"
    by (simp_all add: authToken_Validate_None a_def clock_def second_def)
  then show ?thesis
    using authToken_replay_window[of clock 0 "''https://t''" a "360 * second" "''https://t''"]
    by (simp add: a_def)
qed

end
