(* ===== verification/Local_Store.thy ===== *)
theory Local_Store
  imports Tables Models
begin

text \<open>
  The client's database, \<open>localstore/\<close>: one record with a list of rows per
  table, and every operation of the package on it.  Timestamps are written in
  RFC 3339 with a resolution of a second, so storing cuts them; reading them back
  always succeeds.  The rows of a query without \<open>ORDER BY\<close> come in insertion
  order, and rows that an \<open>ORDER BY\<close> does not tell apart keep it.  Failures of
  the database itself are not modelled; a missing row is an error value.
\<close>

section \<open>State\<close>

record key =
  kyName :: string
  kyAlgorithm :: string
  kyPubKey :: string
  kyPrivKey :: string

record server =
  svURL :: string
  svAlias :: string
  svUserID :: string
  svLastSyncedAt :: "int option"

record peer =
  peID :: string
  peServerURL :: string
  peTrustDepth :: int
  pePublic :: bool
  peDistrusted :: bool
  peVetoOnly :: bool
  peLastSyncedAt :: "int option"

record cachedSignature =
  csID :: string
  csSigner :: string
  csPayload :: string
  csAlgorithm :: string
  csSig :: string
  csUploadedAt :: int
  csRevoked :: bool
  csRevokedAt :: "int option"
  csFetchedAt :: int

record cachedConnection =
  ccID :: string
  ccSigner :: string
  ccOtherID :: string
  ccPayload :: string
  ccAlgorithm :: string
  ccSig :: string
  ccCreatedAt :: int
  ccRevoked :: bool
  ccRevokedAt :: "int option"
  ccFetchedAt :: int

record cachedUser =
  cuID :: string
  cuUsername :: string
  cuPubKey :: string
  cuAlgorithm :: string
  cuFetchedAt :: int

datatype itemType = ItemConnection | ItemSignature

record pushRow =
  prItemID :: string
  prItemType :: itemType
  prServerURL :: string
  prPushedAt :: int

record store =
  keys :: "key list"
  activeKey :: "string option"
  servers :: "server list"
  peers :: "peer list"
  cachedSignatures :: "cachedSignature list"
  cachedConnections :: "cachedConnection list"
  cachedUsers :: "cachedUser list"
  pushState :: "pushRow list"

definition emptyStore :: store where
  "emptyStore = \<lparr>keys = [], activeKey = None, servers = [], peers = [], cachedSignatures = [],
     cachedConnections = [], cachedUsers = [], pushState = []\<rparr>"

datatype storeError =
    KeyNotFound string
  | NoActiveKey
  | ServerNotFound string
  | PeerNotFound string
  | SignatureNotFound
  | ConnectionNotFound
  | UserNotFound string
  | EmptyLookup
  | NoLookupMatch string
  | AmbiguousLookup string string string

definition orNotFound :: "storeError \<Rightarrow> 'a option \<Rightarrow> storeError + 'a" where
  "orNotFound e r = (case r of None \<Rightarrow> Inl e | Some x \<Rightarrow> Inr x)"

section \<open>Keys and the active key\<close>

definition SaveKey :: "key \<Rightarrow> store \<Rightarrow> store" where
  "SaveKey k s = s\<lparr>keys := upsertRow kyName (\<lambda>old new. new) k (keys s)\<rparr>"

definition GetKey :: "string \<Rightarrow> store \<Rightarrow> storeError + key" where
  "GetKey name s = orNotFound (KeyNotFound name) (rowByKey kyName name (keys s))"

definition ListKeys :: "store \<Rightarrow> key list" where
  "ListKeys s = sort_key kyName (keys s)"

definition DeleteKey :: "string \<Rightarrow> store \<Rightarrow> storeError + store" where
  "DeleteKey name s =
     (if rowByKey kyName name (keys s) = None then Inl (KeyNotFound name)
      else Inr (s\<lparr>keys := deleteRows kyName name (keys s)\<rparr>))"

definition ClearActiveKey :: "store \<Rightarrow> store" where
  "ClearActiveKey s = s\<lparr>activeKey := None\<rparr>"

definition SetActiveKey :: "string \<Rightarrow> store \<Rightarrow> store" where
  "SetActiveKey name s = s\<lparr>activeKey := Some name\<rparr>"

definition GetActiveKey :: "store \<Rightarrow> storeError + string" where
  "GetActiveKey s = orNotFound NoActiveKey (activeKey s)"

section \<open>Servers and peers\<close>

text \<open>An upsert of a server or a peer leaves \<open>last_synced_at\<close> as it was, and a new row
  has none.\<close>

definition SaveServer :: "server \<Rightarrow> store \<Rightarrow> store" where
  "SaveServer srv s = s\<lparr>servers := upsertRow svURL
     (\<lambda>old new. new\<lparr>svLastSyncedAt := svLastSyncedAt old\<rparr>) (srv\<lparr>svLastSyncedAt := None\<rparr>) (servers s)\<rparr>"

definition SetServerLastSyncedAt :: "string \<Rightarrow> int \<Rightarrow> store \<Rightarrow> storeError + store" where
  "SetServerLastSyncedAt url t s =
     (if rowByKey svURL url (servers s) = None then Inl (ServerNotFound url)
      else Inr (s\<lparr>servers := map (\<lambda>v. if svURL v = url then v\<lparr>svLastSyncedAt := Some (cutToSecond t)\<rparr> else v)
             (servers s)\<rparr>))"

definition GetServer :: "string \<Rightarrow> store \<Rightarrow> storeError + server" where
  "GetServer url s = orNotFound (ServerNotFound url) (rowByKey svURL url (servers s))"

definition ListServers :: "store \<Rightarrow> server list" where
  "ListServers s = sort_key svURL (servers s)"

definition SavePeer :: "peer \<Rightarrow> store \<Rightarrow> store" where
  "SavePeer p s = s\<lparr>peers := upsertRow peID
     (\<lambda>old new. new\<lparr>peLastSyncedAt := peLastSyncedAt old\<rparr>) (p\<lparr>peLastSyncedAt := None\<rparr>) (peers s)\<rparr>"

definition SetPeerLastSyncedAt :: "string \<Rightarrow> int \<Rightarrow> store \<Rightarrow> storeError + store" where
  "SetPeerLastSyncedAt i t s =
     (if rowByKey peID i (peers s) = None then Inl (PeerNotFound i)
      else Inr (s\<lparr>peers := map (\<lambda>v. if peID v = i then v\<lparr>peLastSyncedAt := Some (cutToSecond t)\<rparr> else v)
             (peers s)\<rparr>))"

definition GetPeer :: "string \<Rightarrow> store \<Rightarrow> storeError + peer" where
  "GetPeer i s = orNotFound (PeerNotFound i) (rowByKey peID i (peers s))"

definition ListPeers :: "store \<Rightarrow> peer list" where
  "ListPeers s = sort_key peID (peers s)"

definition RemovePeer :: "string \<Rightarrow> store \<Rightarrow> store" where
  "RemovePeer i s = s\<lparr>peers := deleteRows peID i (peers s)\<rparr>"

section \<open>Payload decoding\<close>

text \<open>
  The three shapes the program decodes a stored payload into: the whole
  \<open>models.Payload\<close>, the pair of \<open>type\<close> and \<open>target_id\<close>, and \<open>type\<close> alone.
  \<open>None\<close> is an error of \<open>json.Unmarshal\<close>.  Decoding into fewer fields fails
  less often and gives the same values: \<open>codec_ok\<close>.
\<close>

record codec =
  decPayload :: "string \<Rightarrow> payload option"
  decRef :: "string \<Rightarrow> (string \<times> string) option"
  decType :: "string \<Rightarrow> string option"

definition codec_ok :: "codec \<Rightarrow> bool" where
  "codec_ok c \<longleftrightarrow>
     (\<forall>s p. decPayload c s = Some p \<longrightarrow> decRef c s = Some (pType p, pTargetID p))
     \<and> (\<forall>s t i. decRef c s = Some (t, i) \<longrightarrow> decType c s = Some t)"

section \<open>Cached signatures\<close>

definition storedSignature :: "cachedSignature \<Rightarrow> cachedSignature" where
  "storedSignature g = g\<lparr>csUploadedAt := cutToSecond (csUploadedAt g),
     csRevokedAt := map_option cutToSecond (csRevokedAt g), csFetchedAt := cutToSecond (csFetchedAt g)\<rparr>"

definition SaveCachedSignature :: "cachedSignature \<Rightarrow> store \<Rightarrow> store" where
  "SaveCachedSignature g s =
     s\<lparr>cachedSignatures := insertIgnore csID (storedSignature g) (cachedSignatures s)\<rparr>"

definition GetCachedSignature :: "string \<Rightarrow> store \<Rightarrow> storeError + cachedSignature" where
  "GetCachedSignature i s = orNotFound SignatureNotFound (rowByKey csID i (cachedSignatures s))"

definition ListAllCachedSignatures :: "store \<Rightarrow> cachedSignature list" where
  "ListAllCachedSignatures s = sort_key csUploadedAt (cachedSignatures s)"

definition GetCachedSignaturesBySigner :: "string \<Rightarrow> store \<Rightarrow> cachedSignature list" where
  "GetCachedSignaturesBySigner signer s =
     sort_key csUploadedAt (filter (\<lambda>g. csSigner g = signer) (cachedSignatures s))"

definition DeleteCachedSignature :: "string \<Rightarrow> store \<Rightarrow> storeError + store" where
  "DeleteCachedSignature i s =
     (if rowByKey csID i (cachedSignatures s) = None then Inl SignatureNotFound
      else Inr (s\<lparr>cachedSignatures := deleteRows csID i (cachedSignatures s)\<rparr>))"

definition isRevocationFor :: "codec \<Rightarrow> string \<Rightarrow> string \<Rightarrow> bool" where
  "isRevocationFor c payload targetID \<longleftrightarrow> decRef c payload = Some (''revocation'', targetID)"

definition IsCachedSignatureRevoked ::
  "codec \<Rightarrow> string \<Rightarrow> store \<Rightarrow> storeError + (bool \<times> int option)" where
  "IsCachedSignatureRevoked c i s = bindE (GetCachedSignature i s) (\<lambda>target.
     case find (\<lambda>cand. csID cand \<noteq> i \<and> isRevocationFor c (csPayload cand) i)
        (GetCachedSignaturesBySigner (csSigner target) s) of
       Some cand \<Rightarrow> Inr (True, Some (csUploadedAt cand))
     | None \<Rightarrow> Inr (False, None))"

text \<open>SQLite's \<open>LIKE\<close> on ASCII ids: \<open>%\<close> is any sequence, \<open>_\<close> any character, and
  letters match in either case.\<close>

fun likeMatch :: "string \<Rightarrow> string \<Rightarrow> bool" where
  "likeMatch [] [] = True"
| "likeMatch [] (x # xs) = False"
| "likeMatch (p # ps) [] = (p = CHR ''%'' \<and> likeMatch ps [])"
| "likeMatch (p # ps) (x # xs) =
     (if p = CHR ''%'' then likeMatch ps (x # xs) \<or> likeMatch (p # ps) xs
      else (p = CHR ''_'' \<or> lowerByte p = lowerByte x) \<and> likeMatch ps xs)"

definition LookupCachedSignature :: "string \<Rightarrow> store \<Rightarrow> storeError + cachedSignature" where
  "LookupCachedSignature q s =
     (if q = [] then Inl EmptyLookup
      else case GetCachedSignature q s of
        Inr g \<Rightarrow> Inr g
      | Inl _ \<Rightarrow>
         (case take 2 (filter (\<lambda>g. likeMatch (q @ ''%'') (csID g)) (cachedSignatures s)) of
            [] \<Rightarrow> Inl (NoLookupMatch q)
          | [g] \<Rightarrow> Inr g
          | g # h # _ \<Rightarrow> Inl (AmbiguousLookup q (csID g) (csID h))))"

section \<open>Cached connections\<close>

definition storedConnection :: "cachedConnection \<Rightarrow> cachedConnection" where
  "storedConnection n = n\<lparr>ccCreatedAt := cutToSecond (ccCreatedAt n),
     ccRevokedAt := map_option cutToSecond (ccRevokedAt n), ccFetchedAt := cutToSecond (ccFetchedAt n)\<rparr>"

definition SaveCachedConnection :: "cachedConnection \<Rightarrow> store \<Rightarrow> store" where
  "SaveCachedConnection n s =
     s\<lparr>cachedConnections := insertIgnore ccID (storedConnection n) (cachedConnections s)\<rparr>"

definition GetCachedConnection :: "string \<Rightarrow> store \<Rightarrow> storeError + cachedConnection" where
  "GetCachedConnection i s = orNotFound ConnectionNotFound (rowByKey ccID i (cachedConnections s))"

definition ListAllCachedConnections :: "store \<Rightarrow> cachedConnection list" where
  "ListAllCachedConnections s = sort_key ccCreatedAt (cachedConnections s)"

definition GetCachedConnectionsBySigner :: "string \<Rightarrow> store \<Rightarrow> cachedConnection list" where
  "GetCachedConnectionsBySigner signer s =
     sort_key ccCreatedAt (filter (\<lambda>n. ccSigner n = signer) (cachedConnections s))"

definition DeleteCachedConnection :: "string \<Rightarrow> store \<Rightarrow> storeError + store" where
  "DeleteCachedConnection i s =
     (if rowByKey ccID i (cachedConnections s) = None then Inl ConnectionNotFound
      else Inr (s\<lparr>cachedConnections := deleteRows ccID i (cachedConnections s)\<rparr>))"

definition isConnectionRevocationFor :: "codec \<Rightarrow> string \<Rightarrow> string \<Rightarrow> bool" where
  "isConnectionRevocationFor c payload targetID \<longleftrightarrow>
     decRef c payload = Some (''connection_revocation'', targetID)"

definition IsCachedConnectionRevoked ::
  "codec \<Rightarrow> string \<Rightarrow> store \<Rightarrow> storeError + (bool \<times> int option)" where
  "IsCachedConnectionRevoked c i s = bindE (GetCachedConnection i s) (\<lambda>target.
     case find (\<lambda>cand. ccID cand \<noteq> i \<and> isConnectionRevocationFor c (ccPayload cand) i)
        (GetCachedConnectionsBySigner (ccSigner target) s) of
       Some cand \<Rightarrow> Inr (True, Some (ccCreatedAt cand))
     | None \<Rightarrow> Inr (False, None))"

text \<open>The ids that some row of the list revokes.\<close>

definition revokedConnectionIDs :: "codec \<Rightarrow> cachedConnection list \<Rightarrow> string set" where
  "revokedConnectionIDs c conns =
     set (concat (map (\<lambda>n. case decRef c (ccPayload n) of
         Some (t, i) \<Rightarrow> if t = ''connection_revocation'' \<and> i \<noteq> [] then [i] else []
       | None \<Rightarrow> []) conns))"

text \<open>One turn of the loop that keeps the most recent candidate.\<close>

definition betterConnection ::
  "codec \<Rightarrow> string set \<Rightarrow> string \<Rightarrow> cachedConnection option \<Rightarrow> cachedConnection \<Rightarrow> cachedConnection option" where
  "betterConnection c revoked other best n =
     (if ccOtherID n \<noteq> other then best
      else if ccID n \<in> revoked then best
      else if decType c (ccPayload n) \<noteq> Some ''connection'' then best
      else (case best of
         None \<Rightarrow> Some n
       | Some b \<Rightarrow> if ccCreatedAt n > ccCreatedAt b then Some n else best))"

definition GetActiveConnection :: "codec \<Rightarrow> string \<Rightarrow> string \<Rightarrow> store \<Rightarrow> cachedConnection option" where
  "GetActiveConnection c signer other s =
     (let conns = GetCachedConnectionsBySigner signer s;
          revoked = revokedConnectionIDs c conns
      in foldl (betterConnection c revoked other) None conns)"

section \<open>Cached users\<close>

definition SaveCachedUser :: "cachedUser \<Rightarrow> store \<Rightarrow> store" where
  "SaveCachedUser u s = s\<lparr>cachedUsers :=
     upsertRow cuID (\<lambda>old new. new) (u\<lparr>cuFetchedAt := cutToSecond (cuFetchedAt u)\<rparr>) (cachedUsers s)\<rparr>"

definition ListCachedUsers :: "store \<Rightarrow> cachedUser list" where
  "ListCachedUsers s = cachedUsers s"

definition DeleteCachedUser :: "string \<Rightarrow> store \<Rightarrow> storeError + store" where
  "DeleteCachedUser i s =
     (if rowByKey cuID i (cachedUsers s) = None then Inl (UserNotFound i)
      else Inr (s\<lparr>cachedUsers := deleteRows cuID i (cachedUsers s)\<rparr>))"

definition GetCachedUser :: "string \<Rightarrow> store \<Rightarrow> storeError + cachedUser" where
  "GetCachedUser i s = orNotFound (UserNotFound i) (rowByKey cuID i (cachedUsers s))"

section \<open>Push state\<close>

definition pushKey :: "pushRow \<Rightarrow> string \<times> itemType \<times> string" where
  "pushKey r = (prItemID r, prItemType r, prServerURL r)"

definition RecordPush :: "string \<Rightarrow> itemType \<Rightarrow> string \<Rightarrow> int \<Rightarrow> store \<Rightarrow> store" where
  "RecordPush itemID itemType serverURL at s = s\<lparr>pushState := upsertRow pushKey (\<lambda>old new. new)
     \<lparr>prItemID = itemID, prItemType = itemType, prServerURL = serverURL, prPushedAt = cutToSecond at\<rparr>
     (pushState s)\<rparr>"

definition HasBeenPushed :: "string \<Rightarrow> itemType \<Rightarrow> store \<Rightarrow> bool" where
  "HasBeenPushed itemID itemType s \<longleftrightarrow>
     length (filter (\<lambda>r. prItemID r = itemID \<and> prItemType r = itemType) (pushState s)) > 0"

definition ListAllPushState :: "store \<Rightarrow> pushRow list" where
  "ListAllPushState s = pushState s"

definition IsPushed :: "string \<Rightarrow> itemType \<Rightarrow> string \<Rightarrow> store \<Rightarrow> bool" where
  "IsPushed itemID itemType serverURL s \<longleftrightarrow>
     length (filter (\<lambda>r. prItemID r = itemID \<and> prItemType r = itemType \<and> prServerURL r = serverURL)
       (pushState s)) > 0"

section \<open>The tables meet their interfaces\<close>

lemma orNotFound_eq [simp]:
  "orNotFound e r = Inr x \<longleftrightarrow> r = Some x" "orNotFound e r = Inl e' \<longleftrightarrow> r = None \<and> e' = e"
  by (auto simp: orNotFound_def split: option.splits)

lemma stored_ids [simp]:
  "csID (storedSignature g) = csID g" "csSigner (storedSignature g) = csSigner g"
  "csPayload (storedSignature g) = csPayload g"
  "ccID (storedConnection n) = ccID n" "ccSigner (storedConnection n) = ccSigner n"
  "ccOtherID (storedConnection n) = ccOtherID n" "ccPayload (storedConnection n) = ccPayload n"
  by (simp_all add: storedSignature_def storedConnection_def)

interpretation cachedSigs: write_once_table csID storedSignature
    "\<lambda>s i. rowByKey csID i (cachedSignatures s)" "\<lambda>s g. SaveCachedSignature g s"
  by unfold_locales (simp add: SaveCachedSignature_def rowByKey_insertIgnore)

interpretation cachedConns: write_once_table ccID storedConnection
    "\<lambda>s i. rowByKey ccID i (cachedConnections s)" "\<lambda>s n. SaveCachedConnection n s"
  by unfold_locales (simp add: SaveCachedConnection_def rowByKey_insertIgnore)

interpretation keyTable: upsert_table kyName "\<lambda>_ k. k"
    "\<lambda>s i. rowByKey kyName i (keys s)" "\<lambda>s k. SaveKey k s"
  by unfold_locales (simp add: SaveKey_def rowByKey_upsertRow split: option.split)

interpretation userTable: upsert_table cuID "\<lambda>_ u. u\<lparr>cuFetchedAt := cutToSecond (cuFetchedAt u)\<rparr>"
    "\<lambda>s i. rowByKey cuID i (cachedUsers s)" "\<lambda>s u. SaveCachedUser u s"
  by unfold_locales (simp add: SaveCachedUser_def rowByKey_upsertRow split: option.split)

interpretation serverTable: upsert_table svURL
    "\<lambda>old v. v\<lparr>svLastSyncedAt := Option.bind old svLastSyncedAt\<rparr>"
    "\<lambda>s i. rowByKey svURL i (servers s)" "\<lambda>s v. SaveServer v s"
  by unfold_locales (simp add: SaveServer_def rowByKey_upsertRow split: option.split)

interpretation peerTable: upsert_table peID
    "\<lambda>old p. p\<lparr>peLastSyncedAt := Option.bind old peLastSyncedAt\<rparr>"
    "\<lambda>s i. rowByKey peID i (peers s)" "\<lambda>s p. SavePeer p s"
  by unfold_locales (simp add: SavePeer_def rowByKey_upsertRow split: option.split)

section \<open>Sequences of operations\<close>

text \<open>Every operation that changes the store; one that fails leaves it as it is.\<close>

datatype storeOp =
    OpSaveKey key | OpDeleteKey string | OpClearActiveKey | OpSetActiveKey string
  | OpSaveServer server | OpSetServerSynced string int
  | OpSavePeer peer | OpSetPeerSynced string int | OpRemovePeer string
  | OpSaveSignature cachedSignature | OpDeleteSignature string
  | OpSaveConnection cachedConnection | OpDeleteConnection string
  | OpSaveUser cachedUser | OpDeleteUser string
  | OpRecordPush string itemType string int

definition orUnchanged :: "store \<Rightarrow> storeError + store \<Rightarrow> store" where
  "orUnchanged s r = (case r of Inl _ \<Rightarrow> s | Inr s' \<Rightarrow> s')"

fun runOp :: "storeOp \<Rightarrow> store \<Rightarrow> store" where
  "runOp (OpSaveKey k) s = SaveKey k s"
| "runOp (OpDeleteKey n) s = orUnchanged s (DeleteKey n s)"
| "runOp OpClearActiveKey s = ClearActiveKey s"
| "runOp (OpSetActiveKey n) s = SetActiveKey n s"
| "runOp (OpSaveServer v) s = SaveServer v s"
| "runOp (OpSetServerSynced u t) s = orUnchanged s (SetServerLastSyncedAt u t s)"
| "runOp (OpSavePeer p) s = SavePeer p s"
| "runOp (OpSetPeerSynced i t) s = orUnchanged s (SetPeerLastSyncedAt i t s)"
| "runOp (OpRemovePeer i) s = RemovePeer i s"
| "runOp (OpSaveSignature g) s = SaveCachedSignature g s"
| "runOp (OpDeleteSignature i) s = orUnchanged s (DeleteCachedSignature i s)"
| "runOp (OpSaveConnection n) s = SaveCachedConnection n s"
| "runOp (OpDeleteConnection i) s = orUnchanged s (DeleteCachedConnection i s)"
| "runOp (OpSaveUser u) s = SaveCachedUser u s"
| "runOp (OpDeleteUser i) s = orUnchanged s (DeleteCachedUser i s)"
| "runOp (OpRecordPush i ty u t) s = RecordPush i ty u t s"

definition runOps :: "storeOp list \<Rightarrow> store \<Rightarrow> store" where
  "runOps ops s = foldl (\<lambda>s op. runOp op s) s ops"

lemma runOps_simps [simp]: "runOps [] s = s" "runOps (op # ops) s = runOps ops (runOp op s)"
  by (simp_all add: runOps_def)

definition store_wf :: "store \<Rightarrow> bool" where
  "store_wf s \<longleftrightarrow> keysDistinct kyName (keys s) \<and> keysDistinct svURL (servers s)
     \<and> keysDistinct peID (peers s) \<and> keysDistinct csID (cachedSignatures s)
     \<and> keysDistinct ccID (cachedConnections s) \<and> keysDistinct cuID (cachedUsers s)
     \<and> keysDistinct pushKey (pushState s)"

lemmas storeOp_defs =
  SaveKey_def DeleteKey_def ClearActiveKey_def SetActiveKey_def SaveServer_def
  SetServerLastSyncedAt_def SavePeer_def SetPeerLastSyncedAt_def RemovePeer_def
  SaveCachedSignature_def DeleteCachedSignature_def SaveCachedConnection_def
  DeleteCachedConnection_def SaveCachedUser_def DeleteCachedUser_def RecordPush_def

lemma keysDistinct_touch:
  "(\<And>x. key (f x) = key x) \<Longrightarrow> keysDistinct key (map f rows) = keysDistinct key rows"
  by (simp add: keysDistinct_def comp_def)

lemma store_wf_empty: "store_wf emptyStore"
  by (simp add: store_wf_def emptyStore_def keysDistinct_def)

lemma store_wf_runOp: "store_wf s \<Longrightarrow> store_wf (runOp op s)"
  by (cases op) (auto simp: store_wf_def storeOp_defs orUnchanged_def keysDistinct_upsertRow
      keysDistinct_insertIgnore keysDistinct_deleteRows keysDistinct_touch)

lemma store_wf_runOps: "store_wf s \<Longrightarrow> store_wf (runOps ops s)"
  by (induction ops arbitrary: s) (auto simp: store_wf_runOp)

section \<open>Nothing but a delete loses a signed row\<close>

fun deletesSignature :: "storeOp \<Rightarrow> bool" where
  "deletesSignature (OpDeleteSignature _) = True"
| "deletesSignature _ = False"

fun deletesConnection :: "storeOp \<Rightarrow> bool" where
  "deletesConnection (OpDeleteConnection _) = True"
| "deletesConnection _ = False"

lemma signatures_kept_runOp:
  "\<not> deletesSignature op \<Longrightarrow> set (cachedSignatures s) \<subseteq> set (cachedSignatures (runOp op s))"
  by (cases op) (auto simp: storeOp_defs orUnchanged_def rows_kept_insertIgnore)

lemma connections_kept_runOp:
  "\<not> deletesConnection op \<Longrightarrow> set (cachedConnections s) \<subseteq> set (cachedConnections (runOp op s))"
  by (cases op) (auto simp: storeOp_defs orUnchanged_def rows_kept_insertIgnore)

lemma signatures_kept:
  "list_all (\<lambda>op. \<not> deletesSignature op) ops \<Longrightarrow>
     set (cachedSignatures s) \<subseteq> set (cachedSignatures (runOps ops s))"
  by (induction ops arbitrary: s) (auto dest: signatures_kept_runOp)

lemma connections_kept:
  "list_all (\<lambda>op. \<not> deletesConnection op) ops \<Longrightarrow>
     set (cachedConnections s) \<subseteq> set (cachedConnections (runOps ops s))"
  by (induction ops arbitrary: s) (auto dest: connections_kept_runOp)

lemma GetCachedSignature_iff:
  "store_wf s \<Longrightarrow> GetCachedSignature i s = Inr g \<longleftrightarrow> g \<in> set (cachedSignatures s) \<and> csID g = i"
  by (simp add: GetCachedSignature_def store_wf_def rowByKey_iff)

lemma GetCachedConnection_iff:
  "store_wf s \<Longrightarrow> GetCachedConnection i s = Inr n \<longleftrightarrow> n \<in> set (cachedConnections s) \<and> ccID n = i"
  by (simp add: GetCachedConnection_def store_wf_def rowByKey_iff)

text \<open>A row is revoked when some other row of its signer is a revocation that names it.\<close>

lemma signature_revoked_iff:
  assumes "store_wf s"
  shows "(\<exists>t. IsCachedSignatureRevoked c i s = Inr (True, t)) \<longleftrightarrow>
    (\<exists>g\<in>set (cachedSignatures s). csID g = i \<and>
       (\<exists>r\<in>set (cachedSignatures s). csSigner r = csSigner g \<and> csID r \<noteq> i
          \<and> decRef c (csPayload r) = Some (''revocation'', i)))"
proof (cases "GetCachedSignature i s")
  case (Inl e)
  then have "\<not> (\<exists>g\<in>set (cachedSignatures s). csID g = i)"
    by (auto simp: GetCachedSignature_def rowByKey_None)
  with Inl show ?thesis by (auto simp: IsCachedSignatureRevoked_def)
next
  case (Inr g)
  let ?P = "\<lambda>r. csID r \<noteq> i \<and> isRevocationFor c (csPayload r) i"
  have g: "g \<in> set (cachedSignatures s)" "csID g = i"
    using Inr GetCachedSignature_iff[OF assms] by auto
  have uniq: "h = g" if "h \<in> set (cachedSignatures s)" "csID h = i" for h
    using that Inr GetCachedSignature_iff[OF assms, of i h] by auto
  have "(\<exists>t. IsCachedSignatureRevoked c i s = Inr (True, t)) \<longleftrightarrow>
      find ?P (GetCachedSignaturesBySigner (csSigner g) s) \<noteq> None"
    by (auto simp: IsCachedSignatureRevoked_def Inr split: option.splits)
  also have "\<dots> \<longleftrightarrow> (\<exists>r\<in>set (cachedSignatures s). csSigner r = csSigner g \<and> ?P r)"
    by (auto simp: find_None_iff GetCachedSignaturesBySigner_def)
  also have "\<dots> \<longleftrightarrow> (\<exists>h\<in>set (cachedSignatures s). csID h = i \<and>
      (\<exists>r\<in>set (cachedSignatures s). csSigner r = csSigner h \<and> ?P r))"
    by (rule ex_unique[symmetric, where P = "\<lambda>h. csID h = i", OF g uniq])
  finally show ?thesis
    by (simp add: isRevocationFor_def)
qed

lemma connection_revoked_iff:
  assumes "store_wf s"
  shows "(\<exists>t. IsCachedConnectionRevoked c i s = Inr (True, t)) \<longleftrightarrow>
    (\<exists>g\<in>set (cachedConnections s). ccID g = i \<and>
       (\<exists>r\<in>set (cachedConnections s). ccSigner r = ccSigner g \<and> ccID r \<noteq> i
          \<and> decRef c (ccPayload r) = Some (''connection_revocation'', i)))"
proof (cases "GetCachedConnection i s")
  case (Inl e)
  then have "\<not> (\<exists>g\<in>set (cachedConnections s). ccID g = i)"
    by (auto simp: GetCachedConnection_def rowByKey_None)
  with Inl show ?thesis by (auto simp: IsCachedConnectionRevoked_def)
next
  case (Inr g)
  let ?P = "\<lambda>r. ccID r \<noteq> i \<and> isConnectionRevocationFor c (ccPayload r) i"
  have g: "g \<in> set (cachedConnections s)" "ccID g = i"
    using Inr GetCachedConnection_iff[OF assms] by auto
  have uniq: "h = g" if "h \<in> set (cachedConnections s)" "ccID h = i" for h
    using that Inr GetCachedConnection_iff[OF assms, of i h] by auto
  have "(\<exists>t. IsCachedConnectionRevoked c i s = Inr (True, t)) \<longleftrightarrow>
      find ?P (GetCachedConnectionsBySigner (ccSigner g) s) \<noteq> None"
    by (auto simp: IsCachedConnectionRevoked_def Inr split: option.splits)
  also have "\<dots> \<longleftrightarrow> (\<exists>r\<in>set (cachedConnections s). ccSigner r = ccSigner g \<and> ?P r)"
    by (auto simp: find_None_iff GetCachedConnectionsBySigner_def)
  also have "\<dots> \<longleftrightarrow> (\<exists>h\<in>set (cachedConnections s). ccID h = i \<and>
      (\<exists>r\<in>set (cachedConnections s). ccSigner r = ccSigner h \<and> ?P r))"
    by (rule ex_unique[symmetric, where P = "\<lambda>h. ccID h = i", OF g uniq])
  finally show ?thesis
    by (simp add: isConnectionRevocationFor_def)
qed

text \<open>Whatever the client does to its store afterwards, short of deleting the row, a
  cached signature can be read back as it was first written, and a signature that is
  revoked stays revoked: nothing a server or a peer sends can overwrite a
  signed row or undo a revocation.\<close>

theorem cached_signatures_permanent:
  assumes "store_wf s" and "list_all (\<lambda>op. \<not> deletesSignature op) ops"
    and "GetCachedSignature i s = Inr g"
  shows "GetCachedSignature i (runOps ops s) = Inr g
    \<and> ((\<exists>t. IsCachedSignatureRevoked c i s = Inr (True, t)) \<longrightarrow>
       (\<exists>t. IsCachedSignatureRevoked c i (runOps ops s) = Inr (True, t)))"
proof -
  have kept: "set (cachedSignatures s) \<subseteq> set (cachedSignatures (runOps ops s))"
    by (rule signatures_kept[OF assms(2)])
  have wf: "store_wf (runOps ops s)"
    by (rule store_wf_runOps[OF assms(1)])
  show ?thesis
    using assms(3) kept
    by (auto simp: GetCachedSignature_iff[OF assms(1)] GetCachedSignature_iff[OF wf]
        signature_revoked_iff[OF assms(1)] signature_revoked_iff[OF wf])
qed

definition exampleSig :: "string \<Rightarrow> cachedSignature" where
  "exampleSig i = \<lparr>csID = i, csSigner = ''alice'', csPayload = i, csAlgorithm = ''ed25519'', csSig = [],
     csUploadedAt = 0, csRevoked = False, csRevokedAt = None, csFetchedAt = 0\<rparr>"

definition exampleStore :: store where
  "exampleStore = emptyStore\<lparr>cachedSignatures := [exampleSig ''a'', exampleSig ''b'']\<rparr>"

definition exampleCodec :: codec where
  "exampleCodec = \<lparr>decPayload = (\<lambda>_. None),
     decRef = (\<lambda>p. if p = ''b'' then Some (''revocation'', ''a'') else None), decType = (\<lambda>_. None)\<rparr>"

lemma exampleStore_wf: "store_wf exampleStore"
  by (simp add: store_wf_def exampleStore_def emptyStore_def keysDistinct_def exampleSig_def)

lemma cached_signatures_permanent_witness:
  "GetCachedSignature ''a'' (runOps [OpSaveSignature ((exampleSig ''a'')\<lparr>csSig := ''forged''\<rparr>)] exampleStore)
     = Inr (exampleSig ''a'')
   \<and> (\<exists>t. IsCachedSignatureRevoked exampleCodec ''a''
        (runOps [OpSaveSignature ((exampleSig ''a'')\<lparr>csSig := ''forged''\<rparr>)] exampleStore) = Inr (True, t))"
proof -
  have "GetCachedSignature ''a'' exampleStore = Inr (exampleSig ''a'')"
    by (simp add: GetCachedSignature_def rowByKey_def exampleStore_def exampleSig_def)
  moreover have "IsCachedSignatureRevoked exampleCodec ''a'' exampleStore = Inr (True, Some 0)"
    by code_simp
  ultimately show ?thesis
    using cached_signatures_permanent[OF exampleStore_wf,
        of "[OpSaveSignature ((exampleSig ''a'')\<lparr>csSig := ''forged''\<rparr>)]" "''a''" "exampleSig ''a''" exampleCodec]
    by auto
qed

section \<open>The active connection\<close>

definition activeCandidates :: "codec \<Rightarrow> string \<Rightarrow> string \<Rightarrow> store \<Rightarrow> cachedConnection set" where
  "activeCandidates c signer other s = {n \<in> set (cachedConnections s).
     ccSigner n = signer \<and> ccOtherID n = other \<and> decType c (ccPayload n) = Some ''connection''
     \<and> \<not> (\<exists>r\<in>set (cachedConnections s). ccSigner r = signer
            \<and> decRef c (ccPayload r) = Some (''connection_revocation'', ccID n) \<and> ccID n \<noteq> [])}"

lemma revokedConnectionIDs_iff:
  "i \<in> revokedConnectionIDs c conns \<longleftrightarrow>
     i \<noteq> [] \<and> (\<exists>r\<in>set conns. decRef c (ccPayload r) = Some (''connection_revocation'', i))"
  by (force simp: revokedConnectionIDs_def split: option.splits prod.splits if_splits)

lemma betterConnection_fold:
  assumes "\<forall>b. best = Some b \<longrightarrow> P b"
    and P: "\<And>n. P n \<longleftrightarrow> ccOtherID n = other \<and> ccID n \<notin> revoked \<and> decType c (ccPayload n) = Some ''connection''"
  shows "(foldl (betterConnection c revoked other) best conns = None \<longleftrightarrow>
            best = None \<and> (\<forall>n\<in>set conns. \<not> P n))
       \<and> (\<forall>b. foldl (betterConnection c revoked other) best conns = Some b \<longrightarrow>
            P b \<and> (b \<in> set conns \<or> best = Some b)
            \<and> (\<forall>n\<in>set conns. P n \<longrightarrow> ccCreatedAt n \<le> ccCreatedAt b)
            \<and> (\<forall>b'. best = Some b' \<longrightarrow> ccCreatedAt b' \<le> ccCreatedAt b))"
  using assms(1)
proof (induction conns arbitrary: best)
  case (Cons n conns)
  let ?next = "betterConnection c revoked other best n"
  have step: "(P n \<and> ?next = Some n \<and> (\<forall>b'. best = Some b' \<longrightarrow> ccCreatedAt b' < ccCreatedAt n))
      \<or> (?next = best \<and> (P n \<longrightarrow> (\<exists>b'. best = Some b' \<and> ccCreatedAt n \<le> ccCreatedAt b')))"
    by (auto simp: betterConnection_def P split: option.split)
  have "\<forall>b. ?next = Some b \<longrightarrow> P b"
    using step Cons.prems by auto
  from Cons.IH[OF this] step show ?case
    by (elim disjE) (force+)
qed simp

text \<open>The active connection from one user to another is a most recent connection row
  between the two that no revocation row of the same signer names, and there is
  none only when no such row exists.\<close>

theorem GetActiveConnection_spec:
  "(case GetActiveConnection c signer other s of
      None \<Rightarrow> activeCandidates c signer other s = {}
    | Some n \<Rightarrow> n \<in> activeCandidates c signer other s
        \<and> Max (ccCreatedAt ` activeCandidates c signer other s) = ccCreatedAt n)"
proof -
  define conns where "conns = GetCachedConnectionsBySigner signer s"
  define P where "P n \<longleftrightarrow> ccOtherID n = other \<and> ccID n \<notin> revokedConnectionIDs c conns
     \<and> decType c (ccPayload n) = Some ''connection''" for n :: cachedConnection
  have set_conns: "set conns = {n \<in> set (cachedConnections s). ccSigner n = signer}"
    by (simp add: conns_def GetCachedConnectionsBySigner_def)
  have cands: "activeCandidates c signer other s = {n \<in> set conns. P n}"
    by (auto simp: activeCandidates_def P_def revokedConnectionIDs_iff set_conns)
  have "GetActiveConnection c signer other s
      = foldl (betterConnection c (revokedConnectionIDs c conns) other) None conns"
    by (simp add: GetActiveConnection_def conns_def Let_def)
  with betterConnection_fold[of None P other "revokedConnectionIDs c conns" c conns, OF _ P_def]
  show ?thesis
    by (auto simp: cands split: option.split intro!: Max_eqI)
qed

section \<open>Looking up an abbreviated id\<close>

lemma likeMatch_percent: "likeMatch ''%'' x"
  by (induction x) auto

lemma likeMatch_skip: "likeMatch ps xs \<Longrightarrow> likeMatch (CHR ''%'' # ps) xs"
  by (cases xs) auto

lemma likeMatch_prefix: "likeMatch (q @ ''%'') (q @ x)"
  by (induction q) (auto simp: likeMatch_percent likeMatch_skip)

text \<open>Looking a signature up by a prefix of its id finds it when the store has it, or
  fails only because it is empty, or because other ids match too; but the prefix is a
  \<open>LIKE\<close> pattern, so a query of one underscore returns the only row of a store
  whatever its (non-empty) id is.\<close>

theorem LookupCachedSignature_spec:
  "(q \<noteq> [] \<and> g \<in> set (cachedSignatures s) \<and> hasPrefix (csID g) q
      \<longrightarrow> LookupCachedSignature q s \<noteq> Inl (NoLookupMatch q))
   \<and> (cachedSignatures s = [g] \<and> csID g \<noteq> [] \<longrightarrow> LookupCachedSignature ''_'' s = Inr g)"
proof (intro conjI impI)
  assume a: "q \<noteq> [] \<and> g \<in> set (cachedSignatures s) \<and> hasPrefix (csID g) q"
  then have "likeMatch (q @ ''%'') (csID g)"
    using likeMatch_prefix[of q "drop (length q) (csID g)"]
    by (metis append_take_drop_id hasPrefix_def)
  with a have "filter (\<lambda>g. likeMatch (q @ ''%'') (csID g)) (cachedSignatures s) \<noteq> []"
    by (auto simp: filter_empty_conv)
  then show "LookupCachedSignature q s \<noteq> Inl (NoLookupMatch q)"
    using a by (auto simp: LookupCachedSignature_def split: sum.splits list.splits)
next
  assume a: "cachedSignatures s = [g] \<and> csID g \<noteq> []"
  then have "likeMatch (''_'' @ ''%'') (csID g)"
    by (cases "csID g") (simp_all add: likeMatch_percent)
  with a show "LookupCachedSignature ''_'' s = Inr g"
    by (auto simp: LookupCachedSignature_def GetCachedSignature_def rowByKey_def orNotFound_def)
qed

lemma LookupCachedSignature_spec_witness:
  "LookupCachedSignature ''_'' (emptyStore\<lparr>cachedSignatures := [exampleSig ''c0ffee'']\<rparr>)
     = Inr (exampleSig ''c0ffee'')"
  using LookupCachedSignature_spec[of "[]" "exampleSig ''c0ffee''"
      "emptyStore\<lparr>cachedSignatures := [exampleSig ''c0ffee'']\<rparr>"]
  by (simp add: exampleSig_def)

end
