(* ===== verification/Trust_Set.thy ===== *)
theory Trust_Set
  imports Local_Store
begin

text \<open>
  The trust set, \<open>resolver/trustset.go\<close>: a breadth-first walk from the viewer over
  direct peers and published connections, with a depth budget on every path.
  The walk is shown to terminate for every graph, to record only paths that the
  budgets allow and that avoid distrusted users, and to contain every direct
  peer.  The relation \<open>trust_path\<close> is its specification.
\<close>

section \<open>Outgoing connections\<close>

record outgoingConn =
  ocOtherID :: string
  ocTrustExtends :: int

definition revokedConnTargets :: "codec \<Rightarrow> cachedConnection list \<Rightarrow> string list" where
  "revokedConnTargets c rows = concat (map (\<lambda>row. case decPayload c (ccPayload row) of
       None \<Rightarrow> []
     | Some p \<Rightarrow> if pType p = PayloadTypeConnectionRevocation then [pTargetID p] else []) rows)"

definition outgoingOf :: "codec \<Rightarrow> string list \<Rightarrow> cachedConnection \<Rightarrow> outgoingConn list" where
  "outgoingOf c revoked row =
     (if ccID row \<in> set revoked then []
      else case decPayload c (ccPayload row) of
        None \<Rightarrow> []
      | Some p \<Rightarrow> if pType p \<noteq> PayloadTypeConnection \<or> \<not> pTrust p then []
          else [\<lparr>ocOtherID = pOtherID p, ocTrustExtends = pTrustExtends p\<rparr>])"

definition signerOutgoing :: "codec \<Rightarrow> store \<Rightarrow> string \<Rightarrow> outgoingConn list" where
  "signerOutgoing c s signer =
     (let rows = GetCachedConnectionsBySigner signer s
      in concat (map (outgoingOf c (revokedConnTargets c rows)) rows))"

section \<open>The walk\<close>

record trustEntry =
  tePath :: "string list"
  teVetoOnly :: bool

record frontier =
  frSigner :: string
  frPath :: "string list"
  frDepthLeft :: int
  frVetoOnly :: bool

text \<open>The budget of the next node is \<open>min(f.depthLeft - 1, c.TrustExtends)\<close>.\<close>

definition nextFrontier :: "frontier \<Rightarrow> outgoingConn \<Rightarrow> frontier" where
  "nextFrontier f n = \<lparr>frSigner = ocOtherID n, frPath = frPath f @ [ocOtherID n],
     frDepthLeft = (let nextDepth = frDepthLeft f - 1 in
       if ocTrustExtends n < nextDepth then ocTrustExtends n else nextDepth),
     frVetoOnly = frVetoOnly f\<rparr>"

definition expand :: "(string \<Rightarrow> outgoingConn list) \<Rightarrow> string list \<Rightarrow> frontier \<Rightarrow> frontier list" where
  "expand out distrusted f =
     (if frDepthLeft f \<le> 0 then []
      else map (nextFrontier f) (filter (\<lambda>n. ocOtherID n \<notin> set distrusted) (out (frSigner f))))"

lemma expand_depth: "g \<in> set (expand out distrusted f) \<Longrightarrow> nat (frDepthLeft g) < nat (frDepthLeft f)"
  by (auto simp: expand_def nextFrontier_def Let_def split: if_splits)

text \<open>The result map is a list of pairs in the order of insertion.\<close>

function bfs ::
  "(string \<Rightarrow> outgoingConn list) \<Rightarrow> string list \<Rightarrow> (string \<times> trustEntry) list \<Rightarrow> frontier list
     \<Rightarrow> (string \<times> trustEntry) list" where
  "bfs out distrusted result [] = result"
| "bfs out distrusted result (f # queue) =
     (if frSigner f \<in> set distrusted then bfs out distrusted result queue
      else if frSigner f \<in> fst ` set result then bfs out distrusted result queue
      else bfs out distrusted
        (result @ [(frSigner f, \<lparr>tePath = frPath f, teVetoOnly = frVetoOnly f\<rparr>)])
        (queue @ expand out distrusted f))"
  by pat_completeness auto

text \<open>Every step removes a node from the queue and adds only nodes with a smaller
  budget, so the multiset of budgets decreases, whatever the graph is.\<close>

termination
proof (relation "inv_image (mult less_than) (\<lambda>(_, _, _, queue). mset (map (nat \<circ> frDepthLeft) queue))")
  show "wf (inv_image (mult less_than)
      (\<lambda>(_, _, _, queue). mset (map (nat \<circ> frDepthLeft) (queue :: frontier list))))"
    by (rule wf_inv_image) (simp add: wf_mult)
next
  fix out :: "string \<Rightarrow> outgoingConn list" and distrusted result f and queue :: "frontier list"
  show "((out, distrusted, result, queue), out, distrusted, result, f # queue)
      \<in> inv_image (mult less_than) (\<lambda>(_, _, _, queue). mset (map (nat \<circ> frDepthLeft) queue))"
    using subset_implies_mult[of "mset (map (nat \<circ> frDepthLeft) queue)"
        "mset (map (nat \<circ> frDepthLeft) (f # queue))" less_than] by simp
  then show "((out, distrusted, result, queue), out, distrusted, result, f # queue)
      \<in> inv_image (mult less_than) (\<lambda>(_, _, _, queue). mset (map (nat \<circ> frDepthLeft) queue))" .
next
  fix out :: "string \<Rightarrow> outgoingConn list" and distrusted result f and queue :: "frontier list"
  let ?new = "mset (map (nat \<circ> frDepthLeft) (expand out distrusted f))"
  have "(mset (map (nat \<circ> frDepthLeft) queue) + ?new,
      mset (map (nat \<circ> frDepthLeft) queue) + {#nat (frDepthLeft f)#}) \<in> mult less_than"
    by (rule one_step_implies_mult) (auto dest: expand_depth)
  then show "((out, distrusted, result @ [(frSigner f, \<lparr>tePath = frPath f, teVetoOnly = frVetoOnly f\<rparr>)],
        queue @ expand out distrusted f), out, distrusted, result, f # queue)
      \<in> inv_image (mult less_than) (\<lambda>(_, _, _, queue). mset (map (nat \<circ> frDepthLeft) queue))"
    by simp
qed

definition distrustedOf :: "store \<Rightarrow> string \<Rightarrow> string \<Rightarrow> string list" where
  "distrustedOf s active viewer =
     (if viewer = active \<and> active \<noteq> [] then map peID (filter peDistrusted (ListPeers s)) else [])"

text \<open>The direct edges: peers for the active user, published connections for anyone else.\<close>

definition seeds :: "codec \<Rightarrow> store \<Rightarrow> string \<Rightarrow> string \<Rightarrow> frontier list" where
  "seeds c s active viewer =
     (if viewer = active \<and> active \<noteq> []
      then map (\<lambda>p. \<lparr>frSigner = peID p, frPath = [peID p], frDepthLeft = peTrustDepth p,
              frVetoOnly = peVetoOnly p\<rparr>) (filter (\<lambda>p. \<not> peDistrusted p) (ListPeers s))
      else map (\<lambda>n. \<lparr>frSigner = ocOtherID n, frPath = [ocOtherID n], frDepthLeft = ocTrustExtends n,
              frVetoOnly = False\<rparr>) (signerOutgoing c s viewer))"

definition initialTrust :: "string \<Rightarrow> (string \<times> trustEntry) list" where
  "initialTrust viewer = (if viewer \<noteq> [] then [(viewer, \<lparr>tePath = [], teVetoOnly = False\<rparr>)] else [])"

definition buildTrustSet :: "codec \<Rightarrow> store \<Rightarrow> string \<Rightarrow> string \<Rightarrow> (string \<times> trustEntry) list" where
  "buildTrustSet c s active viewer =
     bfs (signerOutgoing c s) (distrustedOf s active viewer) (initialTrust viewer) (seeds c s active viewer)"

text \<open>The exported view; \<open>iter\<close> is the order in which Go ranges over a map.\<close>

record TrustEntry =
  trSignerID :: string
  trPath :: "string list"
  trVetoOnly :: bool

definition TrustSet ::
  "((string \<times> trustEntry) list \<Rightarrow> (string \<times> trustEntry) list) \<Rightarrow> codec \<Rightarrow> store \<Rightarrow> string \<Rightarrow> string
     \<Rightarrow> TrustEntry list" where
  "TrustSet iter c s active viewer =
     map (\<lambda>(i, e). \<lparr>trSignerID = i, trPath = tePath e, trVetoOnly = teVetoOnly e\<rparr>)
       (iter (buildTrustSet c s active viewer))"

section \<open>Specification: the paths the budgets allow\<close>

inductive trust_path ::
  "(string \<Rightarrow> outgoingConn list) \<Rightarrow> string list \<Rightarrow> frontier list \<Rightarrow> string list \<Rightarrow> int \<Rightarrow> bool \<Rightarrow> bool"
  for out distrusted start where
  direct: "f \<in> set start \<Longrightarrow> frPath f = [frSigner f] \<Longrightarrow> frSigner f \<notin> set distrusted \<Longrightarrow>
     trust_path out distrusted start [frSigner f] (frDepthLeft f) (frVetoOnly f)"
| hop: "trust_path out distrusted start p d v \<Longrightarrow> 0 < d \<Longrightarrow> n \<in> set (out (last p)) \<Longrightarrow>
     ocOtherID n \<notin> set distrusted \<Longrightarrow>
     trust_path out distrusted start (p @ [ocOtherID n]) (min (d - 1) (ocTrustExtends n)) v"

inductive_cases trust_pathE: "trust_path out distrusted start p d v"

lemma trust_path_not_Nil: "trust_path out distrusted start p d v \<Longrightarrow> p \<noteq> []"
  by (induction rule: trust_path.induct) auto

lemma trust_path_avoids: "trust_path out distrusted start p d v \<Longrightarrow> set p \<inter> set distrusted = {}"
  by (induction rule: trust_path.induct) auto

text \<open>The first peer on the path sets its length and its veto flag.\<close>

lemma trust_path_start:
  "trust_path out distrusted start p d v \<Longrightarrow>
     \<exists>f\<in>set start. hd p = frSigner f \<and> v = frVetoOnly f
        \<and> int (length p) + max d 0 \<le> 1 + max (frDepthLeft f) 0"
proof (induction rule: trust_path.induct)
  case (hop p d v n)
  then show ?case
    using trust_path_not_Nil[OF hop(1)] by (fastforce simp: hd_append)
qed auto

section \<open>The walk against the specification\<close>

definition frontier_ok :: "(string \<Rightarrow> outgoingConn list) \<Rightarrow> string list \<Rightarrow> frontier list \<Rightarrow> frontier \<Rightarrow> bool" where
  "frontier_ok out distrusted start f \<longleftrightarrow>
     frPath f \<noteq> [] \<and> last (frPath f) = frSigner f
     \<and> (frSigner f \<notin> set distrusted \<longrightarrow>
          trust_path out distrusted start (frPath f) (frDepthLeft f) (frVetoOnly f))"

definition entry_ok ::
  "(string \<Rightarrow> outgoingConn list) \<Rightarrow> string list \<Rightarrow> frontier list \<Rightarrow> string \<times> trustEntry \<Rightarrow> bool" where
  "entry_ok out distrusted start ie \<longleftrightarrow>
     (\<exists>d. trust_path out distrusted start (tePath (snd ie)) d (teVetoOnly (snd ie)))
     \<and> last (tePath (snd ie)) = fst ie"

lemma min_depth: "(if b < a then b else a) = min a (b :: int)"
  by auto

lemma expand_ok:
  assumes "frontier_ok out distrusted start f" and "frSigner f \<notin> set distrusted"
  shows "\<forall>g\<in>set (expand out distrusted f). frontier_ok out distrusted start g"
  using assms trust_path.hop[of out distrusted start "frPath f" "frDepthLeft f" "frVetoOnly f"]
  by (auto simp: expand_def frontier_ok_def nextFrontier_def Let_def min_depth)

lemma bfs_sound:
  "\<forall>f\<in>set queue. frontier_ok out distrusted start f \<Longrightarrow>
   \<forall>ie\<in>set result. P ie \<Longrightarrow> (\<And>ie. entry_ok out distrusted start ie \<Longrightarrow> P ie) \<Longrightarrow>
   \<forall>ie\<in>set (bfs out distrusted result queue). P ie"
proof (induction out distrusted result queue rule: bfs.induct)
  case (2 out distrusted result f queue)
  show ?case
  proof (cases "frSigner f \<in> set distrusted \<or> frSigner f \<in> fst ` set result")
    case True
    then show ?thesis using 2 by auto
  next
    case False
    let ?e = "(frSigner f, \<lparr>tePath = frPath f, teVetoOnly = frVetoOnly f\<rparr>)"
    have "entry_ok out distrusted start ?e"
      using 2(4) False by (auto simp: frontier_ok_def entry_ok_def)
    then have "\<forall>ie\<in>set (result @ [?e]). P ie"
      using 2(5,6) by simp
    moreover have "\<forall>g\<in>set (queue @ expand out distrusted f). frontier_ok out distrusted start g"
      using 2(4) False expand_ok[of out distrusted start f] by auto
    ultimately have "\<forall>ie\<in>set (bfs out distrusted (result @ [?e]) (queue @ expand out distrusted f)). P ie"
      using 2(3)[OF _ _ _ _ 2(6)] False by blast
    then show ?thesis using False by simp
  qed
qed auto

lemma bfs_distinct:
  "distinct (map fst result) \<Longrightarrow> distinct (map fst (bfs out distrusted result queue))"
  by (induction out distrusted result queue rule: bfs.induct) auto

lemma bfs_mono: "set result \<subseteq> set (bfs out distrusted result queue)"
  by (induction out distrusted result queue rule: bfs.induct) auto

lemma bfs_visits:
  "f \<in> set queue \<Longrightarrow> frSigner f \<notin> set distrusted \<Longrightarrow> frSigner f \<in> fst ` set (bfs out distrusted result queue)"
proof (induction out distrusted result queue rule: bfs.induct)
  case (2 out distrusted result g queue)
  show ?case
  proof (cases "f = g")
    case True
    show ?thesis
    proof (cases "frSigner g \<in> fst ` set result")
      case seen: True
      then show ?thesis
        using True 2(5) bfs_mono[of result out distrusted queue] by auto
    next
      case fresh: False
      let ?result = "result @ [(frSigner g, \<lparr>tePath = frPath g, teVetoOnly = frVetoOnly g\<rparr>)]"
      have "frSigner g \<in> fst ` set ?result" by simp
      then have "frSigner g \<in> fst ` set (bfs out distrusted ?result (queue @ expand out distrusted g))"
        by (rule subsetD[OF image_mono[OF bfs_mono]])
      then show ?thesis using True fresh 2(5) by simp
    qed
  next
    case False
    then have q: "f \<in> set queue" using 2(4) by simp
    consider "frSigner g \<in> set distrusted"
      | "frSigner g \<notin> set distrusted" "frSigner g \<in> fst ` set result"
      | "frSigner g \<notin> set distrusted" "frSigner g \<notin> fst ` set result" by blast
    then show ?thesis
    proof cases
      case 1
      then show ?thesis using "2.IH"(1)[OF 1 q "2.prems"(2)] by simp
    next
      case 2
      then show ?thesis using "2.IH"(2)[OF 2 q "2.prems"(2)] by simp
    next
      case 3
      have "f \<in> set (queue @ expand out distrusted g)" using q by simp
      then show ?thesis using "2.IH"(3)[OF 3 _ "2.prems"(2)] 3 by simp
    qed
  qed
qed simp

lemma seeds_path: "f \<in> set (seeds c s active viewer) \<Longrightarrow> frPath f = [frSigner f]"
  by (auto simp: seeds_def split: if_splits)

lemma seeds_ok:
  "f \<in> set (seeds c s active viewer) \<Longrightarrow> frontier_ok out distrusted (seeds c s active viewer) f"
  using trust_path.direct[of f "seeds c s active viewer" distrusted out] seeds_path[of f c s active viewer]
  by (simp add: frontier_ok_def)

lemma ListPeers_set [simp]: "set (ListPeers s) = set (peers s)"
  by (simp add: ListPeers_def)

text \<open>C9: Everybody in the trust set is there for a reason: the viewer, or the end of a path
  on which every hop is a live connection, every depth budget allows the next hop,
  nobody is distrusted, and the veto-only flag is the one of the first edge.  In
  particular a path is at most one longer than the budget of its first edge.\<close>

theorem buildTrustSet_sound:
  assumes "(i, e) \<in> set (buildTrustSet c s active viewer)"
  shows "(i, e) = (viewer, \<lparr>tePath = [], teVetoOnly = False\<rparr>)
     \<or> (\<exists>d. trust_path (signerOutgoing c s) (distrustedOf s active viewer) (seeds c s active viewer)
              (tePath e) d (teVetoOnly e))
       \<and> last (tePath e) = i \<and> i \<notin> set (distrustedOf s active viewer)
       \<and> (\<exists>f\<in>set (seeds c s active viewer). hd (tePath e) = frSigner f \<and> teVetoOnly e = frVetoOnly f
            \<and> int (length (tePath e)) \<le> 1 + max (frDepthLeft f) 0)"
proof -
  define start where "start = seeds c s active viewer"
  define good where "good ie \<longleftrightarrow> ie = (viewer, \<lparr>tePath = [], teVetoOnly = False\<rparr>)
      \<or> entry_ok (signerOutgoing c s) (distrustedOf s active viewer) start ie" for ie :: "string \<times> trustEntry"
  have "\<forall>ie\<in>set (buildTrustSet c s active viewer). good ie"
    unfolding buildTrustSet_def start_def[symmetric]
    by (rule bfs_sound[where start = start]) (use seeds_ok in \<open>auto simp: initialTrust_def good_def start_def\<close>)
  with assms consider "(i, e) = (viewer, \<lparr>tePath = [], teVetoOnly = False\<rparr>)"
    | "entry_ok (signerOutgoing c s) (distrustedOf s active viewer) start (i, e)"
    unfolding good_def by blast
  then show ?thesis
  proof cases
    case 2
    then obtain d where path: "trust_path (signerOutgoing c s) (distrustedOf s active viewer) start
        (tePath e) d (teVetoOnly e)" and last: "last (tePath e) = i"
      by (auto simp: entry_ok_def)
    from trust_path_start[OF path] obtain f where "f \<in> set start" "hd (tePath e) = frSigner f"
        "teVetoOnly e = frVetoOnly f" "int (length (tePath e)) + max d 0 \<le> 1 + max (frDepthLeft f) 0"
      by blast
    moreover have "i \<notin> set (distrustedOf s active viewer)"
      using trust_path_avoids[OF path] trust_path_not_Nil[OF path] last last_in_set by fastforce
    ultimately show ?thesis
      using path last unfolding start_def by (intro disjI2) force
  qed blast
qed

text \<open>Every user is in the trust set at most once, and every direct edge counts: for
  the active user each peer that is not distrusted is in the set, whatever the peers'
  budgets and connections are.\<close>

theorem buildTrustSet_direct:
  assumes "f \<in> set (seeds c s active viewer)" and "frSigner f \<notin> set (distrustedOf s active viewer)"
  shows "frSigner f \<in> fst ` set (buildTrustSet c s active viewer)
    \<and> distinct (map fst (buildTrustSet c s active viewer))"
proof -
  have "distinct (map fst (initialTrust viewer))"
    by (simp add: initialTrust_def)
  then show ?thesis
    unfolding buildTrustSet_def using bfs_visits[OF assms] bfs_distinct by blast
qed

section \<open>The walk is not complete\<close>

text \<open>A network of four users around \<open>me\<close>: the peer \<open>first\<close> and the peer \<open>b\<close> both
  trust \<open>x\<close>, the former without passing trust on, the latter with one more hop, and \<open>x\<close>
  trusts \<open>y\<close>.\<close>

definition netConn :: "string \<Rightarrow> string \<Rightarrow> string \<Rightarrow> cachedConnection" where
  "netConn i signer other = \<lparr>ccID = i, ccSigner = signer, ccOtherID = other, ccPayload = i,
     ccAlgorithm = ''ed25519'', ccSig = [], ccCreatedAt = 0, ccRevoked = False, ccRevokedAt = None,
     ccFetchedAt = 0\<rparr>"

definition netPeer :: "string \<Rightarrow> peer" where
  "netPeer i = \<lparr>peID = i, peServerURL = [], peTrustDepth = 3, pePublic = False, peDistrusted = False,
     peVetoOnly = False, peLastSyncedAt = None\<rparr>"

definition netPayload :: "string \<Rightarrow> string \<Rightarrow> int \<Rightarrow> payload" where
  "netPayload signer other n = emptyPayload\<lparr>pType := ''connection'', pSigner := signer, pOtherID := other,
     pTrust := True, pTrustExtends := n\<rparr>"

definition netStore :: "string \<Rightarrow> store" where
  "netStore first = emptyStore\<lparr>peers := [netPeer first, netPeer ''b''],
     cachedConnections := [netConn ''1'' first ''x'', netConn ''2'' ''b'' ''x'', netConn ''3'' ''x'' ''y'']\<rparr>"

definition netCodec :: "string \<Rightarrow> codec" where
  "netCodec first = \<lparr>decPayload = map_of [(''1'', netPayload first ''x'' 0), (''2'', netPayload ''b'' ''x'' 1),
       (''3'', netPayload ''x'' ''y'' 0)],
     decRef = (\<lambda>_. None), decType = (\<lambda>_. None)\<rparr>"

text \<open>The first visit fixes the depth budget of a user, so the walk can miss users that
  the budgets allow to trust, and the outcome depends on the alphabetical order of the
  peers' ids: with a first peer called \<open>a\<close> the user \<open>y\<close> is missing although the path
  over \<open>b\<close> and \<open>x\<close> is within every budget; with the same peer called \<open>c\<close> it is found.\<close>

theorem buildTrustSet_incomplete:
  "trust_path (signerOutgoing (netCodec ''a'') (netStore ''a'')) [] (seeds (netCodec ''a'') (netStore ''a'') ''me'' ''me'')
     [''b'', ''x'', ''y''] 0 False
   \<and> ''y'' \<notin> fst ` set (buildTrustSet (netCodec ''a'') (netStore ''a'') ''me'' ''me'')
   \<and> ''y'' \<in> fst ` set (buildTrustSet (netCodec ''c'') (netStore ''c'') ''me'' ''me'')"
proof (intro conjI)
  let ?out = "signerOutgoing (netCodec ''a'') (netStore ''a'')"
  let ?start = "seeds (netCodec ''a'') (netStore ''a'') ''me'' ''me''"
  have start: "\<lparr>frSigner = ''b'', frPath = [''b''], frDepthLeft = 3, frVetoOnly = False\<rparr> \<in> set ?start"
    by code_simp
  have out: "?out ''b'' = [\<lparr>ocOtherID = ''x'', ocTrustExtends = 1\<rparr>]" "?out ''x'' = [\<lparr>ocOtherID = ''y'', ocTrustExtends = 0\<rparr>]"
    by code_simp+
  have "trust_path ?out [] ?start [''b''] 3 False"
    using trust_path.direct[OF start, of "[]" ?out] by simp
  from trust_path.hop[OF this, of "\<lparr>ocOtherID = ''x'', ocTrustExtends = 1\<rparr>"]
  have "trust_path ?out [] ?start [''b'', ''x''] 1 False"
    by (simp add: out)
  from trust_path.hop[OF this, of "\<lparr>ocOtherID = ''y'', ocTrustExtends = 0\<rparr>"]
  show "trust_path ?out [] ?start [''b'', ''x'', ''y''] 0 False"
    by (simp add: out)
  show "''y'' \<notin> fst ` set (buildTrustSet (netCodec ''a'') (netStore ''a'') ''me'' ''me'')"
    by code_simp
  show "''y'' \<in> fst ` set (buildTrustSet (netCodec ''c'') (netStore ''c'') ''me'' ''me'')"
    by code_simp
qed

lemma buildTrustSet_sound_witness:
  "(\<exists>d. trust_path (signerOutgoing (netCodec ''a'') (netStore ''a'')) (distrustedOf (netStore ''a'') ''me'' ''me'')
      (seeds (netCodec ''a'') (netStore ''a'') ''me'' ''me'') [''a'', ''x''] d False)"
proof -
  have "(''x'', \<lparr>tePath = [''a'', ''x''], teVetoOnly = False\<rparr>)
      \<in> set (buildTrustSet (netCodec ''a'') (netStore ''a'') ''me'' ''me'')"
    by code_simp
  from buildTrustSet_sound[OF this] show ?thesis by simp
qed

lemma buildTrustSet_direct_witness:
  "''b'' \<in> fst ` set (buildTrustSet (netCodec ''a'') (netStore ''a'') ''me'' ''me'')"
proof -
  have "\<lparr>frSigner = ''b'', frPath = [''b''], frDepthLeft = 3, frVetoOnly = False\<rparr>
      \<in> set (seeds (netCodec ''a'') (netStore ''a'') ''me'' ''me'')"
      "distrustedOf (netStore ''a'') ''me'' ''me'' = []"
    by code_simp+
  then show ?thesis
    using buildTrustSet_direct[of "\<lparr>frSigner = ''b'', frPath = [''b''], frDepthLeft = 3, frVetoOnly = False\<rparr>"
        "netCodec ''a''" "netStore ''a''" "''me''" "''me''"] by simp
qed

end
