(* ===== verification/Version_Order.thy ===== *)
theory Version_Order
  imports Tillit_Prelude
begin

text \<open>
  The interface every version comparator of the program has to meet: a
  three-way comparison that is a total preorder.  \<open>sort.Slice\<close> in the resolver
  (\<open>resolver/query.go\<close>) and the ordering tests of every adapter
  (\<open>CompareVersions\<close>) rely on exactly these laws.  The theory also has the ways
  of composing such comparisons that the comparators of the program use:
  comparing a key, one criterion after another, and two lists of segments with
  the shorter list padded or with the shorter list first.
\<close>

locale version_order =
  fixes cmp :: "'a \<Rightarrow> 'a \<Rightarrow> int"
  assumes cmp_range: "cmp a b \<in> {- 1, 0, 1}"
    and cmp_antisym: "cmp b a = - cmp a b"
    and cmp_trans: "cmp a b \<le> 0 \<Longrightarrow> cmp b c \<le> 0 \<Longrightarrow> cmp a c \<le> 0"
begin

lemma cmp_refl [simp]: "cmp a a = 0"
  using cmp_antisym[of a a] by simp

lemma cmp_total: "cmp a b \<le> 0 \<or> cmp b a \<le> 0"
  using cmp_antisym[of a b] by linarith

lemma cmp_eq_sym: "cmp a b = 0 \<Longrightarrow> cmp b a = 0"
  using cmp_antisym[of a b] by simp

lemma cmp_eq_trans: "cmp a b = 0 \<Longrightarrow> cmp b c = 0 \<Longrightarrow> cmp a c = 0"
  using cmp_trans[of a b c] cmp_trans[of c b a] cmp_antisym[of a b] cmp_antisym[of b c]
    cmp_antisym[of a c] by simp

lemma cmp_le_less_trans: "cmp a b \<le> 0 \<Longrightarrow> cmp b c < 0 \<Longrightarrow> cmp a c < 0"
  using cmp_trans[of a b c] cmp_trans[of c a b] cmp_antisym[of a c] cmp_antisym[of b c]
  by linarith

lemma cmp_less_le_trans: "cmp a b < 0 \<Longrightarrow> cmp b c \<le> 0 \<Longrightarrow> cmp a c < 0"
  using cmp_trans[of a b c] cmp_trans[of b c a] cmp_antisym[of a c] cmp_antisym[of a b]
  by linarith

lemma cmp_eq_split:
  assumes "cmp a b \<le> 0" and "cmp b c \<le> 0" and "cmp a c = 0"
  shows "cmp a b = 0" and "cmp b c = 0"
  using assms cmp_less_le_trans[of a b c] cmp_le_less_trans[of a b c] by linarith+

lemma cmp_less_trans: "cmp a b < 0 \<Longrightarrow> cmp b c < 0 \<Longrightarrow> cmp a c < 0"
  using cmp_le_less_trans[of a b c] by simp

text \<open>Versions that compare equal are interchangeable on either side.\<close>

lemma cmp_cong_left:
  assumes "cmp a b = 0"
  shows "cmp a c = cmp b c"
proof -
  have "cmp a c \<le> 0 \<longleftrightarrow> cmp b c \<le> 0"
    using assms cmp_eq_sym[OF assms] cmp_trans[of a b c] cmp_trans[of b a c] by linarith
  moreover have "cmp c a \<le> 0 \<longleftrightarrow> cmp c b \<le> 0"
    using assms cmp_eq_sym[OF assms] cmp_trans[of c a b] cmp_trans[of c b a] by linarith
  ultimately show ?thesis
    using cmp_range[of a c] cmp_range[of b c] cmp_antisym[of a c] cmp_antisym[of b c] by fastforce
qed

lemma cmp_cong_right: "cmp a b = 0 \<Longrightarrow> cmp c a = cmp c b"
  using cmp_cong_left[of a b c] cmp_antisym[of a c] cmp_antisym[of b c] by linarith

lemma cmp_nonneg_swap: "0 \<le> cmp a b \<longleftrightarrow> cmp b a \<le> 0"
  using cmp_antisym[of a b] by linarith

text \<open>The strict part is a strict weak ordering, what \<open>sort.Slice\<close> asks of its
  \<open>less\<close>.\<close>

lemma less_irrefl: "\<not> cmp a a < 0"
  by simp

lemma less_asym: "cmp a b < 0 \<Longrightarrow> \<not> cmp b a < 0"
  using cmp_antisym[of a b] by linarith

lemma incomparable_trans:
  "\<not> cmp a b < 0 \<Longrightarrow> \<not> cmp b c < 0 \<Longrightarrow> \<not> cmp a c < 0"
  using cmp_trans[of c b a] cmp_antisym[of a b] cmp_antisym[of b c] cmp_antisym[of a c]
  by linarith

end

section \<open>Building orders\<close>

lemma version_order_go_cmp [cmp_intros]: "version_order (go_cmp :: 'a::linorder \<Rightarrow> _)"
  by unfold_locales (auto simp: go_cmp_def split: if_splits)

interpretation go: version_order "go_cmp :: 'a::linorder \<Rightarrow> 'a \<Rightarrow> int"
  by (rule version_order_go_cmp)

lemma version_orderI:
  assumes "\<And>a b. cmp a b \<in> {- 1, 0, 1}" and "\<And>a b. cmp b a = - cmp a b"
    and "\<And>a b c. cmp a b \<le> 0 \<Longrightarrow> cmp b c \<le> 0 \<Longrightarrow> cmp a c \<le> 0"
  shows "version_order cmp"
  using assms by unfold_locales

lemma version_order_on [cmp_intros]:
  "version_order c \<Longrightarrow> version_order (\<lambda>a b. c (f a) (f b))"
  by (rule version_orderI)
    (auto dest: version_order.cmp_range version_order.cmp_antisym intro: version_order.cmp_trans)

lemma version_order_const [cmp_intros]: "version_order (\<lambda>a b. 0)"
  by (rule version_orderI) auto

text \<open>One criterion, then another.\<close>

lemma version_order_then [cmp_intros]:
  assumes c: "version_order c" and d: "version_order d"
  shows "version_order (\<lambda>a b. then_cmp (c a b) (d a b))"
proof (rule version_orderI)
  fix x y z
  assume xy: "then_cmp (c x y) (d x y) \<le> 0" and yz: "then_cmp (c y z) (d y z) \<le> 0"
  have le: "c x y \<le> 0" "c y z \<le> 0"
    using then_cmp_le[OF xy] then_cmp_le[OF yz] by simp_all
  then have "c x z \<le> 0"
    by (rule version_order.cmp_trans[OF c])
  moreover have "d x z \<le> 0" if eq: "c x z = 0"
  proof -
    have "c x y = 0" "c y z = 0"
      by (rule version_order.cmp_eq_split[OF c le eq])+
    then show ?thesis
      using xy yz version_order.cmp_trans[OF d, of x y z] by simp
  qed
  ultimately show "then_cmp (c x z) (d x z) \<le> 0"
    by (simp add: then_cmp_def)
next
  fix x y
  show "then_cmp (c x y) (d x y) \<in> {- 1, 0, 1}"
    by (rule then_cmp_range[OF version_order.cmp_range[OF c] version_order.cmp_range[OF d]])
  show "then_cmp (c y x) (d y x) = - then_cmp (c x y) (d x y)"
    by (rule then_cmp_swap[OF version_order.cmp_antisym[OF c] version_order.cmp_antisym[OF d]])
qed

text \<open>
  Two classes of values, the first below the second, each with an order of its
  own: the shape of every segment comparison of the program (numeric segments
  below alphabetic ones, or the reverse).
\<close>

definition class_cmp :: "('a \<Rightarrow> bool) \<Rightarrow> ('a \<Rightarrow> 'a \<Rightarrow> int) \<Rightarrow> ('a \<Rightarrow> 'a \<Rightarrow> int) \<Rightarrow> 'a \<Rightarrow> 'a \<Rightarrow> int" where
  "class_cmp P c d a b =
     (if P a \<and> P b then c a b else if P a then - 1 else if P b then 1 else d a b)"

lemma version_order_class [cmp_intros]:
  assumes c: "version_order c" and d: "version_order d"
  shows "version_order (class_cmp P c d)"
proof (rule version_orderI)
  fix x y z
  show "class_cmp P c d x y \<in> {- 1, 0, 1}"
    using version_order.cmp_range[OF c, of x y] version_order.cmp_range[OF d, of x y]
    by (cases "P x"; cases "P y") (simp_all add: class_cmp_def)
  show "class_cmp P c d y x = - class_cmp P c d x y"
    using version_order.cmp_antisym[OF c, of x y] version_order.cmp_antisym[OF d, of x y]
    by (cases "P x"; cases "P y") (simp_all add: class_cmp_def)
  assume "class_cmp P c d x y \<le> 0" "class_cmp P c d y z \<le> 0"
  then show "class_cmp P c d x z \<le> 0"
    using version_order.cmp_trans[OF c, of x y z] version_order.cmp_trans[OF d, of x y z]
    by (cases "P x"; cases "P y"; cases "P z") (simp_all add: class_cmp_def)
qed

section \<open>Lists of segments\<close>

text \<open>The shorter list is padded with \<open>p\<close>: the loops of the form
  \<open>for i := 0; i < max(len(a), len(b)); i++\<close> with a default for a missing
  segment.\<close>

fun pad_cmp :: "'a \<Rightarrow> ('a \<Rightarrow> 'a \<Rightarrow> int) \<Rightarrow> 'a list \<Rightarrow> 'a list \<Rightarrow> int" where
  "pad_cmp p c [] [] = 0"
| "pad_cmp p c (x # xs) [] = then_cmp (c x p) (pad_cmp p c xs [])"
| "pad_cmp p c [] (y # ys) = then_cmp (c p y) (pad_cmp p c [] ys)"
| "pad_cmp p c (x # xs) (y # ys) = then_cmp (c x y) (pad_cmp p c xs ys)"

definition hd_pad :: "'a \<Rightarrow> 'a list \<Rightarrow> 'a" where
  "hd_pad p xs = (case xs of [] \<Rightarrow> p | x # _ \<Rightarrow> x)"

lemma pad_cmp_unfold:
  assumes "version_order c"
  shows "pad_cmp p c xs ys = then_cmp (c (hd_pad p xs) (hd_pad p ys)) (pad_cmp p c (tl xs) (tl ys))"
  using version_order.cmp_refl[OF assms]
  by (cases xs; cases ys) (simp_all add: hd_pad_def)

lemma pad_cmp_antisym:
  "version_order c \<Longrightarrow> pad_cmp p c ys xs = - pad_cmp p c xs ys"
  by (induction p c xs ys rule: pad_cmp.induct)
    (auto intro!: then_cmp_swap dest: version_order.cmp_antisym)

lemma pad_cmp_range:
  "version_order c \<Longrightarrow> pad_cmp p c xs ys \<in> {- 1, 0, 1}"
  by (induction p c xs ys rule: pad_cmp.induct)
    (simp_all only: pad_cmp.simps then_cmp_range version_order.cmp_range insertI1 insertI2 simp_thms)

lemma pad_cmp_trans:
  assumes c: "version_order c"
  shows "pad_cmp p c xs ys \<le> 0 \<Longrightarrow> pad_cmp p c ys zs \<le> 0 \<Longrightarrow> pad_cmp p c xs zs \<le> 0"
proof (induction "length xs + length ys + length zs" arbitrary: xs ys zs rule: less_induct)
  case less
  show ?case
  proof (cases "xs = [] \<and> ys = [] \<and> zs = []")
    case False
    then have shorter: "length (tl xs) + length (tl ys) + length (tl zs)
        < length xs + length ys + length zs"
      by (cases xs; cases ys; cases zs) auto
    let ?h = "hd_pad p" and ?t = "\<lambda>a b. pad_cmp p c (tl a) (tl b)"
    have step: "?t xs ys \<le> 0 \<Longrightarrow> ?t ys zs \<le> 0 \<Longrightarrow> ?t xs zs \<le> 0"
      by (rule less.hyps[OF shorter])
    have le: "c (?h xs) (?h ys) \<le> 0" "c (?h ys) (?h zs) \<le> 0"
      using less.prems pad_cmp_unfold[OF c, of p xs ys] pad_cmp_unfold[OF c, of p ys zs]
        then_cmp_le by simp_all
    then have "c (?h xs) (?h zs) \<le> 0"
      by (rule version_order.cmp_trans[OF c])
    moreover have "?t xs zs \<le> 0" if eq: "c (?h xs) (?h zs) = 0"
    proof -
      have "c (?h xs) (?h ys) = 0" "c (?h ys) (?h zs) = 0"
        by (rule version_order.cmp_eq_split[OF c le eq])+
      then show ?thesis
        using step less.prems pad_cmp_unfold[OF c, of p xs ys] pad_cmp_unfold[OF c, of p ys zs]
        by simp
    qed
    ultimately show ?thesis
      using pad_cmp_unfold[OF c, of p xs zs] by (simp add: then_cmp_def)
  qed simp
qed

lemma version_order_pad [cmp_intros]: "version_order c \<Longrightarrow> version_order (pad_cmp p c)"
  by (rule version_orderI) (rule pad_cmp_range pad_cmp_antisym pad_cmp_trans; assumption)+

lemma pad_cmp_snoc:
  "version_order c \<Longrightarrow> pad_cmp p c (xs @ [x]) xs = c x p"
  by (induction xs) (simp_all add: version_order.cmp_refl)

text \<open>The shorter list comes first when it is a prefix: the loops over
  \<open>min(len(a), len(b))\<close> followed by a comparison of the lengths.\<close>

fun lex_cmp :: "('a \<Rightarrow> 'a \<Rightarrow> int) \<Rightarrow> 'a list \<Rightarrow> 'a list \<Rightarrow> int" where
  "lex_cmp c [] [] = 0"
| "lex_cmp c (x # xs) [] = 1"
| "lex_cmp c [] (y # ys) = - 1"
| "lex_cmp c (x # xs) (y # ys) = then_cmp (c x y) (lex_cmp c xs ys)"

text \<open>It is the padded comparison with a least padding element.\<close>

definition opt_cmp :: "('a \<Rightarrow> 'a \<Rightarrow> int) \<Rightarrow> 'a option \<Rightarrow> 'a option \<Rightarrow> int" where
  "opt_cmp c a b = (case (a, b) of (None, None) \<Rightarrow> 0 | (None, Some _) \<Rightarrow> - 1 | (Some _, None) \<Rightarrow> 1
     | (Some x, Some y) \<Rightarrow> c x y)"

lemma version_order_opt [cmp_intros]:
  assumes "version_order c"
  shows "version_order (opt_cmp c)"
proof (rule version_orderI)
  fix x y z
  show "opt_cmp c x y \<in> {- 1, 0, 1}"
    using version_order.cmp_range[OF assms, of "the x" "the y"]
    by (cases x; cases y) (simp_all add: opt_cmp_def)
  show "opt_cmp c y x = - opt_cmp c x y"
    using version_order.cmp_antisym[OF assms, of "the x" "the y"]
    by (cases x; cases y) (simp_all add: opt_cmp_def)
  assume "opt_cmp c x y \<le> 0" "opt_cmp c y z \<le> 0"
  then show "opt_cmp c x z \<le> 0"
    using version_order.cmp_trans[OF assms, of "the x" "the y" "the z"]
    by (cases x; cases y; cases z) (simp_all add: opt_cmp_def)
qed

lemma lex_cmp_pad: "lex_cmp c xs ys = pad_cmp None (opt_cmp c) (map Some xs) (map Some ys)"
  by (induction c xs ys rule: lex_cmp.induct) (simp_all add: opt_cmp_def)

lemma version_order_lex [cmp_intros]:
  assumes "version_order c"
  shows "version_order (lex_cmp c)"
proof -
  have "version_order (\<lambda>a b. pad_cmp None (opt_cmp c) (map Some a) (map Some b))"
    by (rule version_order_on[OF version_order_pad[OF version_order_opt[OF assms]]])
  then show ?thesis
    by (simp add: lex_cmp_pad[symmetric])
qed

end
