(* ===== verification/Resolver_Version.thy ===== *)
theory Resolver_Version
  imports Version_Order Go_Strings
begin

text \<open>
  The resolver's fallback comparator, \<open>resolver/version.go\<close>: used for every
  package whose lockfile adapter is not at hand.  A version is split into its
  dotted main part and the suffix after the first dash; the main parts are
  compared segment by segment, a missing segment standing as the empty string.
\<close>

definition splitPreRelease :: "string \<Rightarrow> string \<times> string" where
  "splitPreRelease v = (case cutChar (CHR ''-'') (trimPrefix v ''v'') of (b, p, _) \<Rightarrow> (b, p))"

text \<open>One turn of the loop: the two segments at the same position.\<close>

definition numericSegCmp :: "string \<Rightarrow> string \<Rightarrow> int" where
  "numericSegCmp aSeg bSeg =
     (if atoiOk aSeg \<and> atoiOk bSeg then
        (if atoiVal aSeg \<noteq> atoiVal bSeg then (if atoiVal aSeg < atoiVal bSeg then - 1 else 1) else 0)
      else if atoiOk aSeg then - 1
      else if atoiOk bSeg then 1
      else go_cmp aSeg bSeg)"

definition compareNumericDotted :: "string \<Rightarrow> string \<Rightarrow> int" where
  "compareNumericDotted a b = pad_cmp [] numericSegCmp (splitChar (CHR ''.'') a) (splitChar (CHR ''.'') b)"

definition CompareVersions :: "string \<Rightarrow> string \<Rightarrow> int" where
  "CompareVersions a b =
     (case (splitPreRelease a, splitPreRelease b) of ((aBase, aPre), (bBase, bPre)) \<Rightarrow>
       then_cmp (compareNumericDotted aBase bBase)
         (if aPre = [] \<and> bPre = [] then 0
          else if aPre = [] then 1
          else if bPre = [] then - 1
          else go_cmp aPre bPre))"

section \<open>The comparator is a total preorder\<close>

lemma version_order_numericSegCmp [cmp_intros]: "version_order numericSegCmp"
proof -
  have "version_order (class_cmp atoiOk (\<lambda>a b. go_cmp (atoiVal a) (atoiVal b)) go_cmp)"
    by (rule version_order_class[OF version_order_on[OF version_order_go_cmp] version_order_go_cmp])
  moreover have "class_cmp atoiOk (\<lambda>a b. go_cmp (atoiVal a) (atoiVal b)) go_cmp = numericSegCmp"
    by (intro ext) (auto simp: class_cmp_def numericSegCmp_def go_cmp_def)
  ultimately show ?thesis by simp
qed

text \<open>The release / pre-release tail shared by this comparator and the one of
  \<open>go.sum\<close>: no suffix is above every suffix.\<close>

definition suffixCmp :: "(string \<Rightarrow> string \<Rightarrow> int) \<Rightarrow> string \<Rightarrow> string \<Rightarrow> int" where
  "suffixCmp c a b = class_cmp (\<lambda>s. s \<noteq> []) c (\<lambda>_ _. 0) a b"

lemma suffixCmp_eq:
  "suffixCmp c a b = (if a = [] \<and> b = [] then 0 else if a = [] then 1 else if b = [] then - 1 else c a b)"
  by (simp add: suffixCmp_def class_cmp_def)

lemma version_order_suffixCmp: "version_order c \<Longrightarrow> version_order (suffixCmp c)"
  unfolding suffixCmp_def by (intro version_order_class version_order_const)

lemma CompareVersions_keys:
  "CompareVersions a b = then_cmp
     (pad_cmp [] numericSegCmp (splitChar (CHR ''.'') (fst (splitPreRelease a)))
                               (splitChar (CHR ''.'') (fst (splitPreRelease b))))
     (suffixCmp go_cmp (snd (splitPreRelease a)) (snd (splitPreRelease b)))"
  by (simp add: CompareVersions_def compareNumericDotted_def suffixCmp_eq split: prod.split)

lemma version_order_CompareVersions [cmp_intros]: "version_order CompareVersions"
proof -
  have "version_order (\<lambda>a b. then_cmp
     (pad_cmp [] numericSegCmp (splitChar (CHR ''.'') (fst (splitPreRelease a)))
                               (splitChar (CHR ''.'') (fst (splitPreRelease b))))
     (suffixCmp go_cmp (snd (splitPreRelease a)) (snd (splitPreRelease b))))"
    by (rule version_order_then[OF
        version_order_on[OF version_order_pad[OF version_order_numericSegCmp]]
        version_order_on[OF version_order_suffixCmp[OF version_order_go_cmp]]])
  then show ?thesis
    by (simp add: CompareVersions_keys[symmetric])
qed

interpretation rv: version_order CompareVersions
  by (rule version_order_CompareVersions)

text \<open>An appended numeric segment moves a version down, since the missing segment
  on the other side is the empty string, which is not a number.\<close>

lemma splitPreRelease_release:
  "CHR ''-'' \<notin> set v \<Longrightarrow> splitPreRelease v = (trimPrefix v ''v'', [])"
proof -
  assume "CHR ''-'' \<notin> set v"
  then have "CHR ''-'' \<notin> set (trimPrefix v ''v'')"
    by (auto simp: trimPrefix_def dest: in_set_dropD)
  then show ?thesis by (simp add: splitPreRelease_def)
qed

lemma trimPrefix_v_append:
  "hd (v @ w) \<noteq> CHR ''v'' \<or> v \<noteq> [] \<Longrightarrow> trimPrefix (v @ w) ''v'' = trimPrefix v ''v'' @ w"
  by (cases v; cases w) (auto simp: trimPrefix_def hasPrefix_def)

lemma numericSegCmp_missing: "atoiOk s \<Longrightarrow> numericSegCmp s [] = - 1"
  by (simp add: numericSegCmp_def)

text \<open>C40: The resolver's fallback comparator orders every two version strings:
  it returns -1, 0 or 1, swapping the arguments flips the sign, and it is transitive,
  whatever the strings are.\<close>

theorem CompareVersions_total_preorder:
  "CompareVersions a b \<in> {- 1, 0, 1} \<and> CompareVersions b a = - CompareVersions a b
   \<and> (CompareVersions a b \<le> 0 \<and> CompareVersions b c \<le> 0 \<longrightarrow> CompareVersions a c \<le> 0)"
  by (intro conjI impI rv.cmp_range rv.cmp_antisym) (elim conjE, rule rv.cmp_trans)

lemma CompareVersions_total_preorder_witness:
  "CompareVersions ''v1.2'' ''1.10'' \<le> 0 \<and> CompareVersions ''1.10'' ''2.0-rc1'' \<le> 0
   \<and> CompareVersions ''v1.2'' ''2.0-rc1'' \<le> 0"
proof -
  have "CompareVersions ''v1.2'' ''1.10'' \<le> 0" "CompareVersions ''1.10'' ''2.0-rc1'' \<le> 0"
    by code_simp+
  then show ?thesis
    using CompareVersions_total_preorder[of "''v1.2''" "''1.10''" "''2.0-rc1''"] by blast
qed

text \<open>A release with one more numeric segment compares below the release
  it extends: whatever v is, "v.1" sorts before "v".  Under the usual reading of
  dotted versions 1.0.1 follows 1.0, and a delta from 1.0 to 1.0.1 is turned into
  a span whose ends are the wrong way round.\<close>

theorem CompareVersions_extension_below:
  assumes "CHR ''-'' \<notin> set v" and "atoiOk s" and "CHR ''-'' \<notin> set s" and "CHR ''.'' \<notin> set s"
  shows "CompareVersions (v @ ''.'' @ s) v = - 1"
proof -
  have "trimPrefix (v @ ''.'' @ s) ''v'' = trimPrefix v ''v'' @ ''.'' @ s"
    by (rule trimPrefix_v_append) auto
  then have "compareNumericDotted (trimPrefix (v @ ''.'' @ s) ''v'') (trimPrefix v ''v'') = numericSegCmp s []"
    using assms(4) pad_cmp_snoc[OF version_order_numericSegCmp]
    by (simp add: compareNumericDotted_def splitChar_append)
  then show ?thesis
    using assms by (simp add: CompareVersions_def splitPreRelease_release numericSegCmp_missing)
qed

lemma CompareVersions_extension_below_witness:
  "CompareVersions ''1.0.1'' ''1.0'' = - 1"
proof -
  have "atoiOk ''1''" by code_simp
  then show ?thesis
    using CompareVersions_extension_below[of "''1.0''" "''1''"] by simp
qed

end
