(* ===== verification/Resolver.thy ===== *)
theory Resolver
  imports Trust_Set Resolver_Version
begin

text \<open>
  Verdicts, \<open>resolver/query.go\<close> and \<open>resolver.go\<close>: the live signatures of the trust
  set about one package, the memoised recursion over delta decisions, and the
  merged spans of the package view.  The specification of a verdict is the
  relation \<open>supported\<close>; the recursion is sound for it on every input and
  complete as long as no two different version strings compare equal.
\<close>

section \<open>Data\<close>

datatype status = StatusAllowed | StatusVetted | StatusRejected | StatusUnknown

datatype decisionKind = KindExact | KindDelta

record contributingDecision =
  cdSignerID :: string
  cdPath :: "string list"
  cdLevel :: string
  cdReason :: string
  cdSignatureID :: string
  cdVetoOnly :: bool
  cdKind :: decisionKind
  cdVersion :: string
  cdFromVersion :: string
  cdToVersion :: string

record verdict =
  vdStatus :: status
  vdDecisions :: "contributingDecision list"

record versionSpan =
  spFrom :: string
  spTo :: string
  spStatus :: status
  spDecisions :: "contributingDecision list"

record packageVerdict =
  pvEcosystem :: string
  pvPackageID :: string
  pvSpans :: "versionSpan list"
  pvRevoked :: "contributingDecision list"

record sigInfo =
  siDecision :: contributingDecision
  siIsDelta :: bool
  siExactVersion :: string
  siFromVersion :: string
  siToVersion :: string

definition statusFromLevel :: "string \<Rightarrow> status" where
  "statusFromLevel level =
     (if level = DecisionRejected then StatusRejected
      else if level = DecisionVetted then StatusVetted
      else if level = DecisionAllowed then StatusAllowed
      else StatusUnknown)"

text \<open>The loop returns at the first rejection and otherwise remembers two flags.\<close>

fun aggregateFrom :: "bool \<Rightarrow> bool \<Rightarrow> contributingDecision list \<Rightarrow> status" where
  "aggregateFrom hasVetted hasAllowed [] =
     (if hasVetted then StatusVetted else if hasAllowed then StatusAllowed else StatusUnknown)"
| "aggregateFrom hasVetted hasAllowed (d # ds) =
     (if cdLevel d = DecisionRejected then StatusRejected
      else if cdLevel d = DecisionVetted then aggregateFrom True hasAllowed ds
      else if cdLevel d = DecisionAllowed then aggregateFrom hasVetted True ds
      else aggregateFrom hasVetted hasAllowed ds)"

definition aggregate :: "contributingDecision list \<Rightarrow> status" where
  "aggregate decisions = aggregateFrom False False decisions"

section \<open>Collecting the signatures of the trust set\<close>

definition revokedSigTargets :: "codec \<Rightarrow> cachedSignature list \<Rightarrow> string list" where
  "revokedSigTargets c sigs = concat (map (\<lambda>g. case decPayload c (csPayload g) of
       None \<Rightarrow> []
     | Some p \<Rightarrow> if pType p = PayloadTypeRevocation then [pTargetID p] else []) sigs)"

datatype sigOutcome = SkipSig | RevokedSig contributingDecision | LiveSig sigInfo

definition decisionOf :: "string \<Rightarrow> trustEntry \<Rightarrow> cachedSignature \<Rightarrow> payload \<Rightarrow> contributingDecision" where
  "decisionOf signer entry g p = \<lparr>cdSignerID = signer, cdPath = tePath entry, cdLevel = pLevel p,
     cdReason = pReason p, cdSignatureID = csID g, cdVetoOnly = teVetoOnly entry,
     cdKind = (if pType p = PayloadTypeDecision then KindExact else KindDelta),
     cdVersion = (if pType p = PayloadTypeDecision then pVersion p else []),
     cdFromVersion = (if pType p = PayloadTypeDecision then [] else pFromVersion p),
     cdToVersion = (if pType p = PayloadTypeDecision then [] else pToVersion p)\<rparr>"

definition classifySig ::
  "codec \<Rightarrow> string \<Rightarrow> string \<Rightarrow> string list \<Rightarrow> string \<Rightarrow> trustEntry \<Rightarrow> cachedSignature \<Rightarrow> sigOutcome" where
  "classifySig c ecosystem packageID revokedTargets signer entry g =
     (case decPayload c (csPayload g) of
        None \<Rightarrow> SkipSig
      | Some p \<Rightarrow>
          if pEcosystem p \<noteq> ecosystem \<or> pPackageID p \<noteq> packageID then SkipSig
          else if teVetoOnly entry \<and> pLevel p \<noteq> DecisionRejected then SkipSig
          else if pType p \<noteq> PayloadTypeDecision \<and> pType p \<noteq> PayloadTypeDeltaDecision then SkipSig
          else let d = decisionOf signer entry g p in
            if csID g \<in> set revokedTargets then RevokedSig d
            else if pType p = PayloadTypeDecision
            then LiveSig \<lparr>siDecision = d, siIsDelta = False, siExactVersion = pVersion p,
                   siFromVersion = [], siToVersion = []\<rparr>
            else LiveSig \<lparr>siDecision = d, siIsDelta = True, siExactVersion = [],
                   siFromVersion = pFromVersion p, siToVersion = pToVersion p\<rparr>)"

definition signerOutcomes ::
  "codec \<Rightarrow> store \<Rightarrow> string \<Rightarrow> string \<Rightarrow> string \<times> trustEntry \<Rightarrow> sigOutcome list" where
  "signerOutcomes c s ecosystem packageID = (\<lambda>(signer, entry).
     let sigs = GetCachedSignaturesBySigner signer s
     in map (classifySig c ecosystem packageID (revokedSigTargets c sigs) signer entry) sigs)"

fun liveSigs :: "sigOutcome list \<Rightarrow> sigInfo list" where
  "liveSigs [] = []"
| "liveSigs (LiveSig i # os) = i # liveSigs os"
| "liveSigs (_ # os) = liveSigs os"

fun revokedSigs :: "sigOutcome list \<Rightarrow> contributingDecision list" where
  "revokedSigs [] = []"
| "revokedSigs (RevokedSig d # os) = d # revokedSigs os"
| "revokedSigs (_ # os) = revokedSigs os"

text \<open>\<open>iter\<close> is the order in which Go ranges over the trust set.\<close>

definition collectMatching ::
  "((string \<times> trustEntry) list \<Rightarrow> (string \<times> trustEntry) list) \<Rightarrow> codec \<Rightarrow> store \<Rightarrow> string \<Rightarrow> string
     \<Rightarrow> string \<Rightarrow> string \<Rightarrow> sigInfo list \<times> contributingDecision list" where
  "collectMatching iter c s active viewer ecosystem packageID =
     (let os = concat (map (signerOutcomes c s ecosystem packageID) (iter (buildTrustSet c s active viewer)))
      in (liveSigs os, revokedSigs os))"

section \<open>Resolving one version\<close>

definition trusted :: "status \<Rightarrow> bool" where
  "trusted st \<longleftrightarrow> st = StatusAllowed \<or> st = StatusVetted"

text \<open>One turn of the loop; \<open>rec\<close> is the recursive call, the pair is the decisions found
  so far and the memo.\<close>

definition resolveStep ::
  "(string \<Rightarrow> (string \<times> verdict) list \<Rightarrow> verdict \<times> (string \<times> verdict) list) \<Rightarrow> string \<Rightarrow> sigInfo
     \<Rightarrow> contributingDecision list \<times> (string \<times> verdict) list
     \<Rightarrow> contributingDecision list \<times> (string \<times> verdict) list" where
  "resolveStep rec version sig st = (case st of (ds, cache) \<Rightarrow>
     if \<not> siIsDelta sig then
       (if siExactVersion sig = version then (ds @ [siDecision sig], cache) else (ds, cache))
     else if CompareVersions (siFromVersion sig) version > 0 \<or> CompareVersions version (siToVersion sig) > 0
       then (ds, cache)
     else if cdLevel (siDecision sig) = DecisionRejected then (ds @ [siDecision sig], cache)
     else (case rec (siFromVersion sig) cache of (fromV, cache') \<Rightarrow>
       (if trusted (vdStatus fromV) then ds @ [siDecision sig] else ds, cache')))"

lemma resolveStep_cong [fundef_cong]:
  assumes "version = version'" and "sig = sig'"
    and "\<And>cache. siIsDelta sig' \<Longrightarrow> rec (siFromVersion sig') cache = rec' (siFromVersion sig') cache"
  shows "resolveStep rec version sig = resolveStep rec' version' sig'"
  using assms by (intro ext) (auto simp: resolveStep_def split: prod.split)

definition unknownVerdict :: verdict where
  "unknownVerdict = \<lparr>vdStatus = StatusUnknown, vdDecisions = []\<rparr>"

text \<open>A recursive call asks for the base version of a delta while one more version is
  being resolved, and there are finitely many bases.\<close>

definition bases :: "sigInfo list \<Rightarrow> string set" where
  "bases sigs = set (map siFromVersion (filter siIsDelta sigs))"

function (sequential) resolveVersion ::
  "sigInfo list \<Rightarrow> string list \<Rightarrow> string \<Rightarrow> (string \<times> verdict) list \<Rightarrow> verdict \<times> (string \<times> verdict) list" where
  "resolveVersion allSigs resolving version cache =
     (case map_of cache version of
        Some v \<Rightarrow> (v, cache)
      | None \<Rightarrow>
         if version \<in> set resolving then (unknownVerdict, cache)
         else (case fold (resolveStep (resolveVersion allSigs (version # resolving)) version) allSigs ([], cache) of
             (decisions, cache') \<Rightarrow>
               let v = \<lparr>vdStatus = aggregate decisions, vdDecisions = decisions\<rparr>
               in (v, (version, v) # cache')))"
  by pat_completeness auto

termination
proof (relation "measure (\<lambda>(sigs, resolving, version, cache).
    2 * card (bases sigs - set resolving) + (if version \<in> bases sigs then 0 else 1))")
  fix allSigs :: "sigInfo list" and resolving :: "string list" and version :: string and cache :: "(string \<times> verdict) list"
    and sig :: sigInfo and st :: "contributingDecision list \<times> (string \<times> verdict) list" and cache' :: "(string \<times> verdict) list"
  assume new: "version \<notin> set resolving" and sig: "sig \<in> set allSigs" "siIsDelta sig"
  have fin: "finite (bases allSigs)" by (simp add: bases_def)
  have base: "siFromVersion sig \<in> bases allSigs" using sig by (auto simp: bases_def)
  have le: "card (bases allSigs - set (version # resolving)) \<le> card (bases allSigs - set resolving)"
    by (rule card_mono) (use fin in auto)
  have "card (bases allSigs - set (version # resolving)) < card (bases allSigs - set resolving)"
    if "version \<in> bases allSigs"
    by (rule psubset_card_mono) (use fin new that in auto)
  then show "((allSigs, version # resolving, siFromVersion sig, cache'), allSigs, resolving, version, cache)
      \<in> measure (\<lambda>(sigs, resolving, version, cache).
        2 * card (bases sigs - set resolving) + (if version \<in> bases sigs then 0 else 1))"
    using le base by auto
qed simp

declare resolveVersion.simps [simp del]

section \<open>Spans\<close>

definition spanLess :: "versionSpan \<Rightarrow> versionSpan \<Rightarrow> bool" where
  "spanLess a b \<longleftrightarrow>
     (let d = CompareVersions (spFrom a) (spFrom b) in
      if d \<noteq> 0 then d < 0 else CompareVersions (spTo a) (spTo b) < 0)"

text \<open>The merge loop; \<open>prev\<close> is the last span of the output so far.\<close>

fun mergeLoop :: "versionSpan \<Rightarrow> versionSpan list \<Rightarrow> versionSpan list" where
  "mergeLoop prev [] = [prev]"
| "mergeLoop prev (s # ss) =
     (if spStatus prev = spStatus s \<and> CompareVersions (spFrom s) (spTo prev) \<le> 0
      then mergeLoop (prev\<lparr>
             spTo := (if CompareVersions (spTo s) (spTo prev) > 0 then spTo s else spTo prev),
             spDecisions := spDecisions prev @ spDecisions s\<rparr>) ss
      else prev # mergeLoop s ss)"

text \<open>\<open>srt less\<close> is \<open>sort.Slice\<close>.\<close>

definition mergeSpans ::
  "((versionSpan \<Rightarrow> versionSpan \<Rightarrow> bool) \<Rightarrow> versionSpan list \<Rightarrow> versionSpan list)
     \<Rightarrow> versionSpan list \<Rightarrow> versionSpan list" where
  "mergeSpans srt spans =
     (case srt spanLess spans of [] \<Rightarrow> [] | s # ss \<Rightarrow> mergeLoop s ss)"

text \<open>The raw spans, one per signature that applies; the memo is threaded through.\<close>

definition rawSpan ::
  "sigInfo list \<Rightarrow> sigInfo \<Rightarrow> versionSpan list \<times> (string \<times> verdict) list
     \<Rightarrow> versionSpan list \<times> (string \<times> verdict) list" where
  "rawSpan allSigs sig st = (case st of (spans, cache) \<Rightarrow>
     if \<not> siIsDelta sig then
       (spans @ [\<lparr>spFrom = siExactVersion sig, spTo = siExactVersion sig,
          spStatus = statusFromLevel (cdLevel (siDecision sig)), spDecisions = [siDecision sig]\<rparr>], cache)
     else if cdLevel (siDecision sig) = DecisionRejected then
       (spans @ [\<lparr>spFrom = siFromVersion sig, spTo = siToVersion sig,
          spStatus = StatusRejected, spDecisions = [siDecision sig]\<rparr>], cache)
     else (case resolveVersion allSigs [] (siFromVersion sig) cache of (fromV, cache') \<Rightarrow>
       (if trusted (vdStatus fromV) then spans @ [\<lparr>spFrom = siFromVersion sig, spTo = siToVersion sig,
          spStatus = statusFromLevel (cdLevel (siDecision sig)), spDecisions = [siDecision sig]\<rparr>]
        else spans, cache')))"

definition rawSpans :: "sigInfo list \<Rightarrow> versionSpan list" where
  "rawSpans allSigs = fst (fold (rawSpan allSigs) allSigs ([], []))"

definition Package ::
  "((versionSpan \<Rightarrow> versionSpan \<Rightarrow> bool) \<Rightarrow> versionSpan list \<Rightarrow> versionSpan list)
     \<Rightarrow> ((string \<times> trustEntry) list \<Rightarrow> (string \<times> trustEntry) list) \<Rightarrow> codec \<Rightarrow> store \<Rightarrow> string \<Rightarrow> string
     \<Rightarrow> string \<Rightarrow> string \<Rightarrow> packageVerdict" where
  "Package srt iter c s active viewer ecosystem packageID =
     (case collectMatching iter c s active viewer ecosystem packageID of (allSigs, revoked) \<Rightarrow>
       \<lparr>pvEcosystem = ecosystem, pvPackageID = packageID,
        pvSpans = mergeSpans srt (rawSpans allSigs), pvRevoked = revoked\<rparr>)"

definition Version ::
  "((string \<times> trustEntry) list \<Rightarrow> (string \<times> trustEntry) list) \<Rightarrow> codec \<Rightarrow> store \<Rightarrow> string \<Rightarrow> string
     \<Rightarrow> string \<Rightarrow> string \<Rightarrow> string \<Rightarrow> verdict" where
  "Version iter c s active viewer ecosystem packageID version =
     fst (resolveVersion (fst (collectMatching iter c s active viewer ecosystem packageID)) [] version [])"

section \<open>Precedence of the levels\<close>

lemma aggregateFrom_eq:
  "aggregateFrom hv ha ds =
     (if \<exists>d\<in>set ds. cdLevel d = ''rejected'' then StatusRejected
      else if hv \<or> (\<exists>d\<in>set ds. cdLevel d = ''vetted'') then StatusVetted
      else if ha \<or> (\<exists>d\<in>set ds. cdLevel d = ''allowed'') then StatusAllowed
      else StatusUnknown)"
  by (induction hv ha ds rule: aggregateFrom.induct) auto

lemma aggregate_eq:
  "aggregate ds =
     (if \<exists>d\<in>set ds. cdLevel d = ''rejected'' then StatusRejected
      else if \<exists>d\<in>set ds. cdLevel d = ''vetted'' then StatusVetted
      else if \<exists>d\<in>set ds. cdLevel d = ''allowed'' then StatusAllowed
      else StatusUnknown)"
  by (simp add: aggregate_def aggregateFrom_eq)

lemma aggregate_rejected: "aggregate ds = StatusRejected \<longleftrightarrow> (\<exists>d\<in>set ds. cdLevel d = ''rejected'')"
  by (simp add: aggregate_eq)

definition positive :: "string \<Rightarrow> bool" where
  "positive l \<longleftrightarrow> l = ''vetted'' \<or> l = ''allowed''"

lemma aggregate_trusted:
  "trusted (aggregate ds) \<longleftrightarrow>
     \<not> (\<exists>d\<in>set ds. cdLevel d = ''rejected'') \<and> (\<exists>d\<in>set ds. positive (cdLevel d))"
  by (auto simp: trusted_def aggregate_eq positive_def)

section \<open>Specification of a verdict\<close>

definition inRange :: "string \<Rightarrow> string \<Rightarrow> string \<Rightarrow> bool" where
  "inRange lo hi v \<longleftrightarrow> CompareVersions lo v \<le> 0 \<and> CompareVersions v hi \<le> 0"

definition applies :: "sigInfo \<Rightarrow> string \<Rightarrow> bool" where
  "applies sig v \<longleftrightarrow>
     (if siIsDelta sig then inRange (siFromVersion sig) (siToVersion sig) v else siExactVersion sig = v)"

definition rejects :: "sigInfo \<Rightarrow> bool" where
  "rejects sig \<longleftrightarrow> cdLevel (siDecision sig) = ''rejected''"

definition rejectedAt :: "sigInfo set \<Rightarrow> string \<Rightarrow> bool" where
  "rejectedAt S v \<longleftrightarrow> (\<exists>sig\<in>S. applies sig v \<and> rejects sig)"

text \<open>A version is supported when nobody rejects it and there is a positive decision on
  it, either exact or a delta from a supported version.\<close>

inductive supported :: "sigInfo set \<Rightarrow> string \<Rightarrow> bool" for S where
  exact: "sig \<in> S \<Longrightarrow> \<not> siIsDelta sig \<Longrightarrow> applies sig v \<Longrightarrow> positive (cdLevel (siDecision sig)) \<Longrightarrow>
     \<not> rejectedAt S v \<Longrightarrow> supported S v"
| delta: "sig \<in> S \<Longrightarrow> siIsDelta sig \<Longrightarrow> applies sig v \<Longrightarrow> positive (cdLevel (siDecision sig)) \<Longrightarrow>
     supported S (siFromVersion sig) \<Longrightarrow> \<not> rejectedAt S v \<Longrightarrow> supported S v"

inductive_cases supportedE: "supported S v"

lemma supported_not_rejected: "supported S v \<Longrightarrow> \<not> rejectedAt S v"
  by (auto elim: supportedE)

definition contributes :: "sigInfo list \<Rightarrow> string \<Rightarrow> sigInfo \<Rightarrow> bool" where
  "contributes sigs v sig \<longleftrightarrow>
     applies sig v \<and> (siIsDelta sig \<and> \<not> rejects sig \<longrightarrow> supported (set sigs) (siFromVersion sig))"

lemma resolveStep_eq:
  "resolveStep rec v sig (ds, cache) =
     (if \<not> applies sig v then (ds, cache)
      else if \<not> siIsDelta sig \<or> rejects sig then (ds @ [siDecision sig], cache)
      else (if trusted (vdStatus (fst (rec (siFromVersion sig) cache))) then ds @ [siDecision sig] else ds,
            snd (rec (siFromVersion sig) cache)))"
  by (auto simp: resolveStep_def applies_def inRange_def rejects_def split: prod.split)

lemma resolveVersion_cached: "map_of cache v = Some vd \<Longrightarrow> resolveVersion sigs R v cache = (vd, cache)"
  by (subst resolveVersion.simps) simp

lemma resolveVersion_cycle:
  "map_of cache v = None \<Longrightarrow> v \<in> set R \<Longrightarrow> resolveVersion sigs R v cache = (unknownVerdict, cache)"
  by (subst resolveVersion.simps) simp

lemma resolveVersion_step:
  assumes "map_of cache v = None" and "v \<notin> set R"
    and "fold (resolveStep (resolveVersion sigs (v # R)) v) sigs ([], cache) = (ds, cache')"
  shows "resolveVersion sigs R v cache =
     (\<lparr>vdStatus = aggregate ds, vdDecisions = ds\<rparr>, (v, \<lparr>vdStatus = aggregate ds, vdDecisions = ds\<rparr>) # cache')"
  using assms by (subst resolveVersion.simps) (simp add: Let_def)

section \<open>Soundness on every input\<close>

definition verdict_sound :: "sigInfo list \<Rightarrow> string \<Rightarrow> verdict \<Rightarrow> bool" where
  "verdict_sound sigs v vd \<longleftrightarrow>
     (vdStatus vd = StatusRejected \<longleftrightarrow> rejectedAt (set sigs) v)
     \<and> (trusted (vdStatus vd) \<longrightarrow> supported (set sigs) v)
     \<and> (\<exists>used. vdDecisions vd = map siDecision used
          \<and> set used \<subseteq> {sig \<in> set sigs. contributes sigs v sig})"

definition cache_sound :: "sigInfo list \<Rightarrow> (string \<times> verdict) list \<Rightarrow> bool" where
  "cache_sound sigs cache \<longleftrightarrow> (\<forall>v vd. map_of cache v = Some vd \<longrightarrow> verdict_sound sigs v vd)"

text \<open>What a recursive call guarantees.\<close>

definition call_sound ::
  "sigInfo list \<Rightarrow> (string \<Rightarrow> (string \<times> verdict) list \<Rightarrow> verdict \<times> (string \<times> verdict) list) \<Rightarrow> string \<Rightarrow> bool" where
  "call_sound sigs rec u \<longleftrightarrow> (\<forall>cache. cache_sound sigs cache \<longrightarrow>
     cache_sound sigs (snd (rec u cache))
     \<and> (trusted (vdStatus (fst (rec u cache))) \<longrightarrow> supported (set sigs) u))"

lemma fold_sound:
  assumes "set xs \<subseteq> set sigs" and "cache_sound sigs cache"
    and "\<forall>sig\<in>set xs. siIsDelta sig \<longrightarrow> call_sound sigs rec (siFromVersion sig)"
    and "set used \<subseteq> {sig \<in> set sigs. contributes sigs v sig}"
  shows "\<exists>used' cache'. fold (resolveStep rec v) xs (map siDecision used, cache) = (map siDecision used', cache')
     \<and> cache_sound sigs cache' \<and> set used' \<subseteq> {sig \<in> set sigs. contributes sigs v sig}
     \<and> set used \<union> {sig \<in> set xs. applies sig v \<and> (\<not> siIsDelta sig \<or> rejects sig)} \<subseteq> set used'"
  using assms
proof (induction xs arbitrary: used cache)
  case (Cons sig xs)
  obtain used1 cache1 where step: "resolveStep rec v sig (map siDecision used, cache) = (map siDecision used1, cache1)"
      "cache_sound sigs cache1" "set used1 \<subseteq> {sig \<in> set sigs. contributes sigs v sig}"
      "set used \<union> (if applies sig v \<and> (\<not> siIsDelta sig \<or> rejects sig) then {sig} else {}) \<subseteq> set used1"
  proof (cases "applies sig v \<and> (\<not> siIsDelta sig \<or> rejects sig)")
    case True
    then show ?thesis
      using Cons.prems that[of "used @ [sig]" cache] by (auto simp: resolveStep_eq contributes_def)
  next
    case False
    show ?thesis
    proof (cases "applies sig v")
      case True
      with False have delta: "siIsDelta sig" "\<not> rejects sig" by auto
      with Cons.prems(2,3) have call: "cache_sound sigs (snd (rec (siFromVersion sig) cache))"
          "trusted (vdStatus (fst (rec (siFromVersion sig) cache))) \<longrightarrow> supported (set sigs) (siFromVersion sig)"
        by (auto simp: call_sound_def)
      then show ?thesis
        using Cons.prems True delta
          that[of "if trusted (vdStatus (fst (rec (siFromVersion sig) cache))) then used @ [sig] else used"
            "snd (rec (siFromVersion sig) cache)"]
        by (cases "trusted (vdStatus (fst (rec (siFromVersion sig) cache)))")
          (auto simp: resolveStep_eq contributes_def)
    next
      case no: False
      then show ?thesis using Cons.prems that[of used cache] by (auto simp: resolveStep_eq)
    qed
  qed
  from Cons.IH[OF _ step(2) _ step(3)] Cons.prems(1,3) obtain used' cache'
    where rest: "fold (resolveStep rec v) xs (map siDecision used1, cache1) = (map siDecision used', cache')"
      "cache_sound sigs cache'" "set used' \<subseteq> {sig \<in> set sigs. contributes sigs v sig}"
      "set used1 \<union> {sig \<in> set xs. applies sig v \<and> (\<not> siIsDelta sig \<or> rejects sig)} \<subseteq> set used'"
    by auto
  have "{s \<in> set (sig # xs). applies s v \<and> (\<not> siIsDelta s \<or> rejects s)}
      \<subseteq> (if applies sig v \<and> (\<not> siIsDelta sig \<or> rejects sig) then {sig} else {})
        \<union> {sig \<in> set xs. applies sig v \<and> (\<not> siIsDelta sig \<or> rejects sig)}"
    by auto
  then have "set used \<union> {s \<in> set (sig # xs). applies s v \<and> (\<not> siIsDelta s \<or> rejects s)} \<subseteq> set used'"
    using rest(4) step(4) by blast
  then show ?case
    using rest(1,2,3) step(1) by (intro exI[of _ used'] exI[of _ cache']) simp
qed auto

lemma decisions_sound:
  assumes used: "set used \<subseteq> {sig \<in> set sigs. contributes sigs v sig}"
    and all: "{sig \<in> set sigs. applies sig v \<and> (\<not> siIsDelta sig \<or> rejects sig)} \<subseteq> set used"
  shows "verdict_sound sigs v \<lparr>vdStatus = aggregate (map siDecision used), vdDecisions = map siDecision used\<rparr>"
proof -
  have rej: "(\<exists>d\<in>set (map siDecision used). cdLevel d = ''rejected'') \<longleftrightarrow> rejectedAt (set sigs) v"
    using used all by (auto simp: rejectedAt_def rejects_def contributes_def)
  have "supported (set sigs) v" if "trusted (aggregate (map siDecision used))"
  proof -
    from that obtain sig where sig: "sig \<in> set used" "positive (cdLevel (siDecision sig))" and ok: "\<not> rejectedAt (set sigs) v"
      using rej by (auto simp: aggregate_trusted)
    have "\<not> rejects sig" using sig(2) by (auto simp: rejects_def positive_def)
    then show ?thesis
      using sig used ok supported.exact[of sig "set sigs" v] supported.delta[of sig "set sigs" v]
      by (auto simp: contributes_def)
  qed
  then show ?thesis
    using used rej by (auto simp: verdict_sound_def aggregate_rejected)
qed

lemma resolveVersion_sound:
  "cache_sound sigs cache \<Longrightarrow>
     cache_sound sigs (snd (resolveVersion sigs R v cache))
     \<and> (verdict_sound sigs v (fst (resolveVersion sigs R v cache))
        \<or> v \<in> set R \<and> fst (resolveVersion sigs R v cache) = unknownVerdict)"
proof (induction sigs R v cache rule: resolveVersion.induct)
  case (1 sigs R v cache)
  consider vd where "map_of cache v = Some vd" | "map_of cache v = None" "v \<in> set R"
    | "map_of cache v = None" "v \<notin> set R" by (cases "map_of cache v") auto
  then show ?case
  proof cases
    case 1
    then show ?thesis
      using "1.prems" by (auto simp: resolveVersion_cached cache_sound_def)
  next
    case 2
    then show ?thesis using "1.prems" by (simp add: resolveVersion_cycle)
  next
    case 3
    have calls: "call_sound sigs (resolveVersion sigs (v # R)) (siFromVersion sig)"
      if "sig \<in> set sigs" "siIsDelta sig" for sig
      unfolding call_sound_def
    proof (intro allI impI conjI)
      fix cache'
      assume "cache_sound sigs cache'"
      from "1.IH"[OF 3 that this]
      show "cache_sound sigs (snd (resolveVersion sigs (v # R) (siFromVersion sig) cache'))"
        and "trusted (vdStatus (fst (resolveVersion sigs (v # R) (siFromVersion sig) cache')))
          \<Longrightarrow> supported (set sigs) (siFromVersion sig)"
        by (auto simp: verdict_sound_def unknownVerdict_def trusted_def)
    qed
    obtain used cache' where fold: "fold (resolveStep (resolveVersion sigs (v # R)) v) sigs ([], cache)
          = (map siDecision used, cache')" "cache_sound sigs cache'"
        "set used \<subseteq> {sig \<in> set sigs. contributes sigs v sig}"
        "{sig \<in> set sigs. applies sig v \<and> (\<not> siIsDelta sig \<or> rejects sig)} \<subseteq> set used"
      using fold_sound[OF order_refl "1.prems", of "resolveVersion sigs (v # R)" "[]" v] calls by auto
    then show ?thesis
      using decisions_sound[OF fold(3,4)]
      by (auto simp: resolveVersion_step[OF 3 fold(1)] cache_sound_def)
  qed
qed

lemma verdict_of_sigs_sound: "verdict_sound sigs v (fst (resolveVersion sigs [] v []))"
  using resolveVersion_sound[of sigs "[]" "[]" v] by (auto simp: cache_sound_def)

section \<open>Exactness without aliases\<close>

text \<open>No two different strings among the version asked for and the bases of the deltas
  compare equal (as "1.0" and "v1.0" do).\<close>

definition no_alias :: "string set \<Rightarrow> bool" where
  "no_alias A \<longleftrightarrow> (\<forall>a\<in>A. \<forall>b\<in>A. CompareVersions a b = 0 \<longrightarrow> a = b)"

text \<open>A delta says nothing about its own base.\<close>

definition counts :: "sigInfo list \<Rightarrow> string \<Rightarrow> sigInfo \<Rightarrow> bool" where
  "counts sigs v sig \<longleftrightarrow> applies sig v
     \<and> (siIsDelta sig \<and> \<not> rejects sig \<longrightarrow> siFromVersion sig \<noteq> v \<and> supported (set sigs) (siFromVersion sig))"

definition specVerdict :: "sigInfo list \<Rightarrow> string \<Rightarrow> verdict" where
  "specVerdict sigs v =
     (let ds = map siDecision (filter (counts sigs v) sigs)
      in \<lparr>vdStatus = aggregate ds, vdDecisions = ds\<rparr>)"

lemma counts_contributes: "counts sigs v sig \<Longrightarrow> contributes sigs v sig"
  by (auto simp: counts_def contributes_def)

lemma specVerdict_sound: "verdict_sound sigs v (specVerdict sigs v)"
  unfolding specVerdict_def Let_def
  by (rule decisions_sound) (auto simp: counts_contributes, auto simp: counts_def)

lemma supported_counts:
  "supported (set sigs) v \<Longrightarrow> \<exists>sig\<in>set sigs. counts sigs v sig \<and> positive (cdLevel (siDecision sig))"
proof (induction rule: supported.induct)
  case (exact sig v)
  then show ?case by (auto simp: counts_def)
next
  case (delta sig v)
  then show ?case
    by (cases "siFromVersion sig = v") (auto simp: counts_def)
qed

lemma specVerdict_trusted: "trusted (vdStatus (specVerdict sigs v)) \<longleftrightarrow> supported (set sigs) v"
proof
  assume s: "supported (set sigs) v"
  have "\<not> (\<exists>sig\<in>set sigs. counts sigs v sig \<and> cdLevel (siDecision sig) = ''rejected'')"
    using supported_not_rejected[OF s] by (auto simp: rejectedAt_def counts_def rejects_def)
  then show "trusted (vdStatus (specVerdict sigs v))"
    using supported_counts[OF s] by (auto simp: specVerdict_def Let_def aggregate_trusted)
qed (use specVerdict_sound in \<open>auto simp: verdict_sound_def\<close>)

lemma specVerdict_rejected: "vdStatus (specVerdict sigs v) = StatusRejected \<longleftrightarrow> rejectedAt (set sigs) v"
  using specVerdict_sound by (auto simp: verdict_sound_def)

definition cache_exact :: "sigInfo list \<Rightarrow> (string \<times> verdict) list \<Rightarrow> bool" where
  "cache_exact sigs cache \<longleftrightarrow> (\<forall>v vd. map_of cache v = Some vd \<longrightarrow> vd = specVerdict sigs v)"

lemma cache_exact_cons: "cache_exact sigs cache \<Longrightarrow> cache_exact sigs ((v, specVerdict sigs v) # cache)"
  unfolding cache_exact_def by (metis fun_upd_apply map_of_Cons_code(2) option.inject)

definition call_exact ::
  "sigInfo list \<Rightarrow> (string \<Rightarrow> (string \<times> verdict) list \<Rightarrow> verdict \<times> (string \<times> verdict) list)
     \<Rightarrow> string \<Rightarrow> string set \<Rightarrow> bool" where
  "call_exact sigs rec u D \<longleftrightarrow> (\<forall>cache. cache_exact sigs cache \<longrightarrow>
     fst (rec u cache) = specVerdict sigs u \<and> cache_exact sigs (snd (rec u cache))
     \<and> dom (map_of (snd (rec u cache))) \<subseteq> dom (map_of cache) \<union> D)"

lemma fold_exact:
  assumes "cache_exact sigs cache" and "v \<notin> dom (map_of cache)" and "v \<notin> D"
    and "\<forall>sig\<in>set xs. siIsDelta sig \<and> applies sig v \<and> siFromVersion sig \<noteq> v \<longrightarrow>
      call_exact sigs rec (siFromVersion sig) D"
    and "\<And>cache. v \<notin> dom (map_of cache) \<Longrightarrow> rec v cache = (unknownVerdict, cache)"
  shows "\<exists>cache'. fold (resolveStep rec v) xs (ds, cache) = (ds @ map siDecision (filter (counts sigs v) xs), cache')
     \<and> cache_exact sigs cache' \<and> dom (map_of cache') \<subseteq> dom (map_of cache) \<union> D"
  using assms(1,2,4)
proof (induction xs arbitrary: ds cache)
  case (Cons sig xs)
  obtain cache1 where step: "resolveStep rec v sig (ds, cache)
        = (ds @ map siDecision (filter (counts sigs v) [sig]), cache1)"
      "cache_exact sigs cache1" "dom (map_of cache1) \<subseteq> dom (map_of cache) \<union> D"
  proof (cases "applies sig v \<and> siIsDelta sig \<and> \<not> rejects sig")
    case False
    then have "resolveStep rec v sig (ds, cache) = (ds @ map siDecision (filter (counts sigs v) [sig]), cache)"
      by (auto simp: resolveStep_eq counts_def)
    then show ?thesis
      using Cons.prems(1) by (rule that) simp
  next
    case app: True
    show ?thesis
    proof (cases "siFromVersion sig = v")
      case True
      then have "resolveStep rec v sig (ds, cache) = (ds @ map siDecision (filter (counts sigs v) [sig]), cache)"
        using app assms(5)[of cache, OF Cons.prems(2)]
        by (auto simp: resolveStep_eq counts_def unknownVerdict_def trusted_def)
      then show ?thesis
        using Cons.prems(1) by (rule that) simp
    next
      case False
      with Cons.prems(1,3) app have call: "fst (rec (siFromVersion sig) cache) = specVerdict sigs (siFromVersion sig)"
          "cache_exact sigs (snd (rec (siFromVersion sig) cache))"
          "dom (map_of (snd (rec (siFromVersion sig) cache))) \<subseteq> dom (map_of cache) \<union> D"
        by (auto simp: call_exact_def)
      have "resolveStep rec v sig (ds, cache)
          = (ds @ map siDecision (filter (counts sigs v) [sig]), snd (rec (siFromVersion sig) cache))"
        using app False call(1) by (auto simp: resolveStep_eq counts_def specVerdict_trusted)
      then show ?thesis
        using call(2,3) by (rule that)
    qed
  qed
  have "v \<notin> dom (map_of cache1)" using step(3) Cons.prems(2) assms(3) by auto
  from Cons.IH[OF step(2) this, of "ds @ map siDecision (filter (counts sigs v) [sig])"] Cons.prems(3)
  obtain cache' where rest: "fold (resolveStep rec v) xs (ds @ map siDecision (filter (counts sigs v) [sig]), cache1)
        = ((ds @ map siDecision (filter (counts sigs v) [sig])) @ map siDecision (filter (counts sigs v) xs), cache')"
      "cache_exact sigs cache'" "dom (map_of cache') \<subseteq> dom (map_of cache1) \<union> D"
    by auto
  have "dom (map_of cache') \<subseteq> dom (map_of cache) \<union> D"
    using rest(3) step(3) by blast
  then show ?case
    using rest(1,2) step(1) by (intro exI[of _ cache']) simp
qed auto

lemma applies_delta_le: "siIsDelta sig \<Longrightarrow> applies sig v \<Longrightarrow> CompareVersions (siFromVersion sig) v \<le> 0"
  by (simp add: applies_def inRange_def)

lemma resolveVersion_exact:
  "no_alias A \<Longrightarrow> bases sigs \<subseteq> A \<Longrightarrow> v \<in> A \<Longrightarrow> \<forall>r\<in>set R. CompareVersions v r < 0 \<Longrightarrow> cache_exact sigs cache \<Longrightarrow>
     fst (resolveVersion sigs R v cache) = specVerdict sigs v
     \<and> cache_exact sigs (snd (resolveVersion sigs R v cache))
     \<and> dom (map_of (snd (resolveVersion sigs R v cache)))
         \<subseteq> dom (map_of cache) \<union> {u. CompareVersions u v \<le> 0}"
proof (induction sigs R v cache rule: resolveVersion.induct)
  case (1 sigs R v cache)
  show ?case
  proof (cases "map_of cache v")
    case (Some vd)
    then show ?thesis
      using "1.prems"(5) by (auto simp: resolveVersion_cached cache_exact_def)
  next
    case None
    have R: "v \<notin> set R" using "1.prems"(4) by (auto dest!: bspec)
    let ?D = "{u. CompareVersions u v < 0}"
    have calls: "call_exact sigs (resolveVersion sigs (v # R)) (siFromVersion sig) ?D"
      if sig: "sig \<in> set sigs" "siIsDelta sig" "applies sig v" "siFromVersion sig \<noteq> v" for sig
    proof -
      let ?u = "siFromVersion sig"
      have u: "?u \<in> A" using sig(1,2) "1.prems"(2) by (auto simp: bases_def)
      have lt: "CompareVersions ?u v < 0"
        using applies_delta_le[OF sig(2,3)] sig(4) u "1.prems"(1,3) by (auto simp: no_alias_def order_less_le)
      have below: "\<forall>r\<in>set (v # R). CompareVersions ?u r < 0"
        using lt "1.prems"(4) rv.cmp_less_trans[OF lt] by auto
      have le: "CompareVersions w v < 0" if "CompareVersions w ?u \<le> 0" for w
        using rv.cmp_le_less_trans[OF that lt] .
      show ?thesis
        unfolding call_exact_def
      proof (intro allI impI)
        fix cache'
        assume "cache_exact sigs cache'"
        from "1.IH"[OF None R sig(1,2) "1.prems"(1,2) u below this] le
        show "fst (resolveVersion sigs (v # R) ?u cache') = specVerdict sigs ?u
            \<and> cache_exact sigs (snd (resolveVersion sigs (v # R) ?u cache'))
            \<and> dom (map_of (snd (resolveVersion sigs (v # R) ?u cache'))) \<subseteq> dom (map_of cache') \<union> ?D"
          by blast
      qed
    qed
    obtain cache' where fold: "fold (resolveStep (resolveVersion sigs (v # R)) v) sigs ([], cache)
          = (map siDecision (filter (counts sigs v) sigs), cache')"
        "cache_exact sigs cache'" "dom (map_of cache') \<subseteq> dom (map_of cache) \<union> ?D"
      using fold_exact[OF "1.prems"(5), of v ?D sigs "resolveVersion sigs (v # R)" "[]"] None calls
      by (auto simp: domIff resolveVersion_cycle)
    have res: "resolveVersion sigs R v cache = (specVerdict sigs v, (v, specVerdict sigs v) # cache')"
      using resolveVersion_step[OF None R fold(1)] by (simp add: specVerdict_def Let_def)
    have "dom (map_of cache') \<subseteq> dom (map_of cache) \<union> {u. CompareVersions u v \<le> 0}"
      by (rule subset_trans[OF fold(3)]) auto
    then have dom: "dom (map_of ((v, specVerdict sigs v) # cache'))
        \<subseteq> dom (map_of cache) \<union> {u. CompareVersions u v \<le> 0}"
      by simp
    have exact: "cache_exact sigs ((v, specVerdict sigs v) # cache')"
      using fold(2) by (rule cache_exact_cons)
    show ?thesis
      unfolding res fst_conv snd_conv by (intro conjI refl exact dom)
  qed
qed

lemma resolveVersion_spec:
  assumes "no_alias (insert v (bases sigs))"
  shows "fst (resolveVersion sigs [] v []) = specVerdict sigs v"
  using resolveVersion_exact[OF assms, of sigs v "[]" "[]"] by (auto simp: cache_exact_def)

section \<open>Merged spans\<close>

definition coveredBy :: "status \<Rightarrow> string \<Rightarrow> versionSpan list \<Rightarrow> bool" where
  "coveredBy st v spans \<longleftrightarrow> (\<exists>sp\<in>set spans. spStatus sp = st \<and> inRange (spFrom sp) (spTo sp) v)"

fun separated :: "versionSpan list \<Rightarrow> bool" where
  "separated [] = True"
| "separated [a] = True"
| "separated (a # b # spans) =
     (\<not> (spStatus a = spStatus b \<and> CompareVersions (spFrom b) (spTo a) \<le> 0) \<and> separated (b # spans))"

definition fromSorted :: "versionSpan list \<Rightarrow> bool" where
  "fromSorted spans \<longleftrightarrow> sorted_wrt (\<lambda>a b. CompareVersions (spFrom a) (spFrom b) \<le> 0) spans"

text \<open>What the documentation of \<open>sort.Slice\<close> promises for \<open>spanLess\<close>, which is a
  strict weak order.\<close>

definition sliceSorts ::
  "((versionSpan \<Rightarrow> versionSpan \<Rightarrow> bool) \<Rightarrow> versionSpan list \<Rightarrow> versionSpan list) \<Rightarrow> bool" where
  "sliceSorts srt \<longleftrightarrow> (\<forall>spans. mset (srt spanLess spans) = mset spans
     \<and> sorted_wrt (\<lambda>a b. \<not> spanLess b a) (srt spanLess spans))"

lemma spanLess_from: "\<not> spanLess b a \<Longrightarrow> CompareVersions (spFrom a) (spFrom b) \<le> 0"
  using rv.cmp_antisym[of "spFrom a" "spFrom b"] by (auto simp: spanLess_def Let_def split: if_splits)

lemma sorted_wrt_from: "sorted_wrt (\<lambda>a b. \<not> spanLess b a) spans \<Longrightarrow> fromSorted spans"
  unfolding fromSorted_def by (rule sorted_wrt_mono_rel) (auto dest: spanLess_from)

lemma mergeLoop_from: "\<exists>sp rest. mergeLoop prev ss = sp # rest \<and> spFrom sp = spFrom prev \<and> spStatus sp = spStatus prev"
  by (induction prev ss rule: mergeLoop.induct) auto

lemma fromSorted_merge:
  "fromSorted (prev # s # ss) \<Longrightarrow> spFrom prev' = spFrom prev \<Longrightarrow> fromSorted (prev' # ss)"
  by (auto simp: fromSorted_def)

text \<open>Two ranges that touch cover what their union covers.\<close>

lemma inRange_union:
  assumes "CompareVersions a c \<le> 0" and "CompareVersions c b \<le> 0"
  shows "inRange a (if CompareVersions d b > 0 then d else b) v \<longleftrightarrow> inRange a b v \<or> inRange c d v"
proof (cases "CompareVersions v b \<le> 0")
  case True
  have "CompareVersions v d \<le> 0" if "CompareVersions d b > 0"
    using rv.cmp_le_less_trans[OF True, of d] that rv.cmp_antisym[of b d] by simp
  moreover have "CompareVersions a v \<le> 0" if "inRange c d v"
    using rv.cmp_trans[OF assms(1)] that by (auto simp: inRange_def)
  ultimately show ?thesis using True by (auto simp: inRange_def)
next
  case False
  then have "CompareVersions b v \<le> 0" using rv.cmp_antisym[of b v] by simp
  then have c: "CompareVersions c v \<le> 0" "CompareVersions a v \<le> 0"
    using rv.cmp_trans[OF assms(2)] rv.cmp_trans[OF assms(1)] by blast+
  have "CompareVersions d b > 0" if "CompareVersions v d \<le> 0"
    using rv.cmp_trans[OF that, of b] False by (meson not_le)
  then show ?thesis using False c by (auto simp: inRange_def)
qed

lemma mergeLoop_covers:
  "fromSorted (prev # ss) \<Longrightarrow> coveredBy st v (mergeLoop prev ss) \<longleftrightarrow> coveredBy st v (prev # ss)"
proof (induction prev ss rule: mergeLoop.induct)
  case (2 prev s ss)
  show ?case
  proof (cases "spStatus prev = spStatus s \<and> CompareVersions (spFrom s) (spTo prev) \<le> 0")
    case True
    let ?m = "prev\<lparr>spTo := (if CompareVersions (spTo s) (spTo prev) > 0 then spTo s else spTo prev),
             spDecisions := spDecisions prev @ spDecisions s\<rparr>"
    have "CompareVersions (spFrom prev) (spFrom s) \<le> 0"
      using 2(3) by (simp add: fromSorted_def)
    then have "coveredBy st v [?m] \<longleftrightarrow> coveredBy st v [prev, s]"
      using inRange_union[of "spFrom prev" "spFrom s" "spTo prev" "spTo s" v] True
      by (auto simp: coveredBy_def)
    moreover have "coveredBy st v (mergeLoop ?m ss) \<longleftrightarrow> coveredBy st v (?m # ss)"
      by (rule 2(1)[OF True]) (use fromSorted_merge[OF 2(3)] in simp)
    ultimately show ?thesis
      using True by (auto simp: coveredBy_def)
  next
    case False
    then show ?thesis using 2 by (auto simp: coveredBy_def fromSorted_def)
  qed
qed simp

lemma mergeLoop_separated: "separated (mergeLoop prev ss)"
proof (induction prev ss rule: mergeLoop.induct)
  case (2 prev s ss)
  then show ?case
    using mergeLoop_from[of s ss] by auto
qed simp

lemma mergeLoop_sorted: "fromSorted (prev # ss) \<Longrightarrow> fromSorted (mergeLoop prev ss)"
proof (induction prev ss rule: mergeLoop.induct)
  case (2 prev s ss)
  show ?case
  proof (cases "spStatus prev = spStatus s \<and> CompareVersions (spFrom s) (spTo prev) \<le> 0")
    case True
    then show ?thesis
      using 2(1)[OF True fromSorted_merge[OF 2(3)]] by simp
  next
    case False
    have from_in: "\<exists>t\<in>set (s # ss). spFrom sp = spFrom t" if "sp \<in> set (mergeLoop s ss)" for sp
      using that by (induction s ss rule: mergeLoop.induct) (auto split: if_splits)
    have "fromSorted (mergeLoop s ss)"
      using 2(2)[OF False] 2(3) by (simp add: fromSorted_def)
    moreover have "\<forall>sp\<in>set (mergeLoop s ss). CompareVersions (spFrom prev) (spFrom sp) \<le> 0"
    proof
      fix sp
      assume "sp \<in> set (mergeLoop s ss)"
      then obtain t where "t \<in> set (s # ss)" "spFrom sp = spFrom t" using from_in by blast
      then show "CompareVersions (spFrom prev) (spFrom sp) \<le> 0"
        using 2(3) by (auto simp: fromSorted_def)
    qed
    moreover have "mergeLoop prev (s # ss) = prev # mergeLoop s ss"
      using False by (simp only: mergeLoop.simps if_False)
    ultimately show ?thesis
      by (simp only: fromSorted_def sorted_wrt.simps simp_thms)
  qed
qed simp

lemma mergeLoop_decisions:
  "mset (concat (map spDecisions (mergeLoop prev ss))) = mset (concat (map spDecisions (prev # ss)))"
  by (induction prev ss rule: mergeLoop.induct) auto

lemma mset_concat_map: "mset (concat (map f xs)) = \<Sum>\<^sub># (image_mset (\<lambda>x. mset (f x)) (mset xs))"
  by (induction xs) auto

lemma mergeSpans_covers:
  assumes "sliceSorts srt"
  shows "coveredBy st v (mergeSpans srt spans) \<longleftrightarrow> coveredBy st v spans"
proof -
  have sorted: "mset (srt spanLess spans) = mset spans" "fromSorted (srt spanLess spans)"
    using assms sorted_wrt_from by (auto simp: sliceSorts_def)
  then have "set (srt spanLess spans) = set spans"
    by (metis set_mset_mset)
  then have "coveredBy st v (srt spanLess spans) \<longleftrightarrow> coveredBy st v spans"
    by (simp add: coveredBy_def)
  moreover have "coveredBy st v (mergeSpans srt spans) \<longleftrightarrow> coveredBy st v (srt spanLess spans)"
    using sorted(2) mergeLoop_covers[of "hd (srt spanLess spans)" "tl (srt spanLess spans)" st v]
    by (cases "srt spanLess spans") (simp_all add: mergeSpans_def)
  ultimately show ?thesis by simp
qed

text \<open>C4: Merging spans loses and invents nothing: for every status the merged spans cover
  exactly the versions the raw spans cover, they carry the same decisions, they are in
  order of their lower ends, and neighbours of one status do not touch.\<close>

theorem mergeSpans_correct:
  assumes "sliceSorts srt"
  shows "(coveredBy st v (mergeSpans srt spans) \<longleftrightarrow> coveredBy st v spans)
    \<and> mset (concat (map spDecisions (mergeSpans srt spans))) = mset (concat (map spDecisions spans))
    \<and> fromSorted (mergeSpans srt spans) \<and> separated (mergeSpans srt spans)"
proof (intro conjI)
  have sorted: "mset (srt spanLess spans) = mset spans" "fromSorted (srt spanLess spans)"
    using assms sorted_wrt_from by (auto simp: sliceSorts_def)
  show "coveredBy st v (mergeSpans srt spans) \<longleftrightarrow> coveredBy st v spans"
    by (rule mergeSpans_covers[OF assms])
  have "mset (concat (map spDecisions (mergeSpans srt spans))) = mset (concat (map spDecisions (srt spanLess spans)))"
    by (cases "srt spanLess spans") (simp_all add: mergeSpans_def mergeLoop_decisions)
  then show "mset (concat (map spDecisions (mergeSpans srt spans))) = mset (concat (map spDecisions spans))"
    by (simp add: mset_concat_map sorted(1))
  show "fromSorted (mergeSpans srt spans)" "separated (mergeSpans srt spans)"
    using sorted(2) mergeLoop_sorted mergeLoop_separated
    by (cases "srt spanLess spans"; simp add: mergeSpans_def)+
qed

text \<open>Insertion sort is one such \<open>sort.Slice\<close>.\<close>

fun insertBy :: "('a \<Rightarrow> 'a \<Rightarrow> bool) \<Rightarrow> 'a \<Rightarrow> 'a list \<Rightarrow> 'a list" where
  "insertBy lt x [] = [x]"
| "insertBy lt x (y # ys) = (if lt y x then y # insertBy lt x ys else x # y # ys)"

fun insertionSort :: "('a \<Rightarrow> 'a \<Rightarrow> bool) \<Rightarrow> 'a list \<Rightarrow> 'a list" where
  "insertionSort lt [] = []"
| "insertionSort lt (x # xs) = insertBy lt x (insertionSort lt xs)"

definition spanCmp :: "versionSpan \<Rightarrow> versionSpan \<Rightarrow> int" where
  "spanCmp a b = then_cmp (CompareVersions (spFrom a) (spFrom b)) (CompareVersions (spTo a) (spTo b))"

lemma version_order_spanCmp: "version_order spanCmp"
  unfolding spanCmp_def
  by (intro version_order_then version_order_on[OF version_order_CompareVersions, where f = spFrom]
      version_order_on[OF version_order_CompareVersions, where f = spTo])

interpretation sp: version_order spanCmp
  by (rule version_order_spanCmp)

lemma spanLess_cmp: "spanLess a b \<longleftrightarrow> spanCmp a b < 0"
  by (simp add: spanLess_def spanCmp_def then_cmp_def Let_def)

lemma set_insertBy [simp]: "set (insertBy lt x ys) = insert x (set ys)"
  by (induction ys) auto

lemma mset_insertBy [simp]: "mset (insertBy lt x ys) = add_mset x (mset ys)"
  by (induction ys) auto

lemma sliceSorts_insertionSort: "sliceSorts insertionSort"
proof -
  have perm: "mset (insertionSort lt xs) = mset xs" for lt and xs :: "versionSpan list"
    by (induction xs) auto
  have ins: "sorted_wrt (\<lambda>a b. \<not> spanLess b a) (insertBy spanLess x ys)"
    if "sorted_wrt (\<lambda>a b. \<not> spanLess b a) ys" for x ys
    using that
  proof (induction ys)
    case (Cons y ys)
    then show ?case
      using sp.less_asym[of y x] sp.incomparable_trans[of _ y x] by (auto simp: spanLess_cmp)
  qed simp
  have "sorted_wrt (\<lambda>a b. \<not> spanLess b a) (insertionSort spanLess xs)" for xs
    by (induction xs) (auto intro: ins)
  with perm show ?thesis by (simp add: sliceSorts_def)
qed

lemma mergeSpans_correct_witness:
  "coveredBy StatusVetted ''1.3'' (mergeSpans insertionSort
     [\<lparr>spFrom = ''1.1'', spTo = ''1.3'', spStatus = StatusVetted, spDecisions = []\<rparr>,
      \<lparr>spFrom = ''1.0'', spTo = ''1.2'', spStatus = StatusVetted, spDecisions = []\<rparr>])"
proof -
  let ?spans = "[\<lparr>spFrom = ''1.1'', spTo = ''1.3'', spStatus = StatusVetted, spDecisions = []\<rparr>,
      \<lparr>spFrom = ''1.0'', spTo = ''1.2'', spStatus = StatusVetted, spDecisions = []\<rparr>]"
  have "inRange ''1.1'' ''1.3'' ''1.3''"
    unfolding inRange_def by code_simp
  then have "coveredBy StatusVetted ''1.3'' ?spans"
    by (simp add: coveredBy_def)
  then show ?thesis
    using mergeSpans_correct[OF sliceSorts_insertionSort, of StatusVetted "''1.3''" ?spans] by blast
qed

section \<open>What the trust set contributes\<close>

definition sigInfoOf :: "string \<Rightarrow> trustEntry \<Rightarrow> cachedSignature \<Rightarrow> payload \<Rightarrow> sigInfo" where
  "sigInfoOf signer entry g p =
     (if pType p = ''decision''
      then \<lparr>siDecision = decisionOf signer entry g p, siIsDelta = False, siExactVersion = pVersion p,
             siFromVersion = [], siToVersion = []\<rparr>
      else \<lparr>siDecision = decisionOf signer entry g p, siIsDelta = True, siExactVersion = [],
             siFromVersion = pFromVersion p, siToVersion = pToVersion p\<rparr>)"

text \<open>Some cached signature withdraws the one with this id.\<close>

definition withdrawnBy :: "codec \<Rightarrow> store \<Rightarrow> string \<Rightarrow> string \<Rightarrow> bool" where
  "withdrawnBy c s signer i \<longleftrightarrow> (\<exists>r\<in>set (cachedSignatures s). csSigner r = signer \<and>
     (\<exists>q. decPayload c (csPayload r) = Some q \<and> pType q = ''revocation'' \<and> pTargetID q = i))"

text \<open>A decision on the package by somebody in the trust set, not withdrawn by its signer, and
  a rejection when the signer is trusted for vetoes only.\<close>

definition liveIn :: "codec \<Rightarrow> store \<Rightarrow> string \<Rightarrow> string \<Rightarrow> string \<Rightarrow> string \<Rightarrow> sigInfo \<Rightarrow> bool" where
  "liveIn c s active viewer ecosystem packageID sig \<longleftrightarrow>
     (\<exists>signer entry g p. (signer, entry) \<in> set (buildTrustSet c s active viewer)
        \<and> g \<in> set (cachedSignatures s) \<and> csSigner g = signer
        \<and> decPayload c (csPayload g) = Some p \<and> pEcosystem p = ecosystem \<and> pPackageID p = packageID
        \<and> (teVetoOnly entry \<longrightarrow> pLevel p = ''rejected'')
        \<and> (pType p = ''decision'' \<or> pType p = ''delta_decision'')
        \<and> \<not> withdrawnBy c s signer (csID g) \<and> sig = sigInfoOf signer entry g p)"

lemma set_liveSigs: "sig \<in> set (liveSigs os) \<longleftrightarrow> LiveSig sig \<in> set os"
  by (induction os rule: liveSigs.induct) auto

lemma set_revokedSigs: "d \<in> set (revokedSigs os) \<longleftrightarrow> RevokedSig d \<in> set os"
  by (induction os rule: revokedSigs.induct) auto

lemma signerSigs_set: "set (GetCachedSignaturesBySigner signer s) = {g \<in> set (cachedSignatures s). csSigner g = signer}"
  by (simp add: GetCachedSignaturesBySigner_def)

lemma revokedSigTargets_iff:
  "i \<in> set (revokedSigTargets c (GetCachedSignaturesBySigner signer s)) \<longleftrightarrow> withdrawnBy c s signer i"
  by (force simp: revokedSigTargets_def withdrawnBy_def signerSigs_set split: option.splits if_splits)

lemma classifySig_live:
  "classifySig c ecosystem packageID R signer entry g = LiveSig sig \<longleftrightarrow>
     (\<exists>p. decPayload c (csPayload g) = Some p \<and> pEcosystem p = ecosystem \<and> pPackageID p = packageID
        \<and> (teVetoOnly entry \<longrightarrow> pLevel p = ''rejected'')
        \<and> (pType p = ''decision'' \<or> pType p = ''delta_decision'')
        \<and> csID g \<notin> set R \<and> sig = sigInfoOf signer entry g p)"
  by (auto simp: classifySig_def sigInfoOf_def Let_def split: option.splits)

lemma collect_live:
  assumes "\<And>xs. set (iter xs) = set xs"
  shows "sig \<in> set (fst (collectMatching iter c s active viewer ecosystem packageID)) \<longleftrightarrow>
     liveIn c s active viewer ecosystem packageID sig"
proof -
  have "sig \<in> set (fst (collectMatching iter c s active viewer ecosystem packageID)) \<longleftrightarrow>
      (\<exists>(signer, entry)\<in>set (buildTrustSet c s active viewer).
         \<exists>g\<in>set (GetCachedSignaturesBySigner signer s).
           classifySig c ecosystem packageID (revokedSigTargets c (GetCachedSignaturesBySigner signer s))
             signer entry g = LiveSig sig)"
    by (simp add: collectMatching_def Let_def set_liveSigs signerOutcomes_def assms split_beta image_iff
        eq_commute[of "LiveSig sig"])
  also have "\<dots> \<longleftrightarrow> liveIn c s active viewer ecosystem packageID sig"
    unfolding classifySig_live liveIn_def revokedSigTargets_iff signerSigs_set by blast
  finally show ?thesis .
qed

definition liveSet :: "codec \<Rightarrow> store \<Rightarrow> string \<Rightarrow> string \<Rightarrow> string \<Rightarrow> string \<Rightarrow> sigInfo set" where
  "liveSet c s active viewer ecosystem packageID = {sig. liveIn c s active viewer ecosystem packageID sig}"

lemma collect_liveSet:
  "(\<And>xs. set (iter xs) = set xs) \<Longrightarrow>
     set (fst (collectMatching iter c s active viewer ecosystem packageID)) = liveSet c s active viewer ecosystem packageID"
  using collect_live by (auto simp: liveSet_def)

lemma aggregate_cong: "set ds = set ds' \<Longrightarrow> aggregate ds = aggregate ds'"
  by (simp add: aggregate_eq)

section \<open>Verdicts end to end\<close>

text \<open>A small world for the examples: \<open>me\<close> trusts \<open>bob\<close>, who vetted 1.0, allowed the
  step from 1.0 to 1.1 and rejected 2.0.\<close>

definition demoPayload :: "string \<Rightarrow> string \<Rightarrow> string \<Rightarrow> string \<Rightarrow> string \<Rightarrow> payload" where
  "demoPayload ty level version lo hi = emptyPayload\<lparr>pType := ty, pSigner := ''bob'', pEcosystem := ''npm'',
     pPackageID := ''left-pad'', pLevel := level, pVersion := version, pFromVersion := lo, pToVersion := hi\<rparr>"

definition demoCodec :: codec where
  "demoCodec = \<lparr>decPayload = map_of
      [(''s1'', demoPayload ''decision'' ''vetted'' ''1.0'' [] []),
       (''s2'', demoPayload ''delta_decision'' ''allowed'' [] ''1.0'' ''2.0''),
       (''s3'', demoPayload ''decision'' ''rejected'' ''2.0'' [] [])],
     decRef = (\<lambda>_. None), decType = (\<lambda>_. None)\<rparr>"

definition demoSig :: "string \<Rightarrow> cachedSignature" where
  "demoSig i = \<lparr>csID = i, csSigner = ''bob'', csPayload = i, csAlgorithm = ''ed25519'', csSig = [],
     csUploadedAt = 0, csRevoked = False, csRevokedAt = None, csFetchedAt = 0\<rparr>"

definition demoStore :: store where
  "demoStore = emptyStore\<lparr>peers := [netPeer ''bob''],
     cachedSignatures := [demoSig ''s1'', demoSig ''s2'', demoSig ''s3'']\<rparr>"

abbreviation demoVersion :: "string \<Rightarrow> verdict" where
  "demoVersion v \<equiv> Version (\<lambda>xs. xs) demoCodec demoStore ''me'' ''me'' ''npm'' ''left-pad'' v"

abbreviation demoLive :: "sigInfo set" where
  "demoLive \<equiv> liveSet demoCodec demoStore ''me'' ''me'' ''npm'' ''left-pad''"

lemma Version_sound:
  assumes "\<forall>xs. set (iter xs) = set xs"
  shows "(vdStatus (Version iter c s active viewer ecosystem packageID v) = StatusRejected \<longleftrightarrow>
           rejectedAt (liveSet c s active viewer ecosystem packageID) v)
    \<and> (trusted (vdStatus (Version iter c s active viewer ecosystem packageID v)) \<longrightarrow>
           supported (liveSet c s active viewer ecosystem packageID) v)"
  using verdict_of_sigs_sound[of "fst (collectMatching iter c s active viewer ecosystem packageID)" v]
    collect_liveSet[of iter c s active viewer ecosystem packageID] assms
  by (simp add: Version_def verdict_sound_def)

text \<open>C2: A rejection always wins: a version is rejected exactly when some user in the
  viewer's trust set, veto-only or not, has a decision that rejects it, exactly or by a
  delta whose range covers it, and has not withdrawn that decision.\<close>

theorem Version_rejected_iff:
  assumes "\<forall>xs. set (iter xs) = set xs"
  shows "vdStatus (Version iter c s active viewer ecosystem packageID v) = StatusRejected \<longleftrightarrow>
    (\<exists>sig\<in>liveSet c s active viewer ecosystem packageID. applies sig v \<and> rejects sig)"
  using Version_sound[OF assms, of c s active viewer ecosystem packageID v] by (simp add: rejectedAt_def)

lemma Version_rejected_iff_witness:
  "\<exists>sig\<in>demoLive. applies sig ''2.0'' \<and> rejects sig"
proof -
  have "vdStatus (demoVersion ''2.0'') = StatusRejected"
    by code_simp
  then show ?thesis
    using Version_rejected_iff[of "\<lambda>xs. xs" demoCodec demoStore "''me''" "''me''" "''npm''" "''left-pad''" "''2.0''"]
    by simp
qed

text \<open>C3: A positive verdict is earned: when a version comes out vetted or allowed, nobody in
  the trust set rejects it, and there is a chain of live, positive decisions by users
  trusted for more than vetoes that starts at an exact decision and extends by deltas
  to the version.\<close>

theorem Version_trusted_supported:
  assumes "\<forall>xs. set (iter xs) = set xs"
    and "vdStatus (Version iter c s active viewer ecosystem packageID v) \<in> {StatusVetted, StatusAllowed}"
  shows "supported (liveSet c s active viewer ecosystem packageID) v
    \<and> \<not> rejectedAt (liveSet c s active viewer ecosystem packageID) v
    \<and> (\<forall>sig\<in>liveSet c s active viewer ecosystem packageID.
         positive (cdLevel (siDecision sig)) \<longrightarrow> \<not> cdVetoOnly (siDecision sig))"
proof -
  have sup: "supported (liveSet c s active viewer ecosystem packageID) v"
    using Version_sound[OF assms(1), of c s active viewer ecosystem packageID v] assms(2)
    by (auto simp: trusted_def)
  moreover have "\<not> cdVetoOnly (siDecision sig)"
    if "sig \<in> liveSet c s active viewer ecosystem packageID" "positive (cdLevel (siDecision sig))" for sig
    using that by (auto simp: liveSet_def liveIn_def sigInfoOf_def decisionOf_def positive_def split: if_splits)
  ultimately show ?thesis
    using supported_not_rejected[OF sup] by blast
qed

lemma Version_trusted_supported_witness:
  "supported demoLive ''1.1'' \<and> \<not> rejectedAt demoLive ''1.1''"
proof -
  have "vdStatus (demoVersion ''1.1'') \<in> {StatusVetted, StatusAllowed}"
    by code_simp
  then show ?thesis
    using Version_trusted_supported[of "\<lambda>xs. xs" demoCodec demoStore "''me''" "''me''" "''npm''" "''left-pad''" "''1.1''"]
    by simp
qed

text \<open>The versions that matter to a query.\<close>

definition liveBases :: "sigInfo set \<Rightarrow> string set" where
  "liveBases S = {siFromVersion sig | sig. sig \<in> S \<and> siIsDelta sig}"

definition liveExacts :: "sigInfo set \<Rightarrow> string set" where
  "liveExacts S = {siExactVersion sig | sig. sig \<in> S \<and> \<not> siIsDelta sig}"

lemma exacts_list: "liveExacts (set sigs) = set (map siExactVersion (filter (\<lambda>sig. \<not> siIsDelta sig) sigs))"
  by (auto simp: liveExacts_def)

lemma bases_live: "bases sigs = liveBases (set sigs)"
  by (auto simp: bases_def liveBases_def)

lemma specVerdict_status_cong:
  "set sigs = set sigs' \<Longrightarrow> vdStatus (specVerdict sigs v) = vdStatus (specVerdict sigs' v)"
  unfolding specVerdict_def Let_def by (simp, rule aggregate_cong) (simp add: counts_def)

text \<open>C1: The memoised recursion implements its specification, and the verdict does not depend
  on the order in which Go ranges over the trust set: as long as no two different strings
  among the version and the bases of the deltas compare equal, the status is positive
  exactly when the version is supported, and it is the same for every order.\<close>

theorem Version_exact:
  assumes "\<forall>xs. set (iter xs) = set xs" and "\<forall>xs. set (iter' xs) = set xs"
    and "no_alias (insert v (liveBases (liveSet c s active viewer ecosystem packageID)))"
  shows "(vdStatus (Version iter c s active viewer ecosystem packageID v) \<in> {StatusVetted, StatusAllowed} \<longleftrightarrow>
           supported (liveSet c s active viewer ecosystem packageID) v)
    \<and> vdStatus (Version iter c s active viewer ecosystem packageID v)
      = vdStatus (Version iter' c s active viewer ecosystem packageID v)"
proof -
  define sigs where "sigs = fst (collectMatching iter c s active viewer ecosystem packageID)"
  define sigs' where "sigs' = fst (collectMatching iter' c s active viewer ecosystem packageID)"
  have sets: "set sigs = liveSet c s active viewer ecosystem packageID"
      "set sigs' = liveSet c s active viewer ecosystem packageID"
    using collect_liveSet assms(1,2) by (auto simp: sigs_def sigs'_def)
  have res: "Version iter c s active viewer ecosystem packageID v = specVerdict sigs v"
      "Version iter' c s active viewer ecosystem packageID v = specVerdict sigs' v"
    using resolveVersion_spec[of v sigs] resolveVersion_spec[of v sigs'] assms(3)
    by (simp_all add: Version_def sigs_def[symmetric] sigs'_def[symmetric] bases_live sets)
  have "vdStatus (specVerdict sigs v) = vdStatus (specVerdict sigs' v)"
    by (rule specVerdict_status_cong) (simp add: sets)
  then show ?thesis
    using specVerdict_trusted[of sigs v] by (simp add: res sets trusted_def disj_commute)
qed

lemma demo_sigs: "set (fst (collectMatching (\<lambda>xs. xs) demoCodec demoStore ''me'' ''me'' ''npm'' ''left-pad'')) = demoLive"
  by (rule collect_liveSet) simp

lemma Version_exact_witness:
  "supported demoLive ''1.1'' \<and> vdStatus (Version rev demoCodec demoStore ''me'' ''me'' ''npm'' ''left-pad'' ''1.1'') = StatusAllowed"
proof -
  have "no_alias {''1.1'', ''1.0''}"
    unfolding no_alias_def by code_simp
  moreover have "bases (fst (collectMatching (\<lambda>xs. xs) demoCodec demoStore ''me'' ''me'' ''npm'' ''left-pad'')) = {''1.0''}"
    by code_simp
  ultimately have "no_alias (insert ''1.1'' (liveBases demoLive))"
    by (simp add: bases_live demo_sigs)
  moreover have "vdStatus (demoVersion ''1.1'') = StatusAllowed"
    by code_simp
  ultimately show ?thesis
    using Version_exact[of "\<lambda>xs. xs" rev "''1.1''" demoCodec demoStore "''me''" "''me''" "''npm''" "''left-pad''"]
    by auto
qed

section \<open>The package view\<close>

definition spanCounts :: "sigInfo list \<Rightarrow> sigInfo \<Rightarrow> bool" where
  "spanCounts sigs sig \<longleftrightarrow> (siIsDelta sig \<and> \<not> rejects sig \<longrightarrow> supported (set sigs) (siFromVersion sig))"

definition spanOf :: "sigInfo \<Rightarrow> versionSpan" where
  "spanOf sig = \<lparr>spFrom = (if siIsDelta sig then siFromVersion sig else siExactVersion sig),
     spTo = (if siIsDelta sig then siToVersion sig else siExactVersion sig),
     spStatus = statusFromLevel (cdLevel (siDecision sig)), spDecisions = [siDecision sig]\<rparr>"

lemma rawSpan_eq:
  assumes "no_alias A" and "bases sigs \<subseteq> A" and "cache_exact sigs cache" and "sig \<in> set sigs"
  shows "\<exists>cache'. rawSpan sigs sig (spans, cache) = (spans @ map spanOf (filter (spanCounts sigs) [sig]), cache')
     \<and> cache_exact sigs cache'"
proof (cases "siIsDelta sig \<and> \<not> rejects sig")
  case False
  then show ?thesis
    using assms(3) by (auto simp: rawSpan_def spanCounts_def spanOf_def rejects_def statusFromLevel_def)
next
  case True
  let ?r = "resolveVersion sigs [] (siFromVersion sig) cache"
  have "siFromVersion sig \<in> A" using True assms(2,4) by (auto simp: bases_def)
  then have "fst ?r = specVerdict sigs (siFromVersion sig) \<and> cache_exact sigs (snd ?r)"
    using resolveVersion_exact[OF assms(1,2) _ _ assms(3), of "siFromVersion sig" "[]"] by simp
  moreover have "rawSpan sigs sig (spans, cache)
      = (if trusted (vdStatus (fst ?r)) then spans @ [spanOf sig] else spans, snd ?r)"
    using True by (auto simp: rawSpan_def spanOf_def rejects_def split: prod.split)
  ultimately show ?thesis
    using True specVerdict_trusted[of sigs "siFromVersion sig"] by (auto simp: spanCounts_def)
qed

lemma rawSpans_fold:
  assumes "no_alias A" and "bases sigs \<subseteq> A" and "set xs \<subseteq> set sigs" and "cache_exact sigs cache"
  shows "fst (fold (rawSpan sigs) xs (spans, cache)) = spans @ map spanOf (filter (spanCounts sigs) xs)"
  using assms(3,4)
proof (induction xs arbitrary: spans cache)
  case (Cons sig xs)
  obtain cache' where step: "rawSpan sigs sig (spans, cache)
        = (spans @ map spanOf (filter (spanCounts sigs) [sig]), cache')" "cache_exact sigs cache'"
    using rawSpan_eq[OF assms(1,2) Cons.prems(2)] Cons.prems(1) by (meson list.set_intros(1) subset_iff)
  then show ?case
    using Cons.IH[OF _ step(2)] Cons.prems(1) by simp
qed simp

lemma rawSpans_spec:
  "no_alias (bases sigs) \<Longrightarrow> rawSpans sigs = map spanOf (filter (spanCounts sigs) sigs)"
  using rawSpans_fold[of "bases sigs" sigs sigs "[]" "[]"] by (simp add: rawSpans_def cache_exact_def)

lemma no_alias_subset: "no_alias A \<Longrightarrow> B \<subseteq> A \<Longrightarrow> no_alias B"
  by (auto simp: no_alias_def)

lemma inRange_point: "inRange a a v \<longleftrightarrow> CompareVersions a v = 0"
  using rv.cmp_antisym[of a v] by (auto simp: inRange_def)

text \<open>With no aliases a span covers a version exactly when its signature applies to it.\<close>

lemma spanOf_covers:
  assumes "no_alias A" and "v \<in> A" and "\<not> siIsDelta sig \<Longrightarrow> siExactVersion sig \<in> A"
  shows "inRange (spFrom (spanOf sig)) (spTo (spanOf sig)) v \<longleftrightarrow> applies sig v"
  using assms by (auto simp: spanOf_def applies_def inRange_point no_alias_def)

lemma statusFromLevel_iff:
  "statusFromLevel l = StatusRejected \<longleftrightarrow> l = ''rejected''"
  "trusted (statusFromLevel l) \<longleftrightarrow> positive l"
  by (auto simp: statusFromLevel_def trusted_def positive_def)

lemma spanOf_status [simp]: "spStatus (spanOf sig) = statusFromLevel (cdLevel (siDecision sig))"
  by (simp add: spanOf_def)

lemma rawSpans_covered:
  assumes "no_alias (insert v (bases sigs \<union> liveExacts (set sigs)))"
  shows "coveredBy st v (rawSpans sigs) \<longleftrightarrow>
     (\<exists>sig\<in>set sigs. spanCounts sigs sig \<and> applies sig v \<and> statusFromLevel (cdLevel (siDecision sig)) = st)"
proof -
  have raw: "rawSpans sigs = map spanOf (filter (spanCounts sigs) sigs)"
    by (rule rawSpans_spec) (rule no_alias_subset[OF assms], auto)
  have cov: "inRange (spFrom (spanOf sig)) (spTo (spanOf sig)) v \<longleftrightarrow> applies sig v" if "sig \<in> set sigs" for sig
    by (rule spanOf_covers[OF assms]) (use that in \<open>auto simp: liveExacts_def\<close>)
  show ?thesis by (auto simp: raw coveredBy_def cov)
qed

lemma rawSpans_rejected:
  assumes "no_alias (insert v (bases sigs \<union> liveExacts (set sigs)))"
  shows "coveredBy StatusRejected v (rawSpans sigs) \<longleftrightarrow> rejectedAt (set sigs) v"
  unfolding rawSpans_covered[OF assms]
  by (auto simp: rejectedAt_def statusFromLevel_iff spanCounts_def rejects_def)

lemma rawSpans_trusted:
  assumes "no_alias (insert v (bases sigs \<union> liveExacts (set sigs)))" and "\<not> rejectedAt (set sigs) v"
  shows "coveredBy StatusVetted v (rawSpans sigs) \<or> coveredBy StatusAllowed v (rawSpans sigs)
    \<longleftrightarrow> supported (set sigs) v"
proof -
  have "coveredBy StatusVetted v (rawSpans sigs) \<or> coveredBy StatusAllowed v (rawSpans sigs) \<longleftrightarrow>
      (\<exists>sig\<in>set sigs. spanCounts sigs sig \<and> applies sig v \<and> positive (cdLevel (siDecision sig)))"
    using statusFromLevel_iff(2) by (auto simp: rawSpans_covered[OF assms(1)] trusted_def)
  also have "\<dots> \<longleftrightarrow> supported (set sigs) v"
  proof
    assume "\<exists>sig\<in>set sigs. spanCounts sigs sig \<and> applies sig v \<and> positive (cdLevel (siDecision sig))"
    then obtain sig where sig: "sig \<in> set sigs" "spanCounts sigs sig" "applies sig v" "positive (cdLevel (siDecision sig))"
      by blast
    then have "\<not> rejects sig" by (auto simp: rejects_def positive_def)
    then show "supported (set sigs) v"
      using sig assms(2) supported.exact[of sig "set sigs" v] supported.delta[of sig "set sigs" v]
      by (auto simp: spanCounts_def)
  next
    assume "supported (set sigs) v"
    then show "\<exists>sig\<in>set sigs. spanCounts sigs sig \<and> applies sig v \<and> positive (cdLevel (siDecision sig))"
      by (cases rule: supported.cases) (auto simp: spanCounts_def)
  qed
  finally show ?thesis .
qed

text \<open>A vetted span and a vetted version differ in one thing: a delta covers its own base, but does not count for it.\<close>

lemma statusFromLevel_vetted: "statusFromLevel l = StatusVetted \<longleftrightarrow> l = ''vetted''"
  by (simp add: statusFromLevel_def)

lemma specVerdict_vetted:
  "vdStatus (specVerdict sigs v) = StatusVetted \<longleftrightarrow>
     \<not> rejectedAt (set sigs) v \<and> (\<exists>sig\<in>set sigs. counts sigs v sig \<and> cdLevel (siDecision sig) = ''vetted'')"
proof (cases "rejectedAt (set sigs) v")
  case True
  then show ?thesis using specVerdict_rejected[of sigs v] by simp
next
  case False
  then have "\<forall>sig\<in>set sigs. counts sigs v sig \<longrightarrow> cdLevel (siDecision sig) \<noteq> ''rejected''"
    using specVerdict_rejected[of sigs v] by (auto simp: specVerdict_def Let_def aggregate_rejected)
  with False show ?thesis by (auto simp: specVerdict_def Let_def aggregate_eq)
qed

lemma rawSpans_vetted:
  assumes "no_alias (insert v (bases sigs \<union> liveExacts (set sigs)))" and "\<not> rejectedAt (set sigs) v"
  shows "coveredBy StatusVetted v (rawSpans sigs) \<longleftrightarrow> vdStatus (specVerdict sigs v) = StatusVetted
     \<or> supported (set sigs) v \<and> (\<exists>sig\<in>set sigs. siIsDelta sig \<and> siFromVersion sig = v \<and> applies sig v
         \<and> cdLevel (siDecision sig) = ''vetted'')"
  unfolding rawSpans_covered[OF assms(1)] specVerdict_vetted statusFromLevel_vetted
  using assms(2) by (auto simp: counts_def spanCounts_def rejects_def)

text \<open>The strongest status of the spans over a version.\<close>

definition coveredStatus :: "string \<Rightarrow> versionSpan list \<Rightarrow> status" where
  "coveredStatus v spans =
     (if coveredBy StatusRejected v spans then StatusRejected
      else if coveredBy StatusVetted v spans then StatusVetted
      else if coveredBy StatusAllowed v spans then StatusAllowed
      else StatusUnknown)"

text \<open>C5: The package view and the query for one version agree, as long as no two different
  version strings involved compare equal: the status of the version is the strongest status, with
  rejected before vetted before allowed, of the merged spans that cover it.  They differ for one sort of
  version only: the base of a vetted delta may be allowed for the query and vetted in the view.\<close>

theorem Package_agrees_with_Version:
  assumes "\<forall>xs. set (iter xs) = set xs" and "sliceSorts srt"
    and "no_alias (insert v (liveBases (liveSet c s active viewer ecosystem packageID)
           \<union> liveExacts (liveSet c s active viewer ecosystem packageID)))"
  shows "let asked = vdStatus (Version iter c s active viewer ecosystem packageID v);
             shown = coveredStatus v (pvSpans (Package srt iter c s active viewer ecosystem packageID))
    in asked = shown
       \<or> asked = StatusAllowed \<and> shown = StatusVetted
         \<and> (\<exists>sig\<in>liveSet c s active viewer ecosystem packageID.
              siIsDelta sig \<and> siFromVersion sig = v \<and> cdLevel (siDecision sig) = ''vetted'')"
proof -
  define asked where "asked = vdStatus (Version iter c s active viewer ecosystem packageID v)"
  define shown where "shown = coveredStatus v (pvSpans (Package srt iter c s active viewer ecosystem packageID))"
  define sigs where "sigs = fst (collectMatching iter c s active viewer ecosystem packageID)"
  have sets: "set sigs = liveSet c s active viewer ecosystem packageID"
    using collect_liveSet assms(1) by (auto simp: sigs_def)
  have na: "no_alias (insert v (bases sigs \<union> liveExacts (set sigs)))"
    using assms(3) by (simp add: bases_live sets)
  have ver: "Version iter c s active viewer ecosystem packageID v = specVerdict sigs v"
    using resolveVersion_spec[OF no_alias_subset[OF na, of "insert v (bases sigs)"]]
    by (auto simp: Version_def sigs_def)
  have cov: "coveredBy st v (pvSpans (Package srt iter c s active viewer ecosystem packageID))
      \<longleftrightarrow> coveredBy st v (rawSpans sigs)" for st
    using mergeSpans_covers[OF assms(2)] by (simp add: Package_def sigs_def split: prod.split)
  have asked: "asked = vdStatus (specVerdict sigs v)" by (simp add: asked_def ver)
  have shown: "shown = coveredStatus v (rawSpans sigs)" by (simp add: shown_def coveredStatus_def cov)
  have "asked = shown \<or> asked = StatusAllowed \<and> shown = StatusVetted
      \<and> (\<exists>sig\<in>set sigs. siIsDelta sig \<and> siFromVersion sig = v \<and> cdLevel (siDecision sig) = ''vetted'')"
  proof (cases "rejectedAt (set sigs) v")
    case True
    then show ?thesis
      using rawSpans_rejected[OF na] specVerdict_rejected[of sigs v] by (simp add: asked shown coveredStatus_def)
  next
    case False
    then show ?thesis
      using rawSpans_rejected[OF na] rawSpans_trusted[OF na] rawSpans_vetted[OF na] specVerdict_rejected[of sigs v]
        specVerdict_trusted[of sigs v]
      by (cases asked) (auto simp: asked shown coveredStatus_def trusted_def)
  qed
  then show ?thesis unfolding Let_def asked_def shown_def sets .
qed

lemma Package_agrees_with_Version_witness:
  "coveredStatus ''2.0'' (pvSpans (Package insertionSort (\<lambda>xs. xs) demoCodec demoStore ''me'' ''me'' ''npm'' ''left-pad''))
     = StatusRejected"
proof -
  have "no_alias {''2.0'', ''1.0''}"
    unfolding no_alias_def by code_simp
  moreover have "bases (fst (collectMatching (\<lambda>xs. xs) demoCodec demoStore ''me'' ''me'' ''npm'' ''left-pad'')) = {''1.0''}"
    by code_simp
  moreover have "map siExactVersion (filter (\<lambda>sig. \<not> siIsDelta sig)
      (fst (collectMatching (\<lambda>xs. xs) demoCodec demoStore ''me'' ''me'' ''npm'' ''left-pad''))) = [''1.0'', ''2.0'']"
    by code_simp
  then have "liveExacts demoLive = {''1.0'', ''2.0''}"
    unfolding demo_sigs[symmetric] exacts_list by simp
  ultimately have "no_alias (insert ''2.0'' (liveBases demoLive \<union> liveExacts demoLive))"
    by (simp add: bases_live demo_sigs insert_commute)
  moreover have "vdStatus (demoVersion ''2.0'') = StatusRejected"
    by code_simp
  ultimately show ?thesis
    using Package_agrees_with_Version[of "\<lambda>xs. xs" insertionSort "''2.0''" demoCodec demoStore "''me''" "''me''"
        "''npm''" "''left-pad''"] sliceSorts_insertionSort
    by simp
qed

section \<open>Aliases\<close>

definition aliasSig :: "bool \<Rightarrow> string \<Rightarrow> string \<Rightarrow> string \<Rightarrow> sigInfo" where
  "aliasSig isDelta level lo hi = \<lparr>siDecision = \<lparr>cdSignerID = ''bob'', cdPath = [''bob''], cdLevel = level,
       cdReason = [], cdSignatureID = lo @ ''-'' @ hi, cdVetoOnly = False,
       cdKind = (if isDelta then KindDelta else KindExact),
       cdVersion = (if isDelta then [] else lo), cdFromVersion = (if isDelta then lo else []),
       cdToVersion = (if isDelta then hi else [])\<rparr>,
     siIsDelta = isDelta, siExactVersion = (if isDelta then [] else lo),
     siFromVersion = (if isDelta then lo else []), siToVersion = (if isDelta then hi else [])\<rparr>"

definition aliasSigs :: "sigInfo list" where
  "aliasSigs = [aliasSig True ''allowed'' ''1.0'' ''2.0'', aliasSig True ''allowed'' ''v1.0'' ''1.0'',
     aliasSig True ''allowed'' ''1.0'' ''v1.0'', aliasSig False ''vetted'' ''1.0'' ''1.0'',
     aliasSig True ''allowed'' ''v1.0'' ''3.0'']"

text \<open>The base of a vetted delta: the package view shows 1.0 as vetted, although the delta from it
  covers it only as its base, and a query for 1.0 alone says allowed.\<close>

definition baseSigs :: "sigInfo list" where
  "baseSigs = [aliasSig False ''allowed'' ''1.0'' ''1.0'', aliasSig True ''vetted'' ''1.0'' ''2.0'']"

theorem vetted_base_differs:
  "vdStatus (fst (resolveVersion baseSigs [] ''1.0'' [])) = StatusAllowed \<and> coveredBy StatusVetted ''1.0'' (rawSpans baseSigs)"
proof
  show "vdStatus (fst (resolveVersion baseSigs [] ''1.0'' [])) = StatusAllowed"
    by code_simp
  have spans: "map (\<lambda>sp. (spFrom sp, spTo sp, spStatus sp)) (rawSpans baseSigs)
      = [(''1.0'', ''1.0'', StatusAllowed), (''1.0'', ''2.0'', StatusVetted)]"
    by code_simp
  have "inRange ''1.0'' ''2.0'' ''1.0''"
    unfolding inRange_def by code_simp
  moreover have "(''1.0'', ''2.0'', StatusVetted) \<in> set (map (\<lambda>sp. (spFrom sp, spTo sp, spStatus sp)) (rawSpans baseSigs))"
    unfolding spans by simp
  then obtain sp where "sp \<in> set (rawSpans baseSigs)" "spFrom sp = ''1.0''" "spTo sp = ''2.0''" "spStatus sp = StatusVetted"
    by auto
  ultimately show "coveredBy StatusVetted ''1.0'' (rawSpans baseSigs)"
    unfolding coveredBy_def by (metis (no_types))
qed

text \<open>With aliases the memo is poisoned: while 1.0 is being resolved, v1.0 is found
  unknown because of the cycle between the two, and that answer is kept.  The package
  view then has no span over 3.0, although a query for 3.0 alone allows it.\<close>

theorem aliases_poison_the_memo:
  "vdStatus (fst (resolveVersion aliasSigs [] ''3.0'' [])) = StatusAllowed
   \<and> \<not> coveredBy StatusAllowed ''3.0'' (rawSpans aliasSigs) \<and> \<not> coveredBy StatusVetted ''3.0'' (rawSpans aliasSigs)"
proof (intro conjI)
  show "vdStatus (fst (resolveVersion aliasSigs [] ''3.0'' [])) = StatusAllowed"
    by code_simp
  have spans: "map (\<lambda>sp. (spFrom sp, spTo sp)) (rawSpans aliasSigs) = [(''1.0'', ''2.0''), (''1.0'', ''v1.0''), (''1.0'', ''1.0'')]"
    by code_simp
  have "\<not> inRange ''1.0'' ''2.0'' ''3.0''" "\<not> inRange ''1.0'' ''v1.0'' ''3.0''" "\<not> inRange ''1.0'' ''1.0'' ''3.0''"
    unfolding inRange_def by code_simp+
  then have "\<forall>(lo, hi)\<in>set (map (\<lambda>sp. (spFrom sp, spTo sp)) (rawSpans aliasSigs)). \<not> inRange lo hi ''3.0''"
    unfolding spans by simp
  then show "\<not> coveredBy StatusAllowed ''3.0'' (rawSpans aliasSigs)" "\<not> coveredBy StatusVetted ''3.0'' (rawSpans aliasSigs)"
    by (auto simp: coveredBy_def)
qed

end
