(* ===== verification/Semver.thy ===== *)
theory Semver
  imports Version_Order Go_Strings
begin

text \<open>
  Strict semantic versions, \<open>ecosystems/internal/semver/semver.go\<close>: the parser
  behind \<open>ValidateVersion\<close> of the npm, hexpm, cargo, composer, nuget, pub,
  swiftpm and cocoapods adapters, and the comparator behind their
  \<open>CompareVersions\<close>.  The parser is shown to accept exactly the strings that a
  well-formed version prints as, and the comparator to be a total preorder that
  never looks at the build metadata.
\<close>

section \<open>Parsing\<close>

record semver =
  major :: int
  minor :: int
  patch :: int
  preIds :: "string list"
  buildIds :: "string list"

text \<open>The errors of the parser, one constructor per \<open>fmt.Errorf\<close>.\<close>

datatype identLabel = LabelBuild | LabelPre

datatype semverError =
    EmptyVersion
  | EmptyBuild
  | EmptyPre
  | EmptyIdent identLabel
  | InvalidIdentChar identLabel string
  | PreLeadingZero string
  | WrongSegmentCount nat
  | EmptyNumeric
  | LeadingZero string
  | NonNumeric string

definition identChar :: "char \<Rightarrow> bool" where
  "identChar c \<longleftrightarrow> isDigit c \<or> isLower c \<or> isUpper c \<or> c = CHR ''-''"

definition isAllDigits :: "string \<Rightarrow> bool" where
  "isAllDigits s \<longleftrightarrow> s \<noteq> [] \<and> list_all isDigit s"

definition splitIdents :: "string \<Rightarrow> identLabel \<Rightarrow> semverError + string list" where
  "splitIdents s label = mapE (\<lambda>p.
       if p = [] then Inl (EmptyIdent label)
       else if \<not> list_all identChar p then Inl (InvalidIdentChar label p)
       else Inr p) (splitChar (CHR ''.'') s)"

text \<open>Everything after the first \<open>+\<close> is build metadata: the rest and its identifiers.\<close>

definition parseBuild :: "string \<Rightarrow> semverError + string \<times> string list" where
  "parseBuild s = (case cutChar (CHR ''+'') s of (before, after, found) \<Rightarrow>
     if \<not> found then Inr (s, [])
     else if after = [] then Inl EmptyBuild
     else bindE (splitIdents after LabelBuild) (\<lambda>ids. Inr (before, ids)))"

definition hasLeadingZero :: "string \<Rightarrow> bool" where
  "hasLeadingZero p \<longleftrightarrow> 1 < length p \<and> hd p = CHR ''0''"

text \<open>Everything after the first \<open>-\<close> of what is left is the pre-release.\<close>

definition parsePre :: "string \<Rightarrow> semverError + string \<times> string list" where
  "parsePre s = (case cutChar (CHR ''-'') s of (before, after, found) \<Rightarrow>
     if \<not> found then Inr (s, [])
     else if after = [] then Inl EmptyPre
     else bindE (splitIdents after LabelPre) (\<lambda>ids.
       case find (\<lambda>i. isAllDigits i \<and> hasLeadingZero i) ids of
         Some i \<Rightarrow> Inl (PreLeadingZero i)
       | None \<Rightarrow> Inr (before, ids)))"

definition parseNumeric :: "string \<Rightarrow> semverError + int" where
  "parseNumeric p =
     (if p = [] then Inl EmptyNumeric
      else if hasLeadingZero p then Inl (LeadingZero p)
      else if \<not> atoiOk p then Inl (NonNumeric p)
      else Inr (atoiVal p))"

definition semver_parse :: "string \<Rightarrow> semverError + semver" where
  "semver_parse v =
     (if v = [] then Inl EmptyVersion
      else bindE (parseBuild v) (\<lambda>(s, build).
           bindE (parsePre s) (\<lambda>(s', pre).
             let parts = splitChar (CHR ''.'') s' in
             if length parts \<noteq> 3 then Inl (WrongSegmentCount (length parts))
             else bindE (mapE parseNumeric parts) (\<lambda>ns.
               Inr \<lparr>major = ns ! 0, minor = ns ! 1, patch = ns ! 2, preIds = pre, buildIds = build\<rparr>))))"

definition semver_Validate :: "string \<Rightarrow> semverError option" where
  "semver_Validate v = (case semver_parse v of Inl e \<Rightarrow> Some e | Inr _ \<Rightarrow> None)"

section \<open>Comparison\<close>

text \<open>One turn of the loop of \<open>cmpPreRelease\<close>; \<open>Atoi\<close>'s error is dropped there.\<close>

definition preIdCmp :: "string \<Rightarrow> string \<Rightarrow> int" where
  "preIdCmp a b =
     (if isAllDigits a \<and> isAllDigits b then go_cmp (atoiVal a) (atoiVal b)
      else if isAllDigits a then - 1
      else if isAllDigits b then 1
      else go_cmp a b)"

definition cmpPreRelease :: "string list \<Rightarrow> string list \<Rightarrow> int" where
  "cmpPreRelease a b = lex_cmp preIdCmp a b"

definition semver_Compare :: "string \<Rightarrow> string \<Rightarrow> int" where
  "semver_Compare a b = (case (semver_parse a, semver_parse b) of
       (Inl _, Inl _) \<Rightarrow> go_cmp a b
     | (Inl _, Inr _) \<Rightarrow> - 1
     | (Inr _, Inl _) \<Rightarrow> 1
     | (Inr pa, Inr pb) \<Rightarrow>
        then_cmp (go_cmp (major pa) (major pb))
       (then_cmp (go_cmp (minor pa) (minor pb))
       (then_cmp (go_cmp (patch pa) (patch pb))
         (if preIds pa = [] \<and> preIds pb = [] then 0
          else if preIds pa = [] then 1
          else if preIds pb = [] then - 1
          else cmpPreRelease (preIds pa) (preIds pb)))))"

section \<open>What the parser accepts\<close>

text \<open>The grammar, as a well-formedness predicate and a printer.\<close>

definition identOk :: "string \<Rightarrow> bool" where
  "identOk i \<longleftrightarrow> i \<noteq> [] \<and> list_all identChar i"

definition semver_wf :: "semver \<Rightarrow> bool" where
  "semver_wf r \<longleftrightarrow>
     0 \<le> major r \<and> major r \<le> maxInt \<and> 0 \<le> minor r \<and> minor r \<le> maxInt
     \<and> 0 \<le> patch r \<and> patch r \<le> maxInt
     \<and> list_all identOk (preIds r) \<and> list_all identOk (buildIds r)
     \<and> list_all (\<lambda>i. \<not> (isAllDigits i \<and> hasLeadingZero i)) (preIds r)"

definition coreString :: "semver \<Rightarrow> string" where
  "coreString r = join ''.'' [itoa (nat (major r)), itoa (nat (minor r)), itoa (nat (patch r))]"

definition suffixString :: "char \<Rightarrow> string list \<Rightarrow> string" where
  "suffixString c ids = (if ids = [] then [] else c # join ''.'' ids)"

definition semver_render :: "semver \<Rightarrow> string" where
  "semver_render r = coreString r @ suffixString (CHR ''-'') (preIds r) @ suffixString (CHR ''+'') (buildIds r)"

lemma identChar_not_sep: "identChar c \<Longrightarrow> c \<noteq> CHR ''.'' \<and> c \<noteq> CHR ''+''"
  by (auto simp: identChar_def isDigit_def isLower_def isUpper_def byte_def)

lemma isDigit_not_sep: "isDigit c \<Longrightarrow> c \<noteq> CHR ''.'' \<and> c \<noteq> CHR ''+'' \<and> c \<noteq> CHR ''-''"
  by (auto simp: isDigit_def byte_def)

lemma splitIdents_Inr:
  "splitIdents s l = Inr ids \<longleftrightarrow> ids \<noteq> [] \<and> s = join ''.'' ids \<and> list_all identOk ids"
proof -
  have "mapE (\<lambda>p. if p = [] then Inl (EmptyIdent l)
       else if \<not> list_all identChar p then Inl (InvalidIdentChar l p) else Inr p) xs = Inr ys
     \<longleftrightarrow> ys = xs \<and> list_all identOk xs" for xs ys
    by (induction xs arbitrary: ys) (auto simp: bindE_eq_Inr identOk_def)
  then have "splitIdents s l = Inr ids \<longleftrightarrow> splitChar (CHR ''.'') s = ids \<and> list_all identOk ids"
    by (auto simp: splitIdents_def)
  moreover have "list_all identOk ids \<Longrightarrow> \<forall>x\<in>set ids. CHR ''.'' \<notin> set x"
    using identChar_not_sep by (fastforce simp: list_all_iff identOk_def)
  ultimately show ?thesis
    using splitChar_iff[of "CHR ''.''" s ids] by auto
qed

lemma parseNumeric_Inr:
  assumes "CHR ''-'' \<notin> set p" and "CHR ''+'' \<notin> set p"
  shows "parseNumeric p = Inr n \<longleftrightarrow> 0 \<le> n \<and> n \<le> maxInt \<and> p = itoa (nat n)"
proof
  assume "parseNumeric p = Inr n"
  then have ok: "p \<noteq> []" "\<not> hasLeadingZero p" "atoiOk p" "n = atoiVal p"
    by (auto simp: parseNumeric_def split: if_splits)
  then show "0 \<le> n \<and> n \<le> maxInt \<and> p = itoa (nat n)"
    using atoiOk_unsigned[OF ok(3) assms] itoa_decimal[of p] decimal_nonneg[of p]
    by (simp add: hasLeadingZero_def)
next
  assume r: "0 \<le> n \<and> n \<le> maxInt \<and> p = itoa (nat n)"
  have "atoiOk p \<and> atoiVal p = n"
    using r atoi_digits[of p] by simp
  then show "parseNumeric p = Inr n"
    using r itoa_hd[of "nat n"] by (simp add: parseNumeric_def hasLeadingZero_def)
qed

lemma identOk_join: "list_all identOk ids \<Longrightarrow> join sep ids = [] \<longleftrightarrow> ids = []"
  by (rule join_eq_Nil) (auto simp: identOk_def list_all_iff)

lemma append_first_eq:
  "(c :: char) \<notin> set b \<Longrightarrow> c \<notin> set t \<Longrightarrow> b @ c # a = t @ c # r \<longleftrightarrow> b = t \<and> a = r"
  by (metis cutChar_append prod.inject)

lemma parseBuild_Inr:
  "parseBuild s = Inr (t, ids) \<longleftrightarrow>
     s = t @ suffixString (CHR ''+'') ids \<and> CHR ''+'' \<notin> set t \<and> list_all identOk ids"
proof (cases "CHR ''+'' \<in> set s")
  case True
  then obtain b a where s: "s = b @ CHR ''+'' # a" "CHR ''+'' \<notin> set b"
    using split_list_first by metis
  then have "parseBuild s = Inr (t, ids) \<longleftrightarrow>
      t = b \<and> ids \<noteq> [] \<and> a = join ''.'' ids \<and> list_all identOk ids"
    using identOk_join[of ids "''.''"] by (auto simp: parseBuild_def bindE_eq_Inr splitIdents_Inr)
  then show ?thesis
    using s append_first_eq[of "CHR ''+''" b t a "join ''.'' ids"]
    by (auto simp: suffixString_def)
next
  case False
  then show ?thesis by (auto simp: parseBuild_def suffixString_def)
qed

lemma parsePre_Inr:
  "parsePre s = Inr (t, ids) \<longleftrightarrow>
     s = t @ suffixString (CHR ''-'') ids \<and> CHR ''-'' \<notin> set t \<and> list_all identOk ids
     \<and> list_all (\<lambda>i. \<not> (isAllDigits i \<and> hasLeadingZero i)) ids"
proof (cases "CHR ''-'' \<in> set s")
  case True
  then obtain b a where s: "s = b @ CHR ''-'' # a" "CHR ''-'' \<notin> set b"
    using split_list_first by metis
  then have "parsePre s = Inr (t, ids) \<longleftrightarrow>
      t = b \<and> ids \<noteq> [] \<and> a = join ''.'' ids \<and> list_all identOk ids
      \<and> list_all (\<lambda>i. \<not> (isAllDigits i \<and> hasLeadingZero i)) ids"
    using identOk_join[of ids "''.''"]
    by (auto simp: parsePre_def bindE_eq_Inr splitIdents_Inr find_None_iff list_all_iff
        split: option.splits)
  then show ?thesis
    using s append_first_eq[of "CHR ''-''" b t a "join ''.'' ids"]
    by (auto simp: suffixString_def)
next
  case False
  then show ?thesis by (auto simp: parsePre_def suffixString_def)
qed

lemma length_3: "length xs = 3 \<longleftrightarrow> (\<exists>a b c. xs = [a, b, c])"
  by (auto simp: eval_nat_numeral length_Suc_conv)

lemma itoa_no_sep: "c \<in> set (itoa n) \<Longrightarrow> c \<noteq> CHR ''.'' \<and> c \<noteq> CHR ''+'' \<and> c \<noteq> CHR ''-''"
  using itoa_digits[of n] isDigit_not_sep by (auto simp: list_all_iff)

text \<open>The main part: three numbers.\<close>

lemma core_Inr:
  assumes "CHR ''-'' \<notin> set s" and "CHR ''+'' \<notin> set s"
  shows "length (splitChar (CHR ''.'') s) = 3 \<and> mapE parseNumeric (splitChar (CHR ''.'') s) = Inr ns
    \<longleftrightarrow> (\<exists>a b c. ns = [a, b, c] \<and> 0 \<le> a \<and> a \<le> maxInt \<and> 0 \<le> b \<and> b \<le> maxInt \<and> 0 \<le> c \<and> c \<le> maxInt
        \<and> s = join ''.'' [itoa (nat a), itoa (nat b), itoa (nat c)])" (is "?L \<longleftrightarrow> ?R")
proof
  assume L: ?L
  then obtain x y z where xs: "splitChar (CHR ''.'') s = [x, y, z]"
    by (auto simp: length_3)
  then have s: "s = join ''.'' [x, y, z]"
    using join_splitChar[of "CHR ''.''" s] by simp
  then have "\<forall>p\<in>{x, y, z}. CHR ''-'' \<notin> set p \<and> CHR ''+'' \<notin> set p"
    using assms by auto
  then show ?R
    using L xs s by (auto simp: bindE_eq_Inr parseNumeric_Inr)
next
  assume ?R
  then obtain a b c where r: "ns = [a, b, c]" "0 \<le> a" "a \<le> maxInt" "0 \<le> b" "b \<le> maxInt" "0 \<le> c"
    "c \<le> maxInt" "s = join ''.'' [itoa (nat a), itoa (nat b), itoa (nat c)]"
    by auto
  have "splitChar (CHR ''.'') s = [itoa (nat a), itoa (nat b), itoa (nat c)]"
    unfolding r(8) by (rule splitChar_join) (use itoa_no_sep in \<open>fastforce+\<close>)
  moreover have "parseNumeric (itoa (nat x)) = Inr x" if "0 \<le> x" "x \<le> maxInt" for x
    by (subst parseNumeric_Inr) (use that itoa_no_sep in \<open>fastforce+\<close>)
  ultimately show ?L using r by simp
qed

text \<open>The characters of the printed parts, so that the cuts land where they should.\<close>

lemma coreString_no_sep:
  "c \<in> set (coreString r) \<Longrightarrow> c \<noteq> CHR ''+'' \<and> c \<noteq> CHR ''-''"
  using itoa_no_sep by (auto simp: coreString_def)

lemma suffixString_no_plus:
  assumes "list_all identOk ids" and "c \<noteq> CHR ''+''"
  shows "CHR ''+'' \<notin> set (suffixString c ids)"
proof -
  have "CHR ''+'' \<notin> set (join ''.'' ids)"
    using set_join[of "''.''" ids] identChar_not_sep assms(1)
    by (fastforce simp: list_all_iff identOk_def)
  then show ?thesis using assms(2) by (simp add: suffixString_def)
qed

lemma semver_parse_Inr:
  "semver_parse v = Inr r \<longleftrightarrow> semver_wf r \<and> v = semver_render r"
proof
  assume "semver_parse v = Inr r"
  then obtain s build t pre ns where p: "parseBuild v = Inr (s, build)" "parsePre s = Inr (t, pre)"
      "length (splitChar (CHR ''.'') t) = 3" "mapE parseNumeric (splitChar (CHR ''.'') t) = Inr ns"
    and r: "r = \<lparr>major = ns ! 0, minor = ns ! 1, patch = ns ! 2, preIds = pre, buildIds = build\<rparr>"
    by (auto simp: semver_parse_def bindE_eq_Inr Let_def split: if_splits prod.splits)
  from p(1) have v: "v = s @ suffixString (CHR ''+'') build" "CHR ''+'' \<notin> set s"
      "list_all identOk build" by (auto simp: parseBuild_Inr)
  from p(2) have s: "s = t @ suffixString (CHR ''-'') pre" "CHR ''-'' \<notin> set t" "list_all identOk pre"
      "list_all (\<lambda>i. \<not> (isAllDigits i \<and> hasLeadingZero i)) pre" by (auto simp: parsePre_Inr)
  have "CHR ''+'' \<notin> set t" using v(2) s(1) by auto
  with core_Inr[OF s(2) this, of ns] p(3,4) obtain a b c where ns: "ns = [a, b, c]"
      "0 \<le> a" "a \<le> maxInt" "0 \<le> b" "b \<le> maxInt" "0 \<le> c" "c \<le> maxInt"
      "t = join ''.'' [itoa (nat a), itoa (nat b), itoa (nat c)]"
    by blast
  then show "semver_wf r \<and> v = semver_render r"
    using v s r by (simp add: semver_wf_def semver_render_def coreString_def)
next
  assume "semver_wf r \<and> v = semver_render r"
  then have wf: "semver_wf r" and v: "v = semver_render r" by auto
  define s where "s = coreString r @ suffixString (CHR ''-'') (preIds r)"
  have "CHR ''+'' \<notin> set s"
    using wf suffixString_no_plus[of "preIds r" "CHR ''-''"] coreString_no_sep[of "CHR ''+''" r]
    by (auto simp: s_def semver_wf_def)
  then have b: "parseBuild v = Inr (s, buildIds r)"
    using wf by (auto simp: parseBuild_Inr v s_def semver_render_def semver_wf_def)
  have p: "parsePre s = Inr (coreString r, preIds r)"
    using wf coreString_no_sep[of "CHR ''-''" r] by (auto simp: parsePre_Inr s_def semver_wf_def)
  have c: "length (splitChar (CHR ''.'') (coreString r)) = 3
      \<and> mapE parseNumeric (splitChar (CHR ''.'') (coreString r)) = Inr [major r, minor r, patch r]"
    by (subst core_Inr) (use coreString_no_sep wf in \<open>auto simp: coreString_def semver_wf_def\<close>)
  have "v \<noteq> []" by (simp add: v semver_render_def coreString_def)
  then show "semver_parse v = Inr r"
    using b p c by (simp add: semver_parse_def Let_def)
qed

section \<open>The comparator is a total preorder\<close>

lemma version_order_preIdCmp: "version_order preIdCmp"
proof -
  have "version_order (class_cmp isAllDigits (\<lambda>a b. go_cmp (atoiVal a) (atoiVal b)) go_cmp)"
    by (rule version_order_class[OF version_order_on[OF version_order_go_cmp] version_order_go_cmp])
  moreover have "class_cmp isAllDigits (\<lambda>a b. go_cmp (atoiVal a) (atoiVal b)) go_cmp = preIdCmp"
    by (intro ext) (simp add: class_cmp_def preIdCmp_def)
  ultimately show ?thesis by simp
qed

text \<open>The comparison of parsed versions.\<close>

definition precedence :: "semver \<Rightarrow> semver \<Rightarrow> int" where
  "precedence pa pb =
     then_cmp (go_cmp (major pa) (major pb))
    (then_cmp (go_cmp (minor pa) (minor pb))
    (then_cmp (go_cmp (patch pa) (patch pb))
      (class_cmp (\<lambda>p. p \<noteq> []) (lex_cmp preIdCmp) (\<lambda>_ _. 0) (preIds pa) (preIds pb))))"

lemma version_order_precedence: "version_order precedence"
  unfolding precedence_def
  by (intro version_order_then
      version_order_on[OF version_order_go_cmp, where f = major]
      version_order_on[OF version_order_go_cmp, where f = minor]
      version_order_on[OF version_order_go_cmp, where f = patch]
      version_order_on[OF version_order_class[OF version_order_lex[OF version_order_preIdCmp]
        version_order_const], where f = preIds])

definition parsed :: "string \<Rightarrow> bool" where
  "parsed v \<longleftrightarrow> (case semver_parse v of Inl _ \<Rightarrow> False | Inr _ \<Rightarrow> True)"

lemma semver_Compare_class:
  "semver_Compare a b = class_cmp (\<lambda>v. \<not> parsed v) go_cmp
     (\<lambda>a b. precedence (projr (semver_parse a)) (projr (semver_parse b))) a b"
  by (cases "semver_parse a"; cases "semver_parse b")
    (simp_all add: semver_Compare_def class_cmp_def parsed_def precedence_def cmpPreRelease_def)

lemma version_order_semver_Compare [cmp_intros]: "version_order semver_Compare"
proof -
  have "version_order (class_cmp (\<lambda>v. \<not> parsed v) go_cmp
     (\<lambda>a b. precedence (projr (semver_parse a)) (projr (semver_parse b))))"
    by (rule version_order_class[OF version_order_go_cmp version_order_on[OF version_order_precedence]])
  moreover have "class_cmp (\<lambda>v. \<not> parsed v) go_cmp
     (\<lambda>a b. precedence (projr (semver_parse a)) (projr (semver_parse b))) = semver_Compare"
    by (intro ext) (simp only: semver_Compare_class)
  ultimately show ?thesis by simp
qed

interpretation sv: version_order semver_Compare
  by (rule version_order_semver_Compare)

end
