(* ===== verification/Gem_Version.thy ===== *)
theory Gem_Version
  imports Version_Order Go_Strings
begin

text \<open>
  Gem versions, \<open>ecosystems/rubygems/version.go\<close>.  The comparator is not a total
  preorder: the rule for left-over segments lets a number outweigh a pre-release
  tag, so every base version starts a cycle.  On versions made of numbers only it
  is the padded comparison, which is a total preorder.
\<close>

datatype gemError = GemEmptyVersion | GemEmptySegment | GemInvalidChar

fun checkGemSegments :: "string list \<Rightarrow> gemError option" where
  "checkGemSegments [] = None"
| "checkGemSegments (seg # segs) =
     (if seg = [] then Some GemEmptySegment
      else if \<not> list_all (\<lambda>c. isDigit c \<or> isLower c \<or> isUpper c) seg then Some GemInvalidChar
      else checkGemSegments segs)"

definition validateGemVersion :: "string \<Rightarrow> gemError option" where
  "validateGemVersion v =
     (if v = [] then Some GemEmptyVersion else checkGemSegments (splitChar (CHR ''.'') v))"

definition splitGemSegments :: "string \<Rightarrow> string list" where
  "splitGemSegments v = splitChar (CHR ''.'') (trimPrefix v ''v'')"

definition tryAtoi :: "string \<Rightarrow> int option" where
  "tryAtoi s = (if s = [] \<or> \<not> list_all isDigit s then None
     else if \<not> atoiOk s then None else Some (atoiVal s))"

fun classifyTrailingFrom :: "bool \<Rightarrow> string list \<Rightarrow> int" where
  "classifyTrailingFrom preReleaseSeen [] = (if preReleaseSeen then - 1 else 0)"
| "classifyTrailingFrom preReleaseSeen (s # segs) = (case tryAtoi s of
     Some n \<Rightarrow> if n \<noteq> 0 then 1 else classifyTrailingFrom preReleaseSeen segs
   | None \<Rightarrow> classifyTrailingFrom True segs)"

definition classifyGemTrailing :: "string list \<Rightarrow> int" where
  "classifyGemTrailing segs = classifyTrailingFrom False segs"

definition gemSegCmp :: "string \<Rightarrow> string \<Rightarrow> int" where
  "gemSegCmp aSeg bSeg = (case (tryAtoi aSeg, tryAtoi bSeg) of
       (Some aNum, Some bNum) \<Rightarrow> go_cmp aNum bNum
     | (Some _, None) \<Rightarrow> 1
     | (None, Some _) \<Rightarrow> - 1
     | (None, None) \<Rightarrow> go_cmp aSeg bSeg)"

fun gemLoop :: "string list \<Rightarrow> string list \<Rightarrow> int" where
  "gemLoop [] [] = 0"
| "gemLoop [] (b # bs) = - classifyGemTrailing (b # bs)"
| "gemLoop (a # as) [] = classifyGemTrailing (a # as)"
| "gemLoop (a # as) (b # bs) = then_cmp (gemSegCmp a b) (gemLoop as bs)"

definition compareGemVersion :: "string \<Rightarrow> string \<Rightarrow> int" where
  "compareGemVersion a b = gemLoop (splitGemSegments a) (splitGemSegments b)"

section \<open>What holds\<close>

lemma gemSegCmp_self [simp]: "gemSegCmp a a = 0"
  by (cases "tryAtoi a") (simp_all add: gemSegCmp_def)

lemma gemSegCmp_swap: "gemSegCmp b a = - gemSegCmp a b"
  using go_cmp_swap[of a b] go_cmp_swap[of "the (tryAtoi a)" "the (tryAtoi b)"]
  by (cases "tryAtoi a"; cases "tryAtoi b") (simp_all add: gemSegCmp_def)

lemma gemLoop_swap: "gemLoop b a = - gemLoop a b"
  by (induction a b rule: gemLoop.induct) (auto intro!: then_cmp_swap gemSegCmp_swap)

lemma gemLoop_prefix: "gemLoop (p @ a) (p @ b) = gemLoop a b"
  by (induction p) auto

definition numericSegs :: "string list \<Rightarrow> bool" where
  "numericSegs segs \<longleftrightarrow> list_all (\<lambda>s. tryAtoi s \<noteq> None) segs"

lemma tryAtoi_nonneg:
  assumes "tryAtoi s = Some n"
  shows "0 \<le> n"
proof -
  have s: "list_all isDigit s" "atoiOk s" "n = atoiVal s"
    using assms by (auto simp: tryAtoi_def split: if_splits)
  then have "CHR ''-'' \<notin> set s" "CHR ''+'' \<notin> set s"
    by (auto simp: list_all_iff isDigit_def byte_def)
  then show ?thesis
    using atoiOk_unsigned[OF s(2)] decimal_nonneg[OF s(1)] s(3) by simp
qed

lemma trailing_pad:
  assumes "numericSegs a"
  shows "classifyTrailingFrom False a = pad_cmp 0 go_cmp (map (the \<circ> tryAtoi) a) []"
  using assms
proof (induction a)
  case (Cons s a)
  then obtain n where "tryAtoi s = Some n" by (auto simp: numericSegs_def)
  with Cons tryAtoi_nonneg[of s n] show ?case
    by (auto simp: numericSegs_def go_cmp_def)
qed simp

lemma gemLoop_pad:
  "numericSegs a \<Longrightarrow> numericSegs b \<Longrightarrow>
     gemLoop a b = pad_cmp 0 go_cmp (map (the \<circ> tryAtoi) a) (map (the \<circ> tryAtoi) b)"
proof (induction a b rule: gemLoop.induct)
  case (2 b bs)
  then show ?case
    using trailing_pad[of "b # bs"]
      pad_cmp_antisym[OF version_order_go_cmp, of 0 "[]" "map (the \<circ> tryAtoi) (b # bs)"]
    by (simp only: gemLoop.simps classifyGemTrailing_def list.map(1) minus_minus)
next
  case (3 a as)
  then show ?case
    using trailing_pad[of "a # as"] by (simp only: gemLoop.simps classifyGemTrailing_def list.map(1))
next
  case (4 a as b bs)
  then obtain m n where "tryAtoi a = Some m" "tryAtoi b = Some n"
    by (auto simp: numericSegs_def)
  with 4 show ?case by (simp add: numericSegs_def gemSegCmp_def)
qed simp

text \<open>On versions whose segments are all numbers, gem versions compare like tuples
  padded with zeros (1.0 and 1.0.0 are equal), so there the comparator is transitive.\<close>

theorem compareGemVersion_numeric:
  assumes "numericSegs (splitGemSegments a)" and "numericSegs (splitGemSegments b)"
    and "numericSegs (splitGemSegments c)"
    and "compareGemVersion a b \<le> 0" and "compareGemVersion b c \<le> 0"
  shows "compareGemVersion a c \<le> 0"
  using assms pad_cmp_trans[OF version_order_go_cmp]
  by (simp add: compareGemVersion_def gemLoop_pad)

lemma compareGemVersion_numeric_witness:
  "compareGemVersion ''6.1.7'' ''6.1.7.0'' \<le> 0 \<and> compareGemVersion ''6.1.7.0'' ''6.1.10'' \<le> 0
   \<and> compareGemVersion ''6.1.7'' ''6.1.10'' \<le> 0"
proof -
  have "compareGemVersion ''6.1.7'' ''6.1.7.0'' \<le> 0" "compareGemVersion ''6.1.7.0'' ''6.1.10'' \<le> 0"
      "numericSegs (splitGemSegments ''6.1.7'')" "numericSegs (splitGemSegments ''6.1.7.0'')"
      "numericSegs (splitGemSegments ''6.1.10'')"
    by code_simp+
  then show ?thesis
    using compareGemVersion_numeric[of "''6.1.7''" "''6.1.7.0''" "''6.1.10''"] by blast
qed

section \<open>What does not\<close>

lemma splitGemSegments_append:
  "splitGemSegments (v @ CHR ''.'' # s) = splitGemSegments v @ splitChar (CHR ''.'') s"
proof -
  have "trimPrefix (v @ CHR ''.'' # s) ''v'' = trimPrefix v ''v'' @ CHR ''.'' # s"
    by (cases v) (auto simp: trimPrefix_def hasPrefix_def)
  then show ?thesis by (simp add: splitGemSegments_def splitChar_append)
qed

text \<open>The gem comparator has a cycle above every base version v: v.a.1 is above v, v
  is above v.b, and v.b is above v.a.1.  The first step also contradicts the rule that a
  segment with a letter marks a pre-release, below its release.\<close>

theorem compareGemVersion_cycle:
  "compareGemVersion (v @ ''.a.1'') v = 1 \<and> compareGemVersion v (v @ ''.b'') = 1
   \<and> compareGemVersion (v @ ''.b'') (v @ ''.a.1'') = 1"
proof -
  have segs: "splitChar (CHR ''.'') ''a.1'' = [''a'', ''1'']" "splitChar (CHR ''.'') ''b'' = [''b'']"
    by code_simp+
  have loops: "gemLoop [''a'', ''1''] [] = 1" "gemLoop [] [''b''] = 1" "gemLoop [''b''] [''a'', ''1''] = 1"
    by code_simp+
  let ?p = "splitGemSegments v"
  have "gemLoop (?p @ [''a'', ''1'']) (?p @ []) = 1" "gemLoop (?p @ []) (?p @ [''b'']) = 1"
      "gemLoop (?p @ [''b'']) (?p @ [''a'', ''1'']) = 1"
    unfolding gemLoop_prefix by (rule loops)+
  then show ?thesis
    using splitGemSegments_append[of v "''a.1''"] splitGemSegments_append[of v "''b''"]
    by (simp add: compareGemVersion_def segs)
qed

end
