(* ===== verification/Gosum_Version.thy ===== *)
theory Gosum_Version
  imports Resolver_Version
begin

text \<open>
  Go-module versions, \<open>ecosystems/gosum/version.go\<close> and \<open>validate.go\<close>: the
  comparator of the \<open>go.sum\<close> adapter, the check a version passes before it is
  signed (with the exact set of strings it lets through), and the escaping of
  module paths in proxy URLs (\<open>resolve.go\<close>).
\<close>

section \<open>Comparison\<close>

definition splitVersion :: "string \<Rightarrow> string \<times> string" where
  "splitVersion v = (case cutChar (CHR ''-'') (trimPrefix v ''v'') of (main, pre, _) \<Rightarrow> (main, pre))"

text \<open>The body of both loops: two segments at the same position.\<close>

definition goSegCmp :: "string \<Rightarrow> string \<Rightarrow> int" where
  "goSegCmp aSeg bSeg =
     (if atoiOk aSeg \<and> atoiOk bSeg then
        (if atoiVal aSeg \<noteq> atoiVal bSeg then (if atoiVal aSeg < atoiVal bSeg then - 1 else 1) else 0)
      else if atoiOk aSeg then - 1
      else if atoiOk bSeg then 1
      else go_cmp aSeg bSeg)"

text \<open>A missing segment of the main part is the empty string.\<close>

definition compareDottedNumeric :: "string \<Rightarrow> string \<Rightarrow> int" where
  "compareDottedNumeric a b = pad_cmp [] goSegCmp (splitChar (CHR ''.'') a) (splitChar (CHR ''.'') b)"

text \<open>A pre-release that runs out of identifiers comes first.\<close>

definition comparePreRelease :: "string \<Rightarrow> string \<Rightarrow> int" where
  "comparePreRelease a b = lex_cmp goSegCmp (splitChar (CHR ''.'') a) (splitChar (CHR ''.'') b)"

definition compareGoVersion :: "string \<Rightarrow> string \<Rightarrow> int" where
  "compareGoVersion a b =
     (case (splitVersion a, splitVersion b) of ((aMain, aPre), (bMain, bPre)) \<Rightarrow>
       then_cmp (compareDottedNumeric aMain bMain)
         (if aPre = [] \<and> bPre = [] then 0
          else if aPre = [] then 1
          else if bPre = [] then - 1
          else comparePreRelease aPre bPre))"

section \<open>Validation\<close>

datatype goVersionError =
    GoEmpty
  | GoNoV
  | GoNothingAfterV
  | GoManyPlus
  | GoEmptyBuild
  | GoBadBuild string
  | GoEmptyPre
  | GoBadPre string
  | GoNoNumeric
  | GoEmptySegment
  | GoNonNumeric char

definition validIdentifierRun :: "string \<Rightarrow> bool" where
  "validIdentifierRun s \<longleftrightarrow> s \<noteq> [] \<and>
     list_all (\<lambda>part. part \<noteq> [] \<and> list_all (\<lambda>c. isDigit c \<or> isLower c \<or> isUpper c \<or> c = CHR ''-'') part)
       (splitChar (CHR ''.'') s)"

text \<open>The loop over the numeric segments stops at the first problem.\<close>

fun checkSegments :: "string list \<Rightarrow> goVersionError option" where
  "checkSegments [] = None"
| "checkSegments (seg # segs) =
     (if seg = [] then Some GoEmptySegment
      else (case find (\<lambda>c. \<not> isDigit c) seg of
        Some c \<Rightarrow> Some (GoNonNumeric c)
      | None \<Rightarrow> checkSegments segs))"

definition ValidateVersion :: "string \<Rightarrow> goVersionError option" where
  "ValidateVersion v =
     (if v = [] then Some GoEmpty
      else if \<not> hasPrefix v ''v'' then Some GoNoV
      else let rest = tl v in
        if rest = [] then Some GoNothingAfterV
        else case cutChar (CHR ''+'') rest of (main, build, found) \<Rightarrow>
          if CHR ''+'' \<in> set build then Some GoManyPlus
          else if found \<and> build = [] then Some GoEmptyBuild
          else if build \<noteq> [] \<and> \<not> validIdentifierRun build then Some (GoBadBuild build)
          else case cutChar (CHR ''-'') main of (num, pre, dash) \<Rightarrow>
            if dash \<and> pre = [] then Some GoEmptyPre
            else if pre \<noteq> [] \<and> \<not> validIdentifierRun pre then Some (GoBadPre pre)
            else if num = [] then Some GoNoNumeric
            else checkSegments (splitChar (CHR ''.'') num))"

section \<open>Path escaping\<close>

text \<open>\<open>None\<close> is the error on a space, \<open>?\<close> or \<open>#\<close>.\<close>

fun escapeModulePath :: "string \<Rightarrow> string option" where
  "escapeModulePath [] = Some []"
| "escapeModulePath (r # p) =
     (if isUpper r then map_option (\<lambda>e. CHR ''!'' # char_of (byte r + 32) # e) (escapeModulePath p)
      else if r = CHR '' '' \<or> r = CHR ''?'' \<or> r = CHR ''#'' then None
      else map_option (\<lambda>e. r # e) (escapeModulePath p))"

definition escapeVersion :: "string \<Rightarrow> string option" where
  "escapeVersion v = escapeModulePath v"

section \<open>Laws of the comparator\<close>

lemma goSegCmp_numeric: "goSegCmp = numericSegCmp"
  by (intro ext) (simp add: goSegCmp_def numericSegCmp_def)

lemma version_order_goSegCmp: "version_order goSegCmp"
  unfolding goSegCmp_numeric by (rule version_order_numericSegCmp)

lemma compareGoVersion_keys:
  "compareGoVersion a b = then_cmp
     (compareDottedNumeric (fst (splitVersion a)) (fst (splitVersion b)))
     (suffixCmp comparePreRelease (snd (splitVersion a)) (snd (splitVersion b)))"
  by (simp add: compareGoVersion_def suffixCmp_eq split: prod.split)

lemma version_order_compareDottedNumeric: "version_order compareDottedNumeric"
  unfolding compareDottedNumeric_def
  by (rule version_order_on[OF version_order_pad[OF version_order_goSegCmp]])

lemma version_order_comparePreRelease: "version_order comparePreRelease"
  unfolding comparePreRelease_def
  by (rule version_order_on[OF version_order_lex[OF version_order_goSegCmp]])

lemma version_order_compareGoVersion [cmp_intros]: "version_order compareGoVersion"
  unfolding compareGoVersion_keys[abs_def]
  by (rule version_order_then[OF version_order_on[OF version_order_compareDottedNumeric]
        version_order_on[OF version_order_suffixCmp[OF version_order_comparePreRelease]]])

interpretation gov: version_order compareGoVersion
  by (rule version_order_compareGoVersion)

section \<open>What validation lets through\<close>

definition digitsOk :: "string \<Rightarrow> bool" where
  "digitsOk s \<longleftrightarrow> s \<noteq> [] \<and> list_all isDigit s"

definition partOk :: "string \<Rightarrow> bool" where
  "partOk s \<longleftrightarrow> s \<noteq> [] \<and> list_all (\<lambda>c. isDigit c \<or> isLower c \<or> isUpper c \<or> c = CHR ''-'') s"

definition tagged :: "char \<Rightarrow> string list \<Rightarrow> string" where
  "tagged c parts = (if parts = [] then [] else c # join ''.'' parts)"

lemma checkSegments_None: "checkSegments segs = None \<longleftrightarrow> list_all digitsOk segs"
proof (induction segs)
  case (Cons seg segs)
  have "find (\<lambda>c. \<not> isDigit c) seg = None \<longleftrightarrow> list_all isDigit seg"
    by (auto simp: find_None_iff list_all_iff)
  with Cons show ?case by (auto simp: digitsOk_def split: option.splits)
qed simp

lemma partOk_no_dot: "partOk p \<Longrightarrow> CHR ''.'' \<notin> set p \<and> CHR ''+'' \<notin> set p"
  by (auto simp: partOk_def list_all_iff isDigit_def isLower_def isUpper_def byte_def)

lemma digitsOk_chars: "digitsOk p \<Longrightarrow> CHR ''.'' \<notin> set p \<and> CHR ''+'' \<notin> set p \<and> CHR ''-'' \<notin> set p"
  by (auto simp: digitsOk_def list_all_iff isDigit_def byte_def)

lemma validIdentifierRun_iff:
  "validIdentifierRun s \<longleftrightarrow> (\<exists>parts. parts \<noteq> [] \<and> list_all partOk parts \<and> s = join ''.'' parts)"
proof
  assume "validIdentifierRun s"
  then show "\<exists>parts. parts \<noteq> [] \<and> list_all partOk parts \<and> s = join ''.'' parts"
    using join_splitChar[of "CHR ''.''" s]
    by (intro exI[of _ "splitChar (CHR ''.'') s"]) (auto simp: validIdentifierRun_def partOk_def list_all_iff)
next
  assume "\<exists>parts. parts \<noteq> [] \<and> list_all partOk parts \<and> s = join ''.'' parts"
  then obtain parts where p: "parts \<noteq> []" "list_all partOk parts" "s = join ''.'' parts" by auto
  have "splitChar (CHR ''.'') s = parts"
    unfolding p(3) by (rule splitChar_join) (use p partOk_no_dot in \<open>auto simp: list_all_iff\<close>)
  moreover have "s \<noteq> []"
    using p join_eq_Nil[of parts "''.''"] by (auto simp: list_all_iff partOk_def)
  ultimately show "validIdentifierRun s"
    using p by (auto simp: validIdentifierRun_def list_all_iff partOk_def)
qed

lemma digits_split:
  "num \<noteq> [] \<and> list_all digitsOk (splitChar (CHR ''.'') num)
   \<longleftrightarrow> (\<exists>segs. segs \<noteq> [] \<and> list_all digitsOk segs \<and> num = join ''.'' segs)"
proof
  assume "\<exists>segs. segs \<noteq> [] \<and> list_all digitsOk segs \<and> num = join ''.'' segs"
  then obtain segs where p: "segs \<noteq> []" "list_all digitsOk segs" "num = join ''.'' segs" by auto
  have "splitChar (CHR ''.'') num = segs"
    unfolding p(3) by (rule splitChar_join) (use p digitsOk_chars in \<open>auto simp: list_all_iff\<close>)
  moreover have "num \<noteq> []"
    using p join_eq_Nil[of segs "''.''"] by (auto simp: list_all_iff digitsOk_def)
  ultimately show "num \<noteq> [] \<and> list_all digitsOk (splitChar (CHR ''.'') num)"
    using p by simp
qed (use join_splitChar[of "CHR ''.''" num] splitChar_not_Nil[of "CHR ''.''" num] in metis)

lemma join_no_char:
  assumes "\<forall>p\<in>set parts. c \<notin> set p" and "c \<noteq> CHR ''.''"
  shows "c \<notin> set (join ''.'' parts)"
  using set_join[of "''.''" parts] assms by auto

text \<open>The form of an accepted version: v, numbers separated by dots, then an
  optional run of identifiers after a dash and another after a plus sign.\<close>

definition goVersionForm :: "string list \<Rightarrow> string list \<Rightarrow> string list \<Rightarrow> string" where
  "goVersionForm segs pre build = CHR ''v'' # join ''.'' segs @ tagged (CHR ''-'') pre @ tagged (CHR ''+'') build"

lemma ValidateVersion_sound:
  assumes "ValidateVersion v = None"
  shows "\<exists>segs pre build. segs \<noteq> [] \<and> list_all digitsOk segs \<and> list_all partOk pre
    \<and> list_all partOk build \<and> v = goVersionForm segs pre build"
proof -
  obtain main build found where cut: "cutChar (CHR ''+'') (tl v) = (main, build, found)"
    by (metis prod_cases3)
  obtain num pre dash where cut': "cutChar (CHR ''-'') main = (num, pre, dash)"
    by (metis prod_cases3)
  have v: "v = CHR ''v'' # tl v"
    using assms by (cases v) (auto simp: ValidateVersion_def hasPrefix_def split: if_splits)
  have checks: "found \<longrightarrow> build \<noteq> []" "build = [] \<or> validIdentifierRun build"
      "dash \<longrightarrow> pre \<noteq> []" "pre = [] \<or> validIdentifierRun pre"
      "num \<noteq> []" "list_all digitsOk (splitChar (CHR ''.'') num)"
    using assms by (auto simp: ValidateVersion_def cut cut' checkSegments_None Let_def split: if_splits)
  have tag: "\<exists>parts. list_all partOk parts \<and> x = y @ tagged c parts"
    if "cutChar c x = (y, z, f)" "f \<longrightarrow> z \<noteq> []" "z = [] \<or> validIdentifierRun z" for c x y z f
    using that by (cases f) (fastforce simp: cutChar_found cutChar_not_found validIdentifierRun_iff tagged_def)+
  obtain b where b: "list_all partOk b" "tl v = main @ tagged (CHR ''+'') b"
    using tag[OF cut checks(1,2)] by auto
  obtain p where p: "list_all partOk p" "main = num @ tagged (CHR ''-'') p"
    using tag[OF cut' checks(3,4)] by auto
  obtain segs where "segs \<noteq> []" "list_all digitsOk segs" "num = join ''.'' segs"
    using checks(5,6) digits_split[of num] by blast
  then show ?thesis
    using v b p by (metis append_assoc goVersionForm_def)
qed

lemma cutChar_tagged:
  assumes "c \<notin> set x"
  shows "cutChar c (x @ tagged c parts) = (x, join ''.'' parts, parts \<noteq> [])"
  using assms by (cases "parts = []") (simp_all add: tagged_def)

lemma ValidateVersion_complete:
  assumes segs: "segs \<noteq> []" "list_all digitsOk segs" and pre: "list_all partOk pre"
    and build: "list_all partOk build"
  shows "ValidateVersion (goVersionForm segs pre build) = None"
proof -
  have runs: "xs = [] \<and> join ''.'' xs = [] \<or> xs \<noteq> [] \<and> join ''.'' xs \<noteq> [] \<and> validIdentifierRun (join ''.'' xs)"
    if "list_all partOk xs" for xs
  proof (cases "xs = []")
    case False
    then have "validIdentifierRun (join ''.'' xs)"
      using that validIdentifierRun_iff[of "join ''.'' xs"] by blast
    with False show ?thesis by (simp add: validIdentifierRun_def)
  qed simp
  have noplus: "CHR ''+'' \<notin> set (join ''.'' xs)" if "list_all partOk xs" for xs
    by (rule join_no_char) (use that partOk_no_dot in \<open>auto simp: list_all_iff\<close>)
  have num: "CHR ''+'' \<notin> set (join ''.'' segs)" "CHR ''-'' \<notin> set (join ''.'' segs)"
    by (rule join_no_char; use segs digitsOk_chars in \<open>auto simp: list_all_iff\<close>)+
  have ok: "join ''.'' segs \<noteq> []" "list_all digitsOk (splitChar (CHR ''.'') (join ''.'' segs))"
    using digits_split[of "join ''.'' segs"] segs by auto
  define main where "main = join ''.'' segs @ tagged (CHR ''-'') pre"
  define rest where "rest = main @ tagged (CHR ''+'') build"
  define b where "b = join ''.'' build"
  define p where "p = join ''.'' pre"
  have v: "goVersionForm segs pre build = CHR ''v'' # rest"
    by (simp add: goVersionForm_def main_def rest_def)
  have "CHR ''+'' \<notin> set main"
    using num noplus[OF pre] by (auto simp: tagged_def main_def)
  then have cut: "cutChar (CHR ''+'') rest = (main, b, build \<noteq> [])"
    unfolding b_def rest_def by (rule cutChar_tagged)
  have cut': "cutChar (CHR ''-'') main = (join ''.'' segs, p, pre \<noteq> [])"
    unfolding main_def p_def by (rule cutChar_tagged[OF num(2)])
  have rest: "rest \<noteq> []" "CHR ''+'' \<notin> set b"
    using ok(1) noplus[OF build] by (auto simp: main_def b_def rest_def)
  have "b = [] \<longleftrightarrow> build = []" "p = [] \<longleftrightarrow> pre = []" "b = [] \<or> validIdentifierRun b"
      "p = [] \<or> validIdentifierRun p"
    using runs[OF pre, folded p_def] runs[OF build, folded b_def] by blast+
  then show ?thesis
    using ok rest by (simp add: ValidateVersion_def v hasPrefix_def cut cut' checkSegments_None)
qed

text \<open>A Go-module version may be signed exactly when it is a v, one or more runs
  of digits separated by dots, then optionally a dash and dot-separated
  identifiers, then optionally a plus sign and dot-separated identifiers.\<close>

theorem ValidateVersion_iff:
  "ValidateVersion v = None \<longleftrightarrow>
     (\<exists>segs pre build. segs \<noteq> [] \<and> list_all digitsOk segs \<and> list_all partOk pre
        \<and> list_all partOk build \<and> v = goVersionForm segs pre build)"
  by (rule iffI, erule ValidateVersion_sound) (elim exE conjE, simp add: ValidateVersion_complete)

section \<open>Escaped paths\<close>

lemma lowered_byte: "isUpper r \<Longrightarrow> byte (char_of (byte r + 32)) = byte r + 32"
  by (simp add: isUpper_def byte_def)

lemma byte_inj: "byte r = byte s \<Longrightarrow> r = s"
  by (simp add: byte_def)

lemma lowered_inj:
  "isUpper r \<Longrightarrow> isUpper s \<Longrightarrow> char_of (byte r + 32) = (char_of (byte s + 32) :: char) \<Longrightarrow> r = s"
proof (rule byte_inj)
  assume up: "isUpper r" "isUpper s" and eq: "char_of (byte r + 32) = (char_of (byte s + 32) :: char)"
  have "byte r + 32 = byte s + 32"
    using lowered_byte[OF up(1)] lowered_byte[OF up(2)] eq by metis
  then show "byte r = byte s" by simp
qed

lemma lowered_not_upper: "isUpper r \<Longrightarrow> \<not> isUpper (char_of (byte r + 32))"
  using lowered_byte[of r] by (simp add: isUpper_def)

lemma escape_inj:
  assumes "escapeModulePath p = Some e" and "escapeModulePath q = Some e"
    and "CHR ''!'' \<notin> set p" and "CHR ''!'' \<notin> set q"
  shows "p = q"
  using assms
proof (induction p arbitrary: q e)
  case Nil
  then show ?case by (cases q) (auto split: if_splits)
next
  case (Cons r p)
  then obtain s q' where q: "q = s # q'"
    by (cases q) (auto split: if_splits)
  show ?case
    using Cons.prems q lowered_inj[of r s]
    by (auto intro: Cons.IH split: if_splits)
qed

lemma escape_no_upper: "escapeModulePath p = Some e \<Longrightarrow> list_all (\<lambda>c. \<not> isUpper c) e"
proof (induction p arbitrary: e)
  case (Cons r p)
  have "\<not> isUpper (CHR ''!'')" by code_simp
  with Cons show ?case
    by (auto split: if_splits dest: lowered_not_upper)
qed simp

text \<open>Escaping keeps module paths apart on case-insensitive storage: the escaped
  form has no upper-case letter, and two paths without an exclamation mark that
  escape to the same string are the same path.\<close>

theorem escapeModulePath_injective:
  assumes "escapeModulePath p = Some e" and "escapeModulePath q = Some e"
    and "CHR ''!'' \<notin> set p" and "CHR ''!'' \<notin> set q"
  shows "p = q \<and> list_all (\<lambda>c. \<not> isUpper c) e"
  using escape_inj[OF assms] escape_no_upper[OF assms(1)] by blast

lemma escapeModulePath_injective_witness:
  "escapeModulePath ''a/Bc'' = Some ''a/!bc'' \<and> list_all (\<lambda>c. \<not> isUpper c) ''a/!bc''"
proof -
  have "escapeModulePath ''a/Bc'' = Some ''a/!bc''" by code_simp
  then show ?thesis
    using escapeModulePath_injective[of "''a/Bc''" "''a/!bc''" "''a/Bc''"] by simp
qed

end
