(* ===== verification/Pypi_Version.thy ===== *)
theory Pypi_Version
  imports Version_Order Go_Strings
begin

text \<open>
  PEP 440 versions, \<open>ecosystems/pypi/version.go\<close>: the parser, with the regular
  expressions of the source written out as the deterministic scans they are, and
  the comparator.  The comparator is shown to be a total preorder; two of the
  places where it departs from PEP 440 are stated as theorems.
\<close>

section \<open>The parsed form\<close>

text \<open>-1 in the optional numbers stands for absent, as in the source.\<close>

record pep440 =
  epoch :: int
  release :: "int list"
  preKind :: string
  preNum :: int
  postNum :: int
  devNum :: int
  localLabel :: string

datatype pepError =
    PepEmpty
  | PepNothingAfterV
  | PepEmptyLocal
  | PepBadLocal string
  | PepEmptyEpoch
  | PepBadEpoch string
  | PepEmptyRelease
  | PepTrailing string

section \<open>The regular expressions\<close>

definition isSep :: "char \<Rightarrow> bool" where
  "isSep c \<longleftrightarrow> c = CHR ''.'' \<or> c = CHR ''_'' \<or> c = CHR ''-''"

text \<open>\<open>[._-]?\<close>, greedy: nothing that follows it in the patterns starts with a separator.\<close>

definition skipSep :: "string \<Rightarrow> string" where
  "skipSep s = (case s of [] \<Rightarrow> [] | c # r \<Rightarrow> if isSep c then r else s)"

text \<open>\<open>(\<d>+)\<close>: the digits and the rest.\<close>

definition takeDigits :: "string \<Rightarrow> (string \<times> string) option" where
  "takeDigits s = (let d = takeWhile isDigit s in if d = [] then None else Some (d, dropWhile isDigit s))"

text \<open>\<open>(w1|w2|...)[._-]?(\<d>+)\<close>: the first alternative that leads to a match.\<close>

fun matchTag :: "string list \<Rightarrow> string \<Rightarrow> (string \<times> string \<times> string) option" where
  "matchTag [] s = None"
| "matchTag (w # ws) s =
     (case (if hasPrefix s w then takeDigits (skipSep (drop (length w) s)) else None) of
        Some (d, rest) \<Rightarrow> Some (w, d, rest)
      | None \<Rightarrow> matchTag ws s)"

definition matchPre :: "string \<Rightarrow> (string \<times> string \<times> string) option" where
  "matchPre s = matchTag [''alpha'', ''beta'', ''preview'', ''pre'', ''rc'', ''a'', ''b'', ''c''] (skipSep s)"

definition matchPostExplicit :: "string \<Rightarrow> (string \<times> string \<times> string) option" where
  "matchPostExplicit s = matchTag [''post'', ''rev'', ''r''] (skipSep s)"

definition matchPostImplicit :: "string \<Rightarrow> (string \<times> string) option" where
  "matchPostImplicit s = (if hasPrefix s ''-'' then takeDigits (tl s) else None)"

definition matchDev :: "string \<Rightarrow> (string \<times> string \<times> string) option" where
  "matchDev s = matchTag [''dev''] (skipSep s)"

definition localAlnum :: "char \<Rightarrow> bool" where
  "localAlnum c \<longleftrightarrow> isDigit c \<or> isLower c"

text \<open>\<open>^[a-z0-9]+([._-][a-z0-9]+)*$\<close>: \<open>first\<close> tells that the current run is still empty.\<close>

fun matchLocal :: "bool \<Rightarrow> string \<Rightarrow> bool" where
  "matchLocal first [] = (\<not> first)"
| "matchLocal first (c # s) =
     (if localAlnum c then matchLocal False s
      else if isSep c \<and> \<not> first then matchLocal True s
      else False)"

section \<open>The parser\<close>

definition canonPreKind :: "string \<Rightarrow> string" where
  "canonPreKind s =
     (if s = ''a'' \<or> s = ''alpha'' then ''a''
      else if s = ''b'' \<or> s = ''beta'' then ''b''
      else if s = ''c'' \<or> s = ''rc'' \<or> s = ''pre'' \<or> s = ''preview'' then ''rc''
      else s)"

text \<open>The release loop: a run of digits, continued over a dot that a digit follows.\<close>

function parseRelease :: "string \<Rightarrow> (int list \<times> string) option" where
  "parseRelease s =
     (let d = takeWhile isDigit s; r = dropWhile isDigit s in
      if d = [] then None
      else if 2 \<le> length r \<and> r ! 0 = CHR ''.'' \<and> isDigit (r ! 1)
        then map_option (\<lambda>(ns, rest). (atoiVal d # ns, rest)) (parseRelease (tl r))
      else Some ([atoiVal d], r))"
  by auto
termination
proof (relation "measure length")
  fix s :: string and d r
  assume "d = takeWhile isDigit s" "r = dropWhile isDigit s" "d \<noteq> []"
    "2 \<le> length r \<and> r ! 0 = CHR ''.'' \<and> isDigit (r ! 1)"
  then show "(tl r, s) \<in> measure length"
    using length_dropWhile_le[of isDigit s] by auto
qed simp

declare parseRelease.simps [simp del]

definition parseLocal :: "string \<Rightarrow> pepError + string \<times> string" where
  "parseLocal s = (case cutChar (CHR ''+'') s of (before, after, found) \<Rightarrow>
     if \<not> found then Inr (s, [])
     else if after = [] then Inl PepEmptyLocal
     else if \<not> matchLocal True after then Inl (PepBadLocal after)
     else Inr (before, after))"

definition parseEpoch :: "string \<Rightarrow> pepError + int \<times> string" where
  "parseEpoch s = (case cutChar (CHR ''!'') s of (before, after, found) \<Rightarrow>
     if \<not> found then Inr (0, s)
     else if before = [] then Inl PepEmptyEpoch
     else if \<not> atoiOk before then Inl (PepBadEpoch before)
     else Inr (atoiVal before, after))"

text \<open>The three optional suffixes: kind and number, and what is left.\<close>

definition parsePrePart :: "string \<Rightarrow> string \<times> int \<times> string" where
  "parsePrePart s = (case matchPre s of
     Some (w, d, rest) \<Rightarrow> (canonPreKind w, atoiVal d, rest)
   | None \<Rightarrow> ([], 0, s))"

definition parsePostPart :: "string \<Rightarrow> int \<times> string" where
  "parsePostPart s = (case matchPostExplicit s of
     Some (_, d, rest) \<Rightarrow> (atoiVal d, rest)
   | None \<Rightarrow> (case matchPostImplicit s of
       Some (d, rest) \<Rightarrow> (atoiVal d, rest)
     | None \<Rightarrow> (- 1, s)))"

definition parseDevPart :: "string \<Rightarrow> int \<times> string" where
  "parseDevPart s = (case matchDev s of
     Some (_, d, rest) \<Rightarrow> (atoiVal d, rest)
   | None \<Rightarrow> (- 1, s))"

definition parseVersion :: "string \<Rightarrow> pepError + pep440" where
  "parseVersion v =
     (if v = [] then Inl PepEmpty
      else let s = trimPrefix (toLower v) ''v'' in
        if s = [] then Inl PepNothingAfterV
        else bindE (parseLocal s) (\<lambda>(s1, loc).
             bindE (parseEpoch s1) (\<lambda>(ep, s2).
             case parseRelease s2 of
               None \<Rightarrow> Inl PepEmptyRelease
             | Some (rel, s3) \<Rightarrow>
                (case parsePrePart s3 of (pk, pn, s4) \<Rightarrow>
                (case parsePostPart s4 of (post, s5) \<Rightarrow>
                (case parseDevPart s5 of (dev, s6) \<Rightarrow>
                   if s6 \<noteq> [] then Inl (PepTrailing s6)
                   else Inr \<lparr>epoch = ep, release = rel, preKind = pk, preNum = pn,
                             postNum = post, devNum = dev, localLabel = loc\<rparr>))))))"

definition pypi_ValidateVersion :: "string \<Rightarrow> pepError option" where
  "pypi_ValidateVersion v = (if v = [] then Some PepEmpty
     else (case parseVersion v of Inl e \<Rightarrow> Some e | Inr _ \<Rightarrow> None))"

section \<open>The comparator\<close>

definition phaseDevOnly :: int where "phaseDevOnly = 0"
definition phasePre :: int where "phasePre = 1"
definition phaseFinal :: int where "phaseFinal = 2"
definition phasePost :: int where "phasePost = 3"

definition classifyPhase :: "pep440 \<Rightarrow> int" where
  "classifyPhase v =
     (if preKind v \<noteq> [] then phasePre
      else if postNum v \<ge> 0 then phasePost
      else if devNum v \<ge> 0 then phaseDevOnly
      else phaseFinal)"

definition preKindRank :: "string \<Rightarrow> int" where
  "preKindRank k = (if k = ''a'' then 0 else if k = ''b'' then 1 else if k = ''rc'' then 2 else 99)"

definition devForOrder :: "int \<Rightarrow> int" where
  "devForOrder n = (if n < 0 then 2 ^ 30 - 1 else n)"

text \<open>\<open>end > 1 && seg[end-1] == 0\<close>: the first element always stays.\<close>

definition stripTrailingZeros :: "int list \<Rightarrow> int list" where
  "stripTrailingZeros seg = (case seg of [] \<Rightarrow> [] | x # xs \<Rightarrow> x # rev (dropWhile (\<lambda>n. n = 0) (rev xs)))"

definition cmpRelease :: "int list \<Rightarrow> int list \<Rightarrow> int" where
  "cmpRelease a b = pad_cmp 0 go_cmp (stripTrailingZeros a) (stripTrailingZeros b)"

text \<open>\<open>splitLocal\<close> cuts at every separator; \<open>cur\<close> is the current segment, reversed.\<close>

fun splitLocalFrom :: "string \<Rightarrow> string \<Rightarrow> string list" where
  "splitLocalFrom cur [] = [rev cur]"
| "splitLocalFrom cur (c # s) = (if isSep c then rev cur # splitLocalFrom [] s else splitLocalFrom (c # cur) s)"

definition splitLocal :: "string \<Rightarrow> string list" where
  "splitLocal s = splitLocalFrom [] s"

text \<open>\<open>asLocalSegment\<close>: the empty segment counts as the number 0.\<close>

definition asLocalSegment :: "string \<Rightarrow> string + int" where
  "asLocalSegment s = (if \<not> list_all isDigit s then Inl s else Inr (atoiVal s))"

definition localSegCmp :: "string \<Rightarrow> string \<Rightarrow> int" where
  "localSegCmp a b = (case (asLocalSegment a, asLocalSegment b) of
       (Inr ax, Inr bx) \<Rightarrow> go_cmp ax bx
     | (Inr _, Inl _) \<Rightarrow> 1
     | (Inl _, Inr _) \<Rightarrow> - 1
     | (Inl ax, Inl bx) \<Rightarrow> go_cmp ax bx)"

definition cmpLocal :: "string \<Rightarrow> string \<Rightarrow> int" where
  "cmpLocal a b = lex_cmp localSegCmp (splitLocal a) (splitLocal b)"

definition cmpVersion :: "pep440 \<Rightarrow> pep440 \<Rightarrow> int" where
  "cmpVersion a b =
     then_cmp (go_cmp (epoch a) (epoch b))
    (then_cmp (cmpRelease (release a) (release b))
     (let pa = classifyPhase a; pb = classifyPhase b in
      if pa \<noteq> pb then go_cmp pa pb
      else then_cmp
        (if pa = phaseDevOnly then go_cmp (devNum a) (devNum b)
         else if pa = phasePre then
           then_cmp (go_cmp (preKindRank (preKind a)) (preKindRank (preKind b)))
          (then_cmp (go_cmp (preNum a) (preNum b))
                    (go_cmp (devForOrder (devNum a)) (devForOrder (devNum b))))
         else if pa = phasePost then
           then_cmp (go_cmp (postNum a) (postNum b))
                    (go_cmp (devForOrder (devNum a)) (devForOrder (devNum b)))
         else 0)
        (if localLabel a = [] \<and> localLabel b = [] then 0
         else if localLabel a = [] then - 1
         else if localLabel b = [] then 1
         else cmpLocal (localLabel a) (localLabel b))))"

definition comparePEP440 :: "string \<Rightarrow> string \<Rightarrow> int" where
  "comparePEP440 a b = (case (parseVersion a, parseVersion b) of
       (Inl _, Inl _) \<Rightarrow> go_cmp a b
     | (Inl _, Inr _) \<Rightarrow> - 1
     | (Inr _, Inl _) \<Rightarrow> 1
     | (Inr pa, Inr pb) \<Rightarrow> cmpVersion pa pb)"

section \<open>The comparator is a total preorder\<close>

lemma version_order_localSegCmp: "version_order localSegCmp"
proof -
  have "version_order (class_cmp (\<lambda>s. \<not> list_all isDigit s) go_cmp (\<lambda>a b. go_cmp (atoiVal a) (atoiVal b)))"
    by (rule version_order_class[OF version_order_go_cmp version_order_on[OF version_order_go_cmp]])
  moreover have "class_cmp (\<lambda>s. \<not> list_all isDigit s) go_cmp (\<lambda>a b. go_cmp (atoiVal a) (atoiVal b)) = localSegCmp"
    by (intro ext) (simp add: class_cmp_def localSegCmp_def asLocalSegment_def)
  ultimately show ?thesis by simp
qed

lemma version_order_cmpLocal: "version_order cmpLocal"
  unfolding cmpLocal_def
  by (rule version_order_on[OF version_order_lex[OF version_order_localSegCmp]])

lemma version_order_cmpRelease: "version_order cmpRelease"
  unfolding cmpRelease_def
  by (rule version_order_on[OF version_order_pad[OF version_order_go_cmp]])

text \<open>The numbers that are compared within a phase, in order.\<close>

definition phaseKey :: "pep440 \<Rightarrow> int list" where
  "phaseKey v =
     (if classifyPhase v = phaseDevOnly then [devNum v]
      else if classifyPhase v = phasePre then [preKindRank (preKind v), preNum v, devForOrder (devNum v)]
      else if classifyPhase v = phasePost then [postNum v, devForOrder (devNum v)]
      else [])"

lemma cmpVersion_keys:
  "cmpVersion a b =
     then_cmp (go_cmp (epoch a) (epoch b))
    (then_cmp (cmpRelease (release a) (release b))
    (then_cmp (go_cmp (classifyPhase a) (classifyPhase b))
    (then_cmp (lex_cmp go_cmp (phaseKey a) (phaseKey b))
              (class_cmp (\<lambda>l. l = []) (\<lambda>_ _. 0) cmpLocal (localLabel a) (localLabel b)))))"
proof (cases "classifyPhase a = classifyPhase b")
  case True
  then show ?thesis
    by (simp add: cmpVersion_def phaseKey_def class_cmp_def Let_def)
next
  case False
  then show ?thesis
    by (simp add: cmpVersion_def then_cmp_def)
qed

lemma version_order_cmpVersion: "version_order cmpVersion"
  unfolding cmpVersion_keys[abs_def]
  by (intro version_order_then
      version_order_on[OF version_order_go_cmp, where f = epoch]
      version_order_on[OF version_order_cmpRelease, where f = release]
      version_order_on[OF version_order_go_cmp, where f = classifyPhase]
      version_order_on[OF version_order_lex[OF version_order_go_cmp], where f = phaseKey]
      version_order_on[OF version_order_class[OF version_order_const version_order_cmpLocal],
        where f = localLabel])

definition pepParsed :: "string \<Rightarrow> bool" where
  "pepParsed v \<longleftrightarrow> (case parseVersion v of Inl _ \<Rightarrow> False | Inr _ \<Rightarrow> True)"

lemma version_order_comparePEP440 [cmp_intros]: "version_order comparePEP440"
proof -
  have "version_order (class_cmp (\<lambda>v. \<not> pepParsed v) go_cmp
     (\<lambda>a b. cmpVersion (projr (parseVersion a)) (projr (parseVersion b))))"
    by (rule version_order_class[OF version_order_go_cmp version_order_on[OF version_order_cmpVersion]])
  moreover have "class_cmp (\<lambda>v. \<not> pepParsed v) go_cmp
     (\<lambda>a b. cmpVersion (projr (parseVersion a)) (projr (parseVersion b))) = comparePEP440"
    by (intro ext, rename_tac a b, case_tac "parseVersion a"; case_tac "parseVersion b")
      (simp_all add: comparePEP440_def class_cmp_def pepParsed_def)
  ultimately show ?thesis by simp
qed

interpretation pep: version_order comparePEP440
  by (rule version_order_comparePEP440)

text \<open>The PEP 440 comparator orders every two strings, malformed ones included: it
  returns -1, 0 or 1, swapping the arguments flips the sign, and it is transitive.\<close>

theorem comparePEP440_total_preorder:
  "comparePEP440 a b \<in> {- 1, 0, 1} \<and> comparePEP440 b a = - comparePEP440 a b
   \<and> (comparePEP440 a b \<le> 0 \<and> comparePEP440 b c \<le> 0 \<longrightarrow> comparePEP440 a c \<le> 0)"
  by (intro conjI impI pep.cmp_range pep.cmp_antisym) (elim conjE, rule pep.cmp_trans)

lemma comparePEP440_total_preorder_witness:
  "comparePEP440 ''1.0.dev3'' ''1.0rc1'' \<le> 0 \<and> comparePEP440 ''1.0rc1'' ''1!0.1'' \<le> 0
   \<and> comparePEP440 ''1.0.dev3'' ''1!0.1'' \<le> 0"
proof -
  have "comparePEP440 ''1.0.dev3'' ''1.0rc1'' \<le> 0" "comparePEP440 ''1.0rc1'' ''1!0.1'' \<le> 0"
    by code_simp+
  then show ?thesis
    using comparePEP440_total_preorder[of "''1.0.dev3''" "''1.0rc1''" "''1!0.1''"] by blast
qed

section \<open>Trailing zeros\<close>

lemma pad_cmp_zeros_left:
  "list_all (\<lambda>n. n = 0) zs \<Longrightarrow> pad_cmp 0 go_cmp (xs @ zs) ys = pad_cmp 0 go_cmp xs (ys :: int list)"
proof (induction "0 :: int" "go_cmp :: int \<Rightarrow> int \<Rightarrow> int" xs ys rule: pad_cmp.induct)
  case 1
  then show ?case by (induction zs) auto
next
  case (3 y ys)
  have "pad_cmp 0 go_cmp zs us = pad_cmp 0 go_cmp [] us" for us :: "int list"
    using 3(2)
  proof (induction zs arbitrary: us)
    case (Cons z zs)
    then show ?case by (cases us) auto
  qed simp
  then show ?case by simp
qed auto

lemma strip_decompose:
  "\<exists>zs. list_all (\<lambda>n. n = 0) zs \<and> seg = stripTrailingZeros seg @ zs"
proof (cases seg)
  case (Cons x xs)
  have "xs = rev (dropWhile (\<lambda>n. n = 0) (rev xs)) @ rev (takeWhile (\<lambda>n. n = 0) (rev xs))"
    by (metis rev_append rev_rev_ident takeWhile_dropWhile_id)
  moreover have "list_all (\<lambda>n. n = 0) (rev (takeWhile (\<lambda>n. n = 0) (rev xs)))"
    by (auto simp: list_all_iff dest: set_takeWhileD)
  ultimately show ?thesis
    by (intro exI[of _ "rev (takeWhile (\<lambda>n. n = 0) (rev xs))"]) (simp add: Cons stripTrailingZeros_def)
qed (simp add: stripTrailingZeros_def)

text \<open>Stripping the trailing zeros is an optimisation only: release tuples compare as
  if the shorter one were padded with zeros for ever, so 1.0 and 1.0.0 are equal.\<close>

theorem cmpRelease_pads_with_zeros:
  "cmpRelease a b = pad_cmp 0 go_cmp a b"
proof -
  obtain za zb where z: "list_all (\<lambda>n. n = 0) za" "a = stripTrailingZeros a @ za"
      "list_all (\<lambda>n. n = 0) zb" "b = stripTrailingZeros b @ zb"
    using strip_decompose by metis
  let ?c = "pad_cmp 0 (go_cmp :: int \<Rightarrow> int \<Rightarrow> int)"
  have swap: "?c u v = - ?c v u" for u v
    by (rule pad_cmp_antisym[OF version_order_go_cmp])
  have "?c a b = ?c (stripTrailingZeros a) b"
    using pad_cmp_zeros_left[OF z(1), of "stripTrailingZeros a" b] z(2) by simp
  also have "\<dots> = ?c (stripTrailingZeros a) (stripTrailingZeros b)"
    using pad_cmp_zeros_left[OF z(3), of "stripTrailingZeros b" "stripTrailingZeros a"] z(4) swap by metis
  finally show ?thesis by (simp add: cmpRelease_def)
qed

section \<open>Departures from PEP 440\<close>

text \<open>Two versions that PEP 440 keeps apart or orders the other way.  A post-release
  of a pre-release compares equal to it whatever its number, since the post number is not
  looked at in the pre phase; and a development release whose number exceeds the sentinel
  2^30 - 1 (a date and time, say) sorts after the post-release it leads up to.\<close>

theorem cmpVersion_departures:
  "(preKind v \<noteq> [] \<longrightarrow> cmpVersion (v\<lparr>postNum := m\<rparr>) (v\<lparr>postNum := n\<rparr>) = 0)
   \<and> (preKind v = [] \<and> 0 \<le> postNum v \<and> 2 ^ 30 - 1 < d
        \<longrightarrow> cmpVersion (v\<lparr>devNum := d\<rparr>) (v\<lparr>devNum := - 1\<rparr>) = 1)"
proof -
  have refl: "cmpRelease r r = 0" "cmpLocal l l = 0" for r l
    using version_order.cmp_refl[OF version_order_cmpRelease] version_order.cmp_refl[OF version_order_cmpLocal]
    by blast+
  show ?thesis
    by (auto simp: cmpVersion_def classifyPhase_def refl phasePre_def phasePost_def phaseDevOnly_def
        devForOrder_def go_cmp_def Let_def)
qed

lemma cmpVersion_departures_witness:
  "comparePEP440 ''1.0a1.post1'' ''1.0a1'' = 0
   \<and> comparePEP440 ''1.0.post1.dev1073741824'' ''1.0.post1'' = 1"
proof -
  define v where "v = \<lparr>epoch = 0, release = [1, 0], preKind = ''a'', preNum = 1, postNum = 1,
    devNum = - 1, localLabel = []\<rparr>"
  define w where "w = v\<lparr>preKind := []\<rparr>"
  have "parseVersion ''1.0a1.post1'' = Inr (v\<lparr>postNum := 1\<rparr>)"
      "parseVersion ''1.0a1'' = Inr (v\<lparr>postNum := - 1\<rparr>)"
      "parseVersion ''1.0.post1.dev1073741824'' = Inr (w\<lparr>preNum := 0, devNum := 1073741824\<rparr>)"
      "parseVersion ''1.0.post1'' = Inr (w\<lparr>preNum := 0, devNum := - 1\<rparr>)"
    unfolding w_def v_def by code_simp+
  then show ?thesis
    using cmpVersion_departures[of v 1 "- 1" 0]
      cmpVersion_departures[of "w\<lparr>preNum := 0\<rparr>" 0 0 1073741824]
    by (simp add: comparePEP440_def v_def w_def)
qed

end
