(* ===== verification/Tillit_Crypto.thy ===== *)
theory Tillit_Crypto
  imports Models
begin

text \<open>
  Keys and encodings, \<open>crypto/\<close> and the user part of \<open>models/user.go\<close>.  The signature
  schemes themselves are functions of the environment; what the program does
  with them is written out: which algorithm a key is loaded for, which lengths are
  accepted, and the raw base64url encoding in which keys and signatures travel.
  The encoding can be decoded, but several strings decode to the same bytes.
\<close>

section \<open>Raw base64url\<close>

definition b64Char :: "nat \<Rightarrow> char" where
  "b64Char n =
     (if n < 26 then char_of (65 + n) else if n < 52 then char_of (71 + n)
      else if n < 62 then char_of (n - 4) else if n = 62 then CHR ''-'' else CHR ''_'')"

definition b64Val :: "char \<Rightarrow> nat option" where
  "b64Val c =
     (if isUpper c then Some (byte c - 65) else if isLower c then Some (byte c - 71)
      else if isDigit c then Some (byte c + 4) else if c = CHR ''-'' then Some 62
      else if c = CHR ''_'' then Some 63 else None)"

fun toSextets :: "nat list \<Rightarrow> nat list" where
  "toSextets [] = []"
| "toSextets [x] = [x div 4, x mod 4 * 16]"
| "toSextets [x, y] = [x div 4, x mod 4 * 16 + y div 16, y mod 16 * 4]"
| "toSextets (x # y # z # r) =
     [x div 4, x mod 4 * 16 + y div 16, y mod 16 * 4 + z div 64, z mod 64] @ toSextets r"

text \<open>The decoder does not look at the unused bits of the last group.\<close>

fun fromSextets :: "nat list \<Rightarrow> nat list option" where
  "fromSextets [] = Some []"
| "fromSextets [a] = None"
| "fromSextets [a, b] = Some [a * 4 + b div 16]"
| "fromSextets [a, b, c] = Some [a * 4 + b div 16, b mod 16 * 16 + c div 4]"
| "fromSextets (a # b # c # d # r) =
     map_option (\<lambda>bs. [a * 4 + b div 16, b mod 16 * 16 + c div 4, c mod 4 * 64 + d] @ bs) (fromSextets r)"

definition b64Encode :: "string \<Rightarrow> string" where
  "b64Encode s = map b64Char (toSextets (map byte s))"

definition isNewline :: "char \<Rightarrow> bool" where
  "isNewline c \<longleftrightarrow> byte c = 10 \<or> byte c = 13"

fun b64Vals :: "string \<Rightarrow> nat list option" where
  "b64Vals [] = Some []"
| "b64Vals (c # s) = (case b64Val c of None \<Rightarrow> None | Some n \<Rightarrow> map_option (\<lambda>ns. n # ns) (b64Vals s))"

text \<open>\<open>base64.RawURLEncoding.DecodeString\<close>: newlines are skipped, any other character
  outside the alphabet is an error.\<close>

definition b64Decode :: "string \<Rightarrow> string option" where
  "b64Decode s = (case b64Vals (filter (\<lambda>c. \<not> isNewline c) s) of
     None \<Rightarrow> None
   | Some ns \<Rightarrow> map_option (map char_of) (fromSextets ns))"

lemma toSextets_bound: "\<forall>x\<in>set bs. x < 256 \<Longrightarrow> \<forall>n\<in>set (toSextets bs). n < 64"
  by (induction bs rule: toSextets.induct) auto

lemma sextet1: "x div 4 * 4 + x mod 4 * 16 div 16 = (x :: nat)"
  by simp

lemma sextet2: "y < 256 \<Longrightarrow> x div 4 * 4 + (x mod 4 * 16 + y div 16) div 16 = (x :: nat)"
proof -
  assume "y < 256"
  then have "y div 16 < 16" by auto
  then show ?thesis by (simp add: mult.commute)
qed

lemma sextet3: "y < 256 \<Longrightarrow> (x mod 4 * 16 + y div 16) mod 16 * 16 + y mod 16 * 4 div 4 = (y :: nat)"
proof -
  assume "y < 256"
  then have "y div 16 < 16" by auto
  then show ?thesis by simp
qed

lemma sextet4:
  "y < 256 \<Longrightarrow> z < 256 \<Longrightarrow>
   (x mod 4 * 16 + y div 16) mod 16 * 16 + (y mod 16 * 4 + z div 64) div 4 = (y :: nat)"
proof -
  assume "y < 256" "z < 256"
  then have "y div 16 < 16" "z div 64 < 4" by auto
  then show ?thesis by simp
qed

lemma sextet5: "z < 256 \<Longrightarrow> (y mod 16 * 4 + z div 64) mod 4 * 64 + z mod 64 = (z :: nat)"
proof -
  assume "z < 256"
  then have "z div 64 < 4" by auto
  then show ?thesis by simp
qed

lemma fromSextets_toSextets: "\<forall>x\<in>set bs. x < 256 \<Longrightarrow> fromSextets (toSextets bs) = Some bs"
proof (induction bs rule: toSextets.induct)
  case (2 x)
  show ?case by (simp only: toSextets.simps fromSextets.simps sextet1)
next
  case (3 x y)
  then have "y < 256" by simp
  then show ?case by (simp only: toSextets.simps fromSextets.simps sextet2 sextet3)
next
  case (4 x y z r)
  then have y: "y < 256" and z: "z < 256" and r: "fromSextets (toSextets r) = Some r" by simp_all
  show ?case
    unfolding toSextets.simps append.simps fromSextets.simps r option.map
      sextet2[OF y] sextet4[OF y z] sextet5[OF z] ..
qed simp

lemma byte_char_of: "n < 256 \<Longrightarrow> byte (char_of n) = n"
  by (simp add: byte_def)

lemma byte_b64Char:
  "n < 64 \<Longrightarrow> byte (b64Char n) = (if n < 26 then 65 + n else if n < 52 then 71 + n
      else if n < 62 then n - 4 else if n = 62 then 45 else 95)"
  by (auto simp: b64Char_def byte_def)

lemma b64Val_byte:
  "b64Val c =
     (if 65 \<le> byte c \<and> byte c \<le> 90 then Some (byte c - 65)
      else if 97 \<le> byte c \<and> byte c \<le> 122 then Some (byte c - 71)
      else if 48 \<le> byte c \<and> byte c \<le> 57 then Some (byte c + 4)
      else if byte c = 45 then Some 62 else if byte c = 95 then Some 63 else None)"
proof -
  have "byte c = byte d \<longleftrightarrow> c = d" for d by (simp add: byte_def)
  from this[of "CHR ''-''"] this[of "CHR ''_''"]
  have "c = CHR ''-'' \<longleftrightarrow> byte c = 45" "c = CHR ''_'' \<longleftrightarrow> byte c = 95"
    by (simp_all add: byte_def)
  then show ?thesis
    by (simp add: b64Val_def isUpper_def isLower_def isDigit_def)
qed

lemma b64Val_b64Char: "n < 64 \<Longrightarrow> b64Val (b64Char n) = Some n"
  by (simp only: b64Val_byte byte_b64Char) (auto split: if_split)

lemma b64Char_no_newline: "n < 64 \<Longrightarrow> \<not> isNewline (b64Char n)"
  by (auto simp: isNewline_def byte_b64Char)

lemma b64Vals_map: "\<forall>n\<in>set ns. n < 64 \<Longrightarrow> b64Vals (map b64Char ns) = Some ns"
  by (induction ns) (auto simp: b64Val_b64Char)

lemma b64Decode_Encode: "b64Decode (b64Encode s) = Some s"
proof -
  have b: "\<forall>x\<in>set (map byte s). x < 256" by (auto simp: byte_lt_256)
  have "filter (\<lambda>c. \<not> isNewline c) (b64Encode s) = b64Encode s"
    using toSextets_bound[OF b] b64Char_no_newline by (auto simp: b64Encode_def filter_id_conv)
  then show ?thesis
    using fromSextets_toSextets[OF b] b64Vals_map[OF toSextets_bound[OF b]]
    by (simp add: b64Decode_def b64Encode_def comp_def byte_def)
qed

lemma b64Decode_newline: "b64Decode (s @ [char_of (10 :: nat)]) = b64Decode s"
proof -
  have "isNewline (char_of (10 :: nat))" by (simp add: isNewline_def byte_def)
  then show ?thesis by (simp add: b64Decode_def)
qed

section \<open>Signature schemes\<close>

text \<open>
  What the cryptographic packages provide.  \<open>slhPublicOk\<close> and \<open>slhPrivateOk\<close> tell
  whether \<open>UnmarshalBinary\<close> succeeds; signing takes the randomness drawn.
\<close>

record schemes =
  sha256 :: "string \<Rightarrow> string"
  ed25519Verify :: "string \<Rightarrow> string \<Rightarrow> string \<Rightarrow> bool"
  ed25519Public :: "string \<Rightarrow> string"
  ed25519Sign :: "string \<Rightarrow> string \<Rightarrow> string"
  slhVerify :: "string \<Rightarrow> string \<Rightarrow> string \<Rightarrow> bool"
  slhPublic :: "string \<Rightarrow> string"
  slhSign :: "string \<Rightarrow> string \<Rightarrow> string \<Rightarrow> string"
  slhPublicOk :: "string \<Rightarrow> bool"
  slhPrivateOk :: "string \<Rightarrow> bool"

definition ed25519PublicKeySize :: nat where "ed25519PublicKeySize = 32"
definition ed25519PrivateKeySize :: nat where "ed25519PrivateKeySize = 64"

datatype verifier = Ed25519Verifier string | SLHDSAVerifier string

datatype signer = Ed25519Signer string | SLHDSASigner string

datatype cryptoError = UnknownAlgorithm string | BadKeyLength nat nat | BadSLHKey | KeyNotGenerated

definition newEd25519Verifier :: "string \<Rightarrow> cryptoError + verifier" where
  "newEd25519Verifier publicKey =
     (if length publicKey \<noteq> ed25519PublicKeySize then Inl (BadKeyLength (length publicKey) ed25519PublicKeySize)
      else Inr (Ed25519Verifier publicKey))"

definition newSLHDSAVerifier :: "schemes \<Rightarrow> string \<Rightarrow> cryptoError + verifier" where
  "newSLHDSAVerifier k publicKey =
     (if \<not> slhPublicOk k publicKey then Inl BadSLHKey else Inr (SLHDSAVerifier publicKey))"

definition NewVerifier :: "schemes \<Rightarrow> string \<Rightarrow> string \<Rightarrow> cryptoError + verifier" where
  "NewVerifier k algorithm publicKey =
     (if algorithm = ''ed25519'' then newEd25519Verifier publicKey
      else if algorithm = ''slh-dsa-shake-128s'' then newSLHDSAVerifier k publicKey
      else Inl (UnknownAlgorithm algorithm))"

fun verifierVerify :: "schemes \<Rightarrow> verifier \<Rightarrow> string \<Rightarrow> string \<Rightarrow> bool" where
  "verifierVerify k (Ed25519Verifier pub) message sig = ed25519Verify k pub message sig"
| "verifierVerify k (SLHDSAVerifier pub) message sig = slhVerify k pub message sig"

definition loadEd25519Signer :: "string \<Rightarrow> cryptoError + signer" where
  "loadEd25519Signer privateKey =
     (if length privateKey \<noteq> ed25519PrivateKeySize then Inl (BadKeyLength (length privateKey) ed25519PrivateKeySize)
      else Inr (Ed25519Signer privateKey))"

definition loadSLHDSASigner :: "schemes \<Rightarrow> string \<Rightarrow> cryptoError + signer" where
  "loadSLHDSASigner k privateKey =
     (if \<not> slhPrivateOk k privateKey then Inl BadSLHKey else Inr (SLHDSASigner privateKey))"

definition LoadSigner :: "schemes \<Rightarrow> string \<Rightarrow> string \<Rightarrow> cryptoError + signer" where
  "LoadSigner k algorithm privateKey =
     (if algorithm = ''ed25519'' then loadEd25519Signer privateKey
      else if algorithm = ''slh-dsa-shake-128s'' then loadSLHDSASigner k privateKey
      else Inl (UnknownAlgorithm algorithm))"

text \<open>The private keys that the libraries draw, if they can.\<close>

record keyDraws =
  kdEd25519 :: "string option"
  kdSLHDSA :: "string option"

definition NewEd25519Signer :: "keyDraws \<Rightarrow> cryptoError + signer" where
  "NewEd25519Signer d = (case kdEd25519 d of None \<Rightarrow> Inl KeyNotGenerated | Some priv \<Rightarrow> Inr (Ed25519Signer priv))"

definition NewSLHDSASigner :: "keyDraws \<Rightarrow> cryptoError + signer" where
  "NewSLHDSASigner d = (case kdSLHDSA d of None \<Rightarrow> Inl KeyNotGenerated | Some priv \<Rightarrow> Inr (SLHDSASigner priv))"

definition NewSigner :: "keyDraws \<Rightarrow> string \<Rightarrow> cryptoError + signer" where
  "NewSigner d algorithm =
     (if algorithm = ''ed25519'' then NewEd25519Signer d
      else if algorithm = ''slh-dsa-shake-128s'' then NewSLHDSASigner d
      else Inl (UnknownAlgorithm algorithm))"

text \<open>A drawn key has the size, or the form, that loading asks for.\<close>

definition draws_ok :: "schemes \<Rightarrow> keyDraws \<Rightarrow> bool" where
  "draws_ok k d \<longleftrightarrow> (\<forall>priv. kdEd25519 d = Some priv \<longrightarrow> length priv = 64) \<and> (\<forall>priv. kdSLHDSA d = Some priv \<longrightarrow> slhPrivateOk k priv)"

fun signerAlgorithm :: "signer \<Rightarrow> string" where
  "signerAlgorithm (Ed25519Signer _) = ''ed25519''"
| "signerAlgorithm (SLHDSASigner _) = ''slh-dsa-shake-128s''"

fun signerPublicKey :: "schemes \<Rightarrow> signer \<Rightarrow> string" where
  "signerPublicKey k (Ed25519Signer priv) = ed25519Public k priv"
| "signerPublicKey k (SLHDSASigner priv) = slhPublic k priv"

text \<open>\<open>rnd\<close> is the randomness of \<open>slhdsa.SignRandomized\<close>; Ed25519 draws none.\<close>

fun signerSign :: "schemes \<Rightarrow> string \<Rightarrow> signer \<Rightarrow> string \<Rightarrow> string" where
  "signerSign k rnd (Ed25519Signer priv) message = ed25519Sign k priv message"
| "signerSign k rnd (SLHDSASigner priv) message = slhSign k priv rnd message"

section \<open>Users\<close>

definition NewUserFromSigner :: "schemes \<Rightarrow> string \<Rightarrow> signer \<Rightarrow> user" where
  "NewUserFromSigner k username sg =
     (let pubBytes = signerPublicKey k sg in
      \<lparr>usID = b64Encode (sha256 k pubBytes), usUsername = username, usPubKey = b64Encode pubBytes,
       usAlgorithm = signerAlgorithm sg, usIsAdmin = False\<rparr>)"

datatype verifierError = BadPublicKeyEncoding | VerifierRefused cryptoError

definition user_Verifier :: "schemes \<Rightarrow> user \<Rightarrow> verifierError + verifier" where
  "user_Verifier k u = (case b64Decode (usPubKey u) of
     None \<Rightarrow> Inl BadPublicKeyEncoding
   | Some pubBytes \<Rightarrow> (case NewVerifier k (usAlgorithm u) pubBytes of
       Inl e \<Rightarrow> Inl (VerifierRefused e)
     | Inr v \<Rightarrow> Inr v))"

text \<open>The signature \<open>sig\<close> (encoded) over \<open>payload\<close> checks out under the user's key.\<close>

definition verifiesFor :: "schemes \<Rightarrow> user \<Rightarrow> string \<Rightarrow> string \<Rightarrow> bool" where
  "verifiesFor k u payload sig \<longleftrightarrow>
     (\<exists>v b. user_Verifier k u = Inr v \<and> b64Decode sig = Some b \<and> verifierVerify k v payload b)"

text \<open>A scheme whose signatures verify and whose keys have the right form.\<close>

definition schemes_ok :: "schemes \<Rightarrow> bool" where
  "schemes_ok k \<longleftrightarrow>
     (\<forall>priv m. length priv = 64 \<longrightarrow> length (ed25519Public k priv) = 32
        \<and> ed25519Verify k (ed25519Public k priv) m (ed25519Sign k priv m))
     \<and> (\<forall>priv rnd m. slhPrivateOk k priv \<longrightarrow> slhPublicOk k (slhPublic k priv)
        \<and> slhVerify k (slhPublic k priv) m (slhSign k priv rnd m))"

lemma signed_verifies:
  assumes "schemes_ok k" and "LoadSigner k alg priv = Inr sg"
  shows "verifiesFor k (NewUserFromSigner k name sg) payload (b64Encode (signerSign k rnd sg payload))"
proof (cases sg)
  case (Ed25519Signer p)
  then have p: "length p = 64"
    using assms(2) by (auto simp: LoadSigner_def loadEd25519Signer_def loadSLHDSASigner_def
        ed25519PrivateKeySize_def split: if_splits)
  then have "user_Verifier k (NewUserFromSigner k name sg) = Inr (Ed25519Verifier (ed25519Public k p))"
    using assms(1) Ed25519Signer by (simp add: user_Verifier_def NewUserFromSigner_def Let_def b64Decode_Encode
        NewVerifier_def newEd25519Verifier_def ed25519PublicKeySize_def schemes_ok_def)
  then show ?thesis
    using assms(1) p Ed25519Signer by (auto simp: verifiesFor_def b64Decode_Encode schemes_ok_def)
next
  case (SLHDSASigner p)
  then have p: "slhPrivateOk k p"
    using assms(2) by (auto simp: LoadSigner_def loadEd25519Signer_def loadSLHDSASigner_def split: if_splits)
  then have "user_Verifier k (NewUserFromSigner k name sg) = Inr (SLHDSAVerifier (slhPublic k p))"
    using assms(1) SLHDSASigner by (simp add: user_Verifier_def NewUserFromSigner_def Let_def b64Decode_Encode
        NewVerifier_def newSLHDSAVerifier_def schemes_ok_def)
  then show ?thesis
    using assms(1) p SLHDSASigner by (auto simp: verifiesFor_def b64Decode_Encode schemes_ok_def)
qed

text \<open>What a client signs, a server accepts: with a signature scheme that works, the
  encoded signature of any loaded key over any payload verifies under the public key of
  the user made from that key, after both have been through base64url.\<close>

theorem signed_payload_verifies:
  assumes "schemes_ok k" and "LoadSigner k alg priv = Inr sg"
  shows "verifiesFor k (NewUserFromSigner k name sg) payload (b64Encode (signerSign k rnd sg payload))
    \<and> b64Decode (usID (NewUserFromSigner k name sg)) = Some (sha256 k (signerPublicKey k sg))"
  using signed_verifies[OF assms] by (simp add: NewUserFromSigner_def Let_def b64Decode_Encode)

definition toySchemes :: schemes where
  "toySchemes = \<lparr>sha256 = (\<lambda>m. take 32 m), ed25519Verify = (\<lambda>pub m sig. sig = take 4 pub @ m),
     ed25519Public = (\<lambda>priv. take 32 priv), ed25519Sign = (\<lambda>priv m. take 4 priv @ m),
     slhVerify = (\<lambda>pub m sig. sig = pub @ m), slhPublic = (\<lambda>priv. priv), slhSign = (\<lambda>priv rnd m. priv @ m),
     slhPublicOk = (\<lambda>_. True), slhPrivateOk = (\<lambda>_. True)\<rparr>"

lemma toySchemes_ok: "schemes_ok toySchemes"
  by (simp add: schemes_ok_def toySchemes_def)

lemma signed_payload_verifies_witness:
  "verifiesFor toySchemes (NewUserFromSigner toySchemes ''alice'' (SLHDSASigner ''key'')) ''hello''
     (b64Encode (signerSign toySchemes [] (SLHDSASigner ''key'') ''hello''))"
proof -
  have "LoadSigner toySchemes ''slh-dsa-shake-128s'' ''key'' = Inr (SLHDSASigner ''key'')"
    by (simp add: LoadSigner_def loadSLHDSASigner_def toySchemes_def)
  then show ?thesis
    using signed_payload_verifies[OF toySchemes_ok, of "''slh-dsa-shake-128s''" "''key''" "SLHDSASigner ''key''"
        "''alice''" "''hello''" "[]"] by simp
qed

end
