(* ===== verification/Server_Db.thy ===== *)
theory Server_Db
  imports Tables Tillit_Crypto
begin

text \<open>
  The server's database, \<open>db/sqliteconnector/\<close>: users, connections and
  signatures as row lists, and every operation of the connector on them.
  Timestamps are written in RFC 3339 with a resolution of a second and compared
  as text, which for the years 0 to 9999 is the order of the times cut to seconds.
  Of the failures of SQLite only the violated \<open>UNIQUE\<close> constraints are modelled.
\<close>

section \<open>State\<close>

record serverDb =
  dbUsers :: "user list"
  dbConnections :: "connection list"
  dbSignatures :: "signature list"

definition emptyDb :: serverDb where
  "emptyDb = \<lparr>dbUsers = [], dbConnections = [], dbSignatures = []\<rparr>"

datatype dbError = ObjectNotFound string | UniqueViolation

text \<open>Go's zero time.\<close>

definition zeroTime :: int where
  "zeroTime = - 62135596800 * second"

definition Connect :: "user \<Rightarrow> user \<Rightarrow> bool \<Rightarrow> bool \<Rightarrow> int \<Rightarrow> connection" where
  "Connect u other public trust trustExtends =
     \<lparr>cnID = [], cnOwner = usID u, cnOtherID = usID other, cnPublic = public, cnTrust = trust,
      cnTrustExtends = trustExtends, cnPayload = [], cnAlgorithm = [], cnSig = [], cnCreatedAt = zeroTime,
      cnRevoked = False, cnRevokedAt = None\<rparr>"

section \<open>Users\<close>

text \<open>\<open>is_admin\<close> is not among the columns that are read.\<close>

definition GetUser :: "string \<Rightarrow> serverDb \<Rightarrow> dbError + user" where
  "GetUser i db = (case rowByKey usID i (dbUsers db) of
     None \<Rightarrow> Inl (ObjectNotFound ''No such user'')
   | Some u \<Rightarrow> Inr (u\<lparr>usIsAdmin := False\<rparr>))"

definition CreateUser :: "user \<Rightarrow> serverDb \<Rightarrow> dbError + serverDb" where
  "CreateUser u db =
     (if list_ex (\<lambda>v. usID v = usID u \<or> usUsername v = usUsername u \<or> usPubKey v = usPubKey u) (dbUsers db)
      then Inl UniqueViolation
      else Inr (db\<lparr>dbUsers := dbUsers db @ [u]\<rparr>))"

definition DeleteUser :: "user \<Rightarrow> serverDb \<Rightarrow> serverDb" where
  "DeleteUser u db = db"

section \<open>Connections\<close>

definition GetConnection :: "string \<Rightarrow> serverDb \<Rightarrow> dbError + connection" where
  "GetConnection i db = (case rowByKey cnID i (dbConnections db) of
     None \<Rightarrow> Inl (ObjectNotFound ''no such connection'')
   | Some c \<Rightarrow> Inr c)"

definition GetUserConnections :: "string \<Rightarrow> serverDb \<Rightarrow> connection list" where
  "GetUserConnections userID db = filter (\<lambda>c. cnOwner c = userID) (dbConnections db)"

definition GetUserPublicConnections :: "string \<Rightarrow> int option \<Rightarrow> bool \<Rightarrow> serverDb \<Rightarrow> connection list" where
  "GetUserPublicConnections userID since includePrivate db =
     sort_key cnCreatedAt (filter (\<lambda>c. cnOwner c = userID
        \<and> (includePrivate \<or> cnPublic c \<and> \<not> cnRevoked c)
        \<and> (case since of None \<Rightarrow> True | Some t \<Rightarrow> cnCreatedAt c > cutToSecond t)) (dbConnections db))"

text \<open>What a row holds after \<open>CreateConnection\<close>; \<open>now\<close> stands in for a missing time.\<close>

definition newConnectionRow :: "int \<Rightarrow> connection \<Rightarrow> connection" where
  "newConnectionRow now c =
     c\<lparr>cnCreatedAt := cutToSecond (if cnCreatedAt c = zeroTime then now else cnCreatedAt c),
       cnRevoked := False, cnRevokedAt := None\<rparr>"

definition CreateConnection :: "int \<Rightarrow> connection \<Rightarrow> serverDb \<Rightarrow> serverDb" where
  "CreateConnection now c db =
     db\<lparr>dbConnections := insertIgnore cnID (newConnectionRow now c) (dbConnections db)\<rparr>"

definition DeleteConnection :: "connection \<Rightarrow> serverDb \<Rightarrow> serverDb" where
  "DeleteConnection c db = db\<lparr>dbConnections := deleteRows cnID (cnID c) (dbConnections db)\<rparr>"

definition RevokeConnection :: "string \<Rightarrow> int \<Rightarrow> serverDb \<Rightarrow> dbError + serverDb" where
  "RevokeConnection i at db =
     (if filter (\<lambda>c. cnID c = i) (dbConnections db) = [] then Inl (ObjectNotFound ''no such connection'')
      else Inr (db\<lparr>dbConnections :=
        map (\<lambda>c. if cnID c = i then c\<lparr>cnRevoked := True, cnRevokedAt := Some (cutToSecond at)\<rparr> else c)
          (dbConnections db)\<rparr>))"

section \<open>Signatures\<close>

definition GetSignature :: "string \<Rightarrow> serverDb \<Rightarrow> dbError + signature" where
  "GetSignature i db = (case rowByKey sgID i (dbSignatures db) of
     None \<Rightarrow> Inl (ObjectNotFound ''no such signature'')
   | Some s \<Rightarrow> Inr s)"

definition GetUserSignatures :: "string \<Rightarrow> int option \<Rightarrow> bool \<Rightarrow> serverDb \<Rightarrow> signature list" where
  "GetUserSignatures signerID since includePrivate db =
     sort_key sgUploadedAt (filter (\<lambda>s. sgSigner s = signerID
        \<and> (includePrivate \<or> sgPublic s)
        \<and> (case since of None \<Rightarrow> True | Some t \<Rightarrow> sgUploadedAt s \<ge> cutToSecond t)) (dbSignatures db))"

definition newSignatureRow :: "signature \<Rightarrow> signature" where
  "newSignatureRow s = s\<lparr>sgUploadedAt := cutToSecond (sgUploadedAt s), sgRevoked := False, sgRevokedAt := None\<rparr>"

definition CreateSignature :: "signature \<Rightarrow> serverDb \<Rightarrow> serverDb" where
  "CreateSignature s db = db\<lparr>dbSignatures := insertIgnore sgID (newSignatureRow s) (dbSignatures db)\<rparr>"

text \<open>The number of updated rows is not looked at.\<close>

definition RevokeSignature :: "string \<Rightarrow> int \<Rightarrow> serverDb \<Rightarrow> serverDb" where
  "RevokeSignature i at db = db\<lparr>dbSignatures :=
     map (\<lambda>s. if sgID s = i then s\<lparr>sgRevoked := True, sgRevokedAt := Some (cutToSecond at)\<rparr> else s)
       (dbSignatures db)\<rparr>"

section \<open>Laws\<close>

lemma newRow_simps [simp]:
  "sgID (newSignatureRow s) = sgID s" "sgSigner (newSignatureRow s) = sgSigner s"
  "sgPayload (newSignatureRow s) = sgPayload s" "sgSig (newSignatureRow s) = sgSig s"
  "sgAlgorithm (newSignatureRow s) = sgAlgorithm s" "sgPublic (newSignatureRow s) = sgPublic s"
  "\<not> sgRevoked (newSignatureRow s)"
  "cnID (newConnectionRow now c) = cnID c" "cnOwner (newConnectionRow now c) = cnOwner c"
  "cnPayload (newConnectionRow now c) = cnPayload c" "cnSig (newConnectionRow now c) = cnSig c"
  "cnOtherID (newConnectionRow now c) = cnOtherID c" "cnPublic (newConnectionRow now c) = cnPublic c"
  "cnTrust (newConnectionRow now c) = cnTrust c" "cnTrustExtends (newConnectionRow now c) = cnTrustExtends c"
  "\<not> cnRevoked (newConnectionRow now c)"
  by (simp_all add: newSignatureRow_def newConnectionRow_def)

interpretation sigRows: write_once_table sgID newSignatureRow
    "\<lambda>db i. rowByKey sgID i (dbSignatures db)" "\<lambda>db s. CreateSignature s db"
  by unfold_locales (simp add: CreateSignature_def rowByKey_insertIgnore)

interpretation connRows: write_once_table cnID "newConnectionRow now"
    "\<lambda>db i. rowByKey cnID i (dbConnections db)" "\<lambda>db c. CreateConnection now c db"
    for now
  by unfold_locales (simp add: CreateConnection_def rowByKey_insertIgnore)

text \<open>An update of the rows with one id, which keeps ids.\<close>

lemma rowByKey_update:
  assumes "\<And>x. key (f x) = key x"
  shows "rowByKey key k (map (\<lambda>x. if key x = i then f x else x) rows) =
     map_option (\<lambda>x. if key x = i then f x else x) (rowByKey key k rows)"
  using assms by (induction rows) (auto simp: rowByKey_def)

lemma keysDistinct_update:
  assumes "\<And>x. key (f x) = key x"
  shows "keysDistinct key (map (\<lambda>x. if key x = i then f x else x) rows) = keysDistinct key rows"
proof -
  have "map key (map (\<lambda>x. if key x = i then f x else x) rows) = map key rows"
    by (simp add: assms)
  then show ?thesis by (simp only: keysDistinct_def)
qed

lemma GetUser_Inr:
  "GetUser i db = Inr u \<longleftrightarrow> (\<exists>v. rowByKey usID i (dbUsers db) = Some v \<and> u = v\<lparr>usIsAdmin := False\<rparr>)"
  by (auto simp: GetUser_def split: option.split)

lemma GetUser_props: "GetUser i db = Inr u \<Longrightarrow> usID u = i \<and> \<not> usIsAdmin u"
  by (auto simp: GetUser_Inr dest: rowByKey_Some)

lemma GetSignature_Inr: "GetSignature i db = Inr s \<longleftrightarrow> rowByKey sgID i (dbSignatures db) = Some s"
  by (auto simp: GetSignature_def split: option.split)

lemma GetConnection_Inr: "GetConnection i db = Inr c \<longleftrightarrow> rowByKey cnID i (dbConnections db) = Some c"
  by (auto simp: GetConnection_def split: option.split)

lemma CreateUser_Inr: "CreateUser u db = Inr db' \<Longrightarrow> db' = db\<lparr>dbUsers := dbUsers db @ [u]\<rparr>
    \<and> (\<forall>v\<in>set (dbUsers db). usID v \<noteq> usID u \<and> usUsername v \<noteq> usUsername u \<and> usPubKey v \<noteq> usPubKey u)"
  by (auto simp: CreateUser_def list_ex_iff split: if_splits)

lemma GetUser_CreateUser:
  assumes "CreateUser u db = Inr db'"
  shows "GetUser i db' = (if i = usID u then Inr (u\<lparr>usIsAdmin := False\<rparr>) else GetUser i db)"
proof -
  have "db' = db\<lparr>dbUsers := dbUsers db @ [u]\<rparr>" "find (\<lambda>x. usID x = usID u) (dbUsers db) = None"
    using CreateUser_Inr[OF assms] by (auto simp: find_None_iff)
  then have "rowByKey usID i (dbUsers db') =
      (if i = usID u then Some u else rowByKey usID i (dbUsers db))"
    by (auto simp: rowByKey_def find_append split: option.split)
  then show ?thesis by (simp add: GetUser_def)
qed

lemma set_GetUserSignatures:
  "s \<in> set (GetUserSignatures signer since priv db) \<longleftrightarrow>
     s \<in> set (dbSignatures db) \<and> sgSigner s = signer \<and> (priv \<or> sgPublic s)
     \<and> (case since of None \<Rightarrow> True | Some t \<Rightarrow> sgUploadedAt s \<ge> cutToSecond t)"
  by (auto simp: GetUserSignatures_def)

lemma set_GetUserPublicConnections:
  "c \<in> set (GetUserPublicConnections owner since priv db) \<longleftrightarrow>
     c \<in> set (dbConnections db) \<and> cnOwner c = owner \<and> (priv \<or> cnPublic c \<and> \<not> cnRevoked c)
     \<and> (case since of None \<Rightarrow> True | Some t \<Rightarrow> cnCreatedAt c > cutToSecond t)"
  by (auto simp: GetUserPublicConnections_def)

end
