(* ===== verification/Server_Handlers.thy ===== *)
theory Server_Handlers
  imports Server_Db
begin

text \<open>
  The HTTP server, \<open>handlers/\<close>, \<open>middleware/\<close> and \<open>api/routes.go\<close>: every handler
  as a function from the request and the database to a response and the database
  it leaves, the optional authentication in front of the handlers, the routing,
  and the databases a server can reach.  Decoding JSON, parsing RFC 3339 and the
  signature schemes belong to the environment.  The rate limiter, the log and the
  request ids do not influence a response that a handler gives.
\<close>

section \<open>Requests and responses\<close>

record connInput =
  ciID :: string
  ciPayload :: string
  ciAlgorithm :: string
  ciSig :: string

record sigInput =
  sinID :: string
  sinPayload :: string
  sinAlgorithm :: string
  sinSig :: string
  sinPublic :: "bool option"

record userInput =
  uinID :: string
  uinUsername :: string
  uinPubKey :: string
  uinAlgorithm :: string

record signedAuthEnvelope =
  aePayload :: string
  aeAlgorithm :: string
  aeSig :: string

text \<open>The environment: decoders are \<open>json.Unmarshal\<close> or \<open>json.Decoder.Decode\<close> into the
  struct named, \<open>evTime\<close> is \<open>time.Parse(time.RFC3339, _)\<close>.\<close>

record env =
  evSchemes :: schemes
  evPublicURL :: string
  evTime :: "string \<Rightarrow> int option"
  evPayload :: "string \<Rightarrow> payload option"
  evEnvelope :: "string \<Rightarrow> signedAuthEnvelope option"
  evToken :: "string \<Rightarrow> authToken option"
  evConnInput :: "string \<Rightarrow> connInput option"
  evSigInput :: "string \<Rightarrow> sigInput option"
  evUserInput :: "string \<Rightarrow> userInput option"

text \<open>A request, with the segments of its cleaned path, the \<open>Authorization\<close> header and the
  \<open>since\<close> parameter of its query (empty when absent).\<close>

record request =
  rqMethod :: string
  rqPath :: "string list"
  rqAuthorization :: string
  rqSince :: string
  rqBody :: string

datatype body =
    NoBody | TextBody string | InvalidPayloadBody payloadError | HealthBody
  | UserBody user | SigBody signature | SigsBody "signature list"
  | ConnBody connection | ConnsBody "connection list"

datatype response = Response (rsStatus: nat) (rsBody: body)

definition httpError :: "nat \<Rightarrow> string \<Rightarrow> response" where
  "httpError status msg = Response status (TextBody msg)"

definition httpNotFound :: response where
  "httpNotFound = httpError 404 ''404 page not found''"

definition internalServerError :: response where
  "internalServerError = httpError 500 ''Internal server error''"

definition writeUnauthed :: response where
  "writeUnauthed = httpError 401 ''Unauthorized''"

section \<open>Authentication\<close>

definition authScheme :: string where "authScheme = ''Tillit ''"

datatype authError =
    MalformedHeader | BadEnvelopeEncoding | BadEnvelopeJSON | BadTokenJSON
  | TokenRefused authTokenError | SignerNotRegistered | AuthDbError dbError
  | AuthVerifierError verifierError | BadSigEncoding | SigDidNotVerify

definition authenticateRequest :: "env \<Rightarrow> request \<Rightarrow> serverDb \<Rightarrow> int \<Rightarrow> authError + user" where
  "authenticateRequest env r db now =
     (let header = rqAuthorization r in
      if \<not> hasPrefix header authScheme then Inl MalformedHeader
      else (case b64Decode (trimPrefix header authScheme) of
        None \<Rightarrow> Inl BadEnvelopeEncoding
      | Some envelopeBytes \<Rightarrow> (case evEnvelope env envelopeBytes of
          None \<Rightarrow> Inl BadEnvelopeJSON
        | Some ae \<Rightarrow> (case evToken env (aePayload ae) of
            None \<Rightarrow> Inl BadTokenJSON
          | Some token \<Rightarrow> (case authToken_Validate (evTime env) now (evPublicURL env) token of
              Some e \<Rightarrow> Inl (TokenRefused e)
            | None \<Rightarrow> (case GetUser (atSigner token) db of
                Inl (ObjectNotFound _) \<Rightarrow> Inl SignerNotRegistered
              | Inl e \<Rightarrow> Inl (AuthDbError e)
              | Inr u \<Rightarrow> (case user_Verifier (evSchemes env) u of
                  Inl e \<Rightarrow> Inl (AuthVerifierError e)
                | Inr v \<Rightarrow> (case b64Decode (aeSig ae) of
                    None \<Rightarrow> Inl BadSigEncoding
                  | Some sigBytes \<Rightarrow>
                      if \<not> verifierVerify (evSchemes env) v (aePayload ae) sigBytes then Inl SigDidNotVerify
                      else Inr u))))))))"

text \<open>A handler gets the user attached to the request, if any.\<close>

type_synonym handler = "user option \<Rightarrow> request \<Rightarrow> serverDb \<Rightarrow> response \<times> serverDb"

definition Authenticate :: "env \<Rightarrow> int \<Rightarrow> handler \<Rightarrow> handler" where
  "Authenticate env now next_handler ctx r db =
     (if rqAuthorization r = [] then next_handler ctx r db
      else (case authenticateRequest env r db now of
        Inl _ \<Rightarrow> (writeUnauthed, db)
      | Inr u \<Rightarrow> next_handler (Some u) r db))"

definition IsAdmin :: "handler \<Rightarrow> handler" where
  "IsAdmin next_handler ctx r db =
     (case ctx of
        None \<Rightarrow> (writeUnauthed, db)
      | Some u \<Rightarrow> if \<not> usIsAdmin u then (writeUnauthed, db) else next_handler ctx r db)"

definition IsLoggedIn :: "handler \<Rightarrow> handler" where
  "IsLoggedIn next_handler ctx r db =
     (case ctx of None \<Rightarrow> (writeUnauthed, db) | Some _ \<Rightarrow> next_handler ctx r db)"

section \<open>Users\<close>

definition CreateUserHandler :: "env \<Rightarrow> handler" where
  "CreateUserHandler env ctx r db =
     (case evUserInput env (rqBody r) of
        None \<Rightarrow> (httpError 400 ''Invalid request body'', db)
      | Some inp \<Rightarrow>
          (let u = \<lparr>usID = uinID inp, usUsername = uinUsername inp, usPubKey = uinPubKey inp,
                 usAlgorithm = uinAlgorithm inp, usIsAdmin = False\<rparr>
           in case CreateUser u db of
             Inl _ \<Rightarrow> (httpError 500 ''Failed creating user'', db)
           | Inr db' \<Rightarrow> (Response 201 (UserBody u), db')))"

definition GetUserIDHandler :: "string \<Rightarrow> handler" where
  "GetUserIDHandler uID ctx r db =
     (case GetUser uID db of
        Inl _ \<Rightarrow> (httpNotFound, db)
      | Inr u \<Rightarrow> (Response 200 (UserBody u), db))"

definition HandleHealth :: handler where
  "HandleHealth ctx r db = (Response 200 HealthBody, db)"

section \<open>Signatures\<close>

definition processRevocation :: "payload \<Rightarrow> int \<Rightarrow> serverDb \<Rightarrow> serverDb" where
  "processRevocation p uploadedAt db = RevokeSignature (pTargetID p) uploadedAt db"

text \<open>The result is the triple \<open>(notFound, forbidden, internalErr)\<close>.\<close>

definition authorizeSignatureRevocation ::
  "serverDb \<Rightarrow> string \<Rightarrow> string \<Rightarrow> bool \<times> bool \<times> dbError option" where
  "authorizeSignatureRevocation db targetID revokerID =
     (case GetSignature targetID db of
        Inl (ObjectNotFound _) \<Rightarrow> (True, False, None)
      | Inl e \<Rightarrow> (False, False, Some e)
      | Inr target \<Rightarrow> if sgSigner target \<noteq> revokerID then (False, True, None) else (False, False, None))"

text \<open>The response when a revocation may not go ahead.\<close>

definition revocationRefusal :: "serverDb \<Rightarrow> payload \<Rightarrow> string \<Rightarrow> response option" where
  "revocationRefusal db p userID =
     (if IsRevocation p then
        (case authorizeSignatureRevocation db (pTargetID p) userID of
          (notFound, forbidden, internalErr) \<Rightarrow>
            if internalErr \<noteq> None then Some internalServerError
            else if notFound then Some (httpError 404 ''Revocation target not found'')
            else if forbidden then Some (httpError 403 ''Cannot revoke another signer's signature'')
            else None)
      else None)"

text \<open>\<open>requestdata.GetUser\<close> found no user, or one with another id.\<close>

definition notAuthedAs :: "user option \<Rightarrow> string \<Rightarrow> bool" where
  "notAuthedAs ctx userID \<longleftrightarrow> (case ctx of None \<Rightarrow> True | Some u \<Rightarrow> usID u \<noteq> userID)"

definition CreateSignatureHandler :: "env \<Rightarrow> int \<Rightarrow> string \<Rightarrow> handler" where
  "CreateSignatureHandler env now userID ctx r db =
     (case GetUser userID db of
        Inl (ObjectNotFound _) \<Rightarrow> (httpNotFound, db)
      | Inl _ \<Rightarrow> (internalServerError, db)
      | Inr u \<Rightarrow>
     (case evSigInput env (rqBody r) of
        None \<Rightarrow> (httpError 400 ''Invalid request body'', db)
      | Some inp \<Rightarrow>
      if sinID inp = [] then (httpError 400 ''Missing signature id'', db)
      else if sinID inp \<noteq> SignatureID (sha256 (evSchemes env)) (sinPayload inp) (sinSig inp)
      then (httpError 400 ''Signature id does not match payload+sig hash'', db)
      else
     (case b64Decode (sinSig inp) of
        None \<Rightarrow> (httpError 400 ''Invalid signature encoding'', db)
      | Some sigBytes \<Rightarrow>
     (case user_Verifier (evSchemes env) u of
        Inl _ \<Rightarrow> (internalServerError, db)
      | Inr v \<Rightarrow>
      if \<not> verifierVerify (evSchemes env) v (sinPayload inp) sigBytes
      then (httpError 401 ''Signature verification failed'', db)
      else
     (case ParsePayload (evPayload env) (sinPayload inp) of
        Inl _ \<Rightarrow> (httpError 400 ''Invalid payload JSON'', db)
      | Inr p \<Rightarrow>
     (case Validate p of
        Some e \<Rightarrow> (Response 400 (InvalidPayloadBody e), db)
      | None \<Rightarrow>
     (case revocationRefusal db p userID of
        Some refusal \<Rightarrow> (refusal, db)
      | None \<Rightarrow>
      (let isPublic = (case sinPublic inp of None \<Rightarrow> True | Some b \<Rightarrow> b) in
       if \<not> isPublic \<and> notAuthedAs ctx userID
       then (httpError 401 ''Private uploads require authentication as the signer'', db)
       else
        (let sig = \<lparr>sgID = sinID inp, sgSigner = userID, sgPayload = sinPayload inp,
               sgAlgorithm = sinAlgorithm inp, sgSig = sinSig inp, sgUploadedAt = now,
               sgRevoked = False, sgRevokedAt = None, sgPublic = isPublic\<rparr>;
             db1 = CreateSignature sig db;
             db2 = (if IsRevocation p then processRevocation p now db1 else db1)
         in (Response 201 (SigBody sig), db2)))))))))) "

definition GetUserSignaturesHandler :: "env \<Rightarrow> string \<Rightarrow> handler" where
  "GetUserSignaturesHandler env userID ctx r db =
     (let serveSince = (\<lambda>since.
        (Response 200 (SigsBody (GetUserSignatures userID since (\<not> notAuthedAs ctx userID) db)), db))
      in if rqSince r = [] then serveSince None
         else (case evTime env (rqSince r) of
           None \<Rightarrow> (httpError 400 ''Invalid 'since' parameter, expected RFC3339'', db)
         | Some t \<Rightarrow> serveSince (Some t)))"

section \<open>Connections\<close>

definition CreateConnectionHandler :: "env \<Rightarrow> int \<Rightarrow> string \<Rightarrow> handler" where
  "CreateConnectionHandler env now userID ctx r db =
     (case GetUser userID db of
        Inl (ObjectNotFound _) \<Rightarrow> (httpNotFound, db)
      | Inl _ \<Rightarrow> (internalServerError, db)
      | Inr u \<Rightarrow>
     (case evConnInput env (rqBody r) of
        None \<Rightarrow> (httpError 400 ''Invalid request body'', db)
      | Some inp \<Rightarrow>
      if ciID inp = [] then (httpError 400 ''Missing connection id'', db)
      else if ciID inp \<noteq> SignatureID (sha256 (evSchemes env)) (ciPayload inp) (ciSig inp)
      then (httpError 400 ''Connection id does not match payload+sig hash'', db)
      else
     (case b64Decode (ciSig inp) of
        None \<Rightarrow> (httpError 400 ''Invalid signature encoding'', db)
      | Some sigBytes \<Rightarrow>
     (case user_Verifier (evSchemes env) u of
        Inl _ \<Rightarrow> (internalServerError, db)
      | Inr v \<Rightarrow>
      if \<not> verifierVerify (evSchemes env) v (ciPayload inp) sigBytes
      then (httpError 401 ''Signature verification failed'', db)
      else
     (case ParsePayload (evPayload env) (ciPayload inp) of
        Inl _ \<Rightarrow> (httpError 400 ''Invalid payload JSON'', db)
      | Inr p \<Rightarrow>
     (case Validate p of
        Some e \<Rightarrow> (Response 400 (InvalidPayloadBody e), db)
      | None \<Rightarrow>
      if pSigner p \<noteq> userID then (httpError 400 ''Payload signer does not match URL'', db)
      else if pType p = PayloadTypeConnection then
        (let conn = \<lparr>cnID = ciID inp, cnOwner = userID, cnOtherID = pOtherID p, cnPublic = pPublic p,
               cnTrust = pTrust p, cnTrustExtends = pTrustExtends p, cnPayload = ciPayload inp,
               cnAlgorithm = ciAlgorithm inp, cnSig = ciSig inp, cnCreatedAt = now,
               cnRevoked = False, cnRevokedAt = None\<rparr>
         in (Response 201 (ConnBody conn), CreateConnection now conn db))
      else if pType p = PayloadTypeConnectionRevocation then
        (case GetConnection (pTargetID p) db of
           Inl (ObjectNotFound _) \<Rightarrow> (httpNotFound, db)
         | Inl _ \<Rightarrow> (internalServerError, db)
         | Inr target \<Rightarrow>
             if cnOwner target \<noteq> userID
             then (httpError 403 ''Cannot revoke another user's connection'', db)
             else (case RevokeConnection (pTargetID p) now db of
               Inl (ObjectNotFound _) \<Rightarrow> (httpNotFound, db)
             | Inl _ \<Rightarrow> (internalServerError, db)
             | Inr db' \<Rightarrow> (Response 204 NoBody, db')))
      else (httpError 400 ''Payload type must be connection or connection_revocation'', db)))))))"

definition GetUserConnectionsHandler :: "env \<Rightarrow> string \<Rightarrow> handler" where
  "GetUserConnectionsHandler env userID ctx r db =
     (let serveSince = (\<lambda>since.
        (Response 200 (ConnsBody (GetUserPublicConnections userID since (\<not> notAuthedAs ctx userID) db)), db))
      in if rqSince r = [] then serveSince None
         else (case evTime env (rqSince r) of
           None \<Rightarrow> (httpError 400 ''Invalid 'since' parameter, expected RFC3339'', db)
         | Some t \<Rightarrow> serveSince (Some t)))"

section \<open>Routes\<close>

text \<open>A pattern of \<open>http.ServeMux\<close>: fixed segments and \<open>{id}\<close>, which stands for one
  segment that is not empty.  A \<open>GET\<close> pattern also serves \<open>HEAD\<close>.\<close>

fun matchPath :: "string option list \<Rightarrow> string list \<Rightarrow> bool" where
  "matchPath [] [] = True"
| "matchPath (Some s # ps) (x # xs) = (s = x \<and> matchPath ps xs)"
| "matchPath (None # ps) (x # xs) = (x \<noteq> [] \<and> matchPath ps xs)"
| "matchPath _ _ = False"

definition methodMatches :: "string \<Rightarrow> request \<Rightarrow> bool" where
  "methodMatches m r \<longleftrightarrow> rqMethod r = m \<or> (m = ''GET'' \<and> rqMethod r = ''HEAD'')"

definition usersPath :: "string option list" where "usersPath = [Some ''v1'', Some ''users'']"
definition userPath :: "string option list" where "userPath = usersPath @ [None]"
definition signaturesPath :: "string option list" where "signaturesPath = userPath @ [Some ''signatures'']"
definition connectionsPath :: "string option list" where "connectionsPath = userPath @ [Some ''connections'']"

text \<open>\<open>authNow\<close> and \<open>now\<close> are the readings of the clock in the middleware and in the
  handler.  Whatever no pattern takes is not found, whatever its method.\<close>

definition serve :: "env \<Rightarrow> int \<Rightarrow> int \<Rightarrow> request \<Rightarrow> serverDb \<Rightarrow> response \<times> serverDb" where
  "serve env authNow now r db =
     (let path = rqPath r; i = path ! 2; auth = (\<lambda>h. Authenticate env authNow h None r db) in
      if methodMatches ''POST'' r \<and> matchPath usersPath path then CreateUserHandler env None r db
      else if methodMatches ''GET'' r \<and> matchPath userPath path then GetUserIDHandler i None r db
      else if methodMatches ''POST'' r \<and> matchPath signaturesPath path then auth (CreateSignatureHandler env now i)
      else if methodMatches ''GET'' r \<and> matchPath signaturesPath path then auth (GetUserSignaturesHandler env i)
      else if methodMatches ''POST'' r \<and> matchPath connectionsPath path then auth (CreateConnectionHandler env now i)
      else if methodMatches ''GET'' r \<and> matchPath connectionsPath path then auth (GetUserConnectionsHandler env i)
      else if path = [''health''] then HandleHealth None r db
      else (httpNotFound, db))"

text \<open>A server starts empty and serves one request after another.\<close>

record event =
  evtAuthNow :: int
  evtNow :: int
  evtRequest :: request

inductive served :: "env \<Rightarrow> event list \<Rightarrow> serverDb \<Rightarrow> bool" for env where
  served_init: "served env [] emptyDb"
| served_step: "served env evs db \<Longrightarrow>
     served env (evs @ [e]) (snd (serve env (evtAuthNow e) (evtNow e) (evtRequest e) db))"

end
