(* ===== verification/Server_Upload.thy ===== *)
theory Server_Upload
  imports Server_Handlers
begin

text \<open>
  Each handler of the server characterised: whom the middleware lets through, when an
  upload is accepted and which database it leaves, and that every other answer
  leaves the database as it was.
\<close>

section \<open>Who a request comes from\<close>

lemma user_Verifier_admin [simp]: "user_Verifier k (u\<lparr>usIsAdmin := b\<rparr>) = user_Verifier k u"
  by (cases "b64Decode (usPubKey u)") (simp_all add: user_Verifier_def)

lemma verifiesFor_admin [simp]: "verifiesFor k (u\<lparr>usIsAdmin := b\<rparr>) = verifiesFor k u"
  by (simp add: verifiesFor_def fun_eq_iff)

text \<open>A header that carries a token naming the user, valid now and signed with its key.\<close>

definition tokenFor :: "env \<Rightarrow> string \<Rightarrow> user \<Rightarrow> int \<Rightarrow> bool" where
  "tokenFor env header u now \<longleftrightarrow> (\<exists>enc bytes ae token. header = authScheme @ enc \<and> b64Decode enc = Some bytes
     \<and> evEnvelope env bytes = Some ae \<and> evToken env (aePayload ae) = Some token
     \<and> authToken_Validate (evTime env) now (evPublicURL env) token = None
     \<and> atSigner token = usID u \<and> verifiesFor (evSchemes env) u (aePayload ae) (aeSig ae))"

lemma hasPrefix_append: "hasPrefix h p \<longleftrightarrow> (\<exists>e. h = p @ e)"
  by (auto simp: hasPrefix_def) (metis append_take_drop_id)

lemma trimPrefix_append [simp]: "trimPrefix (p @ e) p = e"
  by (simp add: trimPrefix_def hasPrefix_def)

lemma authenticateRequest_Inr:
  "authenticateRequest env r db now = Inr u \<longleftrightarrow>
     GetUser (usID u) db = Inr u \<and> tokenFor env (rqAuthorization r) u now"
proof
  assume "authenticateRequest env r db now = Inr u"
  then obtain i where "GetUser i db = Inr u" "tokenFor env (rqAuthorization r) u now"
    by (auto simp: authenticateRequest_def tokenFor_def Let_def hasPrefix_append verifiesFor_def GetUser_props
        split: if_splits option.splits sum.splits dbError.splits)
  then show "GetUser (usID u) db = Inr u \<and> tokenFor env (rqAuthorization r) u now"
    using GetUser_props by blast
next
  assume "GetUser (usID u) db = Inr u \<and> tokenFor env (rqAuthorization r) u now"
  then show "authenticateRequest env r db now = Inr u"
    by (auto simp: authenticateRequest_def tokenFor_def Let_def hasPrefix_append verifiesFor_def)
qed

lemma Authenticate_cases:
  obtains "rqAuthorization r = []" and "Authenticate env now h ctx r db = h ctx r db"
  | "Authenticate env now h ctx r db = (writeUnauthed, db)"
  | u where "Authenticate env now h ctx r db = h (Some u) r db" and "GetUser (usID u) db = Inr u"
      and "tokenFor env (rqAuthorization r) u now"
proof (cases "rqAuthorization r = []")
  case True
  then show thesis using that(1) by (simp add: Authenticate_def)
next
  case False
  then show thesis
    using that(2,3) authenticateRequest_Inr[of env r db now]
    by (cases "authenticateRequest env r db now") (auto simp: Authenticate_def)
qed

section \<open>What an upload must satisfy\<close>

text \<open>The checks that both upload handlers make, in the order of the code.\<close>

definition uploadOk :: "env \<Rightarrow> user \<Rightarrow> string \<Rightarrow> string \<Rightarrow> string \<Rightarrow> payload \<Rightarrow> bool" where
  "uploadOk env u i payload sig p \<longleftrightarrow>
     i \<noteq> [] \<and> i = SignatureID (sha256 (evSchemes env)) payload sig
     \<and> verifiesFor (evSchemes env) u payload sig
     \<and> evPayload env payload = Some p \<and> Validate p = None"

definition sigAccepted :: "env \<Rightarrow> user option \<Rightarrow> string \<Rightarrow> serverDb \<Rightarrow> user \<Rightarrow> sigInput \<Rightarrow> payload \<Rightarrow> bool" where
  "sigAccepted env ctx userID db u inp p \<longleftrightarrow>
     GetUser userID db = Inr u \<and> uploadOk env u (sinID inp) (sinPayload inp) (sinSig inp) p
     \<and> (IsRevocation p \<longrightarrow> (\<exists>t. GetSignature (pTargetID p) db = Inr t \<and> sgSigner t = userID))
     \<and> (sinPublic inp = Some False \<longrightarrow> \<not> notAuthedAs ctx userID)"

text \<open>The row of an accepted upload, and the database it leaves.\<close>

definition uploadedSig :: "int \<Rightarrow> string \<Rightarrow> sigInput \<Rightarrow> signature" where
  "uploadedSig now userID inp =
     \<lparr>sgID = sinID inp, sgSigner = userID, sgPayload = sinPayload inp, sgAlgorithm = sinAlgorithm inp,
      sgSig = sinSig inp, sgUploadedAt = now, sgRevoked = False, sgRevokedAt = None,
      sgPublic = (sinPublic inp \<noteq> Some False)\<rparr>"

definition afterSig :: "int \<Rightarrow> string \<Rightarrow> sigInput \<Rightarrow> payload \<Rightarrow> serverDb \<Rightarrow> serverDb" where
  "afterSig now userID inp p db =
     (let db1 = CreateSignature (uploadedSig now userID inp) db
      in if IsRevocation p then RevokeSignature (pTargetID p) now db1 else db1)"

lemma revocationRefusal_None:
  "revocationRefusal db p userID = None \<longleftrightarrow>
     (IsRevocation p \<longrightarrow> (\<exists>t. GetSignature (pTargetID p) db = Inr t \<and> sgSigner t = userID))"
  by (auto simp: revocationRefusal_def authorizeSignatureRevocation_def split: sum.split dbError.split)

lemma revocationRefusal_status: "revocationRefusal db p userID = Some x \<Longrightarrow> 400 \<le> rsStatus x"
  by (auto simp: revocationRefusal_def authorizeSignatureRevocation_def internalServerError_def httpError_def
      split: sum.splits dbError.splits if_splits)

lemma public_default: "(case b of None \<Rightarrow> True | Some x \<Rightarrow> x) \<longleftrightarrow> b \<noteq> Some False"
  by (auto split: option.split)

lemmas http_defs = httpNotFound_def httpError_def internalServerError_def writeUnauthed_def

text \<open>An answer with an error status that leaves the database as it was.\<close>

definition refused :: "serverDb \<Rightarrow> response \<times> serverDb \<Rightarrow> bool" where
  "refused db res \<longleftrightarrow> 400 \<le> rsStatus (fst res) \<and> snd res = db"

lemma refused_pair [simp]: "refused db (resp, db') \<longleftrightarrow> 400 \<le> rsStatus resp \<and> db' = db"
  by (simp add: refused_def)

text \<open>These walk through the branches of a handler, keeping what was tested.\<close>

lemma refused_intros:
  "(x = None \<Longrightarrow> refused db a) \<Longrightarrow> (\<And>y. x = Some y \<Longrightarrow> refused db (f y)) \<Longrightarrow>
   refused db (case x of None \<Rightarrow> a | Some y \<Rightarrow> f y)"
  "(\<And>e. z = Inl e \<Longrightarrow> refused db (g e)) \<Longrightarrow> (\<And>w. z = Inr w \<Longrightarrow> refused db (h w)) \<Longrightarrow>
   refused db (case z of Inl e \<Rightarrow> g e | Inr w \<Rightarrow> h w)"
  "(\<And>t. d = ObjectNotFound t \<Longrightarrow> refused db (k t)) \<Longrightarrow> (d = UniqueViolation \<Longrightarrow> refused db l) \<Longrightarrow>
   refused db (case d of ObjectNotFound t \<Rightarrow> k t | UniqueViolation \<Rightarrow> l)"
  "(b \<Longrightarrow> refused db m) \<Longrightarrow> (\<not> b \<Longrightarrow> refused db n) \<Longrightarrow> refused db (if b then m else n)"
  by (auto split: option.split sum.split dbError.split)

lemma CreateSignatureHandler_refuses:
  assumes "\<not> (\<exists>u inp p. evSigInput env (rqBody r) = Some inp \<and> sigAccepted env ctx userID db u inp p)"
  shows "refused db (CreateSignatureHandler env now userID ctx r db)"
  unfolding CreateSignatureHandler_def Let_def
  by (intro refused_intros)
     (use assms in \<open>auto simp: http_defs ParsePayload_def public_default sigAccepted_def uploadOk_def
        verifiesFor_def revocationRefusal_None dest: revocationRefusal_status split: option.splits\<close>)

lemma CreateSignatureHandler_accepts:
  assumes "evSigInput env (rqBody r) = Some inp" and "sigAccepted env ctx userID db u inp p"
  shows "CreateSignatureHandler env now userID ctx r db =
     (Response 201 (SigBody (uploadedSig now userID inp)), afterSig now userID inp p db)"
proof -
  obtain v b where "GetUser userID db = Inr u" "sinID inp \<noteq> []"
      "sinID inp = SignatureID (sha256 (evSchemes env)) (sinPayload inp) (sinSig inp)"
      "user_Verifier (evSchemes env) u = Inr v" "b64Decode (sinSig inp) = Some b"
      "verifierVerify (evSchemes env) v (sinPayload inp) b" "evPayload env (sinPayload inp) = Some p"
      "Validate p = None" "revocationRefusal db p userID = None"
      "\<not> (sinPublic inp = Some False \<and> notAuthedAs ctx userID)"
    using assms(2) by (auto simp: sigAccepted_def uploadOk_def verifiesFor_def revocationRefusal_None)
  then show ?thesis
    using assms(1) by (cases "sinPublic inp = Some False") (simp_all add: CreateSignatureHandler_def
        ParsePayload_def Let_def public_default uploadedSig_def afterSig_def processRevocation_def)
qed

lemma CreateSignatureHandler_cases:
  obtains resp where "CreateSignatureHandler env now userID ctx r db = (resp, db)" and "400 \<le> rsStatus resp"
  | u inp p where "evSigInput env (rqBody r) = Some inp" and "sigAccepted env ctx userID db u inp p"
      and "CreateSignatureHandler env now userID ctx r db =
        (Response 201 (SigBody (uploadedSig now userID inp)), afterSig now userID inp p db)"
proof (cases "\<exists>u inp p. evSigInput env (rqBody r) = Some inp \<and> sigAccepted env ctx userID db u inp p")
  case False
  from CreateSignatureHandler_refuses[OF this, of now] show thesis
    by (intro that(1)[of "fst (CreateSignatureHandler env now userID ctx r db)"]) (simp_all add: refused_def prod_eq_iff)
next
  case True
  then show thesis using that(2) CreateSignatureHandler_accepts by blast
qed

section \<open>Connections\<close>

definition uploadedConn :: "int \<Rightarrow> string \<Rightarrow> connInput \<Rightarrow> payload \<Rightarrow> connection" where
  "uploadedConn now userID inp p =
     \<lparr>cnID = ciID inp, cnOwner = userID, cnOtherID = pOtherID p, cnPublic = pPublic p,
      cnTrust = pTrust p, cnTrustExtends = pTrustExtends p, cnPayload = ciPayload inp,
      cnAlgorithm = ciAlgorithm inp, cnSig = ciSig inp, cnCreatedAt = now,
      cnRevoked = False, cnRevokedAt = None\<rparr>"

definition connAccepted :: "env \<Rightarrow> string \<Rightarrow> serverDb \<Rightarrow> user \<Rightarrow> connInput \<Rightarrow> payload \<Rightarrow> bool" where
  "connAccepted env userID db u inp p \<longleftrightarrow>
     GetUser userID db = Inr u \<and> uploadOk env u (ciID inp) (ciPayload inp) (ciSig inp) p \<and> pSigner p = userID"

definition revokeConnRows :: "string \<Rightarrow> int \<Rightarrow> serverDb \<Rightarrow> serverDb" where
  "revokeConnRows i at db = db\<lparr>dbConnections :=
     map (\<lambda>c. if cnID c = i then c\<lparr>cnRevoked := True, cnRevokedAt := Some (cutToSecond at)\<rparr> else c)
       (dbConnections db)\<rparr>"

lemma RevokeConnection_Inr:
  "GetConnection i db = Inr c \<Longrightarrow> RevokeConnection i at db = Inr (revokeConnRows i at db)"
  by (auto simp: GetConnection_Inr RevokeConnection_def revokeConnRows_def filter_empty_conv dest: rowByKey_Some)

lemma CreateConnectionHandler_created:
  assumes "evConnInput env (rqBody r) = Some inp" and "connAccepted env userID db u inp p"
    and "pType p = PayloadTypeConnection"
  shows "CreateConnectionHandler env now userID ctx r db =
     (Response 201 (ConnBody (uploadedConn now userID inp p)), CreateConnection now (uploadedConn now userID inp p) db)"
proof -
  obtain v b where "GetUser userID db = Inr u" "ciID inp \<noteq> []"
      "ciID inp = SignatureID (sha256 (evSchemes env)) (ciPayload inp) (ciSig inp)"
      "user_Verifier (evSchemes env) u = Inr v" "b64Decode (ciSig inp) = Some b"
      "verifierVerify (evSchemes env) v (ciPayload inp) b"
      "evPayload env (ciPayload inp) = Some p" "Validate p = None" "pSigner p = userID"
    using assms(2) by (auto simp: connAccepted_def uploadOk_def verifiesFor_def)
  with assms(1,3) show ?thesis
    by (simp add: CreateConnectionHandler_def ParsePayload_def uploadedConn_def Let_def)
qed

lemma CreateConnectionHandler_cases:
  obtains resp where "CreateConnectionHandler env now userID ctx r db = (resp, db)" and "400 \<le> rsStatus resp"
  | u inp p where "evConnInput env (rqBody r) = Some inp" and "connAccepted env userID db u inp p"
      and "pType p = PayloadTypeConnection"
      and "CreateConnectionHandler env now userID ctx r db =
        (Response 201 (ConnBody (uploadedConn now userID inp p)), CreateConnection now (uploadedConn now userID inp p) db)"
  | u inp p c where "evConnInput env (rqBody r) = Some inp" and "connAccepted env userID db u inp p"
      and "pType p = PayloadTypeConnectionRevocation"
      and "GetConnection (pTargetID p) db = Inr c" and "cnOwner c = userID"
      and "CreateConnectionHandler env now userID ctx r db =
        (Response 204 NoBody, revokeConnRows (pTargetID p) now db)"
proof -
  let ?res = "CreateConnectionHandler env now userID ctx r db"
  note refuse = that(1)[of "fst ?res"] and created = that(2) and revoked = that(3)
  have rej: thesis if "refused db ?res"
    by (rule refuse) (use that in \<open>simp_all add: refused_def prod_eq_iff\<close>)
  show thesis
  proof (cases "\<exists>u inp p. evConnInput env (rqBody r) = Some inp \<and> connAccepted env userID db u inp p")
    case False
    have "refused db ?res"
      unfolding CreateConnectionHandler_def Let_def
      by (intro refused_intros)
         (use False in \<open>auto simp: http_defs ParsePayload_def connAccepted_def uploadOk_def verifiesFor_def
            split: option.splits\<close>)
    then show thesis by (rule rej)
  next
    case True
    then obtain u inp p where s: "evConnInput env (rqBody r) = Some inp" "connAccepted env userID db u inp p"
      by blast
    then obtain v b where w: "GetUser userID db = Inr u" "ciID inp \<noteq> []"
        "ciID inp = SignatureID (sha256 (evSchemes env)) (ciPayload inp) (ciSig inp)"
        "user_Verifier (evSchemes env) u = Inr v" "b64Decode (ciSig inp) = Some b"
        "verifierVerify (evSchemes env) v (ciPayload inp) b"
        "evPayload env (ciPayload inp) = Some p" "Validate p = None" "pSigner p = userID"
      by (auto simp: connAccepted_def uploadOk_def verifiesFor_def)
    consider "pType p = PayloadTypeConnection"
      | c where "pType p = PayloadTypeConnectionRevocation" "GetConnection (pTargetID p) db = Inr c"
          "cnOwner c = userID"
      | "pType p \<noteq> PayloadTypeConnection" "\<not> (pType p = PayloadTypeConnectionRevocation
          \<and> (\<exists>c. GetConnection (pTargetID p) db = Inr c \<and> cnOwner c = userID))"
      by blast
    then show thesis
    proof cases
      case 1
      with s have "?res = (Response 201 (ConnBody (uploadedConn now userID inp p)),
          CreateConnection now (uploadedConn now userID inp p) db)"
        by (rule CreateConnectionHandler_created)
      with created s 1 show thesis by blast
    next
      case 2
      with w have "?res = (Response 204 NoBody, revokeConnRows (pTargetID p) now db)"
        using s(1) by (simp add: CreateConnectionHandler_def ParsePayload_def RevokeConnection_Inr)
      with revoked s 2 show thesis by blast
    next
      case 3
      with w s(1) have "refused db ?res"
        by (cases "GetConnection (pTargetID p) db")
           (auto simp: CreateConnectionHandler_def ParsePayload_def http_defs split: dbError.split)
      then show thesis by (rule rej)
    qed
  qed
qed

section \<open>The other handlers\<close>

lemma CreateUserHandler_cases:
  obtains resp where "CreateUserHandler env ctx r db = (resp, db)" and "400 \<le> rsStatus resp"
  | u db' where "CreateUserHandler env ctx r db = (Response 201 (UserBody u), db')" and "CreateUser u db = Inr db'"
      and "\<not> usIsAdmin u"
proof (cases "evUserInput env (rqBody r)")
  case None
  then show thesis using that(1) by (simp add: CreateUserHandler_def http_defs)
next
  case (Some inp)
  let ?u = "\<lparr>usID = uinID inp, usUsername = uinUsername inp, usPubKey = uinPubKey inp,
                 usAlgorithm = uinAlgorithm inp, usIsAdmin = False\<rparr>"
  from Some that show thesis
    by (cases "CreateUser ?u db") (simp_all add: CreateUserHandler_def Let_def http_defs)
qed

lemma readers_keep_db [simp]:
  "snd (GetUserIDHandler i ctx r db) = db" "snd (GetUserSignaturesHandler env i ctx r db) = db"
  "snd (GetUserConnectionsHandler env i ctx r db) = db" "snd (HandleHealth ctx r db) = db"
  by (auto simp: GetUserIDHandler_def GetUserSignaturesHandler_def GetUserConnectionsHandler_def HandleHealth_def
      Let_def split: sum.split option.split)

end
