(* ===== verification/Server.thy ===== *)
theory Server
  imports Server_Upload
begin

text \<open>
  What the server guarantees for every database it reaches: the shape of its rows,
  that rows are written once and only change by being revoked, that only the
  owner's key revokes, and what a reader who is not the owner can see.
\<close>

section \<open>What a request can do\<close>

text \<open>The user a handler sees is the one of a valid token, if the request has a header.\<close>

definition ctxOk :: "env \<Rightarrow> int \<Rightarrow> request \<Rightarrow> serverDb \<Rightarrow> user option \<Rightarrow> bool" where
  "ctxOk env authNow r db ctx \<longleftrightarrow> (case ctx of
     None \<Rightarrow> rqAuthorization r = []
   | Some v \<Rightarrow> GetUser (usID v) db = Inr v \<and> tokenFor env (rqAuthorization r) v authNow)"

lemma Authenticate_None:
  obtains ctx where "Authenticate env t h None r db = h ctx r db" and "ctxOk env t r db ctx"
  | "Authenticate env t h None r db = (writeUnauthed, db)"
  by (rule Authenticate_cases[of r env t h None db]) (auto simp: ctxOk_def intro: that)

definition routed :: "env \<Rightarrow> request \<Rightarrow> int \<Rightarrow> int \<Rightarrow> serverDb \<Rightarrow> response \<times> serverDb \<Rightarrow> bool" where
  "routed env r ta tn db res \<longleftrightarrow>
     (let auth = (\<lambda>h. Authenticate env ta h None r db); i = rqPath r ! 2 in
       res = CreateUserHandler env None r db
     \<or> methodMatches ''POST'' r \<and> matchPath signaturesPath (rqPath r) \<and> res = auth (CreateSignatureHandler env tn i)
     \<or> methodMatches ''POST'' r \<and> matchPath connectionsPath (rqPath r) \<and> res = auth (CreateConnectionHandler env tn i)
     \<or> res = auth (GetUserSignaturesHandler env i)
     \<or> res = auth (GetUserConnectionsHandler env i)
     \<or> snd res = db)"

lemma routed_if: "(b \<Longrightarrow> routed env r ta tn db x) \<Longrightarrow> (\<not> b \<Longrightarrow> routed env r ta tn db y) \<Longrightarrow>
    routed env r ta tn db (if b then x else y)"
  by simp

lemma serve_routes: "routed env r ta tn db (serve env ta tn r db)"
  unfolding serve_def Let_def
  by (intro routed_if) (auto simp: routed_def)

lemma serve_cases:
  obtains (same) "snd (serve env ta tn r db) = db"
  | (user) u db' where "serve env ta tn r db = (Response 201 (UserBody u), db')" and "CreateUser u db = Inr db'"
      and "\<not> usIsAdmin u"
  | (sig) ctx u inp p where "methodMatches ''POST'' r" and "matchPath signaturesPath (rqPath r)"
      and "ctxOk env ta r db ctx" and "evSigInput env (rqBody r) = Some inp"
      and "sigAccepted env ctx (rqPath r ! 2) db u inp p"
      and "serve env ta tn r db = (Response 201 (SigBody (uploadedSig tn (rqPath r ! 2) inp)),
             afterSig tn (rqPath r ! 2) inp p db)"
  | (conn) u inp p where "evConnInput env (rqBody r) = Some inp"
      and "connAccepted env (rqPath r ! 2) db u inp p" and "pType p = PayloadTypeConnection"
      and "serve env ta tn r db = (Response 201 (ConnBody (uploadedConn tn (rqPath r ! 2) inp p)),
             CreateConnection tn (uploadedConn tn (rqPath r ! 2) inp p) db)"
  | (connRev) u inp p c where "methodMatches ''POST'' r" and "matchPath connectionsPath (rqPath r)"
      and "evConnInput env (rqBody r) = Some inp"
      and "connAccepted env (rqPath r ! 2) db u inp p" and "pType p = PayloadTypeConnectionRevocation"
      and "GetConnection (pTargetID p) db = Inr c" and "cnOwner c = rqPath r ! 2"
      and "serve env ta tn r db = (Response 204 NoBody, revokeConnRows (pTargetID p) tn db)"
proof -
  let ?auth = "\<lambda>h. Authenticate env ta h None r db" and ?i = "rqPath r ! 2"
  consider (createUser) "serve env ta tn r db = CreateUserHandler env None r db"
    | (createSig) "methodMatches ''POST'' r" "matchPath signaturesPath (rqPath r)"
        "serve env ta tn r db = ?auth (CreateSignatureHandler env tn ?i)"
    | (createConn) "methodMatches ''POST'' r" "matchPath connectionsPath (rqPath r)"
        "serve env ta tn r db = ?auth (CreateConnectionHandler env tn ?i)"
    | (readSigs) "serve env ta tn r db = ?auth (GetUserSignaturesHandler env ?i)"
    | (readConns) "serve env ta tn r db = ?auth (GetUserConnectionsHandler env ?i)"
    | (keeps) "snd (serve env ta tn r db) = db"
    using serve_routes[of env r ta tn db] unfolding routed_def Let_def by blast
  then show thesis
  proof cases
    case createUser
    then show thesis using same user by (cases rule: CreateUserHandler_cases[of env None r db]) auto
  next
    case createSig
    show thesis
    proof (rule Authenticate_None[of env ta "CreateSignatureHandler env tn ?i" r db])
      fix ctx
      assume a: "?auth (CreateSignatureHandler env tn ?i) = CreateSignatureHandler env tn ?i ctx r db"
        "ctxOk env ta r db ctx"
      show thesis
      proof (rule CreateSignatureHandler_cases[of env tn ?i ctx r db])
        fix resp assume "CreateSignatureHandler env tn ?i ctx r db = (resp, db)"
        with a createSig(3) show thesis by (intro same) simp
      next
        fix u inp p
        assume "evSigInput env (rqBody r) = Some inp" "sigAccepted env ctx ?i db u inp p"
          "CreateSignatureHandler env tn ?i ctx r db =
             (Response 201 (SigBody (uploadedSig tn ?i inp)), afterSig tn ?i inp p db)"
        with a createSig show thesis by (intro sig) simp_all
      qed
    next
      assume "?auth (CreateSignatureHandler env tn ?i) = (writeUnauthed, db)"
      with createSig show thesis by (intro same) simp
    qed
  next
    case createConn
    show thesis
    proof (rule Authenticate_None[of env ta "CreateConnectionHandler env tn ?i" r db])
      fix ctx
      assume a: "?auth (CreateConnectionHandler env tn ?i) = CreateConnectionHandler env tn ?i ctx r db"
      show thesis
      proof (rule CreateConnectionHandler_cases[of env tn ?i ctx r db])
        fix resp assume "CreateConnectionHandler env tn ?i ctx r db = (resp, db)"
        with a createConn(3) show thesis by (intro same) simp
      next
        fix u inp p
        assume "evConnInput env (rqBody r) = Some inp" "connAccepted env ?i db u inp p"
          "pType p = PayloadTypeConnection"
          "CreateConnectionHandler env tn ?i ctx r db = (Response 201 (ConnBody (uploadedConn tn ?i inp p)),
             CreateConnection tn (uploadedConn tn ?i inp p) db)"
        with a createConn show thesis by (intro conn) simp_all
      next
        fix u inp p c
        assume "evConnInput env (rqBody r) = Some inp" "connAccepted env ?i db u inp p"
          "pType p = PayloadTypeConnectionRevocation" "GetConnection (pTargetID p) db = Inr c" "cnOwner c = ?i"
          "CreateConnectionHandler env tn ?i ctx r db = (Response 204 NoBody, revokeConnRows (pTargetID p) tn db)"
        with a createConn show thesis by (intro connRev) simp_all
      qed
    next
      assume "?auth (CreateConnectionHandler env tn ?i) = (writeUnauthed, db)"
      with createConn show thesis by (intro same) simp
    qed
  next
    case readSigs
    then show thesis
      by (cases rule: Authenticate_None[of env ta "GetUserSignaturesHandler env ?i" r db]) (auto intro: same)
  next
    case readConns
    then show thesis
      by (cases rule: Authenticate_None[of env ta "GetUserConnectionsHandler env ?i" r db]) (auto intro: same)
  next
    case keeps
    then show thesis by (rule same)
  qed
qed

text \<open>C15: A request that fails changes nothing: whatever the request, an answer with an
  error status leaves the database as it was, and so does every \<open>GET\<close>; a database
  that changed was changed by a \<open>POST\<close> that answered 201 or 204.\<close>

theorem failed_request_keeps_db:
  assumes "snd (serve env authNow now r db) \<noteq> db"
  shows "rqMethod r = ''POST'' \<and> rsStatus (fst (serve env authNow now r db)) \<in> {201, 204}"
proof -
  have "\<not> methodMatches ''POST'' r \<Longrightarrow> snd (serve env authNow now r db) = db"
    unfolding serve_def Let_def
    by (auto simp: Authenticate_def writeUnauthed_def split: if_split sum.split)
  moreover have "rsStatus (fst (serve env authNow now r db)) \<in> {201, 204}"
    using assms by (cases rule: serve_cases[of env authNow now r db]) auto
  ultimately show ?thesis
    using assms by (auto simp: methodMatches_def)
qed

section \<open>The rows of a reachable database\<close>

definition sigRowOk :: "env \<Rightarrow> user list \<Rightarrow> signature \<Rightarrow> bool" where
  "sigRowOk env users s \<longleftrightarrow> (\<exists>u\<in>set users. usID u = sgSigner s
     \<and> (\<exists>p. uploadOk env u (sgID s) (sgPayload s) (sgSig s) p))"

definition connRowOk :: "env \<Rightarrow> user list \<Rightarrow> connection \<Rightarrow> bool" where
  "connRowOk env users c \<longleftrightarrow> (\<exists>u\<in>set users. usID u = cnOwner c
     \<and> (\<exists>p. uploadOk env u (cnID c) (cnPayload c) (cnSig c) p \<and> pType p = PayloadTypeConnection
          \<and> pSigner p = cnOwner c \<and> pOtherID p = cnOtherID c \<and> pPublic p = cnPublic c
          \<and> pTrust p = cnTrust c \<and> pTrustExtends p = cnTrustExtends c))"

definition revocationsDone :: "env \<Rightarrow> signature list \<Rightarrow> bool" where
  "revocationsDone env rows \<longleftrightarrow> (\<forall>s\<in>set rows. \<forall>p. evPayload env (sgPayload s) = Some p \<and> IsRevocation p \<longrightarrow>
     (\<exists>t\<in>set rows. sgID t = pTargetID p \<and> sgSigner t = sgSigner s \<and> sgRevoked t))"

definition dbOk :: "env \<Rightarrow> serverDb \<Rightarrow> bool" where
  "dbOk env db \<longleftrightarrow>
     keysDistinct usID (dbUsers db) \<and> keysDistinct usUsername (dbUsers db) \<and> keysDistinct usPubKey (dbUsers db)
     \<and> keysDistinct sgID (dbSignatures db) \<and> keysDistinct cnID (dbConnections db)
     \<and> (\<forall>s\<in>set (dbSignatures db). sigRowOk env (dbUsers db) s)
     \<and> (\<forall>c\<in>set (dbConnections db). connRowOk env (dbUsers db) c)
     \<and> revocationsDone env (dbSignatures db)"

lemma uploadOk_admin [simp]: "uploadOk env (u\<lparr>usIsAdmin := b\<rparr>) = uploadOk env u"
  by (simp add: uploadOk_def fun_eq_iff)

text \<open>Marking a row as revoked, and the rows after an accepted upload.\<close>

definition revIf :: "payload \<Rightarrow> int \<Rightarrow> signature \<Rightarrow> signature" where
  "revIf p now s = (if IsRevocation p \<and> sgID s = pTargetID p
     then s\<lparr>sgRevoked := True, sgRevokedAt := Some (cutToSecond now)\<rparr> else s)"

lemma revIf_simps [simp]:
  "sgID (revIf p now s) = sgID s" "sgSigner (revIf p now s) = sgSigner s" "sgPayload (revIf p now s) = sgPayload s"
  "sgSig (revIf p now s) = sgSig s" "sgAlgorithm (revIf p now s) = sgAlgorithm s"
  "sgUploadedAt (revIf p now s) = sgUploadedAt s" "sgPublic (revIf p now s) = sgPublic s"
  "sgRevoked (revIf p now s) \<longleftrightarrow> sgRevoked s \<or> IsRevocation p \<and> sgID s = pTargetID p"
  by (auto simp: revIf_def)

lemma afterSig_rows:
  "dbSignatures (afterSig now i inp p db) =
     map (revIf p now) (insertIgnore sgID (newSignatureRow (uploadedSig now i inp)) (dbSignatures db))"
  by (auto simp: afterSig_def Let_def RevokeSignature_def CreateSignature_def revIf_def[abs_def])

lemma afterSig_others [simp]:
  "dbUsers (afterSig now i inp p db) = dbUsers db"
  "dbConnections (afterSig now i inp p db) = dbConnections db"
  by (auto simp: afterSig_def Let_def RevokeSignature_def CreateSignature_def)

lemma afterSig_memberD:
  assumes "s' \<in> set (dbSignatures (afterSig now i inp p db))"
  obtains s where "s' = revIf p now s"
    and "s \<in> set (dbSignatures db) \<or> s = newSignatureRow (uploadedSig now i inp)"
  using assms by (auto simp: afterSig_rows set_insertIgnore split: if_splits)

lemma afterSig_kept: "s \<in> set (dbSignatures db) \<Longrightarrow> revIf p now s \<in> set (dbSignatures (afterSig now i inp p db))"
  by (simp add: afterSig_rows rows_kept_insertIgnore)

lemma uploadedSig_simps [simp]:
  "sgID (uploadedSig now i inp) = sinID inp" "sgSigner (uploadedSig now i inp) = i"
  "sgPayload (uploadedSig now i inp) = sinPayload inp" "sgSig (uploadedSig now i inp) = sinSig inp"
  "sgPublic (uploadedSig now i inp) \<longleftrightarrow> sinPublic inp \<noteq> Some False"
  by (simp_all add: uploadedSig_def)

lemma GetUser_member: "GetUser i db = Inr u \<Longrightarrow> \<exists>v\<in>set (dbUsers db). usID v = i \<and> u = v\<lparr>usIsAdmin := False\<rparr>"
  by (auto simp: GetUser_Inr dest: rowByKey_Some)

lemma uploader_registered:
  assumes "GetUser i db = Inr u" and "uploadOk env u j payload sig p"
  shows "\<exists>v\<in>set (dbUsers db). usID v = i \<and> uploadOk env v j payload sig p"
  using GetUser_member[OF assms(1)] assms(2) by auto

lemma sigRowOk_mono: "sigRowOk env us s \<Longrightarrow> set us \<subseteq> set vs \<Longrightarrow> sigRowOk env vs s"
  by (auto simp: sigRowOk_def)

lemma connRowOk_mono: "connRowOk env us c \<Longrightarrow> set us \<subseteq> set vs \<Longrightarrow> connRowOk env vs c"
  by (auto simp: connRowOk_def)

lemma sigRowOk_revIf [simp]: "sigRowOk env us (revIf p now s) = sigRowOk env us s"
  by (simp add: sigRowOk_def)

lemma dbOk_user:
  assumes "dbOk env db" and "CreateUser u db = Inr db'"
  shows "dbOk env db'"
proof -
  have d: "db' = db\<lparr>dbUsers := dbUsers db @ [u]\<rparr>"
      and new: "\<forall>v\<in>set (dbUsers db). usID v \<noteq> usID u \<and> usUsername v \<noteq> usUsername u \<and> usPubKey v \<noteq> usPubKey u"
    using CreateUser_Inr[OF assms(2)] by blast+
  have "\<forall>s\<in>set (dbSignatures db). sigRowOk env (dbUsers db @ [u]) s"
      "\<forall>c\<in>set (dbConnections db). connRowOk env (dbUsers db @ [u]) c"
    using assms(1) by (auto simp: dbOk_def intro: sigRowOk_mono connRowOk_mono)
  with assms(1) d new show ?thesis
    by (auto simp: dbOk_def keysDistinct_def)
qed

lemma dbOk_sig:
  assumes ok: "dbOk env db" and acc: "sigAccepted env ctx i db u inp p"
  shows "dbOk env (afterSig now i inp p db)"
proof -
  let ?new = "newSignatureRow (uploadedSig now i inp)" and ?db' = "afterSig now i inp p db"
  have up: "uploadOk env u (sinID inp) (sinPayload inp) (sinSig inp) p"
      and target: "IsRevocation p \<longrightarrow> (\<exists>t\<in>set (dbSignatures db). sgID t = pTargetID p \<and> sgSigner t = i)"
    using acc by (auto simp: sigAccepted_def GetSignature_Inr dest: rowByKey_Some)
  have "sigRowOk env (dbUsers db) ?new"
    using uploader_registered[OF _ up, of i db] acc by (force simp: sigAccepted_def sigRowOk_def)
  then have rows: "\<forall>s\<in>set (dbSignatures ?db'). sigRowOk env (dbUsers db) s"
    using ok by (auto simp: dbOk_def elim!: afterSig_memberD)
  have keys: "keysDistinct sgID (dbSignatures ?db')"
    using ok keysDistinct_insertIgnore[of sgID "dbSignatures db" ?new]
    by (auto simp: dbOk_def afterSig_rows keysDistinct_def comp_def)
  have "revocationsDone env (dbSignatures ?db')"
    unfolding revocationsDone_def
  proof (intro ballI allI impI)
    fix s' q assume "s' \<in> set (dbSignatures ?db')" and q: "evPayload env (sgPayload s') = Some q \<and> IsRevocation q"
    then obtain s where s: "s' = revIf p now s" "s \<in> set (dbSignatures db) \<or> s = ?new"
      by (auto elim: afterSig_memberD)
    from s(2) have "\<exists>t\<in>set (dbSignatures db). sgID t = pTargetID q \<and> sgSigner t = sgSigner s
        \<and> sgRevoked (revIf p now t)"
    proof
      assume "s \<in> set (dbSignatures db)"
      with ok q s(1) have "\<exists>t\<in>set (dbSignatures db). sgID t = pTargetID q \<and> sgSigner t = sgSigner s \<and> sgRevoked t"
        unfolding dbOk_def revocationsDone_def by (metis revIf_simps(3))
      then show ?thesis by auto
    next
      assume "s = ?new"
      with q s(1) up have "q = p" by (simp add: uploadOk_def)
      with q target \<open>s = ?new\<close> show ?thesis by auto
    qed
    then show "\<exists>t\<in>set (dbSignatures ?db'). sgID t = pTargetID q \<and> sgSigner t = sgSigner s' \<and> sgRevoked t"
      using s(1) afterSig_kept[of _ db p now i inp] by (metis revIf_simps(1,2))
  qed
  with ok rows keys show ?thesis by (simp add: dbOk_def)
qed

lemma dbOk_conn:
  assumes ok: "dbOk env db" and acc: "connAccepted env i db u inp p" and "pType p = PayloadTypeConnection"
  shows "dbOk env (CreateConnection now (uploadedConn now i inp p) db)"
proof -
  have "connRowOk env (dbUsers db) (newConnectionRow now (uploadedConn now i inp p))"
    using acc assms(3) uploader_registered[of i db u env "ciID inp" "ciPayload inp" "ciSig inp" p]
    by (force simp: connAccepted_def connRowOk_def uploadedConn_def)
  then show ?thesis
    using ok by (auto simp: dbOk_def CreateConnection_def keysDistinct_insertIgnore set_insertIgnore)
qed

lemma dbOk_connRev:
  assumes "dbOk env db"
  shows "dbOk env (revokeConnRows i at db)"
  using assms keysDistinct_update[of cnID "\<lambda>c. c\<lparr>cnRevoked := True, cnRevokedAt := Some (cutToSecond at)\<rparr>" i]
  by (auto simp: dbOk_def revokeConnRows_def connRowOk_def)

lemma dbOk_serve: "dbOk env db \<Longrightarrow> dbOk env (snd (serve env ta tn r db))"
  by (cases rule: serve_cases[of env ta tn r db])
     (auto intro: dbOk_user dbOk_sig dbOk_conn dbOk_connRev)

lemma served_dbOk':
  assumes "served env evs db"
  shows "dbOk env db"
  using assms
proof (induction rule: served.induct)
  case served_init
  then show ?case by (simp add: dbOk_def emptyDb_def keysDistinct_def revocationsDone_def)
next
  case (served_step evs db e)
  show ?case using served_step.IH by (rule dbOk_serve)
qed

text \<open>C11: Every database a server reaches is in order: users differ in id, name and key, a
  signature or connection row belongs to a registered user, its id is the hash of
  its payload and signature, the signature verifies under the user's key and the
  payload validates; the columns of a connection are those of its payload; and
  for every stored revocation the signature it names is there, has the same
  signer and is marked revoked.\<close>

theorem served_dbOk:
  assumes "served env evs db"
  shows "dbOk env db"
  by (rule served_dbOk'[OF assms])

end
