(* ===== verification/Server_History.thy ===== *)
theory Server_History
  imports Server
begin

text \<open>
  The rows of the server over time: what a later request can still change in a row,
  who can have revoked it, and what a third party can do with a signature it has
  seen.
\<close>

section \<open>Requests in a row\<close>

definition serveEvent :: "env \<Rightarrow> serverDb \<Rightarrow> event \<Rightarrow> serverDb" where
  "serveEvent env db e = snd (serve env (evtAuthNow e) (evtNow e) (evtRequest e) db)"

lemma served_foldl: "served env evs db \<Longrightarrow> db = foldl (serveEvent env) emptyDb evs"
  by (induction rule: served.induct) (simp_all add: serveEvent_def)

lemma matchPath_iff:
  "matchPath [] path \<longleftrightarrow> path = []"
  "matchPath (Some s # ps) path \<longleftrightarrow> (\<exists>xs. path = s # xs \<and> matchPath ps xs)"
  "matchPath (None # ps) path \<longleftrightarrow> (\<exists>x xs. path = x # xs \<and> x \<noteq> [] \<and> matchPath ps xs)"
  by (cases path; auto)+

lemma matchPath_signatures: "matchPath signaturesPath p \<Longrightarrow> p = [''v1'', ''users'', p ! 2, ''signatures''] \<and> p ! 2 \<noteq> []"
  by (auto simp: signaturesPath_def userPath_def usersPath_def matchPath_iff)

lemma matchPath_connections:
  "matchPath connectionsPath p \<Longrightarrow> p = [''v1'', ''users'', p ! 2, ''connections''] \<and> p ! 2 \<noteq> []"
  by (auto simp: connectionsPath_def userPath_def usersPath_def matchPath_iff)

section \<open>Rows are written once\<close>

text \<open>The later version of a row: the same but for the mark of a revocation, which stays.\<close>

definition evolvedSig :: "signature \<Rightarrow> signature \<Rightarrow> bool" where
  "evolvedSig s s' \<longleftrightarrow> s' = s\<lparr>sgRevoked := sgRevoked s', sgRevokedAt := sgRevokedAt s'\<rparr> \<and> (sgRevoked s \<longrightarrow> sgRevoked s')"

definition evolvedConn :: "connection \<Rightarrow> connection \<Rightarrow> bool" where
  "evolvedConn c c' \<longleftrightarrow> c' = c\<lparr>cnRevoked := cnRevoked c', cnRevokedAt := cnRevokedAt c'\<rparr> \<and> (cnRevoked c \<longrightarrow> cnRevoked c')"

lemma evolved_refl [simp]: "evolvedSig s s" "evolvedConn c c"
  by (simp_all add: evolvedSig_def evolvedConn_def)

lemma evolvedSig_trans: "evolvedSig s t \<Longrightarrow> evolvedSig t v \<Longrightarrow> evolvedSig s v"
  unfolding evolvedSig_def by (cases s; cases t; cases v) simp

lemma evolvedConn_trans: "evolvedConn s t \<Longrightarrow> evolvedConn t v \<Longrightarrow> evolvedConn s v"
  unfolding evolvedConn_def by (cases s; cases t; cases v) simp

lemma evolvedSig_revIf: "evolvedSig s (revIf p now s)"
  by (simp add: evolvedSig_def revIf_def)

lemma rowByKey_afterSig:
  "rowByKey sgID i (dbSignatures db) = Some s \<Longrightarrow>
   rowByKey sgID i (dbSignatures (afterSig now j inp p db)) = Some (revIf p now s)"
  by (simp add: afterSig_rows rowByKey_def find_map comp_def)
     (simp add: insertIgnore_def find_append)

lemma sig_kept_serve:
  assumes "rowByKey sgID i (dbSignatures db) = Some s"
  shows "\<exists>s'. rowByKey sgID i (dbSignatures (snd (serve env ta tn r db))) = Some s' \<and> evolvedSig s s'"
proof (cases rule: serve_cases[of env ta tn r db])
  case (sig ctx u inp p)
  then show ?thesis using rowByKey_afterSig[OF assms] evolvedSig_revIf by auto
qed (use assms in \<open>auto simp: CreateConnection_def revokeConnRows_def dest!: CreateUser_Inr\<close>)

lemma conn_kept_serve:
  assumes "rowByKey cnID i (dbConnections db) = Some c"
  shows "\<exists>c'. rowByKey cnID i (dbConnections (snd (serve env ta tn r db))) = Some c' \<and> evolvedConn c c'"
proof (cases rule: serve_cases[of env ta tn r db])
  case (conn u inp p)
  then show ?thesis using connRows.get_put_kept[OF assms] by auto
next
  case (connRev u inp p c')
  then show ?thesis
    using assms rowByKey_update[of cnID "\<lambda>c. c\<lparr>cnRevoked := True, cnRevokedAt := Some (cutToSecond tn)\<rparr>"
        i "pTargetID p" "dbConnections db"]
    by (auto simp: revokeConnRows_def evolvedConn_def)
qed (use assms in \<open>auto dest!: CreateUser_Inr\<close>)

text \<open>C14: Rows are written once: whatever requests the server serves after a signature row
  is there, the row with that id keeps its signer, payload, signature, upload time
  and visibility; only the mark that it is revoked can be added, and it is never
  taken back.  So a signature uploaded as private stays private when its owner
  publishes it later.\<close>

theorem signature_rows_permanent:
  assumes "rowByKey sgID i (dbSignatures db) = Some s"
  shows "\<exists>s'. rowByKey sgID i (dbSignatures (foldl (serveEvent env) db evs)) = Some s'
     \<and> s' = s\<lparr>sgRevoked := sgRevoked s', sgRevokedAt := sgRevokedAt s'\<rparr> \<and> (sgRevoked s \<longrightarrow> sgRevoked s')"
proof -
  have "\<exists>s'. rowByKey sgID i (dbSignatures (foldl (serveEvent env) db evs)) = Some s' \<and> evolvedSig s s'"
    using assms
  proof (induction evs arbitrary: db s)
    case (Cons e evs)
    obtain t where "rowByKey sgID i (dbSignatures (serveEvent env db e)) = Some t" "evolvedSig s t"
      using sig_kept_serve[OF Cons.prems, of env "evtAuthNow e" "evtNow e" "evtRequest e"]
      by (auto simp: serveEvent_def)
    then show ?case using Cons.IH evolvedSig_trans by fastforce
  qed simp
  then show ?thesis by (simp add: evolvedSig_def)
qed

section \<open>Who revokes\<close>

text \<open>The event uploads a revocation of the signature \<open>i\<close> of the user, signed with the user's key.\<close>

definition revokesSig :: "env \<Rightarrow> user \<Rightarrow> string \<Rightarrow> event \<Rightarrow> bool" where
  "revokesSig env u i e \<longleftrightarrow>
     rqMethod (evtRequest e) = ''POST'' \<and> rqPath (evtRequest e) = [''v1'', ''users'', usID u, ''signatures'']
     \<and> (\<exists>inp p. evSigInput env (rqBody (evtRequest e)) = Some inp
          \<and> verifiesFor (evSchemes env) u (sinPayload inp) (sinSig inp)
          \<and> evPayload env (sinPayload inp) = Some p \<and> IsRevocation p \<and> pTargetID p = i)"

definition revokesConn :: "env \<Rightarrow> user \<Rightarrow> string \<Rightarrow> event \<Rightarrow> bool" where
  "revokesConn env u i e \<longleftrightarrow>
     rqMethod (evtRequest e) = ''POST'' \<and> rqPath (evtRequest e) = [''v1'', ''users'', usID u, ''connections'']
     \<and> (\<exists>inp p. evConnInput env (rqBody (evtRequest e)) = Some inp
          \<and> verifiesFor (evSchemes env) u (ciPayload inp) (ciSig inp)
          \<and> evPayload env (ciPayload inp) = Some p \<and> pType p = PayloadTypeConnectionRevocation
          \<and> pSigner p = usID u \<and> pTargetID p = i)"

text \<open>Every revoked row has such an event in the past.\<close>

definition revocationsExplained :: "env \<Rightarrow> event list \<Rightarrow> serverDb \<Rightarrow> bool" where
  "revocationsExplained env evs db \<longleftrightarrow>
     (\<forall>s\<in>set (dbSignatures db). sgRevoked s \<longrightarrow>
        (\<exists>u\<in>set (dbUsers db). usID u = sgSigner s \<and> (\<exists>e\<in>set evs. revokesSig env u (sgID s) e)))
     \<and> (\<forall>c\<in>set (dbConnections db). cnRevoked c \<longrightarrow>
        (\<exists>u\<in>set (dbUsers db). usID u = cnOwner c \<and> (\<exists>e\<in>set evs. revokesConn env u (cnID c) e)))"

lemma explained_more:
  "revocationsExplained env evs db \<Longrightarrow> set evs \<subseteq> set evs' \<Longrightarrow> revocationsExplained env evs' db"
  unfolding revocationsExplained_def by (meson subsetD)

lemma revokesSig_admin [simp]: "revokesSig env (u\<lparr>usIsAdmin := b\<rparr>) = revokesSig env u"
  and revokesConn_admin [simp]: "revokesConn env (u\<lparr>usIsAdmin := b\<rparr>) = revokesConn env u"
  by (simp_all add: revokesSig_def revokesConn_def fun_eq_iff)

lemma explained_serve:
  assumes ex: "revocationsExplained env evs db" and ok: "dbOk env db"
  shows "revocationsExplained env (evs @ [e]) (serveEvent env db e)"
proof -
  let ?evs = "evs @ [e]" and ?r = "evtRequest e"
  have more: "revocationsExplained env ?evs db"
    using explained_more[OF ex, of ?evs] by auto
  show ?thesis
  proof (cases rule: serve_cases[of env "evtAuthNow e" "evtNow e" ?r db])
    case same
    then show ?thesis using more by (simp add: serveEvent_def)
  next
    case (user u db')
    then show ?thesis
      using more by (auto simp: serveEvent_def revocationsExplained_def dest!: CreateUser_Inr)
  next
    case (conn u inp p)
    then show ?thesis
      using more by (auto simp: serveEvent_def revocationsExplained_def CreateConnection_def set_insertIgnore)
  next
    case (sig ctx u inp p)
    let ?i = "rqPath ?r ! 2"
    obtain v where v: "v \<in> set (dbUsers db)" "usID v = ?i" "u = v\<lparr>usIsAdmin := False\<rparr>"
      using sig(5) GetUser_member[of ?i db u] by (auto simp: sigAccepted_def)
    have e: "revokesSig env v (pTargetID p) e" if "IsRevocation p"
      using sig(1,2,4,5) v that matchPath_signatures[OF sig(2)]
      by (auto simp: revokesSig_def sigAccepted_def uploadOk_def methodMatches_def)
    have "\<exists>u\<in>set (dbUsers db). usID u = sgSigner s' \<and> (\<exists>e\<in>set ?evs. revokesSig env u (sgID s') e)"
      if "s' \<in> set (dbSignatures (afterSig (evtNow e) ?i inp p db))" "sgRevoked s'" for s'
      using that(1)
    proof (rule afterSig_memberD)
      fix s assume s: "s' = revIf p (evtNow e) s"
        "s \<in> set (dbSignatures db) \<or> s = newSignatureRow (uploadedSig (evtNow e) ?i inp)"
      show ?thesis
      proof (cases "IsRevocation p \<and> sgID s = pTargetID p")
        case True
        have "sgSigner s = ?i"
          using s(2)
        proof
          assume "s \<in> set (dbSignatures db)"
          with ok True sig(5) show ?thesis
            by (auto simp: sigAccepted_def GetSignature_Inr dbOk_def rowByKey_iff dest: distinct_map_inj[of sgID]
                simp: keysDistinct_def)
        qed simp
        with True e v s(1) show ?thesis by auto
      next
        case False
        then have "sgRevoked s" "s \<in> set (dbSignatures db)"
          using s that(2) by auto
        with more s(1) show ?thesis by (auto simp: revocationsExplained_def)
      qed
    qed
    with more sig(6) show ?thesis
      by (simp add: serveEvent_def revocationsExplained_def)
  next
    case (connRev u inp p c)
    let ?i = "rqPath ?r ! 2"
    obtain v where v: "v \<in> set (dbUsers db)" "usID v = ?i" "u = v\<lparr>usIsAdmin := False\<rparr>"
      using connRev(4) GetUser_member[of ?i db u] by (auto simp: connAccepted_def)
    have e: "revokesConn env v (pTargetID p) e"
      using connRev(1-5) v matchPath_connections[OF connRev(2)]
      by (auto simp: revokesConn_def connAccepted_def uploadOk_def methodMatches_def)
    have owner: "cnOwner c' = ?i" if "c' \<in> set (dbConnections db)" "cnID c' = pTargetID p" for c'
      using that connRev(6,7) ok distinct_map_inj[of cnID "dbConnections db" c' c]
      by (auto simp: GetConnection_Inr dbOk_def keysDistinct_def dest: rowByKey_Some)
    show ?thesis
      using more connRev(8) e v owner
      by (fastforce simp: serveEvent_def revocationsExplained_def revokeConnRows_def)
  qed
qed

text \<open>C12: Only the owner's key revokes: when a signature or connection row of a database the
  server reached is marked as revoked, one of the requests served was an upload to
  the account that owns the row of a revocation that names the row and whose
  signature verifies under the owner's key.\<close>

theorem owner_revokes:
  assumes "served env evs db"
  shows "revocationsExplained env evs db"
  using assms
proof (induction rule: served.induct)
  case served_init
  then show ?case by (simp add: revocationsExplained_def emptyDb_def)
next
  case (served_step evs db e)
  show ?case
    using explained_serve[OF served_step.IH served_dbOk'[OF served_step.hyps]] by (simp add: serveEvent_def)
qed

end
