(* ===== verification/Server_Access.thy ===== *)
theory Server_Access
  imports Server_History
begin

text \<open>
  Who can do and see what: the authentication middleware, the view of a reader who is
  not the owner, the revocations of connections that no reader sees, and signatures
  that a third party uploads again under a new id.
\<close>

section \<open>Authentication\<close>

text \<open>C16: A request is authenticated as a user exactly when its header is the scheme followed
  by the base64url of an envelope whose payload is a token that is valid now for
  this server, names a registered user, and is signed with that user's key; the
  algorithm is the one registered, not the one the envelope names.\<close>

theorem authenticateRequest_iff:
  "authenticateRequest env r db now = Inr u \<longleftrightarrow>
     GetUser (usID u) db = Inr u
     \<and> (\<exists>enc bytes ae token. rqAuthorization r = ''Tillit '' @ enc \<and> b64Decode enc = Some bytes
          \<and> evEnvelope env bytes = Some ae \<and> evToken env (aePayload ae) = Some token
          \<and> authToken_Validate (evTime env) now (evPublicURL env) token = None
          \<and> atSigner token = usID u \<and> verifiesFor (evSchemes env) u (aePayload ae) (aeSig ae))"
  unfolding authenticateRequest_Inr tokenFor_def authScheme_def ..

text \<open>C17: Whoever gets hold of the header of an authenticated request can use it at no other server, for no
  other user, and only within six minutes of the request, whatever the database has become.\<close>

theorem stolen_token_expires:
  assumes "authenticateRequest env r db now = Inr u"
    and "authenticateRequest (env\<lparr>evPublicURL := url\<rparr>) r' db' later = Inr u'"
    and "rqAuthorization r' = rqAuthorization r"
  shows "url = evPublicURL env \<and> usID u' = usID u \<and> \<bar>later - now\<bar> \<le> 360 * second"
proof -
  obtain token where t: "authToken_Validate (evTime env) now (evPublicURL env) token = None" "atSigner token = usID u"
    "authToken_Validate (evTime env) later url token = None" "atSigner token = usID u'"
    using assms unfolding authenticateRequest_Inr tokenFor_def by auto
  have "later - now \<le> 360 * second" "now - later \<le> 360 * second"
    using authToken_replay_window[OF t(1,3)] authToken_replay_window[OF t(3,1)] by simp_all
  with t show ?thesis using authToken_replay_window[OF t(1,3)] by (simp add: abs_le_iff)
qed

text \<open>The admin guard lets nobody through: \<open>GetUser\<close> never reads the admin flag, so
  behind the authentication middleware every request to a handler guarded by
  \<open>IsAdmin\<close> is answered 401 and changes nothing, whatever the database says.\<close>

theorem IsAdmin_refuses_everyone:
  "Authenticate env now (IsAdmin h) None r db = (writeUnauthed, db)"
  by (rule Authenticate_cases[of r env now "IsAdmin h" None db])
     (auto simp: IsAdmin_def dest: GetUser_props)

section \<open>The view of a reader\<close>

definition publicDb :: "serverDb \<Rightarrow> serverDb" where
  "publicDb db = db\<lparr>dbSignatures := filter sgPublic (dbSignatures db),
     dbConnections := filter (\<lambda>c. cnPublic c \<and> \<not> cnRevoked c) (dbConnections db)\<rparr>"

lemma publicDb_users [simp]: "GetUser i (publicDb db) = GetUser i db"
  by (simp add: publicDb_def GetUser_def)

lemma GetUserSignatures_public: "GetUserSignatures i since False (publicDb db) = GetUserSignatures i since False db"
  by (simp add: GetUserSignatures_def publicDb_def conj_ac)

lemma GetUserPublicConnections_public:
  "GetUserPublicConnections i since False (publicDb db) = GetUserPublicConnections i since False db"
  by (simp add: GetUserPublicConnections_def publicDb_def conj_ac)

lemma authenticateRequest_public: "authenticateRequest env r (publicDb db) now = authenticateRequest env r db now"
  unfolding authenticateRequest_def publicDb_users ..

lemma Authenticate_public:
  assumes "\<And>ctx. ctxOk env ta r db ctx \<Longrightarrow> fst (h ctx r db) = fst (h ctx r (publicDb db))"
  shows "fst (Authenticate env ta h None r db) = fst (Authenticate env ta h None r (publicDb db))"
proof (cases "rqAuthorization r = []")
  case True
  then show ?thesis using assms[of None] by (simp add: Authenticate_def ctxOk_def)
next
  case False
  show ?thesis
  proof (cases "authenticateRequest env r db ta")
    case (Inr u)
    then have "ctxOk env ta r db (Some u)" by (simp add: ctxOk_def authenticateRequest_Inr)
    with Inr False show ?thesis using assms[of "Some u"] by (simp add: Authenticate_def authenticateRequest_public)
  qed (use False in \<open>simp add: Authenticate_def authenticateRequest_public\<close>)
qed

text \<open>C13: Private rows do not leak: the answer to a \<open>GET\<close> whose header is not a valid token of
  the user in the path is the same when all private signatures and all private or
  revoked connections are deleted from the database first.\<close>

theorem private_rows_hidden:
  assumes "rqMethod r \<noteq> ''POST''"
    and "\<And>u. tokenFor env (rqAuthorization r) u authNow \<Longrightarrow> usID u \<noteq> rqPath r ! 2"
  shows "fst (serve env authNow now r db) = fst (serve env authNow now r (publicDb db))"
proof -
  let ?i = "rqPath r ! 2"
  have other: "notAuthedAs ctx ?i" if "ctxOk env authNow r db ctx" for ctx
    using that assms(2) by (auto simp: ctxOk_def notAuthedAs_def split: option.splits)
  have "fst (Authenticate env authNow (GetUserSignaturesHandler env ?i) None r db)
      = fst (Authenticate env authNow (GetUserSignaturesHandler env ?i) None r (publicDb db))"
    by (rule Authenticate_public)
       (simp add: GetUserSignaturesHandler_def Let_def other GetUserSignatures_public split: option.split)
  moreover have "fst (Authenticate env authNow (GetUserConnectionsHandler env ?i) None r db)
      = fst (Authenticate env authNow (GetUserConnectionsHandler env ?i) None r (publicDb db))"
    by (rule Authenticate_public)
       (simp add: GetUserConnectionsHandler_def Let_def other GetUserPublicConnections_public split: option.split)
  moreover have "fst (GetUserIDHandler ?i None r db) = fst (GetUserIDHandler ?i None r (publicDb db))"
    by (simp add: GetUserIDHandler_def split: sum.split)
  moreover have "fst (serve env authNow now r db) = fst (serve env authNow now r (publicDb db))"
    if "rqPath r = [''health'']"
    using that by (simp add: serve_def HandleHealth_def connectionsPath_def signaturesPath_def userPath_def usersPath_def)
  ultimately show ?thesis
    using assms(1) by (cases "rqPath r = [''health'']") (simp_all add: serve_def Let_def methodMatches_def)
qed

section \<open>Revoked connections\<close>

text \<open>A list of connections in an answer is what the query gives for the user the handler saw.\<close>

definition connView :: "env \<Rightarrow> int \<Rightarrow> request \<Rightarrow> serverDb \<Rightarrow> response \<times> serverDb \<Rightarrow> bool" where
  "connView env ta r db res \<longleftrightarrow> (\<forall>cs. fst res = Response 200 (ConnsBody cs) \<longrightarrow>
     (\<exists>since ctx. ctxOk env ta r db ctx
        \<and> cs = GetUserPublicConnections (rqPath r ! 2) since (\<not> notAuthedAs ctx (rqPath r ! 2)) db))"

lemma connView_if: "(b \<Longrightarrow> connView env ta r db x) \<Longrightarrow> (\<not> b \<Longrightarrow> connView env ta r db y) \<Longrightarrow>
    connView env ta r db (if b then x else y)"
  by simp

lemma connView_Authenticate:
  assumes "\<And>ctx. ctxOk env ta r db ctx \<Longrightarrow> connView env ta r db (h ctx r db)"
  shows "connView env ta r db (Authenticate env ta h None r db)"
  by (rule Authenticate_None[of env ta h r db]) (auto simp: assms, simp add: connView_def http_defs)

lemma connView_uploads:
  "connView env ta r db (CreateSignatureHandler env now i ctx r db)"
  by (rule CreateSignatureHandler_cases[of env now i ctx r db]) (auto simp: connView_def)

lemma connView_uploads':
  "connView env ta r db (CreateConnectionHandler env now i ctx r db)"
  by (rule CreateConnectionHandler_cases[of env now i ctx r db]) (auto simp: connView_def)

lemma connView_newUser: "connView env ta r db (CreateUserHandler env ctx r db)"
  by (rule CreateUserHandler_cases[of env ctx r db]) (auto simp: connView_def)

lemma connView_reads:
  "ctxOk env ta r db ctx \<Longrightarrow> connView env ta r db (GetUserConnectionsHandler env (rqPath r ! 2) ctx r db)"
  "connView env ta r db (GetUserSignaturesHandler env i ctx r db)"
  "connView env ta r db (GetUserIDHandler i ctx r db)"
  "connView env ta r db (HandleHealth ctx r db)"
  "connView env ta r db (httpNotFound, db)"
  by (auto simp: connView_def GetUserConnectionsHandler_def GetUserSignaturesHandler_def GetUserIDHandler_def
      HandleHealth_def http_defs Let_def split: option.split sum.split)

lemma connView_serve: "connView env ta r db (serve env ta tn r db)"
  unfolding serve_def Let_def
  by (intro connView_if connView_Authenticate connView_uploads connView_uploads' connView_newUser connView_reads)

text \<open>No reader learns that a connection is revoked from the server: in every database it
  reaches, a list of connections it returns holds connections only, never a
  revocation, and unless the reader is authenticated as the owner no connection
  that is revoked.\<close>

theorem connection_revocations_unpublished:
  assumes "served env evs db" and "fst (serve env authNow now r db) = Response 200 (ConnsBody cs)"
    and "c \<in> set cs"
  shows "(\<exists>p. evPayload env (cnPayload c) = Some p \<and> pType p = PayloadTypeConnection)
     \<and> (cnRevoked c \<longrightarrow> (\<exists>u. usID u = cnOwner c \<and> tokenFor env (rqAuthorization r) u authNow))"
proof -
  obtain since ctx where ctx: "ctxOk env authNow r db ctx"
      and cs: "cs = GetUserPublicConnections (rqPath r ! 2) since (\<not> notAuthedAs ctx (rqPath r ! 2)) db"
    using connView_serve[of env authNow r db now] assms(2) by (auto simp: connView_def)
  then have c: "c \<in> set (dbConnections db)" "cnOwner c = rqPath r ! 2"
      "notAuthedAs ctx (rqPath r ! 2) \<longrightarrow> \<not> cnRevoked c"
    using assms(3) by (auto simp: set_GetUserPublicConnections)
  then have "connRowOk env (dbUsers db) c"
    using served_dbOk'[OF assms(1)] by (simp add: dbOk_def)
  then show ?thesis
    using c ctx by (auto simp: connRowOk_def uploadOk_def notAuthedAs_def ctxOk_def split: option.splits)
qed

section \<open>Uploads\<close>

text \<open>An upload is stored exactly when the account exists, the body decodes, the id is the
  hash of payload and signature, the signature verifies under the key of the
  account, the payload parses and validates, a revocation names a signature of the
  account, and a private upload is authenticated as the account.  Nothing compares
  the signer that the payload names with the account.\<close>

theorem upload_accepted_iff:
  "rsStatus (fst (CreateSignatureHandler env now userID ctx r db)) = 201 \<longleftrightarrow>
     (\<exists>u inp p. GetUser userID db = Inr u \<and> evSigInput env (rqBody r) = Some inp
        \<and> sinID inp \<noteq> [] \<and> sinID inp = SignatureID (sha256 (evSchemes env)) (sinPayload inp) (sinSig inp)
        \<and> verifiesFor (evSchemes env) u (sinPayload inp) (sinSig inp)
        \<and> evPayload env (sinPayload inp) = Some p \<and> Validate p = None
        \<and> (IsRevocation p \<longrightarrow> (\<exists>t. GetSignature (pTargetID p) db = Inr t \<and> sgSigner t = userID))
        \<and> (sinPublic inp = Some False \<longrightarrow> (\<exists>v. ctx = Some v \<and> usID v = userID)))"
    (is "_ \<longleftrightarrow> ?accepted")
proof -
  have authed: "\<not> notAuthedAs ctx userID \<longleftrightarrow> (\<exists>v. ctx = Some v \<and> usID v = userID)"
    by (auto simp: notAuthedAs_def split: option.split)
  have "?accepted \<longleftrightarrow> (\<exists>u inp p. evSigInput env (rqBody r) = Some inp \<and> sigAccepted env ctx userID db u inp p)"
    unfolding sigAccepted_def uploadOk_def authed by blast
  then show ?thesis
    using CreateSignatureHandler_refuses[of env r ctx userID db now] CreateSignatureHandler_accepts[of env r _ ctx userID db]
    by (auto simp: refused_def)
qed

text \<open>A revoked signature can be brought back by anybody who has seen it: uploading the
  same payload with a line feed appended to the encoded signature, without any
  authentication, stores a second public row of the same signer with the same
  payload under a new id, whose signature verifies and which is not revoked.\<close>

theorem signature_reuploaded:
  fixes s :: signature
  defines "sig' \<equiv> sgSig s @ [char_of (10 :: nat)]"
  assumes ok: "dbOk env db" and s: "s \<in> set (dbSignatures db)" "sgSigner s \<noteq> []"
    and p: "evPayload env (sgPayload s) = Some p" "\<not> IsRevocation p"
    and fresh: "SignatureID (sha256 (evSchemes env)) (sgPayload s) sig' \<notin> insert [] (set (map sgID (dbSignatures db)))"
    and r: "rqMethod r = ''POST''" "rqPath r = [''v1'', ''users'', sgSigner s, ''signatures'']"
      "rqAuthorization r = []"
      "evSigInput env (rqBody r) = Some \<lparr>sinID = SignatureID (sha256 (evSchemes env)) (sgPayload s) sig',
         sinPayload = sgPayload s, sinAlgorithm = sgAlgorithm s, sinSig = sig', sinPublic = None\<rparr>"
  shows "rsStatus (fst (serve env authNow now r db)) = 201
     \<and> (\<exists>t\<in>set (dbSignatures (snd (serve env authNow now r db))). t \<notin> set (dbSignatures db)
          \<and> sgSigner t = sgSigner s \<and> sgPayload t = sgPayload s \<and> sgSig t = sig' \<and> sgPublic t \<and> \<not> sgRevoked t)"
proof -
  let ?inp = "\<lparr>sinID = SignatureID (sha256 (evSchemes env)) (sgPayload s) sig',
         sinPayload = sgPayload s, sinAlgorithm = sgAlgorithm s, sinSig = sig', sinPublic = None\<rparr>"
  obtain v where v: "v \<in> set (dbUsers db)" "usID v = sgSigner s" "uploadOk env v (sgID s) (sgPayload s) (sgSig s) p"
    using ok s(1) p(1) by (auto simp: dbOk_def sigRowOk_def uploadOk_def)
  let ?u = "v\<lparr>usIsAdmin := False\<rparr>"
  have u: "GetUser (sgSigner s) db = Inr ?u"
    using rowByKey_in[of usID "dbUsers db" v] ok v by (auto simp: GetUser_Inr dbOk_def)
  have "uploadOk env v (sinID ?inp) (sinPayload ?inp) (sinSig ?inp) p"
    using v(3) fresh by (auto simp: uploadOk_def verifiesFor_def sig'_def b64Decode_newline)
  then have acc: "sigAccepted env None (sgSigner s) db ?u ?inp p"
    using u p by (simp add: sigAccepted_def)
  have "serve env authNow now r db = (Response 201 (SigBody (uploadedSig now (sgSigner s) ?inp)),
      afterSig now (sgSigner s) ?inp p db)"
    using r s(2) CreateSignatureHandler_accepts[OF r(4) acc]
    by (simp add: serve_def methodMatches_def Authenticate_def signaturesPath_def userPath_def usersPath_def)
  moreover have "newSignatureRow (uploadedSig now (sgSigner s) ?inp)
      \<in> set (dbSignatures (afterSig now (sgSigner s) ?inp p db))"
    using p(2) fresh by (auto simp: afterSig_rows set_insertIgnore revIf_def image_iff)
  moreover have "newSignatureRow (uploadedSig now (sgSigner s) ?inp) \<notin> set (dbSignatures db)"
    using fresh by (auto simp: image_iff dest: arg_cong[where f = sgID])
  ultimately show ?thesis
    by (intro conjI bexI[of _ "newSignatureRow (uploadedSig now (sgSigner s) ?inp)"]) simp_all
qed

end
