(* ===== verification/Server_Examples.thy ===== *)
theory Server_Examples
  imports Server_Access
begin

text \<open>
  A small server at work: one account, a decision, its revocation and a connection are
  uploaded one after the other.  The theorems on the server are applied to it.
\<close>

section \<open>The environment\<close>

definition demoPub :: string where "demoPub = b64Encode ''key''"
definition demoSig :: "string \<Rightarrow> string" where "demoSig pl = b64Encode (''key'' @ pl)"
definition demoID :: "string \<Rightarrow> string \<Rightarrow> string" where "demoID pl sig = SignatureID (sha256 toySchemes) pl sig"

definition demoDecode :: "string \<Rightarrow> payload option" where
  "demoDecode s =
     (if s = ''D'' then Some (emptyPayload\<lparr>pType := ''decision'', pSigner := ''alice'', pEcosystem := ''go'',
         pPackageID := ''m'', pVersion := ''v1'', pLevel := ''vetted''\<rparr>)
      else if s = ''R'' then Some (emptyPayload\<lparr>pType := ''revocation'', pSigner := ''alice'',
         pTargetID := demoID ''D'' (demoSig ''D'')\<rparr>)
      else if s = ''C'' then Some (emptyPayload\<lparr>pType := ''connection'', pSigner := ''alice'',
         pOtherID := ''bob'', pPublic := True\<rparr>)
      else None)"

text \<open>A body names the payload to upload; ''D2'' is the decision with the altered signature.\<close>

definition demoBody :: "string \<Rightarrow> sigInput option" where
  "demoBody b =
     (if b = ''D'' \<or> b = ''R'' then Some \<lparr>sinID = demoID b (demoSig b), sinPayload = b,
         sinAlgorithm = ''slh'', sinSig = demoSig b, sinPublic = None\<rparr>
      else if b = ''D2'' then Some \<lparr>sinID = demoID ''D'' (demoSig ''D'' @ [char_of (10 :: nat)]), sinPayload = ''D'',
         sinAlgorithm = ''slh'', sinSig = demoSig ''D'' @ [char_of (10 :: nat)], sinPublic = None\<rparr>
      else None)"

definition demoEnv :: env where
  "demoEnv = \<lparr>evSchemes = toySchemes, evPublicURL = ''https://t'', evTime = (\<lambda>_. None), evPayload = demoDecode,
     evEnvelope = (\<lambda>_. None), evToken = (\<lambda>_. None),
     evConnInput = (\<lambda>b. if b = ''C'' then Some \<lparr>ciID = demoID ''C'' (demoSig ''C''), ciPayload = ''C'',
         ciAlgorithm = ''slh'', ciSig = demoSig ''C''\<rparr> else None),
     evSigInput = demoBody,
     evUserInput = (\<lambda>b. Some \<lparr>uinID = ''alice'', uinUsername = ''alice'', uinPubKey = demoPub,
         uinAlgorithm = ''slh-dsa-shake-128s''\<rparr>)\<rparr>"

definition demoUser :: user where
  "demoUser = \<lparr>usID = ''alice'', usUsername = ''alice'', usPubKey = demoPub, usAlgorithm = ''slh-dsa-shake-128s'',
     usIsAdmin = False\<rparr>"

definition demoPost :: "string list \<Rightarrow> string \<Rightarrow> request" where
  "demoPost path b = \<lparr>rqMethod = ''POST'', rqPath = path, rqAuthorization = [], rqSince = [], rqBody = b\<rparr>"

definition demoGet :: "string list \<Rightarrow> request" where
  "demoGet path = \<lparr>rqMethod = ''GET'', rqPath = path, rqAuthorization = [], rqSince = [], rqBody = []\<rparr>"

abbreviation alicePath :: "string \<Rightarrow> string list" where
  "alicePath tail \<equiv> [''v1'', ''users'', ''alice'', tail]"

definition demoEvent :: "request \<Rightarrow> event" where
  "demoEvent r = \<lparr>evtAuthNow = 0, evtNow = 0, evtRequest = r\<rparr>"

text \<open>The databases the requests lead through.\<close>

definition db1 :: serverDb where "db1 = emptyDb\<lparr>dbUsers := [demoUser]\<rparr>"

definition demoRow :: "string \<Rightarrow> signature" where
  "demoRow b = \<lparr>sgID = demoID b (demoSig b), sgSigner = ''alice'', sgPayload = b, sgAlgorithm = ''slh'',
     sgSig = demoSig b, sgUploadedAt = 0, sgRevoked = False, sgRevokedAt = None, sgPublic = True\<rparr>"

definition db2 :: serverDb where "db2 = db1\<lparr>dbSignatures := [demoRow ''D'']\<rparr>"

definition db3 :: serverDb where
  "db3 = db1\<lparr>dbSignatures := [(demoRow ''D'')\<lparr>sgRevoked := True, sgRevokedAt := Some 0\<rparr>, demoRow ''R'']\<rparr>"

definition demoConn :: connection where
  "demoConn = \<lparr>cnID = demoID ''C'' (demoSig ''C''), cnOwner = ''alice'', cnOtherID = ''bob'', cnPublic = True,
     cnTrust = False, cnTrustExtends = 0, cnPayload = ''C'', cnAlgorithm = ''slh'', cnSig = demoSig ''C'',
     cnCreatedAt = 0, cnRevoked = False, cnRevokedAt = None\<rparr>"

definition db4 :: serverDb where "db4 = db3\<lparr>dbConnections := [demoConn]\<rparr>"

section \<open>Its requests\<close>

lemma demoID_nonempty [simp]: "demoID pl sig \<noteq> []"
proof -
  have "length (sha256 toySchemes (sigFrame pl sig)) \<ge> 8" by (simp add: toySchemes_def sigFrame_def)
  then have "sha256 toySchemes (sigFrame pl sig) \<noteq> []" by auto
  then show ?thesis by (auto simp: demoID_def SignatureID_def hexEncode_def)
qed

text \<open>Ids of payloads of one byte differ when the payloads differ.\<close>

lemma demoID_inj: "demoID [a] s = demoID [b] t \<Longrightarrow> a = b"
proof -
  assume "demoID [a] s = demoID [b] t"
  then have "take 32 (sigFrame [a] s) = take 32 (sigFrame [b] t)"
    by (auto simp: demoID_def SignatureID_def toySchemes_def dest: hexEncode_inj)
  then have "take 32 (sigFrame [a] s) ! 8 = take 32 (sigFrame [b] t) ! 8" by simp
  then show "a = b" by (simp add: sigFrame_def nth_append)
qed

lemma demo_verifies: "verifiesFor toySchemes demoUser pl (demoSig pl)"
  by (simp add: verifiesFor_def user_Verifier_def demoUser_def demoPub_def demoSig_def b64Decode_Encode
      NewVerifier_def newSLHDSAVerifier_def toySchemes_def)

lemma demo_GetUser: "dbUsers db = [demoUser] \<Longrightarrow> GetUser ''alice'' db = Inr demoUser"
  by (simp add: GetUser_def rowByKey_def demoUser_def)

lemma demoEnv_simps [simp]:
  "evSchemes demoEnv = toySchemes" "evPayload demoEnv = demoDecode" "evSigInput demoEnv = demoBody"
  by (simp_all add: demoEnv_def)

lemma demo_uploadOk:
  "demoDecode pl = Some p \<Longrightarrow> Validate p = None \<Longrightarrow> uploadOk demoEnv demoUser (demoID pl (demoSig pl)) pl (demoSig pl) p"
  by (simp add: uploadOk_def demo_verifies demoID_def[symmetric])

lemma serve_signature:
  "evSigInput env b = Some inp \<Longrightarrow> i \<noteq> [] \<Longrightarrow> sigAccepted env None i db u inp p \<Longrightarrow>
   serve env ta tn (demoPost [''v1'', ''users'', i, ''signatures''] b) db =
     (Response 201 (SigBody (uploadedSig tn i inp)), afterSig tn i inp p db)"
  using CreateSignatureHandler_accepts[of env "demoPost [''v1'', ''users'', i, ''signatures''] b"]
  by (simp add: serve_def methodMatches_def Authenticate_def signaturesPath_def userPath_def usersPath_def demoPost_def)

lemma event1: "serveEvent demoEnv emptyDb (demoEvent (demoPost [''v1'', ''users''] [])) = db1"
  by (simp add: serveEvent_def demoEvent_def serve_def methodMatches_def usersPath_def demoPost_def
      CreateUserHandler_def demoEnv_def CreateUser_def emptyDb_def db1_def demoUser_def Let_def)

lemma event2: "serveEvent demoEnv db1 (demoEvent (demoPost (alicePath ''signatures'') ''D'')) = db2"
proof -
  obtain p where p: "demoDecode ''D'' = Some p" "Validate p = None" "\<not> IsRevocation p"
    by (simp add: demoDecode_def Validate_def validLevels_def IsRevocation_def emptyPayload_def)
  have "sigAccepted demoEnv None ''alice'' db1 demoUser (the (demoBody ''D'')) p"
    using p demo_uploadOk[OF p(1,2)] by (simp add: sigAccepted_def demo_GetUser db1_def demoBody_def)
  then have "serveEvent demoEnv db1 (demoEvent (demoPost (alicePath ''signatures'') ''D''))
      = afterSig 0 ''alice'' (the (demoBody ''D'')) p db1"
    by (simp add: serveEvent_def demoEvent_def serve_signature demoBody_def)
  also have "\<dots> = db2"
    using p(3) by (simp add: afterSig_def CreateSignature_def insertIgnore_def db1_def db2_def emptyDb_def
        newSignatureRow_def uploadedSig_def demoBody_def demoRow_def cutToSecond_def)
  finally show ?thesis .
qed

lemma event3: "serveEvent demoEnv db2 (demoEvent (demoPost (alicePath ''signatures'') ''R'')) = db3"
proof -
  obtain p where p: "demoDecode ''R'' = Some p" "Validate p = None" "IsRevocation p"
      "pTargetID p = demoID ''D'' (demoSig ''D'')"
    by (simp add: demoDecode_def Validate_def IsRevocation_def emptyPayload_def)
  have ne: "demoID ''D'' (demoSig ''D'') \<noteq> demoID ''R'' (demoSig ''R'')"
    using demoID_inj by blast
  have "sigAccepted demoEnv None ''alice'' db2 demoUser (the (demoBody ''R'')) p"
    using p demo_uploadOk[OF p(1,2)]
    by (simp add: sigAccepted_def demo_GetUser db1_def db2_def demoBody_def GetSignature_def rowByKey_def demoRow_def)
  then have "serveEvent demoEnv db2 (demoEvent (demoPost (alicePath ''signatures'') ''R''))
      = afterSig 0 ''alice'' (the (demoBody ''R'')) p db2"
    by (simp add: serveEvent_def demoEvent_def serve_signature demoBody_def)
  also have "\<dots> = db3"
    using p(3,4) ne by (simp add: afterSig_def Let_def CreateSignature_def RevokeSignature_def insertIgnore_def db1_def
        db2_def db3_def emptyDb_def newSignatureRow_def uploadedSig_def demoBody_def demoRow_def cutToSecond_def)
  finally show ?thesis .
qed

lemma event4: "serveEvent demoEnv db3 (demoEvent (demoPost (alicePath ''connections'') ''C'')) = db4"
proof -
  obtain p where p: "demoDecode ''C'' = Some p" "Validate p = None" "pType p = ''connection''" "pSigner p = ''alice''"
      "pOtherID p = ''bob''" "pPublic p" "\<not> pTrust p" "pTrustExtends p = 0"
    by (simp add: demoDecode_def Validate_def emptyPayload_def)
  obtain v b where v: "user_Verifier toySchemes demoUser = Inr v" "b64Decode (demoSig ''C'') = Some b"
      "verifierVerify toySchemes v ''C'' b"
    using demo_verifies[of "''C''"] by (auto simp: verifiesFor_def)
  with p v show ?thesis
    by (simp add: serveEvent_def demoEvent_def serve_def methodMatches_def connectionsPath_def signaturesPath_def
        userPath_def usersPath_def demoPost_def Authenticate_def CreateConnectionHandler_def demo_GetUser db3_def db1_def
        demoEnv_def demoID_def[symmetric] ParsePayload_def CreateConnection_def insertIgnore_def
        newConnectionRow_def cutToSecond_def zeroTime_def second_def db4_def demoConn_def emptyDb_def Let_def)
qed

definition demoEvents :: "event list" where
  "demoEvents = [demoEvent (demoPost [''v1'', ''users''] []), demoEvent (demoPost (alicePath ''signatures'') ''D''),
     demoEvent (demoPost (alicePath ''signatures'') ''R''), demoEvent (demoPost (alicePath ''connections'') ''C'')]"

lemma served_append: "served env evs db \<Longrightarrow> serveEvent env db e = db' \<Longrightarrow> served env (evs @ [e]) db'"
  by (auto simp: serveEvent_def intro: served_step)

lemma demo_served: "served demoEnv demoEvents db4"
  using served_append[OF served_append[OF served_append[OF served_append[OF served_init event1] event2] event3] event4]
  by (simp add: demoEvents_def)

section \<open>The theorems at work\<close>

lemma failed_request_keeps_db_witness:
  "rqMethod (demoPost [''v1'', ''users''] []) = ''POST''
   \<and> rsStatus (fst (serve demoEnv 0 0 (demoPost [''v1'', ''users''] []) emptyDb)) \<in> {201, 204}"
  by (rule failed_request_keeps_db)
     (use event1 in \<open>simp add: serveEvent_def demoEvent_def db1_def emptyDb_def\<close>)

lemma served_dbOk_witness: "dbOk demoEnv db4"
  by (rule served_dbOk[OF demo_served])

lemma owner_revokes_witness: "revocationsExplained demoEnv demoEvents db4"
  by (rule owner_revokes[OF demo_served])

lemma signature_rows_permanent_witness:
  "\<exists>s'. rowByKey sgID (demoID ''D'' (demoSig ''D'')) (dbSignatures (foldl (serveEvent demoEnv) db2
        [demoEvent (demoPost (alicePath ''signatures'') ''R'')])) = Some s'
     \<and> s' = (demoRow ''D'')\<lparr>sgRevoked := sgRevoked s', sgRevokedAt := sgRevokedAt s'\<rparr>"
proof -
  have "rowByKey sgID (demoID ''D'' (demoSig ''D'')) (dbSignatures db2) = Some (demoRow ''D'')"
    by (simp add: db2_def rowByKey_def demoRow_def)
  from signature_rows_permanent[OF this, of demoEnv "[demoEvent (demoPost (alicePath ''signatures'') ''R'')]"]
  show ?thesis by blast
qed

lemma demo_no_token: "\<not> tokenFor env [] u t"
  by (simp add: tokenFor_def authScheme_def)

lemma private_rows_hidden_witness:
  "fst (serve demoEnv 0 0 (demoGet (alicePath ''signatures'')) db4)
   = fst (serve demoEnv 0 0 (demoGet (alicePath ''signatures'')) (publicDb db4))"
  by (rule private_rows_hidden) (simp_all add: demoGet_def demo_no_token)

lemma connection_revocations_unpublished_witness:
  "\<exists>p. evPayload demoEnv (cnPayload demoConn) = Some p \<and> pType p = PayloadTypeConnection"
proof -
  have "fst (serve demoEnv 0 0 (demoGet (alicePath ''connections'')) db4) = Response 200 (ConnsBody [demoConn])"
    by (simp add: serve_def methodMatches_def connectionsPath_def signaturesPath_def userPath_def usersPath_def
        demoGet_def Authenticate_def GetUserConnectionsHandler_def GetUserPublicConnections_def notAuthedAs_def
        db4_def demoConn_def Let_def)
  from connection_revocations_unpublished[OF demo_served this, of demoConn] show ?thesis by simp
qed

lemma demoSig_length: "length (demoSig ''D'') = 6"
  by (simp add: demoSig_def b64Encode_def)

lemma signature_reuploaded_witness:
  "rsStatus (fst (serve demoEnv 0 0 (demoPost (alicePath ''signatures'') ''D2'') db4)) = 201
     \<and> (\<exists>t\<in>set (dbSignatures (snd (serve demoEnv 0 0 (demoPost (alicePath ''signatures'') ''D2'') db4))).
          t \<notin> set (dbSignatures db4) \<and> sgSigner t = ''alice'' \<and> sgPayload t = ''D''
          \<and> sgSig t = demoSig ''D'' @ [char_of (10 :: nat)] \<and> sgPublic t \<and> \<not> sgRevoked t)"
proof -
  let ?s = "(demoRow ''D'')\<lparr>sgRevoked := True, sgRevokedAt := Some 0\<rparr>"
  have "demoID ''D'' (demoSig ''D'' @ [char_of (10 :: nat)]) \<noteq> demoID ''D'' (demoSig ''D'')"
  proof
    assume "demoID ''D'' (demoSig ''D'' @ [char_of (10 :: nat)]) = demoID ''D'' (demoSig ''D'')"
    then have "take 32 (sigFrame ''D'' (demoSig ''D'' @ [char_of (10 :: nat)])) = take 32 (sigFrame ''D'' (demoSig ''D''))"
      by (auto simp: demoID_def SignatureID_def toySchemes_def dest: hexEncode_inj)
    then show False by (auto simp: sigFrame_def demoSig_length dest: arg_cong[where f = length])
  qed
  moreover have "demoID ''D'' (demoSig ''D'' @ [char_of (10 :: nat)]) \<noteq> demoID ''R'' (demoSig ''R'')"
    using demoID_inj by blast
  ultimately show ?thesis
    using signature_reuploaded[OF served_dbOk'[OF demo_served], of ?s "the (demoDecode ''D'')"
        "demoPost (alicePath ''signatures'') ''D2''" 0 0]
    by (simp add: demoRow_def db4_def db3_def demoDecode_def IsRevocation_def emptyPayload_def demoPost_def demoBody_def
        demoID_def[symmetric])
qed

lemma upload_accepted_iff_witness:
  "rsStatus (fst (CreateSignatureHandler demoEnv 0 ''alice'' None (demoPost (alicePath ''signatures'') ''D'') db1)) = 201"
proof -
  obtain p where p: "demoDecode ''D'' = Some p" "Validate p = None" "\<not> IsRevocation p"
    by (simp add: demoDecode_def Validate_def validLevels_def IsRevocation_def emptyPayload_def)
  show ?thesis
    unfolding upload_accepted_iff
    by (intro exI[of _ demoUser] exI[of _ "the (demoBody ''D'')"] exI[of _ p])
       (use p in \<open>simp add: demo_GetUser db1_def demoBody_def demoPost_def demo_verifies demoID_def[symmetric]\<close>)
qed

end
