(* ===== verification/Field_Encoding.thy ===== *)
theory Field_Encoding
  imports Models
begin

text \<open>
  A small self-delimiting encoding of strings, numbers and flags.  It stands in for
  JSON where a theorem on the program is applied to a concrete encoder and decoder:
  what was written is read back, and what follows is left over.
\<close>

fun encF :: "string \<Rightarrow> string" where
  "encF [] = ''e''"
| "encF (c # s) = CHR ''x'' # c # encF s"

fun decF :: "string \<Rightarrow> (string \<times> string) option" where
  "decF [] = None"
| "decF [c] = (if c = CHR ''e'' then Some ([], []) else None)"
| "decF (a # c # r) = (if a = CHR ''e'' then Some ([], c # r)
     else if a = CHR ''x'' then map_option (\<lambda>(s, t). (c # s, t)) (decF r) else None)"

definition encInt :: "int \<Rightarrow> string" where
  "encInt i = encF ((if i < 0 then CHR ''-'' else CHR ''+'') # replicate (nat \<bar>i\<bar>) CHR ''1'')"

definition decInt :: "string \<Rightarrow> (int \<times> string) option" where
  "decInt r = (case decF r of Some (c # s, t) \<Rightarrow> Some (if c = CHR ''-'' then - int (length s) else int (length s), t)
     | _ \<Rightarrow> None)"

definition encBool :: "bool \<Rightarrow> string" where
  "encBool b = encF (if b then ''t'' else [])"

definition decBool :: "string \<Rightarrow> (bool \<times> string) option" where
  "decBool r = map_option (\<lambda>(s, t). (s \<noteq> [], t)) (decF r)"

lemma decF_encF [simp]: "decF (encF s @ r) = Some (s, r)"
proof (induction s)
  case Nil
  then show ?case by (cases r) auto
qed auto

lemma decInt_encInt [simp]: "decInt (encInt i @ r) = Some (i, r)"
  by (simp add: decInt_def encInt_def)

lemma decBool_encBool [simp]: "decBool (encBool b @ r) = Some (b, r)"
  by (simp add: decBool_def encBool_def)

text \<open>The last field of a record.\<close>

lemma decF_last [simp]: "decF (encF s) = Some (s, [])"
  using decF_encF[of s "[]"] by simp

lemma decInt_last [simp]: "decInt (encInt i) = Some (i, [])"
  using decInt_encInt[of i "[]"] by simp

lemma decBool_last [simp]: "decBool (encBool b) = Some (b, [])"
  using decBool_encBool[of b "[]"] by simp

section \<open>Payloads\<close>

definition encPayload :: "payload \<Rightarrow> string" where
  "encPayload p = encF (pType p) @ encF (pTargetID p) @ encF (pSigner p) @ encF (pEcosystem p) @ encF (pPackageID p)
     @ encF (pLevel p) @ encF (pReason p) @ encF (pVersion p) @ encF (pFromVersion p) @ encF (pToVersion p)
     @ encF (pOtherID p) @ encBool (pPublic p) @ encBool (pTrust p) @ encInt (pTrustExtends p)"

definition decPayloadFields :: "string \<Rightarrow> payload option" where
  "decPayloadFields s0 =
     (case decF s0 of None \<Rightarrow> None | Some (ty, s1) \<Rightarrow>
     (case decF s1 of None \<Rightarrow> None | Some (ta, s2) \<Rightarrow>
     (case decF s2 of None \<Rightarrow> None | Some (si, s3) \<Rightarrow>
     (case decF s3 of None \<Rightarrow> None | Some (ec, s4) \<Rightarrow>
     (case decF s4 of None \<Rightarrow> None | Some (pk, s5) \<Rightarrow>
     (case decF s5 of None \<Rightarrow> None | Some (le, s6) \<Rightarrow>
     (case decF s6 of None \<Rightarrow> None | Some (re, s7) \<Rightarrow>
     (case decF s7 of None \<Rightarrow> None | Some (ve, s8) \<Rightarrow>
     (case decF s8 of None \<Rightarrow> None | Some (fv, s9) \<Rightarrow>
     (case decF s9 of None \<Rightarrow> None | Some (tv, s10) \<Rightarrow>
     (case decF s10 of None \<Rightarrow> None | Some (oi, s11) \<Rightarrow>
     (case decBool s11 of None \<Rightarrow> None | Some (pu, s12) \<Rightarrow>
     (case decBool s12 of None \<Rightarrow> None | Some (tr, s13) \<Rightarrow>
     (case decInt s13 of None \<Rightarrow> None | Some (te, s14) \<Rightarrow>
       Some \<lparr>pType = ty, pSigner = si, pEcosystem = ec, pPackageID = pk, pLevel = le, pReason = re,
         pTargetID = ta, pVersion = ve, pFromVersion = fv, pToVersion = tv, pOtherID = oi, pPublic = pu,
         pTrust = tr, pTrustExtends = te\<rparr>))))))))))))))"

lemma decPayloadFields_encPayload [simp]: "decPayloadFields (encPayload p) = Some p"
  by (simp add: decPayloadFields_def encPayload_def)

definition decRefFields :: "string \<Rightarrow> (string \<times> string) option" where
  "decRefFields s0 = (case decF s0 of None \<Rightarrow> None | Some (ty, s1) \<Rightarrow>
     (case decF s1 of None \<Rightarrow> None | Some (ta, _) \<Rightarrow> Some (ty, ta)))"

definition decTypeField :: "string \<Rightarrow> string option" where
  "decTypeField s0 = map_option fst (decF s0)"

end
