(* ===== verification/Cli_Keys.thy ===== *)
theory Cli_Keys
  imports Local_Store Tillit_Crypto Field_Encoding
begin

text \<open>
  Keys of the command line client: the password envelope of \<open>crypto/keypassphrase.go\<close>,
  the prompts of \<open>passprompt.go\<close>, the key commands of \<open>key.go\<close> and \<open>init.go\<close>, and the
  two ways of \<open>store.go\<close> to find out who the user is.  The key derivation, the
  cipher and the JSON form of the envelope are arguments; what a prompt returns is
  an argument of the command, \<open>None\<close> when reading fails.
\<close>

section \<open>Errors of the client\<close>

datatype keyError =
    EmptyPassword | NotAnEnvelope | UnsupportedVersion int | UnsupportedKDF string | UnsupportedAEAD string
  | BadSalt | BadNonce | BadCiphertext | WrongPassword | LibraryPanic

datatype cliError =
    Usage string
  | UnknownFlag string
  | MissingValue string
  | NoActiveKeySet
  | StoreErr storeError
  | PasswordUnread
  | PasswordsDiffer
  | KeyErr keyError
  | BadPrivateKey
  | BadPublicKey
  | SchemeErr cryptoError
  | InvalidPayload payloadError
  | Aborted
  | RequestFailed
  | ServerReturned nat
  | HashMismatch string string
  | AdapterErr string
  | WrongOrder string string
  | AlreadyPushed string
  | UnsupportedFormat int
  | NilPointer
  | WriteFailed

definition liftStore :: "storeError + 'a \<Rightarrow> cliError + 'a" where
  "liftStore r = (case r of Inl e \<Rightarrow> Inl (StoreErr e) | Inr x \<Rightarrow> Inr x)"

lemma liftStore_simps [simp]: "liftStore (Inl e) = Inl (StoreErr e)" "liftStore (Inr x) = Inr x"
  by (simp_all add: liftStore_def)

lemma liftStore_Inr [simp]: "liftStore r = Inr x \<longleftrightarrow> r = Inr x"
  by (cases r) simp_all

section \<open>The password envelope\<close>

definition keyEnvelopeVersion :: int where "keyEnvelopeVersion = 1"
definition argonMemoryKiB :: nat where "argonMemoryKiB = 64 * 1024"
definition argonIterations :: nat where "argonIterations = 3"
definition argonParallel :: nat where "argonParallel = 2"
definition argonKeyLen :: nat where "argonKeyLen = 32"
definition saltLen :: nat where "saltLen = 16"

record keyEnvelope =
  kvVersion :: int
  kvKDF :: string
  kvM :: nat
  kvT :: nat
  kvP :: nat
  kvAEAD :: string
  kvSalt :: string
  kvNonce :: string
  kvCiphertext :: string

text \<open>The libraries: \<open>argonIDKey password salt time memory threads keyLen\<close> (\<open>None\<close> when it panics on
  its parameters), \<open>gcm.Seal\<close> and \<open>gcm.Open\<close> under a key, and the JSON form of an envelope.\<close>

record sealing =
  argonIDKey :: "string \<Rightarrow> string \<Rightarrow> nat \<Rightarrow> nat \<Rightarrow> nat \<Rightarrow> nat \<Rightarrow> string option"
  gcmSeal :: "string \<Rightarrow> string \<Rightarrow> string \<Rightarrow> string"
  gcmOpen :: "string \<Rightarrow> string \<Rightarrow> string \<Rightarrow> string option"
  marshalEnvelope :: "keyEnvelope \<Rightarrow> string"
  unmarshalEnvelope :: "string \<Rightarrow> keyEnvelope option"

definition gcmNonceSize :: nat where "gcmNonceSize = 12"

text \<open>\<open>salt\<close> and \<open>nonce\<close> are the random bytes drawn.\<close>

definition EncryptKey :: "sealing \<Rightarrow> string \<Rightarrow> string \<Rightarrow> string \<Rightarrow> string \<Rightarrow> keyError + string" where
  "EncryptKey sl salt nonce plain password =
     (if length password = 0 then Inl EmptyPassword
      else case argonIDKey sl password salt argonIterations argonMemoryKiB argonParallel argonKeyLen of
        None \<Rightarrow> Inl LibraryPanic
      | Some dk \<Rightarrow>
          (let ct = gcmSeal sl dk nonce plain in
           Inr (marshalEnvelope sl \<lparr>kvVersion = keyEnvelopeVersion, kvKDF = ''argon2id'', kvM = argonMemoryKiB,
              kvT = argonIterations, kvP = argonParallel, kvAEAD = ''aes-256-gcm'', kvSalt = b64Encode salt,
              kvNonce = b64Encode nonce, kvCiphertext = b64Encode ct\<rparr>)))"

text \<open>\<open>gcm.Open\<close> panics on a nonce of the wrong length.\<close>

definition DecryptKey :: "sealing \<Rightarrow> string \<Rightarrow> string \<Rightarrow> keyError + string" where
  "DecryptKey sl envelope password =
     (case unmarshalEnvelope sl envelope of
        None \<Rightarrow> Inl NotAnEnvelope
      | Some e \<Rightarrow>
          if kvVersion e \<noteq> keyEnvelopeVersion then Inl (UnsupportedVersion (kvVersion e))
          else if kvKDF e \<noteq> ''argon2id'' then Inl (UnsupportedKDF (kvKDF e))
          else if kvAEAD e \<noteq> ''aes-256-gcm'' then Inl (UnsupportedAEAD (kvAEAD e))
          else (case b64Decode (kvSalt e) of
            None \<Rightarrow> Inl BadSalt
          | Some salt \<Rightarrow> (case b64Decode (kvNonce e) of
              None \<Rightarrow> Inl BadNonce
            | Some nonce \<Rightarrow> (case b64Decode (kvCiphertext e) of
                None \<Rightarrow> Inl BadCiphertext
              | Some ct \<Rightarrow> (case argonIDKey sl password salt (kvT e) (kvM e) (kvP e) argonKeyLen of
                  None \<Rightarrow> Inl LibraryPanic
                | Some dk \<Rightarrow>
                    if length nonce \<noteq> gcmNonceSize then Inl LibraryPanic
                    else (case gcmOpen sl dk nonce ct of
                      None \<Rightarrow> Inl WrongPassword
                    | Some plain \<Rightarrow> Inr plain))))))"

fun IsEncryptedKey :: "string \<Rightarrow> bool" where
  "IsEncryptedKey [] = False"
| "IsEncryptedKey (b # raw) =
     (if byte b = 32 \<or> byte b = 9 \<or> byte b = 10 \<or> byte b = 13 then IsEncryptedKey raw else byte b = 123)"

section \<open>Prompts\<close>

text \<open>\<open>bytes.TrimRight(pw, "\r\n")\<close>.\<close>

definition trimCRLF :: "string \<Rightarrow> string" where
  "trimCRLF s = rev (dropWhile (\<lambda>c. byte c = 13 \<or> byte c = 10) (rev s))"

definition promptPassword :: "string option \<Rightarrow> cliError + string" where
  "promptPassword input = (case input of None \<Rightarrow> Inl PasswordUnread | Some pw \<Rightarrow> Inr (trimCRLF pw))"

definition promptPasswordTwice :: "string option \<Rightarrow> string option \<Rightarrow> cliError + string" where
  "promptPasswordTwice first again = bindE (promptPassword first) (\<lambda>a. bindE (promptPassword again) (\<lambda>b.
     if a \<noteq> b then Inl PasswordsDiffer else Inr a))"

definition promptLine :: "string option \<Rightarrow> cliError + string" where
  "promptLine input = (case input of None \<Rightarrow> Inl PasswordUnread | Some l \<Rightarrow> Inr (trimCRLF l))"

section \<open>Stored keys\<close>

text \<open>Randomness and prompts of one command.\<close>

record keyIO =
  kiSalt :: string
  kiNonce :: string
  kiCurrent :: "string option"
  kiNew :: "string option"
  kiAgain :: "string option"

definition encodePrivKeyField :: "sealing \<Rightarrow> keyIO \<Rightarrow> string \<Rightarrow> string \<Rightarrow> cliError + string" where
  "encodePrivKeyField sl io privBytes password =
     (if length password = 0 then Inr (b64Encode privBytes)
      else (case EncryptKey sl (kiSalt io) (kiNonce io) privBytes password of
        Inl e \<Rightarrow> Inl (KeyErr e)
      | Inr envelope \<Rightarrow> Inr envelope))"

fun signerPrivateKey :: "signer \<Rightarrow> string" where
  "signerPrivateKey (Ed25519Signer priv) = priv"
| "signerPrivateKey (SLHDSASigner priv) = priv"

definition buildStoredKey :: "schemes \<Rightarrow> sealing \<Rightarrow> keyIO \<Rightarrow> string \<Rightarrow> signer \<Rightarrow> cliError + key" where
  "buildStoredKey sch sl io name sg =
     bindE (promptPasswordTwice (kiNew io) (kiAgain io)) (\<lambda>pwd.
     bindE (encodePrivKeyField sl io (signerPrivateKey sg) pwd) (\<lambda>privField.
       Inr \<lparr>kyName = name, kyAlgorithm = signerAlgorithm sg, kyPubKey = b64Encode (signerPublicKey sch sg),
            kyPrivKey = privField\<rparr>))"

definition decodePrivateKey :: "sealing \<Rightarrow> keyIO \<Rightarrow> key \<Rightarrow> cliError + string" where
  "decodePrivateKey sl io k =
     (if IsEncryptedKey (kyPrivKey k) then
        bindE (promptPassword (kiCurrent io)) (\<lambda>password.
          case DecryptKey sl (kyPrivKey k) password of Inl e \<Rightarrow> Inl (KeyErr e) | Inr plain \<Rightarrow> Inr plain)
      else (case b64Decode (kyPrivKey k) of None \<Rightarrow> Inl BadPrivateKey | Some priv \<Rightarrow> Inr priv))"

section \<open>Who the user is\<close>

definition userIDOf :: "schemes \<Rightarrow> string \<Rightarrow> string" where
  "userIDOf sch pubBytes = b64Encode (sha256 sch pubBytes)"

definition activeSignerAndID :: "schemes \<Rightarrow> sealing \<Rightarrow> keyIO \<Rightarrow> store \<Rightarrow> cliError + signer \<times> string" where
  "activeSignerAndID sch sl io s =
     (case GetActiveKey s of
        Inl _ \<Rightarrow> Inl NoActiveKeySet
      | Inr keyName \<Rightarrow> bindE (liftStore (GetKey keyName s)) (\<lambda>k. bindE (decodePrivateKey sl io k) (\<lambda>privBytes.
          case LoadSigner sch (kyAlgorithm k) privBytes of
            Inl e \<Rightarrow> Inl (SchemeErr e)
          | Inr sg \<Rightarrow> Inr (sg, userIDOf sch (signerPublicKey sch sg)))))"

definition activeUserID :: "schemes \<Rightarrow> store \<Rightarrow> cliError + string" where
  "activeUserID sch s =
     (case GetActiveKey s of
        Inl _ \<Rightarrow> Inl NoActiveKeySet
      | Inr keyName \<Rightarrow> bindE (liftStore (GetKey keyName s)) (\<lambda>k.
          case b64Decode (kyPubKey k) of
            None \<Rightarrow> Inl BadPublicKey
          | Some pubBytes \<Rightarrow> Inr (userIDOf sch pubBytes)))"

section \<open>The key commands\<close>

definition keyGenerate ::
  "schemes \<Rightarrow> sealing \<Rightarrow> keyDraws \<Rightarrow> keyIO \<Rightarrow> string list \<Rightarrow> store \<Rightarrow> cliError + store" where
  "keyGenerate sch sl draws io args s =
     (case args of
        [] \<Rightarrow> Inl (Usage ''tillit key generate <name> [ed25519|slh-dsa-shake-128s]'')
      | name # rest \<Rightarrow>
          (let algorithm = (case rest of [] \<Rightarrow> ''ed25519'' | a # _ \<Rightarrow> a) in
           case NewSigner draws algorithm of
             Inl e \<Rightarrow> Inl (SchemeErr e)
           | Inr sg \<Rightarrow> bindE (buildStoredKey sch sl io name sg) (\<lambda>k. Inr (SaveKey k s))))"

definition InitCmd :: "schemes \<Rightarrow> sealing \<Rightarrow> keyDraws \<Rightarrow> keyIO \<Rightarrow> store \<Rightarrow> cliError + store" where
  "InitCmd sch sl draws io s =
     (case GetKey ''default'' s of
        Inr _ \<Rightarrow> Inr s
      | Inl _ \<Rightarrow> (case NewEd25519Signer draws of
          Inl e \<Rightarrow> Inl (SchemeErr e)
        | Inr sg \<Rightarrow> bindE (buildStoredKey sch sl io ''default'' sg) (\<lambda>k.
            Inr (SetActiveKey ''default'' (SaveKey k s)))))"

text \<open>\<open>active, _ := s.GetActiveKey()\<close>: the error is dropped, the name is then empty.\<close>

definition activeNameOf :: "store \<Rightarrow> string" where
  "activeNameOf s = (case GetActiveKey s of Inl _ \<Rightarrow> [] | Inr n \<Rightarrow> n)"

definition runKeyRemove :: "string option \<Rightarrow> string \<Rightarrow> store \<Rightarrow> cliError + store" where
  "runKeyRemove typed name s =
     bindE (liftStore (GetKey name s)) (\<lambda>k.
       (let isActive = (activeNameOf s = kyName k) in
        bindE (promptLine typed) (\<lambda>confirm.
          if confirm \<noteq> kyName k then Inl Aborted
          else bindE (liftStore (DeleteKey (kyName k) s)) (\<lambda>s'.
            Inr (if isActive then ClearActiveKey s' else s')))))"

definition keyPasswd :: "sealing \<Rightarrow> keyIO \<Rightarrow> string list \<Rightarrow> store \<Rightarrow> cliError + store" where
  "keyPasswd sl io args s =
     (if length args \<noteq> 1 then Inl (Usage ''tillit key passwd <name>'')
      else bindE (liftStore (GetKey (hd args) s)) (\<lambda>k. bindE (decodePrivateKey sl io k) (\<lambda>plain.
        bindE (promptPasswordTwice (kiNew io) (kiAgain io)) (\<lambda>newPwd.
        bindE (encodePrivKeyField sl io plain newPwd) (\<lambda>encoded.
          Inr (SaveKey (k\<lparr>kyPrivKey := encoded\<rparr>) s))))))"

definition keyUse :: "string list \<Rightarrow> store \<Rightarrow> cliError + store" where
  "keyUse args s =
     (case args of
        [] \<Rightarrow> Inl (Usage ''tillit key use <name>'')
      | name # _ \<Rightarrow> (case GetKey name s of
          Inl e \<Rightarrow> Inl (StoreErr e)
        | Inr _ \<Rightarrow> Inr (SetActiveKey name s)))"

section \<open>What is stored can be read back\<close>

text \<open>A cipher that opens what it sealed, and an envelope that decodes to itself and opens
  with a brace, as a JSON object does.\<close>

definition sealing_ok :: "sealing \<Rightarrow> bool" where
  "sealing_ok sl \<longleftrightarrow>
     (\<forall>pw salt. argonIDKey sl pw salt argonIterations argonMemoryKiB argonParallel argonKeyLen \<noteq> None)
     \<and> (\<forall>dk nonce plain. gcmOpen sl dk nonce (gcmSeal sl dk nonce plain) = Some plain)
     \<and> (\<forall>e. unmarshalEnvelope sl (marshalEnvelope sl e) = Some e)
     \<and> (\<forall>e. \<exists>r. marshalEnvelope sl e = CHR ''{'' # r)"

lemma DecryptKey_EncryptKey:
  assumes "sealing_ok sl" and "length nonce = 12" and "password \<noteq> []"
  obtains envelope where "EncryptKey sl salt nonce plain password = Inr envelope"
    and "IsEncryptedKey envelope" and "DecryptKey sl envelope password = Inr plain"
proof -
  obtain dk where dk: "argonIDKey sl password salt argonIterations argonMemoryKiB argonParallel argonKeyLen = Some dk"
    using assms(1) unfolding sealing_ok_def by blast
  let ?e = "\<lparr>kvVersion = keyEnvelopeVersion, kvKDF = ''argon2id'', kvM = argonMemoryKiB,
     kvT = argonIterations, kvP = argonParallel, kvAEAD = ''aes-256-gcm'', kvSalt = b64Encode salt,
     kvNonce = b64Encode nonce, kvCiphertext = b64Encode (gcmSeal sl dk nonce plain)\<rparr>"
  obtain r where r: "marshalEnvelope sl ?e = CHR ''{'' # r"
    using assms(1) unfolding sealing_ok_def by blast
  show thesis
  proof (rule that)
    show "EncryptKey sl salt nonce plain password = Inr (marshalEnvelope sl ?e)"
      using dk assms(3) by (simp add: EncryptKey_def Let_def)
    show "IsEncryptedKey (marshalEnvelope sl ?e)"
      by (simp add: r byte_def)
    show "DecryptKey sl (marshalEnvelope sl ?e) password = Inr plain"
      using dk assms(1,2) by (simp add: DecryptKey_def sealing_ok_def b64Decode_Encode gcmNonceSize_def)
  qed
qed

lemma b64Encode_bytes: "c \<in> set (b64Encode s) \<Longrightarrow> byte c \<in> {65..90} \<union> {97..122} \<union> {48..57} \<union> {45, 95}"
proof -
  assume "c \<in> set (b64Encode s)"
  then obtain n where "n \<in> set (toSextets (map byte s))" "c = b64Char n" by (auto simp: b64Encode_def)
  moreover from this have "n < 64" using toSextets_bound[of "map byte s"] byte_lt_256 by auto
  ultimately show ?thesis by (auto simp: byte_b64Char)
qed

lemma plain_not_encrypted: "\<not> IsEncryptedKey (b64Encode s)"
proof (cases "b64Encode s")
  case (Cons c r)
  then have "byte c \<in> {65..90} \<union> {97..122} \<union> {48..57} \<union> {45, 95}"
    using b64Encode_bytes[of c s] by simp
  with Cons show ?thesis by auto
qed simp

lemma buildStoredKey_Inr:
  "buildStoredKey sch sl io name sg = Inr k \<Longrightarrow>
     kyAlgorithm k = signerAlgorithm sg \<and> kyPubKey k = b64Encode (signerPublicKey sch sg) \<and> kyName k = name
     \<and> (\<exists>pw. promptPasswordTwice (kiNew io) (kiAgain io) = Inr pw
          \<and> encodePrivKeyField sl io (signerPrivateKey sg) pw = Inr (kyPrivKey k))"
  by (auto simp: buildStoredKey_def bindE_eq_Inr)

lemma promptPasswordTwice_Inr: "promptPasswordTwice a b = Inr pw \<Longrightarrow> promptPassword a = Inr pw"
  by (auto simp: promptPasswordTwice_def bindE_eq_Inr split: if_splits)

lemma decode_encodePriv:
  assumes "sealing_ok sl" and "length (kiNonce io) = 12"
    and "encodePrivKeyField sl io priv pw = Inr field" and "kyPrivKey k = field"
    and "promptPassword (kiCurrent io') = Inr pw"
  shows "decodePrivateKey sl io' k = Inr priv"
proof (cases "pw = []")
  case True
  then show ?thesis
    using assms(3,4) by (auto simp: encodePrivKeyField_def decodePrivateKey_def plain_not_encrypted b64Decode_Encode)
next
  case False
  obtain envelope where e: "EncryptKey sl (kiSalt io) (kiNonce io) priv pw = Inr envelope"
    "IsEncryptedKey envelope" "DecryptKey sl envelope pw = Inr priv"
    using DecryptKey_EncryptKey[OF assms(1,2) False] .
  then have "field = envelope" using assms(3) False by (simp add: encodePrivKeyField_def)
  with e show ?thesis using assms(4,5) by (simp add: decodePrivateKey_def)
qed

lemma LoadSigner_private:
  "LoadSigner sch alg priv = Inr sg \<Longrightarrow> signerPrivateKey sg = priv \<and> signerAlgorithm sg = alg"
  by (auto simp: LoadSigner_def loadEd25519Signer_def loadSLHDSASigner_def split: if_splits)

lemma GetKey_SaveKey [simp]: "GetKey n (SaveKey k s) = (if n = kyName k then Inr k else GetKey n s)"
  by (simp add: GetKey_def orNotFound_def keyTable.get_put)

lemma GetKey_name: "GetKey n s = Inr k \<Longrightarrow> k \<in> set (keys s) \<and> kyName k = n"
  by (auto simp: GetKey_def orNotFound_def rowByKey_def find_Some_iff split: option.splits)

text \<open>A key can be used again after it was stored: when a fresh key is saved under a name
  with a password (or none) and made active, then the client finds the same signer
  again with that password, and the id it derives without the password, from the
  stored public key, is the id it derives from the private key.\<close>

lemma stored_key_recovered:
  assumes "sealing_ok sl" and "length (kiNonce io) = 12"
    and "LoadSigner sch alg priv = Inr sg" and "buildStoredKey sch sl io name sg = Inr k"
    and "kiCurrent io' = kiNew io"
  shows "activeSignerAndID sch sl io' (SetActiveKey name (SaveKey k s))
       = Inr (sg, userIDOf sch (signerPublicKey sch sg))
     \<and> activeUserID sch (SetActiveKey name (SaveKey k s)) = Inr (userIDOf sch (signerPublicKey sch sg))"
proof -
  let ?s = "SetActiveKey name (SaveKey k s)"
  have sg: "signerPrivateKey sg = priv" "signerAlgorithm sg = alg"
    using LoadSigner_private[OF assms(3)] by simp_all
  obtain pw where k: "kyAlgorithm k = alg" "kyPubKey k = b64Encode (signerPublicKey sch sg)" "kyName k = name"
    "promptPasswordTwice (kiNew io) (kiAgain io) = Inr pw" "encodePrivKeyField sl io priv pw = Inr (kyPrivKey k)"
    using buildStoredKey_Inr[OF assms(4)] sg by auto
  have "decodePrivateKey sl io' k = Inr priv"
    using decode_encodePriv[OF assms(1,2) k(5) refl] promptPasswordTwice_Inr[OF k(4)] assms(5) by simp
  moreover have "GetActiveKey ?s = Inr name" "GetKey name ?s = Inr k"
    using k(3) GetKey_SaveKey[of name k s] by (simp_all add: GetActiveKey_def SetActiveKey_def GetKey_def orNotFound_def)
  ultimately show ?thesis
    using k assms(3) by (simp add: activeSignerAndID_def activeUserID_def b64Decode_Encode)
qed

text \<open>A new password keeps the signer.\<close>

lemma keyPasswd_keeps_signer:
  assumes "sealing_ok sl" and "length (kiNonce io) = 12"
    and "activeSignerAndID sch sl io s = Inr (sg, i)" and "GetActiveKey s = Inr name"
    and "keyPasswd sl io [name] s = Inr s'" and "kiCurrent io' = kiNew io"
  shows "activeSignerAndID sch sl io' s' = Inr (sg, i)"
proof -
  obtain k plain where k: "GetKey name s = Inr k" "decodePrivateKey sl io k = Inr plain"
    and r: "(case LoadSigner sch (kyAlgorithm k) plain of Inl e \<Rightarrow> Inl (SchemeErr e)
          | Inr sg \<Rightarrow> Inr (sg, userIDOf sch (signerPublicKey sch sg))) = Inr (sg, i)"
    using assms(3,4) by (auto simp: activeSignerAndID_def bindE_eq_Inr)
  from r have load: "LoadSigner sch (kyAlgorithm k) plain = Inr sg" and i: "i = userIDOf sch (signerPublicKey sch sg)"
    by (auto split: sum.splits)
  obtain pw field where pw: "promptPasswordTwice (kiNew io) (kiAgain io) = Inr pw" "encodePrivKeyField sl io plain pw = Inr field"
    and s': "s' = SaveKey (k\<lparr>kyPrivKey := field\<rparr>) s"
    using assms(5) k(1,2) by (auto simp: keyPasswd_def bindE_eq_Inr)
  have "decodePrivateKey sl io' (k\<lparr>kyPrivKey := field\<rparr>) = Inr plain"
    by (rule decode_encodePriv[OF assms(1,2) pw(2)]) (use promptPasswordTwice_Inr[OF pw(1)] assms(6) in simp_all)
  moreover have "GetActiveKey s' = Inr name" using assms(4) s' by (simp add: GetActiveKey_def SaveKey_def)
  moreover have "GetKey name s' = Inr (k\<lparr>kyPrivKey := field\<rparr>)" using GetKey_name[OF k(1)] s' by simp
  ultimately show ?thesis using load i by (simp add: activeSignerAndID_def)
qed

lemma NewSigner_loads:
  "draws_ok sch d \<Longrightarrow> NewSigner d alg = Inr sg \<Longrightarrow> LoadSigner sch alg (signerPrivateKey sg) = Inr sg"
  by (auto simp: NewSigner_def NewEd25519Signer_def NewSLHDSASigner_def LoadSigner_def loadEd25519Signer_def loadSLHDSASigner_def
      draws_ok_def ed25519PrivateKeySize_def split: if_splits option.splits)

text \<open>C31: A generated key stays usable: after \<open>tillit key generate\<close> and \<open>key use\<close> the client finds the signer that
  was drawn with the password typed at its creation (or none), and after \<open>key passwd\<close> with the
  password typed then; the id that it derives from the stored public key, without a
  password, is the one that it derives from the private key.\<close>

theorem generated_key_recovered:
  assumes "sealing_ok sl" and "length (kiNonce io) = 12" and "draws_ok sch draws"
    and "keyGenerate sch sl draws io (name # rest) s = Inr s1" and "keyUse [name] s1 = Inr s2"
    and "kiCurrent io2 = kiNew io" and "length (kiNonce io2) = 12" and "kiCurrent io3 = kiNew io2"
  shows "\<exists>sg. NewSigner draws (case rest of [] \<Rightarrow> ''ed25519'' | a # _ \<Rightarrow> a) = Inr sg
    \<and> activeSignerAndID sch sl io2 s2 = Inr (sg, userIDOf sch (signerPublicKey sch sg))
    \<and> activeUserID sch s2 = Inr (userIDOf sch (signerPublicKey sch sg))
    \<and> (case keyPasswd sl io2 [name] s2 of Inl e \<Rightarrow> True
       | Inr s3 \<Rightarrow> activeSignerAndID sch sl io3 s3 = Inr (sg, userIDOf sch (signerPublicKey sch sg)))"
proof -
  obtain sg k where sg: "NewSigner draws (case rest of [] \<Rightarrow> ''ed25519'' | a # _ \<Rightarrow> a) = Inr sg"
    and k: "buildStoredKey sch sl io name sg = Inr k" "s1 = SaveKey k s"
    using assms(4) by (auto simp: keyGenerate_def Let_def bindE_eq_Inr split: sum.splits)
  have s2: "s2 = SetActiveKey name (SaveKey k s)"
    using assms(5) k(2) by (auto simp: keyUse_def split: sum.splits)
  have "activeSignerAndID sch sl io2 s2 = Inr (sg, userIDOf sch (signerPublicKey sch sg))"
    and "activeUserID sch s2 = Inr (userIDOf sch (signerPublicKey sch sg))"
    unfolding s2 using stored_key_recovered[OF assms(1,2) NewSigner_loads[OF assms(3) sg] k(1) assms(6)] by simp_all
  moreover have "GetActiveKey s2 = Inr name" by (simp add: s2 GetActiveKey_def SetActiveKey_def orNotFound_def)
  ultimately show ?thesis
    using sg keyPasswd_keeps_signer[OF assms(1,7) _ _ _ assms(8)] by (auto split: sum.split)
qed

definition toyEnvelope :: "keyEnvelope \<Rightarrow> string" where
  "toyEnvelope e = CHR ''{'' # encInt (kvVersion e) @ encF (kvKDF e) @ encInt (int (kvM e)) @ encInt (int (kvT e))
     @ encInt (int (kvP e)) @ encF (kvAEAD e) @ encF (kvSalt e) @ encF (kvNonce e) @ encF (kvCiphertext e)"

definition toyUnenvelope :: "string \<Rightarrow> keyEnvelope option" where
  "toyUnenvelope s0 =
     (case decInt (tl s0) of None \<Rightarrow> None | Some (v, s1) \<Rightarrow> (case decF s1 of None \<Rightarrow> None | Some (kdf, s2) \<Rightarrow>
     (case decInt s2 of None \<Rightarrow> None | Some (m, s3) \<Rightarrow> (case decInt s3 of None \<Rightarrow> None | Some (t, s4) \<Rightarrow>
     (case decInt s4 of None \<Rightarrow> None | Some (p, s5) \<Rightarrow> (case decF s5 of None \<Rightarrow> None | Some (a, s6) \<Rightarrow>
     (case decF s6 of None \<Rightarrow> None | Some (sa, s7) \<Rightarrow> (case decF s7 of None \<Rightarrow> None | Some (no, s8) \<Rightarrow>
     (case decF s8 of None \<Rightarrow> None | Some (ct, s9) \<Rightarrow>
       Some \<lparr>kvVersion = v, kvKDF = kdf, kvM = nat m, kvT = nat t, kvP = nat p, kvAEAD = a, kvSalt = sa,
         kvNonce = no, kvCiphertext = ct\<rparr>)))))))))"

definition toySealing :: sealing where
  "toySealing = \<lparr>argonIDKey = (\<lambda>pw salt t m p n. Some pw), gcmSeal = (\<lambda>dk nonce plain. dk @ plain),
     gcmOpen = (\<lambda>dk nonce ct. if hasPrefix ct dk then Some (drop (length dk) ct) else None),
     marshalEnvelope = toyEnvelope, unmarshalEnvelope = toyUnenvelope\<rparr>"

lemma toySealing_ok: "sealing_ok toySealing"
  by (simp add: sealing_ok_def toySealing_def hasPrefix_def toyEnvelope_def toyUnenvelope_def)

lemma generated_key_recovered_witness:
  "\<exists>s1 s2 sg. keyGenerate toySchemes toySealing \<lparr>kdEd25519 = None, kdSLHDSA = Some ''key''\<rparr>
        \<lparr>kiSalt = [], kiNonce = ''nonce of 12b'', kiCurrent = None, kiNew = Some ''pw'', kiAgain = Some ''pw''\<rparr>
        [''laptop'', ''slh-dsa-shake-128s''] emptyStore = Inr s1
     \<and> keyUse [''laptop''] s1 = Inr s2
     \<and> activeSignerAndID toySchemes toySealing
        \<lparr>kiSalt = [], kiNonce = ''nonce of 12b'', kiCurrent = Some ''pw'', kiNew = None, kiAgain = None\<rparr> s2
       = Inr (sg, userIDOf toySchemes (signerPublicKey toySchemes sg))"
proof -
  let ?d = "\<lparr>kdEd25519 = None, kdSLHDSA = Some ''key''\<rparr>"
  let ?io = "\<lparr>kiSalt = [], kiNonce = ''nonce of 12b'', kiCurrent = None, kiNew = Some ''pw'', kiAgain = Some ''pw''\<rparr>"
  let ?io2 = "\<lparr>kiSalt = [], kiNonce = ''nonce of 12b'', kiCurrent = Some ''pw'', kiNew = None, kiAgain = None\<rparr>"
  have sg: "NewSigner ?d ''slh-dsa-shake-128s'' = Inr (SLHDSASigner ''key'')" by (simp add: NewSigner_def NewSLHDSASigner_def)
  obtain k where k: "buildStoredKey toySchemes toySealing ?io ''laptop'' (SLHDSASigner ''key'') = Inr k"
    by (simp add: buildStoredKey_def promptPasswordTwice_def promptPassword_def trimCRLF_def byte_def encodePrivKeyField_def
        EncryptKey_def toySealing_def Let_def)
  then have name: "kyName k = ''laptop''" using buildStoredKey_Inr by blast
  have g: "keyGenerate toySchemes toySealing ?d ?io [''laptop'', ''slh-dsa-shake-128s''] emptyStore = Inr (SaveKey k emptyStore)"
    using sg k by (simp add: keyGenerate_def)
  have u: "keyUse [''laptop''] (SaveKey k emptyStore) = Inr (SetActiveKey ''laptop'' (SaveKey k emptyStore))"
    using name by (simp add: keyUse_def)
  have len: "length (kiNonce ?io) = 12" "length (kiNonce ?io2) = 12" by simp_all
  have d: "draws_ok toySchemes ?d" by (simp add: draws_ok_def toySchemes_def)
  have same: "kiCurrent ?io2 = kiNew ?io" by simp
  from generated_key_recovered[OF toySealing_ok len(1) d g u same len(2), of "?io2\<lparr>kiCurrent := None\<rparr>"] g u
  show ?thesis by auto
qed

lemma stored_key_recovered_witness:
  "\<exists>k. activeSignerAndID toySchemes toySealing
        \<lparr>kiSalt = [], kiNonce = [], kiCurrent = Some ''pw'', kiNew = None, kiAgain = None\<rparr>
        (SetActiveKey ''default'' (SaveKey k emptyStore)) =
      Inr (SLHDSASigner ''key'', userIDOf toySchemes ''key'')"
proof -
  let ?io = "\<lparr>kiSalt = [], kiNonce = ''nonce of 12b'', kiCurrent = None, kiNew = Some ''pw'', kiAgain = Some ''pw''\<rparr>"
  have len: "length (kiNonce ?io) = 12" by simp
  have sg: "LoadSigner toySchemes ''slh-dsa-shake-128s'' ''key'' = Inr (SLHDSASigner ''key'')"
    by (simp add: LoadSigner_def loadSLHDSASigner_def toySchemes_def)
  obtain k where k: "buildStoredKey toySchemes toySealing ?io ''default'' (SLHDSASigner ''key'') = Inr k"
    by (simp add: buildStoredKey_def promptPasswordTwice_def promptPassword_def trimCRLF_def byte_def encodePrivKeyField_def
        EncryptKey_def toySealing_def Let_def)
  have "signerPublicKey toySchemes (SLHDSASigner ''key'') = ''key''" by (simp add: toySchemes_def)
  with stored_key_recovered[OF toySealing_ok len sg k, of
      "\<lparr>kiSalt = [], kiNonce = [], kiCurrent = Some ''pw'', kiNew = None, kiAgain = None\<rparr>" emptyStore]
  show ?thesis by auto
qed

end
