(* ===== verification/Cli_Sign.thy ===== *)
theory Cli_Sign
  imports Cli_Keys
begin

text \<open>
  Signing and verifying on the client: \<open>signing.go\<close>, \<open>sign.go\<close>, \<open>verify.go\<close>, and the commands
  that look at or remove single signatures, \<open>inspect.go\<close> and \<open>delete.go\<close>.  The JSON
  encoder of payloads, the decoder and the signature schemes are the environment;
  an ecosystem adapter is a record of the functions it offers.
\<close>

section \<open>Environment\<close>

record cliEnv =
  ceSchemes :: schemes
  ceSealing :: sealing
  ceCodec :: codec
  ceMarshal :: "payload \<Rightarrow> string"

text \<open>Randomness, clock and prompts of one command; an SLH-DSA signature draws \<open>ioRnd\<close>.\<close>

record cliIO =
  ioKey :: keyIO
  ioRnd :: string
  ioNow :: int

text \<open>\<open>adResolve\<close> asks the ecosystem's service; a refusal of \<open>ValidateVersion\<close> is a text.\<close>

record adapter =
  adName :: string
  adEcosystem :: string
  adCanParse :: "string \<Rightarrow> bool"
  adCompare :: "string \<Rightarrow> string \<Rightarrow> int"
  adValidate :: "string \<Rightarrow> string option"
  adResolve :: "string \<Rightarrow> string \<Rightarrow> string option"

section \<open>Verifying\<close>

datatype verifyError =
    NoCachedKey string | AlgorithmMismatch string string | CachedKeyNotBase64
  | CachedKeyMismatch string string | NoVerifierFor cryptoError | SigNotBase64 | SigDoesNotVerify

definition verifySigned ::
  "schemes \<Rightarrow> store \<Rightarrow> string \<Rightarrow> string \<Rightarrow> string \<Rightarrow> string \<Rightarrow> verifyError option" where
  "verifySigned sch s signerID payload algorithm sig =
     (case GetCachedUser signerID s of
        Inl _ \<Rightarrow> Some (NoCachedKey signerID)
      | Inr u \<Rightarrow>
          if cuAlgorithm u \<noteq> algorithm then Some (AlgorithmMismatch (cuAlgorithm u) algorithm)
          else (case b64Decode (cuPubKey u) of
            None \<Rightarrow> Some CachedKeyNotBase64
          | Some pubBytes \<Rightarrow>
              (let expected = userIDOf sch pubBytes in
               if expected \<noteq> signerID then Some (CachedKeyMismatch expected signerID)
               else (case NewVerifier sch algorithm pubBytes of
                 Inl e \<Rightarrow> Some (NoVerifierFor e)
               | Inr v \<Rightarrow> (case b64Decode sig of
                   None \<Rightarrow> Some SigNotBase64
                 | Some sigBytes \<Rightarrow>
                     if \<not> verifierVerify sch v payload sigBytes then Some SigDoesNotVerify else None)))))"

text \<open>A key that hashes to the id has signed the payload.\<close>

definition signedBy :: "schemes \<Rightarrow> string \<Rightarrow> string \<Rightarrow> string \<Rightarrow> string \<Rightarrow> bool" where
  "signedBy sch signerID algorithm payload sig \<longleftrightarrow>
     (\<exists>pub v b. userIDOf sch pub = signerID \<and> NewVerifier sch algorithm pub = Inr v
        \<and> b64Decode sig = Some b \<and> verifierVerify sch v payload b)"

lemma verifySigned_None:
  "verifySigned sch s signerID payload algorithm sig = None \<longleftrightarrow>
     (\<exists>u pub v b. GetCachedUser signerID s = Inr u \<and> cuAlgorithm u = algorithm \<and> b64Decode (cuPubKey u) = Some pub
        \<and> userIDOf sch pub = signerID \<and> NewVerifier sch algorithm pub = Inr v \<and> b64Decode sig = Some b
        \<and> verifierVerify sch v payload b)"
  by (auto simp: verifySigned_def Let_def split: sum.splits option.splits if_splits)

lemma verifySigned_signedBy: "verifySigned sch s i payload alg sig = None \<Longrightarrow> signedBy sch i alg payload sig"
  by (auto simp: verifySigned_None signedBy_def)

section \<open>Signing\<close>

record signedItem =
  itID :: string
  itPayload :: string
  itAlgorithm :: string
  itSig :: string

definition signPayload :: "cliEnv \<Rightarrow> string \<Rightarrow> signer \<Rightarrow> payload \<Rightarrow> cliError + signedItem" where
  "signPayload env rnd sg p =
     (case Validate p of
        Some e \<Rightarrow> Inl (InvalidPayload e)
      | None \<Rightarrow>
          (let payload = ceMarshal env p;
               sig = b64Encode (signerSign (ceSchemes env) rnd sg payload)
           in Inr \<lparr>itID = SignatureID (sha256 (ceSchemes env)) payload sig, itPayload = payload,
                itAlgorithm = signerAlgorithm sg, itSig = sig\<rparr>))"

definition signAndCache ::
  "cliEnv \<Rightarrow> cliIO \<Rightarrow> signer \<Rightarrow> string \<Rightarrow> payload \<Rightarrow> store \<Rightarrow> cliError + store \<times> string" where
  "signAndCache env io sg userID p s =
     bindE (signPayload env (ioRnd io) sg p) (\<lambda>signed.
       Inr (SaveCachedSignature \<lparr>csID = itID signed, csSigner = userID, csPayload = itPayload signed,
              csAlgorithm = itAlgorithm signed, csSig = itSig signed, csUploadedAt = ioNow io,
              csRevoked = False, csRevokedAt = None, csFetchedAt = ioNow io\<rparr> s, itID signed))"

definition adapterForEcosystem :: "adapter list \<Rightarrow> string \<Rightarrow> adapter option" where
  "adapterForEcosystem adapters name = find (\<lambda>a. adEcosystem a = name) adapters"

text \<open>The loop over the flags; the triple is level, reason and \<open>skipVerify\<close>.\<close>

fun signFlagsLoop :: "string list \<Rightarrow> string \<times> string \<times> bool \<Rightarrow> cliError + string \<times> string \<times> bool" where
  "signFlagsLoop [] acc = Inr acc"
| "signFlagsLoop (a # args) (level, reason, skip) =
     (if a = ''--level'' then (case args of [] \<Rightarrow> Inl (MissingValue a) | v # rest \<Rightarrow> signFlagsLoop rest (v, reason, skip))
      else if a = ''--reason'' then (case args of [] \<Rightarrow> Inl (MissingValue a) | v # rest \<Rightarrow> signFlagsLoop rest (level, v, skip))
      else if a = ''--skip-verify'' then signFlagsLoop args (level, reason, True)
      else Inl (UnknownFlag a))"

definition parseSignFlags :: "string list \<Rightarrow> cliError + string \<times> string \<times> bool" where
  "parseSignFlags args = bindE (signFlagsLoop args ([], [], False)) (\<lambda>(level, reason, skip).
     if level = [] then Inl (MissingValue ''--level'') else Inr (level, reason, skip))"

text \<open>\<open>None\<close> when the adapter lets the version pass; without an adapter nothing is checked.\<close>

definition checkVersion :: "adapter option \<Rightarrow> string \<Rightarrow> string \<Rightarrow> bool \<Rightarrow> cliError option" where
  "checkVersion ad packageID version skipVerify =
     (case ad of None \<Rightarrow> None
      | Some a \<Rightarrow> (case adValidate a version of
          Some e \<Rightarrow> Some (AdapterErr e)
        | None \<Rightarrow> if skipVerify then None else map_option AdapterErr (adResolve a packageID version)))"

definition checkDelta :: "adapter option \<Rightarrow> string \<Rightarrow> string \<Rightarrow> string \<Rightarrow> bool \<Rightarrow> cliError option" where
  "checkDelta ad packageID from_v to_v skipVerify =
     (case ad of None \<Rightarrow> None
      | Some a \<Rightarrow> (case adValidate a from_v of
          Some e \<Rightarrow> Some (AdapterErr e)
        | None \<Rightarrow> (case adValidate a to_v of
            Some e \<Rightarrow> Some (AdapterErr e)
          | None \<Rightarrow>
              if adCompare a from_v to_v \<ge> 0 then Some (WrongOrder from_v to_v)
              else if skipVerify then None
              else (case adResolve a packageID from_v of
                Some e \<Rightarrow> Some (AdapterErr e)
              | None \<Rightarrow> map_option AdapterErr (adResolve a packageID to_v)))))"

definition signVersion :: "cliEnv \<Rightarrow> adapter list \<Rightarrow> cliIO \<Rightarrow> string list \<Rightarrow> store \<Rightarrow> cliError + store \<times> string" where
  "signVersion env adapters io args s =
     (case args of
        ecosystem # packageID # version # flags \<Rightarrow>
          bindE (parseSignFlags flags) (\<lambda>(level, reason, skipVerify).
            case checkVersion (adapterForEcosystem adapters ecosystem) packageID version skipVerify of
              Some e \<Rightarrow> Inl e
            | None \<Rightarrow> bindE (activeSignerAndID (ceSchemes env) (ceSealing env) (ioKey io) s) (\<lambda>(sg, userID).
                signAndCache env io sg userID (emptyPayload\<lparr>pType := PayloadTypeDecision, pSigner := userID,
                  pEcosystem := ecosystem, pPackageID := packageID, pVersion := version, pLevel := level,
                  pReason := reason\<rparr>) s))
      | _ \<Rightarrow> Inl (Usage ''tillit sign version''))"

definition signDelta :: "cliEnv \<Rightarrow> adapter list \<Rightarrow> cliIO \<Rightarrow> string list \<Rightarrow> store \<Rightarrow> cliError + store \<times> string" where
  "signDelta env adapters io args s =
     (case args of
        ecosystem # packageID # from_v # to_v # flags \<Rightarrow>
          bindE (parseSignFlags flags) (\<lambda>(level, reason, skipVerify).
            case checkDelta (adapterForEcosystem adapters ecosystem) packageID from_v to_v skipVerify of
              Some e \<Rightarrow> Inl e
            | None \<Rightarrow> bindE (activeSignerAndID (ceSchemes env) (ceSealing env) (ioKey io) s) (\<lambda>(sg, userID).
                signAndCache env io sg userID (emptyPayload\<lparr>pType := PayloadTypeDeltaDecision, pSigner := userID,
                  pEcosystem := ecosystem, pPackageID := packageID, pFromVersion := from_v, pToVersion := to_v,
                  pLevel := level, pReason := reason\<rparr>) s))
      | _ \<Rightarrow> Inl (Usage ''tillit sign delta''))"

definition Sign :: "cliEnv \<Rightarrow> adapter list \<Rightarrow> cliIO \<Rightarrow> string list \<Rightarrow> store \<Rightarrow> cliError + store \<times> string" where
  "Sign env adapters io args s =
     (case args of
        [] \<Rightarrow> Inl (Usage ''tillit sign <version|delta> ...'')
      | sub # rest \<Rightarrow>
          if sub = ''version'' then signVersion env adapters io rest s
          else if sub = ''delta'' then signDelta env adapters io rest s
          else Inl (UnknownFlag sub))"

definition Revoke :: "cliEnv \<Rightarrow> cliIO \<Rightarrow> string list \<Rightarrow> store \<Rightarrow> cliError + store \<times> string" where
  "Revoke env io args s =
     (case args of
        [] \<Rightarrow> Inl (Usage ''tillit revoke <signature_id>'')
      | targetID # _ \<Rightarrow> bindE (activeSignerAndID (ceSchemes env) (ceSealing env) (ioKey io) s) (\<lambda>(sg, userID).
          signAndCache env io sg userID
            (emptyPayload\<lparr>pType := PayloadTypeRevocation, pSigner := userID, pTargetID := targetID\<rparr>) s))"

section \<open>Looking at and deleting one signature\<close>

definition findRevocationFor :: "codec \<Rightarrow> cachedSignature \<Rightarrow> store \<Rightarrow> cachedSignature option" where
  "findRevocationFor c target s =
     find (\<lambda>cand. csID cand \<noteq> csID target \<and> (case decPayload c (csPayload cand) of
         None \<Rightarrow> False
       | Some p \<Rightarrow> pType p = PayloadTypeRevocation \<and> pTargetID p = csID target))
       (GetCachedSignaturesBySigner (csSigner target) s)"

definition runDelete :: "string \<Rightarrow> store \<Rightarrow> cliError + store" where
  "runDelete i s =
     (if i = [] then Inl (Usage ''signature id is empty'')
      else bindE (liftStore (LookupCachedSignature i s)) (\<lambda>g.
        if HasBeenPushed (csID g) ItemSignature s then Inl (AlreadyPushed (csID g))
        else liftStore (DeleteCachedSignature (csID g) s)))"

section \<open>What a command leaves in the store\<close>

lemma signPayload_Inr:
  "signPayload env rnd sg p = Inr it \<longleftrightarrow> Validate p = None
     \<and> it = \<lparr>itID = SignatureID (sha256 (ceSchemes env)) (ceMarshal env p)
                (b64Encode (signerSign (ceSchemes env) rnd sg (ceMarshal env p))),
            itPayload = ceMarshal env p, itAlgorithm = signerAlgorithm sg,
            itSig = b64Encode (signerSign (ceSchemes env) rnd sg (ceMarshal env p))\<rparr>"
  by (auto simp: signPayload_def Let_def split: option.split)

text \<open>The signer's own key verifies what was signed.\<close>

lemma signed_signedBy:
  assumes "schemes_ok sch" and "LoadSigner sch alg priv = Inr sg"
  shows "signedBy sch (userIDOf sch (signerPublicKey sch sg)) (signerAlgorithm sg) payload
     (b64Encode (signerSign sch rnd sg payload))"
  using signed_verifies[OF assms, of "[]" payload rnd]
  unfolding verifiesFor_def user_Verifier_def NewUserFromSigner_def signedBy_def
  by (auto simp: Let_def b64Decode_Encode split: sum.splits)

text \<open>The key an active signer was loaded from.\<close>

lemma activeSignerAndID_Inr:
  assumes "activeSignerAndID sch sl io s = Inr (sg, userID)"
  obtains alg priv where "LoadSigner sch alg priv = Inr sg" and "userID = userIDOf sch (signerPublicKey sch sg)"
proof -
  obtain n where n: "GetActiveKey s = Inr n"
    using assms by (cases "GetActiveKey s") (simp_all add: activeSignerAndID_def)
  obtain k where k: "GetKey n s = Inr k"
    using assms n by (cases "GetKey n s") (simp_all add: activeSignerAndID_def)
  obtain priv where "decodePrivateKey sl io k = Inr priv"
    using assms n k by (cases "decodePrivateKey sl io k") (simp_all add: activeSignerAndID_def)
  with assms n k that show thesis
    by (cases "LoadSigner sch (kyAlgorithm k) priv") (simp_all add: activeSignerAndID_def)
qed

lemma signAndCache_Inr:
  "signAndCache env io sg userID p s = Inr (s', i) \<longleftrightarrow>
     (\<exists>it. signPayload env (ioRnd io) sg p = Inr it \<and> i = itID it
        \<and> s' = SaveCachedSignature \<lparr>csID = itID it, csSigner = userID, csPayload = itPayload it,
              csAlgorithm = itAlgorithm it, csSig = itSig it, csUploadedAt = ioNow io,
              csRevoked = False, csRevokedAt = None, csFetchedAt = ioNow io\<rparr> s)"
  by (auto simp: signAndCache_def bindE_eq_Inr)

text \<open>Every row that signing adds is signed by the id in its signer column, carries the id of its
  content, and encodes a valid payload of that signer.\<close>

definition authentic :: "cliEnv \<Rightarrow> cachedSignature \<Rightarrow> bool" where
  "authentic env g \<longleftrightarrow>
     signedBy (ceSchemes env) (csSigner g) (csAlgorithm g) (csPayload g) (csSig g)
     \<and> csID g = SignatureID (sha256 (ceSchemes env)) (csPayload g) (csSig g)
     \<and> (\<exists>p. csPayload g = ceMarshal env p \<and> Validate p = None \<and> pSigner p = csSigner g)"

lemma signAndCache_authentic:
  assumes "schemes_ok (ceSchemes env)" and "activeSignerAndID (ceSchemes env) sl kio s = Inr (sg, userID)"
    and "signAndCache env io sg userID p s = Inr (s', i)" and "pSigner p = userID"
    and "g \<in> set (cachedSignatures s')"
  shows "g \<in> set (cachedSignatures s) \<or> (authentic env g \<and> csID g = i \<and> csPayload g = ceMarshal env p)"
proof -
  obtain alg priv where k: "LoadSigner (ceSchemes env) alg priv = Inr sg"
      "userID = userIDOf (ceSchemes env) (signerPublicKey (ceSchemes env) sg)"
    using activeSignerAndID_Inr[OF assms(2)] .
  show ?thesis
    using assms(3-5) signed_signedBy[OF assms(1) k(1)] k(2)
    by (auto simp: signAndCache_Inr signPayload_Inr SaveCachedSignature_def set_insertIgnore authentic_def
        storedSignature_def split: if_splits)
qed

lemma Sign_shape:
  assumes "Sign env adapters io args s = Inr (s', i)"
  obtains sg userID p where "activeSignerAndID (ceSchemes env) (ceSealing env) (ioKey io) s = Inr (sg, userID)"
    and "signAndCache env io sg userID p s = Inr (s', i)" and "pSigner p = userID"
    and "pType p = PayloadTypeDecision \<or> pType p = PayloadTypeDeltaDecision"
proof -
  note signed = that
  from assms consider rest where "signVersion env adapters io rest s = Inr (s', i)"
    | rest where "signDelta env adapters io rest s = Inr (s', i)"
    by (auto simp: Sign_def split: list.splits if_splits)
  then show thesis
  proof cases
    case 1
    then show ?thesis
      by (auto simp: signVersion_def bindE_eq_Inr split: list.splits option.splits intro!: signed)
  next
    case 2
    then show ?thesis
      by (auto simp: signDelta_def bindE_eq_Inr split: list.splits option.splits intro!: signed)
  qed
qed

text \<open>C25: Signing leaves only authentic rows: every row that \<open>tillit sign\<close> adds has the id of its
  content, encodes a valid payload that names the signer column, and carries a
  signature that verifies under a key whose hash is the signer; and a delta for an
  ecosystem with an adapter is only signed from a lower to a higher version.\<close>

theorem Sign_authentic:
  assumes "schemes_ok (ceSchemes env)" and "Sign env adapters io args s = Inr (s', i)"
  shows "set (cachedSignatures s') \<subseteq> set (cachedSignatures s) \<union> {g. authentic env g \<and> csID g = i}
     \<and> (\<forall>ecosystem pkg from_v to_v flags ad.
          args = ''delta'' # ecosystem # pkg # from_v # to_v # flags
          \<and> adapterForEcosystem adapters ecosystem = Some ad \<longrightarrow> adCompare ad from_v to_v < 0)"
proof -
  obtain sg userID p where p: "activeSignerAndID (ceSchemes env) (ceSealing env) (ioKey io) s = Inr (sg, userID)"
    "signAndCache env io sg userID p s = Inr (s', i)" "pSigner p = userID"
    using Sign_shape[OF assms(2)] .
  have rows: "set (cachedSignatures s') \<subseteq> set (cachedSignatures s) \<union> {g. authentic env g \<and> csID g = i}"
    using signAndCache_authentic[OF assms(1) p] by auto
  have order: "adCompare ad from_v to_v < 0"
    if a: "args = ''delta'' # ecosystem # pkg # from_v # to_v # flags" "adapterForEcosystem adapters ecosystem = Some ad"
    for ecosystem pkg from_v to_v flags ad
  proof -
    obtain lv re sk where "checkDelta (Some ad) pkg from_v to_v sk = None"
      using assms(2)[unfolded a(1)] a(2) by (auto simp: Sign_def signDelta_def bindE_eq_Inr split: option.splits)
    then show ?thesis by (auto simp: checkDelta_def split: option.splits if_splits)
  qed
  show ?thesis using rows order by blast
qed

section \<open>Revoking\<close>

text \<open>C28: Revoking takes effect at once: when the revocation row is new to the store (or is there
  already with the same content), then after \<open>tillit revoke\<close> a signature of the user's own that the
  store has is reported as revoked, whatever its row says.\<close>

theorem Revoke_effective:
  assumes wf: "store_wf s" and codec: "codec_ok (ceCodec env)"
    and rev: "Revoke env io (target # rest) s = Inr (s', i)"
    and own: "activeSignerAndID (ceSchemes env) (ceSealing env) (ioKey io) s = Inr (sg, userID)"
    and g: "GetCachedSignature target s = Inr g" "csSigner g = userID" "i \<noteq> target"
    and fresh: "\<forall>h\<in>set (cachedSignatures s). csID h = i \<longrightarrow> csSigner h = userID
        \<and> csPayload h = ceMarshal env (emptyPayload\<lparr>pType := ''revocation'', pSigner := userID, pTargetID := target\<rparr>)"
    and enc: "decPayload (ceCodec env) (ceMarshal env (emptyPayload\<lparr>pType := ''revocation'', pSigner := userID, pTargetID := target\<rparr>))
        = Some (emptyPayload\<lparr>pType := ''revocation'', pSigner := userID, pTargetID := target\<rparr>)"
  shows "\<exists>t. IsCachedSignatureRevoked (ceCodec env) target s' = Inr (True, t)"
proof -
  let ?p = "emptyPayload\<lparr>pType := ''revocation'', pSigner := userID, pTargetID := target\<rparr>"
  have ref: "decRef (ceCodec env) (ceMarshal env ?p) = Some (''revocation'', target)"
    using codec enc by (fastforce simp: codec_ok_def emptyPayload_def)
  define sig where "sig = b64Encode (signerSign (ceSchemes env) (ioRnd io) sg (ceMarshal env ?p))"
  define r where "r = \<lparr>csID = SignatureID (sha256 (ceSchemes env)) (ceMarshal env ?p) sig, csSigner = userID,
     csPayload = ceMarshal env ?p, csAlgorithm = signerAlgorithm sg, csSig = sig, csUploadedAt = ioNow io,
     csRevoked = False, csRevokedAt = None, csFetchedAt = ioNow io\<rparr>"
  have "s' = SaveCachedSignature r s \<and> csID r = i"
    using rev own by (auto simp: Revoke_def signAndCache_Inr signPayload_Inr r_def sig_def)
  then have r: "csID r = i" "csSigner r = userID" "csPayload r = ceMarshal env ?p" "s' = SaveCachedSignature r s"
    by (simp_all add: r_def)
  have wf': "store_wf s'"
    using store_wf_runOp[OF wf, of "OpSaveSignature r"] r(4) by simp
  obtain r' where r': "r' \<in> set (cachedSignatures s')" "csID r' = i" "csSigner r' = userID"
      "csPayload r' = ceMarshal env ?p"
  proof (cases "\<exists>h\<in>set (cachedSignatures s). csID h = i")
    case True
    then obtain h where "h \<in> set (cachedSignatures s)" "csID h = i" by blast
    with fresh r show ?thesis
      by (intro that[of h]) (auto simp: SaveCachedSignature_def rows_kept_insertIgnore)
  next
    case False
    with r show ?thesis
      by (intro that[of "storedSignature r"]) (auto simp: SaveCachedSignature_def set_insertIgnore)
  qed
  have "g \<in> set (cachedSignatures s')" "csID g = target"
    using g(1) r(4) GetCachedSignature_iff[OF wf] by (auto simp: SaveCachedSignature_def rows_kept_insertIgnore)
  with r' g(2,3) ref show ?thesis
    unfolding signature_revoked_iff[OF wf'] by metis
qed

section \<open>Deleting\<close>

text \<open>Deleting spares what was published: a signature that the store records as pushed to any
  server is still there, unchanged, after \<open>tillit delete\<close>, and at most the one row that the
  query stands for is gone.\<close>

theorem runDelete_spares_pushed:
  assumes "store_wf s" and "runDelete q s = Inr s'"
  shows "\<exists>g. LookupCachedSignature q s = Inr g \<and> \<not> HasBeenPushed (csID g) ItemSignature s
     \<and> set (cachedSignatures s') = set (cachedSignatures s) - {g} \<and> pushState s' = pushState s"
proof -
  obtain g where g: "LookupCachedSignature q s = Inr g" "\<not> HasBeenPushed (csID g) ItemSignature s"
      "DeleteCachedSignature (csID g) s = Inr s'"
    using assms(2) by (auto simp: runDelete_def bindE_eq_Inr split: if_splits)
  have "g \<in> set (cachedSignatures s)"
  proof (cases "GetCachedSignature q s")
    case (Inl e)
    let ?rows = "filter (\<lambda>g. likeMatch (q @ ''%'') (csID g)) (cachedSignatures s)"
    have "g \<in> set (take 2 ?rows)"
      using g(1) Inl by (auto simp: LookupCachedSignature_def split: if_splits list.splits)
    then have "g \<in> set ?rows" by (rule in_set_takeD)
    then show ?thesis by simp
  next
    case (Inr h)
    with g(1) show ?thesis
      using GetCachedSignature_iff[OF assms(1), of q h] by (auto simp: LookupCachedSignature_def split: if_splits)
  qed
  moreover have "csID h = csID g \<Longrightarrow> h = g" if "h \<in> set (cachedSignatures s)" "g \<in> set (cachedSignatures s)" for h
    using assms(1) that by (auto simp: store_wf_def keysDistinct_def dest: distinct_map_inj)
  ultimately show ?thesis
    using g by (auto simp: DeleteCachedSignature_def deleteRows_def split: if_splits)
qed

end
