(* ===== verification/Cli_Trust.thy ===== *)
theory Cli_Trust
  imports Cli_Sign
begin

text \<open>
  Trusting, distrusting and forgetting a peer, \<open>trust.go\<close>, with the caching of a peer's
  public key from \<open>store.go\<close>.  A command that fails half way keeps what it has
  written so far, so its result is the store and an error if there was one.  What a
  server answers is an argument.
\<close>

section \<open>Outcomes\<close>

type_synonym outcome = "store \<times> cliError option"

text \<open>The next step runs only if there was no error.\<close>

definition andThen :: "outcome \<Rightarrow> (store \<Rightarrow> outcome) \<Rightarrow> outcome" where
  "andThen r k = (case r of (s, Some e) \<Rightarrow> (s, Some e) | (s, None) \<Rightarrow> k s)"

lemma andThen_simps [simp]: "andThen (s, Some e) k = (s, Some e)" "andThen (s, None) k = k s"
  by (simp_all add: andThen_def)

text \<open>A step that computes a value from the store it has.\<close>

definition withValue :: "cliError + 'a \<Rightarrow> store \<Rightarrow> ('a \<Rightarrow> outcome) \<Rightarrow> outcome" where
  "withValue r s k = (case r of Inl e \<Rightarrow> (s, Some e) | Inr x \<Rightarrow> k x)"

lemma withValue_simps [simp]: "withValue (Inl e) s k = (s, Some e)" "withValue (Inr x) s k = k x"
  by (simp_all add: withValue_def)

section \<open>Peers\<close>

text \<open>\<open>strings.LastIndex(arg, "@")\<close>.\<close>

fun lastIndexOf :: "char \<Rightarrow> string \<Rightarrow> nat option" where
  "lastIndexOf c [] = None"
| "lastIndexOf c (x # xs) = (case lastIndexOf c xs of Some n \<Rightarrow> Some (Suc n) | None \<Rightarrow> if x = c then Some 0 else None)"

definition parsePeer :: "string \<Rightarrow> cliError + string \<times> string" where
  "parsePeer arg = (case lastIndexOf CHR ''@'' arg of
     None \<Rightarrow> Inl (Usage arg)
   | Some at \<Rightarrow> if at < 1 then Inl (Usage arg) else Inr (take at arg, drop (at + 1) arg))"

record trustFlags =
  tfDepth :: int
  tfPublic :: bool
  tfVetoOnly :: bool

fun trustFlagsLoop :: "string list \<Rightarrow> trustFlags \<Rightarrow> cliError + trustFlags" where
  "trustFlagsLoop [] f = Inr f"
| "trustFlagsLoop (a # args) f =
     (if a = ''--depth'' then (case args of
         [] \<Rightarrow> Inl (MissingValue a)
       | v # rest \<Rightarrow> if \<not> atoiOk v \<or> atoiVal v < 0 then Inl (UnknownFlag v)
           else trustFlagsLoop rest (f\<lparr>tfDepth := atoiVal v\<rparr>))
      else if a = ''--public'' then trustFlagsLoop args (f\<lparr>tfPublic := True\<rparr>)
      else if a = ''--veto-only'' then trustFlagsLoop args (f\<lparr>tfVetoOnly := True\<rparr>)
      else Inl (UnknownFlag a))"

text \<open>\<open>response\<close> is the user the server returned for the id, \<open>None\<close> when the request failed.\<close>

definition fetchAndCachePubkey :: "schemes \<Rightarrow> int \<Rightarrow> user option \<Rightarrow> string \<Rightarrow> store \<Rightarrow> outcome" where
  "fetchAndCachePubkey sch now response userID s =
     (case response of
        None \<Rightarrow> (s, Some RequestFailed)
      | Some u \<Rightarrow> (case b64Decode (usPubKey u) of
          None \<Rightarrow> (s, Some BadPublicKey)
        | Some pubBytes \<Rightarrow>
            (let expected = userIDOf sch pubBytes in
             if expected \<noteq> userID then (s, Some (HashMismatch expected userID))
             else (SaveCachedUser \<lparr>cuID = usID u, cuUsername = usUsername u, cuPubKey = usPubKey u,
                     cuAlgorithm = usAlgorithm u, cuFetchedAt = now\<rparr> s, None))))"

section \<open>Recording a change of trust\<close>

definition connectionRow :: "string \<Rightarrow> string \<Rightarrow> int \<Rightarrow> signedItem \<Rightarrow> cachedConnection" where
  "connectionRow userID otherID now it =
     \<lparr>ccID = itID it, ccSigner = userID, ccOtherID = otherID, ccPayload = itPayload it,
      ccAlgorithm = itAlgorithm it, ccSig = itSig it, ccCreatedAt = now,
      ccRevoked = False, ccRevokedAt = None, ccFetchedAt = now\<rparr>"

definition revPayload :: "string \<Rightarrow> string \<Rightarrow> payload" where
  "revPayload userID targetID =
     emptyPayload\<lparr>pType := PayloadTypeConnectionRevocation, pSigner := userID, pTargetID := targetID\<rparr>"

definition revokeActiveConnection :: "cliEnv \<Rightarrow> string \<Rightarrow> int \<Rightarrow> signer \<Rightarrow> string \<Rightarrow> string \<Rightarrow> store \<Rightarrow> outcome" where
  "revokeActiveConnection env rnd now sg userID otherID s =
     (case GetActiveConnection (ceCodec env) userID otherID s of
        None \<Rightarrow> (s, None)
      | Some existing \<Rightarrow>
          withValue (signPayload env rnd sg (revPayload userID (ccID existing))) s (\<lambda>signed.
            (let s1 = SaveCachedConnection (connectionRow userID otherID now signed) s
             in (SaveCachedConnection (existing\<lparr>ccRevoked := True, ccRevokedAt := Some now\<rparr>) s1, None))))"

definition connPayload :: "string \<Rightarrow> peer \<Rightarrow> payload" where
  "connPayload userID p =
     emptyPayload\<lparr>pType := PayloadTypeConnection, pSigner := userID, pOtherID := peID p, pPublic := pePublic p,
       pTrust := (\<not> peDistrusted p \<and> \<not> peVetoOnly p), pTrustExtends := peTrustDepth p\<rparr>"

text \<open>Two signatures are made, with the randomness \<open>rnd1\<close> and \<open>rnd2\<close>.\<close>

definition recordTrustChange ::
  "cliEnv \<Rightarrow> string \<Rightarrow> string \<Rightarrow> int \<Rightarrow> signer \<Rightarrow> string \<Rightarrow> peer \<Rightarrow> store \<Rightarrow> outcome" where
  "recordTrustChange env rnd1 rnd2 now sg userID p s =
     andThen (revokeActiveConnection env rnd1 now sg userID (peID p) s) (\<lambda>s1.
       withValue (signPayload env rnd2 sg (connPayload userID p)) s1 (\<lambda>signed.
         (SavePeer p (SaveCachedConnection (connectionRow userID (peID p) now signed) s1), None)))"

section \<open>The commands\<close>

definition Trust :: "cliEnv \<Rightarrow> cliIO \<Rightarrow> string \<Rightarrow> (string \<Rightarrow> string \<Rightarrow> user option) \<Rightarrow> string list \<Rightarrow> store \<Rightarrow> outcome" where
  "Trust env io rnd2 fetchUser args s =
     (case args of
        [] \<Rightarrow> (s, Some (Usage ''tillit trust <userID@server_url> [--depth N] [--public] [--veto-only]''))
      | arg # flags \<Rightarrow>
          withValue (parsePeer arg) s (\<lambda>(i, serverURL).
          withValue (trustFlagsLoop flags \<lparr>tfDepth = 1, tfPublic = False, tfVetoOnly = False\<rparr>) s (\<lambda>f.
          withValue (activeSignerAndID (ceSchemes env) (ceSealing env) (ioKey io) s) s (\<lambda>(sg, userID).
          andThen (fetchAndCachePubkey (ceSchemes env) (ioNow io) (fetchUser serverURL i) i s)
            (recordTrustChange env (ioRnd io) rnd2 (ioNow io) sg userID
               \<lparr>peID = i, peServerURL = serverURL, peTrustDepth = tfDepth f, pePublic = tfPublic f,
                peDistrusted = False, peVetoOnly = tfVetoOnly f, peLastSyncedAt = None\<rparr>)))))"

definition Distrust :: "cliEnv \<Rightarrow> cliIO \<Rightarrow> string \<Rightarrow> string list \<Rightarrow> store \<Rightarrow> outcome" where
  "Distrust env io rnd2 args s =
     (case args of
        [] \<Rightarrow> (s, Some (Usage ''tillit distrust <userID>''))
      | i # _ \<Rightarrow>
          withValue (activeSignerAndID (ceSchemes env) (ceSealing env) (ioKey io) s) s (\<lambda>(sg, userID).
            (let serverURL = (case GetPeer i s of Inl _ \<Rightarrow> [] | Inr p \<Rightarrow> peServerURL p)
             in recordTrustChange env (ioRnd io) rnd2 (ioNow io) sg userID
               \<lparr>peID = i, peServerURL = serverURL, peTrustDepth = 0, pePublic = False,
                peDistrusted = True, peVetoOnly = False, peLastSyncedAt = None\<rparr> s)))"

definition Forget :: "cliEnv \<Rightarrow> cliIO \<Rightarrow> string list \<Rightarrow> store \<Rightarrow> outcome" where
  "Forget env io args s =
     (case args of
        [] \<Rightarrow> (s, Some (Usage ''tillit forget <userID>''))
      | i # _ \<Rightarrow>
          withValue (activeSignerAndID (ceSchemes env) (ceSealing env) (ioKey io) s) s (\<lambda>(sg, userID).
            andThen (revokeActiveConnection env (ioRnd io) (ioNow io) sg userID i s) (\<lambda>s1. (RemovePeer i s1, None))))"

section \<open>One active connection per peer\<close>

text \<open>What the encoder writes, the decoder reads.\<close>

definition marshal_ok :: "cliEnv \<Rightarrow> bool" where
  "marshal_ok env \<longleftrightarrow> codec_ok (ceCodec env) \<and> (\<forall>p. decPayload (ceCodec env) (ceMarshal env p) = Some p)"

lemma marshal_simps:
  assumes "marshal_ok env"
  shows "decPayload (ceCodec env) (ceMarshal env p) = Some p"
    and "decRef (ceCodec env) (ceMarshal env p) = Some (pType p, pTargetID p)"
    and "decType (ceCodec env) (ceMarshal env p) = Some (pType p)"
  using assms by (auto simp: marshal_ok_def codec_ok_def)

definition itemFor :: "cliEnv \<Rightarrow> string \<Rightarrow> signer \<Rightarrow> payload \<Rightarrow> signedItem" where
  "itemFor env rnd sg p =
     (let payload = ceMarshal env p; sig = b64Encode (signerSign (ceSchemes env) rnd sg payload)
      in \<lparr>itID = SignatureID (sha256 (ceSchemes env)) payload sig, itPayload = payload,
          itAlgorithm = signerAlgorithm sg, itSig = sig\<rparr>)"

lemma signPayload_valid: "Validate p = None \<Longrightarrow> signPayload env rnd sg p = Inr (itemFor env rnd sg p)"
  by (simp add: signPayload_Inr itemFor_def Let_def)

lemma itemFor_payload [simp]: "itPayload (itemFor env rnd sg p) = ceMarshal env p"
  by (simp add: itemFor_def Let_def)

lemma Validate_connections:
  "userID \<noteq> [] \<Longrightarrow> i \<noteq> [] \<Longrightarrow> Validate (revPayload userID i) = None"
  "userID \<noteq> [] \<Longrightarrow> peID p \<noteq> [] \<Longrightarrow> Validate (connPayload userID p) = None"
  by (simp_all add: Validate_def revPayload_def connPayload_def emptyPayload_def)

lemma saved_connections:
  "cachedConnections (SaveCachedConnection n s) =
     (if ccID n \<in> ccID ` set (cachedConnections s) then cachedConnections s
      else cachedConnections s @ [storedConnection n])"
  by (auto simp: SaveCachedConnection_def insertIgnore_def list_ex_iff intro: image_eqI[OF sym])

text \<open>A revocation row takes its target out of the candidates.\<close>

lemma revoked_candidates:
  assumes "cachedConnections s' = cachedConnections s @ [row]"
    and "decRef c (ccPayload row) = Some (''connection_revocation'', ccID n)" "ccSigner row = userID"
    and "decType c (ccPayload row) \<noteq> Some ''connection''" "ccID n \<noteq> []"
  shows "activeCandidates c userID other s' \<subseteq> activeCandidates c userID other s - {n}"
  using assms unfolding activeCandidates_def by auto

text \<open>Revoking leaves no candidate: the one there was is named by the new row.  Marking its row as
  revoked, which the code then does, changes nothing.\<close>

lemma revokeActiveConnection_clears:
  assumes m: "marshal_ok env" and u: "userID \<noteq> []"
    and one: "\<forall>a\<in>activeCandidates (ceCodec env) userID other s. \<forall>b\<in>activeCandidates (ceCodec env) userID other s. a = b"
    and ids: "\<forall>n\<in>set (cachedConnections s). ccID n \<noteq> []"
    and fresh: "\<forall>n. GetActiveConnection (ceCodec env) userID other s = Some n \<longrightarrow>
      itID (itemFor env rnd sg (revPayload userID (ccID n))) \<notin> ccID ` set (cachedConnections s)"
  obtains s1 where "revokeActiveConnection env rnd now sg userID other s = (s1, None)"
    and "activeCandidates (ceCodec env) userID other s1 = {}"
    and "set (cachedConnections s1) \<subseteq> set (cachedConnections s) \<union>
       {storedConnection (connectionRow userID other now (itemFor env rnd sg (revPayload userID (ccID n)))) | n.
         n \<in> set (cachedConnections s) \<and> GetActiveConnection (ceCodec env) userID other s = Some n}"
    and "set (cachedConnections s) \<subseteq> set (cachedConnections s1)"
proof (cases "GetActiveConnection (ceCodec env) userID other s")
  case None
  then show thesis
    using GetActiveConnection_spec[of "ceCodec env" userID other s]
    by (intro that[of s]) (auto simp: revokeActiveConnection_def)
next
  case (Some n)
  let ?c = "ceCodec env"
  let ?row = "storedConnection (connectionRow userID other now (itemFor env rnd sg (revPayload userID (ccID n))))"
  let ?s1 = "SaveCachedConnection (n\<lparr>ccRevoked := True, ccRevokedAt := Some now\<rparr>)
     (SaveCachedConnection (connectionRow userID other now (itemFor env rnd sg (revPayload userID (ccID n)))) s)"
  have n: "n \<in> activeCandidates ?c userID other s" "n \<in> set (cachedConnections s)"
    using Some GetActiveConnection_spec[of ?c userID other s] by (auto simp: activeCandidates_def)
  then have nid: "ccID n \<noteq> []" using ids by blast
  have step: "revokeActiveConnection env rnd now sg userID other s = (?s1, None)"
    using Some signPayload_valid[OF Validate_connections(1)[OF u nid]]
    by (simp add: revokeActiveConnection_def Let_def)
  have rows: "cachedConnections ?s1 = cachedConnections s @ [?row]"
  proof -
    have "ccID n \<in> ccID ` set (cachedConnections s)" "ccID ?row \<notin> ccID ` set (cachedConnections s)"
      using n(2) fresh Some by (auto simp: storedConnection_def connectionRow_def)
    then show ?thesis by (simp add: saved_connections)
  qed
  have ref: "decRef ?c (ccPayload ?row) = Some (''connection_revocation'', ccID n)"
    and ty: "decType ?c (ccPayload ?row) = Some ''connection_revocation''" and sg: "ccSigner ?row = userID"
    by (simp_all add: storedConnection_def connectionRow_def marshal_simps[OF m] revPayload_def)
  have "activeCandidates ?c userID other ?s1 \<subseteq> activeCandidates ?c userID other s - {n}"
    using revoked_candidates[OF rows ref _ _ nid] ty sg by simp
  then have empty: "activeCandidates ?c userID other ?s1 = {}" using one n(1) by blast
  show thesis
    by (rule that[OF step empty]) (use rows n(2) Some in auto)
qed

text \<open>What a fresh connection row adds.\<close>

lemma activeCandidates_new:
  assumes m: "marshal_ok env" and none: "activeCandidates (ceCodec env) userID (peID p) s = {}"
    and n: "n = storedConnection (connectionRow userID (peID p) now it)" "itPayload it = ceMarshal env (connPayload userID p)"
    and rows: "set (cachedConnections s') = insert n (set (cachedConnections s))"
    and unnamed: "\<forall>r\<in>set (cachedConnections s). ccSigner r = userID \<longrightarrow>
      decRef (ceCodec env) (ccPayload r) \<noteq> Some (''connection_revocation'', itID it)"
  shows "activeCandidates (ceCodec env) userID (peID p) s' = {n}"
proof -
  have n': "ccSigner n = userID" "ccOtherID n = peID p" "ccID n = itID it" "decType (ceCodec env) (ccPayload n) = Some ''connection''"
      "decRef (ceCodec env) (ccPayload n) = Some (''connection'', [])"
    by (simp_all add: n storedConnection_def connectionRow_def marshal_simps[OF m] connPayload_def emptyPayload_def)
  have "n \<in> activeCandidates (ceCodec env) userID (peID p) s'"
    using n' unnamed unfolding activeCandidates_def rows by fastforce
  moreover have "activeCandidates (ceCodec env) userID (peID p) s' \<subseteq> insert n (activeCandidates (ceCodec env) userID (peID p) s)"
    unfolding activeCandidates_def rows by auto
  ultimately show ?thesis using none by auto
qed

text \<open>C24: Trusting replaces the active connection: if the user has at most one active connection
  to a peer, and the two signatures that are made, one that revokes this connection and one for the new settings,
  give different ids that the store does not know, the second of which no revocation of the user names, then recording
  a change of trust succeeds, the peer has the new settings, and the connection with the new settings is the
  one and only active connection to the peer.  Signatures that are not deterministic meet the condition; with Ed25519
  the same settings give the same id again, and then the next theorem applies.\<close>

theorem recordTrustChange_active:
  assumes m: "marshal_ok env" and u: "userID \<noteq> []" "peID p \<noteq> []"
    and one: "\<forall>a\<in>activeCandidates (ceCodec env) userID (peID p) s. \<forall>b\<in>activeCandidates (ceCodec env) userID (peID p) s. a = b"
    and ids: "\<forall>n\<in>set (cachedConnections s). ccID n \<noteq> []"
    and i: "i = itID (itemFor env rnd2 sg (connPayload userID p))"
    and fresh: "\<forall>n. GetActiveConnection (ceCodec env) userID (peID p) s = Some n \<longrightarrow>
         itID (itemFor env rnd1 sg (revPayload userID (ccID n))) \<notin> insert i (ccID ` set (cachedConnections s))"
      "i \<notin> ccID ` set (cachedConnections s)"
    and unnamed: "\<forall>r\<in>set (cachedConnections s). ccSigner r = userID \<longrightarrow>
         decRef (ceCodec env) (ccPayload r) \<noteq> Some (''connection_revocation'', i)"
  shows "\<exists>s' n l. recordTrustChange env rnd1 rnd2 now sg userID p s = (s', None)
     \<and> GetPeer (peID p) s' = Inr (p\<lparr>peLastSyncedAt := l\<rparr>)
     \<and> activeCandidates (ceCodec env) userID (peID p) s' = {n}
     \<and> GetActiveConnection (ceCodec env) userID (peID p) s' = Some n
     \<and> ccID n = i \<and> decPayload (ceCodec env) (ccPayload n) = Some (connPayload userID p)"
proof -
  let ?c = "ceCodec env" and ?it = "itemFor env rnd2 sg (connPayload userID p)"
  obtain s1 where s1: "revokeActiveConnection env rnd1 now sg userID (peID p) s = (s1, None)"
      "activeCandidates ?c userID (peID p) s1 = {}"
      "set (cachedConnections s1) \<subseteq> set (cachedConnections s) \<union>
       {storedConnection (connectionRow userID (peID p) now (itemFor env rnd1 sg (revPayload userID (ccID n)))) | n.
         n \<in> set (cachedConnections s) \<and> GetActiveConnection ?c userID (peID p) s = Some n}"
    by (rule revokeActiveConnection_clears[OF m u(1) one ids, of rnd1 sg now]) (use fresh in auto)
  let ?n = "storedConnection (connectionRow userID (peID p) now ?it)"
  let ?s' = "SavePeer p (SaveCachedConnection (connectionRow userID (peID p) now ?it) s1)"
  have step: "recordTrustChange env rnd1 rnd2 now sg userID p s = (?s', None)"
    using s1(1) signPayload_valid[OF Validate_connections(2)[OF u]] by (simp add: recordTrustChange_def)
  have new: "i \<notin> ccID ` set (cachedConnections s1)"
  proof
    assume "i \<in> ccID ` set (cachedConnections s1)"
    then obtain x where x: "x \<in> set (cachedConnections s1)" "ccID x = i" by auto
    from subsetD[OF s1(3) x(1)] x(2) fresh show False
      by (auto simp: storedConnection_def connectionRow_def)
  qed
  have rows: "set (cachedConnections ?s') = insert ?n (set (cachedConnections s1))"
    using new by (simp add: SavePeer_def saved_connections connectionRow_def i image_iff)
  have "\<forall>r\<in>set (cachedConnections s1). ccSigner r = userID \<longrightarrow>
      decRef ?c (ccPayload r) \<noteq> Some (''connection_revocation'', itID ?it)"
  proof (intro ballI impI)
    fix r
    assume r: "r \<in> set (cachedConnections s1)" and own: "ccSigner r = userID"
    from subsetD[OF s1(3) r]
    show "decRef ?c (ccPayload r) \<noteq> Some (''connection_revocation'', itID ?it)"
    proof
      assume "r \<in> set (cachedConnections s)"
      with unnamed own show ?thesis by (simp add: i)
    next
      assume "r \<in> {storedConnection (connectionRow userID (peID p) now (itemFor env rnd1 sg (revPayload userID (ccID n)))) | n.
         n \<in> set (cachedConnections s) \<and> GetActiveConnection ?c userID (peID p) s = Some n}"
      then obtain n where "n \<in> set (cachedConnections s)" "ccPayload r = ceMarshal env (revPayload userID (ccID n))"
        by (auto simp: storedConnection_def connectionRow_def)
      with fresh(2) show ?thesis by (auto simp: i marshal_simps(2)[OF m] revPayload_def image_iff)
    qed
  qed
  then have cand: "activeCandidates ?c userID (peID p) ?s' = {?n}"
    by (intro activeCandidates_new[OF m s1(2) refl _ rows]) simp_all
  then have act: "GetActiveConnection ?c userID (peID p) ?s' = Some ?n"
    using GetActiveConnection_spec[of ?c userID "peID p" ?s'] by (auto split: option.splits)
  have peer: "GetPeer (peID p) ?s' = Inr (p\<lparr>peLastSyncedAt := Option.bind (rowByKey peID (peID p) (peers s1)) peLastSyncedAt\<rparr>)"
    by (simp add: GetPeer_def orNotFound_def peerTable.get_put SaveCachedConnection_def)
  have "ccID ?n = i" "decPayload ?c (ccPayload ?n) = Some (connPayload userID p)"
    by (simp_all add: i storedConnection_def connectionRow_def marshal_simps[OF m])
  with step peer cand act show ?thesis by blast
qed

text \<open>Trusting again what was revoked has no effect on the connections: when the signature is
  deterministic, so that the same settings give the id of a connection that a revocation
  of the user already names, the command reports success and the peer is saved, but
  the connection it records is not active.\<close>

theorem recordTrustChange_again_inactive:
  assumes m: "marshal_ok env" and u: "userID \<noteq> []" "peID p \<noteq> []"
    and i: "i = itID (itemFor env rnd2 sg (connPayload userID p))" "i \<noteq> []"
    and named: "r \<in> set (cachedConnections s)" "ccSigner r = userID"
      "decRef (ceCodec env) (ccPayload r) = Some (''connection_revocation'', i)"
    and recorded: "recordTrustChange env rnd1 rnd2 now sg userID p s = (s', None)"
  shows "\<forall>n. GetActiveConnection (ceCodec env) userID (peID p) s' = Some n \<longrightarrow> ccID n \<noteq> i"
proof -
  have kept: "set (cachedConnections s) \<subseteq> set (cachedConnections s')"
    using recorded unfolding recordTrustChange_def revokeActiveConnection_def
    by (auto simp: andThen_def withValue_def SavePeer_def saved_connections Let_def
        split: option.splits sum.splits prod.splits if_splits)
  have "ccID n \<noteq> i" if "n \<in> activeCandidates (ceCodec env) userID (peID p) s'" for n
    using subsetD[OF kept named(1)] named(2,3) i(2) that by (auto simp: activeCandidates_def)
  then show ?thesis
    using GetActiveConnection_spec[of "ceCodec env" userID "peID p" s'] by (auto split: option.splits)
qed

section \<open>Peers are parsed at the last at sign\<close>

lemma lastIndexOf_None: "lastIndexOf c s = None \<longleftrightarrow> c \<notin> set s"
  by (induction s) (auto split: option.splits)

lemma lastIndexOf_append: "c \<notin> set b \<Longrightarrow> lastIndexOf c (a @ c # b) = Some (length a)"
  by (induction a) (auto simp: lastIndexOf_None split: option.split)

lemma lastIndexOf_Some: "lastIndexOf c s = Some n \<Longrightarrow> s = take n s @ c # drop (Suc n) s \<and> c \<notin> set (drop (Suc n) s)"
proof (induction s arbitrary: n)
  case (Cons x xs)
  then show ?case by (cases "lastIndexOf c xs") (auto simp: lastIndexOf_None split: if_splits)
qed simp

lemma parsePeer_iff:
  "parsePeer arg = Inr (i, url) \<longleftrightarrow> arg = i @ CHR ''@'' # url \<and> i \<noteq> [] \<and> CHR ''@'' \<notin> set url"
proof
  assume "parsePeer arg = Inr (i, url)"
  then obtain n where "lastIndexOf CHR ''@'' arg = Some n" "1 \<le> n" "i = take n arg" "url = drop (n + 1) arg"
    by (auto simp: parsePeer_def split: option.splits if_splits)
  with lastIndexOf_Some[of "CHR ''@''" arg n] show "arg = i @ CHR ''@'' # url \<and> i \<noteq> [] \<and> CHR ''@'' \<notin> set url"
    by (cases arg) auto
next
  assume "arg = i @ CHR ''@'' # url \<and> i \<noteq> [] \<and> CHR ''@'' \<notin> set url"
  then show "parsePeer arg = Inr (i, url)"
    using lastIndexOf_append[of "CHR ''@''" url i] by (cases i) (auto simp: parsePeer_def)
qed

section \<open>The public key of a peer\<close>

lemma GetCachedUser_SaveCachedUser:
  "GetCachedUser i (SaveCachedUser u s) =
     (if i = cuID u then Inr (u\<lparr>cuFetchedAt := cutToSecond (cuFetchedAt u)\<rparr>) else GetCachedUser i s)"
  by (simp add: GetCachedUser_def orNotFound_def userTable.get_put)

text \<open>A server asked for one user can overwrite the key cached for another: the row is stored
  under the id that the answer names, while the hash is compared with the id asked for.\<close>

lemma fetch_overwrites_other:
  assumes "b64Decode pubkey = Some pub" and "userIDOf sch pub = userID"
  shows "\<exists>s'. fetchAndCachePubkey sch now
       (Some \<lparr>usID = victim, usUsername = n, usPubKey = pubkey, usAlgorithm = a, usIsAdmin = False\<rparr>) userID s = (s', None)
     \<and> (\<exists>u. GetCachedUser victim s' = Inr u \<and> cuPubKey u = pubkey)"
  using assms by (simp add: fetchAndCachePubkey_def GetCachedUser_SaveCachedUser)

end
