(* ===== verification/Cli_Http.thy ===== *)
theory Cli_Http
  imports Cli_Trust Server_Upload
begin

text \<open>
  The requests the client makes: \<open>client.go\<close>, the authorization header of \<open>auth.go\<close>, the
  private requests of \<open>mirror.go\<close>, and \<open>register.go\<close>.  The network is a state of any type
  with a function that sends a request to a server and returns the answer, \<open>None\<close> when
  the request fails; \<open>talksTo\<close> says that the program's own server is at the other end.
\<close>

section \<open>The network\<close>

text \<open>Encoders are \<open>json.Marshal\<close> of the struct that the function fills in, decoders are
  \<open>json.Decoder.Decode\<close> into the type expected; an array may hold \<open>null\<close>, a nil pointer.
  \<open>htUserID\<close> is the id after a decode whose error is dropped.\<close>

record 'w http =
  htSend :: "string \<Rightarrow> request \<Rightarrow> 'w \<Rightarrow> response option \<times> 'w"
  htEncSig :: "sigInput \<Rightarrow> string"
  htEncConn :: "connInput \<Rightarrow> bool option \<Rightarrow> string"
  htEncUser :: "userInput \<Rightarrow> string"
  htDecSig :: "body \<Rightarrow> signature option"
  htDecSigs :: "body \<Rightarrow> signature option list option"
  htDecConns :: "body \<Rightarrow> connection option list option"
  htDecUser :: "body \<Rightarrow> user option"
  htUserID :: "body \<Rightarrow> string"
  htEncToken :: "authToken \<Rightarrow> string"
  htEncEnvelope :: "signedAuthEnvelope \<Rightarrow> string"
  htFormat :: "int \<Rightarrow> string"

text \<open>The server url is the base that the path of the request is appended to.\<close>

definition getRequest :: "string list \<Rightarrow> string \<Rightarrow> request" where
  "getRequest path since =
     \<lparr>rqMethod = ''GET'', rqPath = path, rqAuthorization = [], rqSince = since, rqBody = []\<rparr>"

definition postRequest :: "string list \<Rightarrow> string \<Rightarrow> request" where
  "postRequest path bdy =
     \<lparr>rqMethod = ''POST'', rqPath = path, rqAuthorization = [], rqSince = [], rqBody = bdy\<rparr>"

definition userURL :: "string \<Rightarrow> string list" where "userURL userID = [''v1'', ''users'', userID]"
definition sigsURL :: "string \<Rightarrow> string list" where "sigsURL userID = userURL userID @ [''signatures'']"
definition connsURL :: "string \<Rightarrow> string list" where "connsURL userID = userURL userID @ [''connections'']"

section \<open>Public requests\<close>

definition sinceParam :: "'w http \<Rightarrow> int option \<Rightarrow> string" where
  "sinceParam ht since = (case since of None \<Rightarrow> [] | Some t \<Rightarrow> htFormat ht t)"

text \<open>An answer with the expected status, decoded; \<open>None\<close> is an error of any kind.\<close>

definition okDecoded :: "(body \<Rightarrow> 'a option) \<Rightarrow> response option \<Rightarrow> 'a option" where
  "okDecoded dec resp = (case resp of None \<Rightarrow> None | Some r \<Rightarrow> if rsStatus r \<noteq> 200 then None else dec (rsBody r))"

definition fetchUser :: "'w http \<Rightarrow> string \<Rightarrow> string \<Rightarrow> 'w \<Rightarrow> user option \<times> 'w" where
  "fetchUser ht serverURL userID w =
     (case htSend ht serverURL (getRequest (userURL userID) []) w of
       (resp, w') \<Rightarrow> (okDecoded (htDecUser ht) resp, w'))"

definition fetchUserSignatures :: "'w http \<Rightarrow> string \<Rightarrow> string \<Rightarrow> int option \<Rightarrow> 'w \<Rightarrow> signature option list option \<times> 'w" where
  "fetchUserSignatures ht serverURL userID since w =
     (case htSend ht serverURL (getRequest (sigsURL userID) (sinceParam ht since)) w of
       (resp, w') \<Rightarrow> (okDecoded (htDecSigs ht) resp, w'))"

definition fetchUserConnections :: "'w http \<Rightarrow> string \<Rightarrow> string \<Rightarrow> int option \<Rightarrow> 'w \<Rightarrow> connection option list option \<times> 'w" where
  "fetchUserConnections ht serverURL userID since w =
     (case htSend ht serverURL (getRequest (connsURL userID) (sinceParam ht since)) w of
       (resp, w') \<Rightarrow> (okDecoded (htDecConns ht) resp, w'))"

definition uploadSignature :: "'w http \<Rightarrow> string \<Rightarrow> string \<Rightarrow> sigInput \<Rightarrow> 'w \<Rightarrow> cliError option \<times> 'w" where
  "uploadSignature ht serverURL userID req w =
     (case htSend ht serverURL (postRequest (sigsURL userID) (htEncSig ht req)) w of
       (None, w') \<Rightarrow> (Some RequestFailed, w')
     | (Some r, w') \<Rightarrow>
         if rsStatus r \<noteq> 201 then (Some (ServerReturned (rsStatus r)), w')
         else if htDecSig ht (rsBody r) = None then (Some RequestFailed, w') else (None, w'))"

definition uploadConnection :: "'w http \<Rightarrow> string \<Rightarrow> string \<Rightarrow> connInput \<Rightarrow> 'w \<Rightarrow> cliError option \<times> 'w" where
  "uploadConnection ht serverURL userID req w =
     (case htSend ht serverURL (postRequest (connsURL userID) (htEncConn ht req None)) w of
       (None, w') \<Rightarrow> (Some RequestFailed, w')
     | (Some r, w') \<Rightarrow>
         if rsStatus r \<noteq> 201 \<and> rsStatus r \<noteq> 204 then (Some (ServerReturned (rsStatus r)), w') else (None, w'))"

section \<open>Authorization\<close>

definition mintAuthHeader :: "schemes \<Rightarrow> 'w http \<Rightarrow> string \<Rightarrow> int \<Rightarrow> signer \<Rightarrow> string \<Rightarrow> string \<Rightarrow> string" where
  "mintAuthHeader sch ht rnd now sg userID serverURL =
     (let payload = htEncToken ht \<lparr>atType = AuthTokenType, atSigner = userID, atServer = serverURL,
            atIAT = htFormat ht now, atEXP = htFormat ht (now + MaxAuthTokenLifetime div 2)\<rparr>;
          envelope = htEncEnvelope ht \<lparr>aePayload = payload, aeAlgorithm = signerAlgorithm sg,
            aeSig = b64Encode (signerSign sch rnd sg payload)\<rparr>
      in ''Tillit '' @ b64Encode envelope)"

text \<open>Scheme and host of a parsed URL: the host ends at the path, query or fragment and does
  not include the user information.\<close>

fun splitScheme :: "string \<Rightarrow> string \<times> string" where
  "splitScheme [] = ([], [])"
| "splitScheme (c # s) = (if hasPrefix (c # s) ''://'' then ([], drop 2 s)
     else (case splitScheme s of (a, b) \<Rightarrow> (c # a, b)))"

definition urlHost :: "string \<Rightarrow> string" where
  "urlHost rest = (let h = takeWhile (\<lambda>c. c \<notin> set ''/?#'') rest
     in rev (takeWhile (\<lambda>c. c \<noteq> CHR ''@'') (rev h)))"

definition trimRightSlash :: "string \<Rightarrow> string" where
  "trimRightSlash s = rev (dropWhile (\<lambda>c. c = CHR ''/'') (rev s))"

definition requestOrigin :: "string \<Rightarrow> string" where
  "requestOrigin url = (case splitScheme url of (scheme, rest) \<Rightarrow> trimRightSlash (toLower scheme @ ''://'' @ urlHost rest))"

definition withAuth :: "schemes \<Rightarrow> 'w http \<Rightarrow> string \<Rightarrow> int \<Rightarrow> signer \<Rightarrow> string \<Rightarrow> string \<Rightarrow> request \<Rightarrow> request" where
  "withAuth sch ht rnd now sg userID serverURL r =
     r\<lparr>rqAuthorization := mintAuthHeader sch ht rnd now sg userID (requestOrigin serverURL)\<rparr>"

section \<open>Private requests\<close>

definition privateStatus :: "nat set \<Rightarrow> response option \<times> 'w \<Rightarrow> cliError option \<times> 'w" where
  "privateStatus good res = (case res of
     (None, w') \<Rightarrow> (Some RequestFailed, w')
   | (Some r, w') \<Rightarrow> if rsStatus r \<notin> good then (Some (ServerReturned (rsStatus r)), w') else (None, w'))"

definition postPrivateSignature ::
  "schemes \<Rightarrow> 'w http \<Rightarrow> string \<Rightarrow> int \<Rightarrow> string \<Rightarrow> string \<Rightarrow> signer \<Rightarrow> cachedSignature \<Rightarrow> 'w \<Rightarrow> cliError option \<times> 'w" where
  "postPrivateSignature sch ht rnd now serverURL userID sg g w =
     (let bdy = htEncSig ht \<lparr>sinID = csID g, sinPayload = csPayload g, sinAlgorithm = csAlgorithm g,
            sinSig = csSig g, sinPublic = Some False\<rparr>
      in privateStatus {201}
           (htSend ht serverURL (withAuth sch ht rnd now sg userID serverURL (postRequest (sigsURL userID) bdy)) w))"

definition postPrivateConnection ::
  "schemes \<Rightarrow> 'w http \<Rightarrow> string \<Rightarrow> int \<Rightarrow> string \<Rightarrow> string \<Rightarrow> signer \<Rightarrow> cachedConnection \<Rightarrow> 'w \<Rightarrow> cliError option \<times> 'w" where
  "postPrivateConnection sch ht rnd now serverURL userID sg n w =
     (let bdy = htEncConn ht \<lparr>ciID = ccID n, ciPayload = ccPayload n, ciAlgorithm = ccAlgorithm n,
            ciSig = ccSig n\<rparr> (Some False)
      in privateStatus {201, 204}
           (htSend ht serverURL (withAuth sch ht rnd now sg userID serverURL (postRequest (connsURL userID) bdy)) w))"

definition fetchUserSignaturesAuth ::
  "schemes \<Rightarrow> 'w http \<Rightarrow> string \<Rightarrow> int \<Rightarrow> string \<Rightarrow> string \<Rightarrow> signer \<Rightarrow> 'w \<Rightarrow> signature option list option \<times> 'w" where
  "fetchUserSignaturesAuth sch ht rnd now serverURL userID sg w =
     (case htSend ht serverURL (withAuth sch ht rnd now sg userID serverURL (getRequest (sigsURL userID) [])) w of
       (resp, w') \<Rightarrow> (okDecoded (htDecSigs ht) resp, w'))"

definition fetchUserConnectionsAuth ::
  "schemes \<Rightarrow> 'w http \<Rightarrow> string \<Rightarrow> int \<Rightarrow> string \<Rightarrow> string \<Rightarrow> signer \<Rightarrow> 'w \<Rightarrow> connection option list option \<times> 'w" where
  "fetchUserConnectionsAuth sch ht rnd now serverURL userID sg w =
     (case htSend ht serverURL (withAuth sch ht rnd now sg userID serverURL (getRequest (connsURL userID) [])) w of
       (resp, w') \<Rightarrow> (okDecoded (htDecConns ht) resp, w'))"

section \<open>Registering\<close>

definition Register :: "schemes \<Rightarrow> 'w http \<Rightarrow> string list \<Rightarrow> store \<Rightarrow> 'w \<Rightarrow> outcome \<times> 'w" where
  "Register sch ht args s w =
     (case args of
        [] \<Rightarrow> ((s, Some (Usage ''tillit register <server_url> [alias]'')), w)
      | url # rest \<Rightarrow>
         (let serverURL = trimRightSlash url; alias = (case rest of [] \<Rightarrow> [] | a # _ \<Rightarrow> a) in
          case GetActiveKey s of
            Inl _ \<Rightarrow> ((s, Some NoActiveKeySet), w)
          | Inr keyName \<Rightarrow> (case GetKey keyName s of
              Inl e \<Rightarrow> ((s, Some (StoreErr e)), w)
            | Inr k \<Rightarrow> (case b64Decode (kyPubKey k) of
                None \<Rightarrow> ((s, Some BadPublicKey), w)
              | Some pubBytes \<Rightarrow>
                 (let u = \<lparr>uinID = userIDOf sch pubBytes, uinUsername = keyName, uinPubKey = kyPubKey k,
                        uinAlgorithm = kyAlgorithm k\<rparr> in
                  case htSend ht serverURL (postRequest [''v1'', ''users''] (htEncUser ht u)) w of
                    (None, w') \<Rightarrow> ((s, Some RequestFailed), w')
                  | (Some r, w') \<Rightarrow>
                      if rsStatus r \<noteq> 201 \<and> rsStatus r \<noteq> 200 then ((s, Some (ServerReturned (rsStatus r))), w')
                      else ((SaveServer \<lparr>svURL = serverURL, svAlias = alias, svUserID = htUserID ht (rsBody r),
                               svLastSyncedAt = None\<rparr> s, None), w'))))))"

section \<open>The server at the other end\<close>

text \<open>The network is the database of one server, whose clock may show anything at each request;
  what one side encodes the other decodes, times to the second.\<close>

definition talksTo :: "serverDb http \<Rightarrow> env \<Rightarrow> bool" where
  "talksTo ht env \<longleftrightarrow>
     (\<forall>url r db. \<exists>ta tn. htSend ht url r db = (Some (fst (serve env ta tn r db)), snd (serve env ta tn r db)))
     \<and> (\<forall>i. evSigInput env (htEncSig ht i) = Some i) \<and> (\<forall>i b. evConnInput env (htEncConn ht i b) = Some i)
     \<and> (\<forall>u. evUserInput env (htEncUser ht u) = Some u) \<and> (\<forall>g. htDecSig ht (SigBody g) = Some g)
     \<and> (\<forall>u. htUserID ht (UserBody u) = usID u)"

definition authCoded :: "'w http \<Rightarrow> env \<Rightarrow> bool" where
  "authCoded ht env \<longleftrightarrow>
     (\<forall>a. evEnvelope env (htEncEnvelope ht a) = Some a) \<and> (\<forall>t. evToken env (htEncToken ht t) = Some t)
     \<and> (\<forall>t. evTime env (htFormat ht t) = Some (cutToSecond t))"

lemma cutToSecond_bounds: "cutToSecond t \<le> t" "t < cutToSecond t + second"
  unfolding cutToSecond_def second_def by presburger+

lemma cutToSecond_add: "cutToSecond (t + n * second) = cutToSecond t + n * second"
  by (simp add: cutToSecond_def second_def algebra_simps)

lemma verifiesFor_key:
  "usAlgorithm u = usAlgorithm v \<Longrightarrow> usPubKey u = usPubKey v \<Longrightarrow> verifiesFor k u = verifiesFor k v"
proof -
  assume "usAlgorithm u = usAlgorithm v" "usPubKey u = usPubKey v"
  then have "user_Verifier k u = user_Verifier k v"
    by (cases "b64Decode (usPubKey v)") (simp_all add: user_Verifier_def)
  then show ?thesis by (simp add: verifiesFor_def fun_eq_iff)
qed

lemma withAuth_accepted:
  assumes sch: "schemes_ok (evSchemes env)" and coded: "authCoded ht env"
    and sg: "LoadSigner (evSchemes env) alg priv = Inr sg"
    and u: "GetUser userID db = Inr u" "userID \<noteq> []" "usAlgorithm u = signerAlgorithm sg"
      "usPubKey u = b64Encode (signerPublicKey (evSchemes env) sg)"
    and url: "evPublicURL env = requestOrigin serverURL"
    and time: "now - 60 * second \<le> serverNow" "serverNow \<le> now + 149 * second"
  shows "authenticateRequest env (withAuth (evSchemes env) ht rnd now sg userID serverURL r) db serverNow = Inr u"
proof -
  let ?tok = "\<lparr>atType = AuthTokenType, atSigner = userID, atServer = requestOrigin serverURL,
     atIAT = htFormat ht now, atEXP = htFormat ht (now + MaxAuthTokenLifetime div 2)\<rparr>"
  let ?p = "htEncToken ht ?tok"
  let ?ae = "\<lparr>aePayload = ?p, aeAlgorithm = signerAlgorithm sg, aeSig = b64Encode (signerSign (evSchemes env) rnd sg ?p)\<rparr>"
  have id: "usID u = userID" using u(1) GetUser_props by blast
  have "cutToSecond (now + MaxAuthTokenLifetime div 2) = cutToSecond now + 150 * second"
    using cutToSecond_add[of now 150] by (simp add: MaxAuthTokenLifetime_def second_def)
  then have "authToken_Validate (evTime env) serverNow (evPublicURL env) ?tok = None"
    using coded u(2) time cutToSecond_bounds[of now]
    by (simp add: authToken_Validate_None authCoded_def url AuthTokenType_def second_def)
  moreover have "verifiesFor (evSchemes env) u ?p (b64Encode (signerSign (evSchemes env) rnd sg ?p))"
    using signed_verifies[OF sch sg, of "[]" ?p rnd] u(3,4)
      verifiesFor_key[of u "NewUserFromSigner (evSchemes env) [] sg"]
    by (simp add: NewUserFromSigner_def Let_def)
  ultimately have "tokenFor env (rqAuthorization (withAuth (evSchemes env) ht rnd now sg userID serverURL r)) u serverNow"
    using coded unfolding tokenFor_def
    by - (rule exI[of _ "b64Encode (htEncEnvelope ht ?ae)"], rule exI[of _ "htEncEnvelope ht ?ae"],
       auto simp: withAuth_def mintAuthHeader_def Let_def authScheme_def b64Decode_Encode authCoded_def id)
  with u(1) id show ?thesis by (simp add: authenticateRequest_Inr)
qed

text \<open>C19: The client's authorization is accepted: a request that the holder of a registered key
  makes with \<open>withAuth\<close> is authenticated as that user, at every moment from one minute
  before to two and a half minutes (less a second) after it was made by the client's
  clock, if the server's public URL is the scheme and host of the URL that the client uses.\<close>

theorem withAuth_authenticates:
  assumes sch: "schemes_ok (evSchemes env)" and coded: "authCoded ht env"
    and sg: "LoadSigner (evSchemes env) alg priv = Inr sg"
    and u: "GetUser userID db = Inr u" "userID \<noteq> []" "usAlgorithm u = signerAlgorithm sg"
      "usPubKey u = b64Encode (signerPublicKey (evSchemes env) sg)"
    and url: "evPublicURL env = requestOrigin serverURL"
    and time: "now - 60 * second \<le> serverNow" "serverNow \<le> now + 149 * second"
  shows "authenticateRequest env (withAuth (evSchemes env) ht rnd now sg userID serverURL r) db serverNow = Inr u"
  by (rule withAuth_accepted[OF assms])

section \<open>Registering at the program's own server\<close>

text \<open>A request to the program's server, by its path.\<close>

lemma talksTo_send:
  assumes "talksTo ht env"
  obtains ta tn where "htSend ht url r db = (Some (fst (serve env ta tn r db)), snd (serve env ta tn r db))"
  using assms unfolding talksTo_def by blast

lemma serve_postUsers:
  "serve env ta tn (postRequest [''v1'', ''users''] b) db = CreateUserHandler env None (postRequest [''v1'', ''users''] b) db"
  by (simp add: serve_def postRequest_def methodMatches_def usersPath_def)

text \<open>Registering succeeds exactly when the server knows neither the id nor the name nor the
  key: then the server has the user, with the id that is the hash of the key, and the
  client has the server with that id; otherwise the answer is 500 and neither side
  changes.  The name is that of the key, which \<open>tillit init\<close> calls \<open>default\<close>, so at most one
  user of a server can register with the key that \<open>tillit init\<close> made.\<close>

theorem Register_iff:
  assumes net: "talksTo ht env"
    and k: "GetActiveKey s = Inr keyName" "GetKey keyName s = Inr k" "b64Decode (kyPubKey k) = Some pub"
    and u: "u = \<lparr>usID = userIDOf sch pub, usUsername = keyName, usPubKey = kyPubKey k,
               usAlgorithm = kyAlgorithm k, usIsAdmin = False\<rparr>"
  shows "Register sch ht [url] s db =
     (if \<exists>v\<in>set (dbUsers db). usID v = usID u \<or> usUsername v = keyName \<or> usPubKey v = usPubKey u
      then ((s, Some (ServerReturned 500)), db)
      else ((SaveServer \<lparr>svURL = trimRightSlash url, svAlias = [], svUserID = usID u, svLastSyncedAt = None\<rparr> s, None),
            db\<lparr>dbUsers := dbUsers db @ [u]\<rparr>))"
proof -
  let ?inp = "\<lparr>uinID = userIDOf sch pub, uinUsername = keyName, uinPubKey = kyPubKey k, uinAlgorithm = kyAlgorithm k\<rparr>"
  let ?r = "postRequest [''v1'', ''users''] (htEncUser ht ?inp)"
  obtain ta tn where send: "htSend ht (trimRightSlash url) ?r db = (Some (fst (serve env ta tn ?r db)), snd (serve env ta tn ?r db))"
    by (rule talksTo_send[OF net])
  have inp: "evUserInput env (rqBody ?r) = Some ?inp" and uid: "htUserID ht (UserBody u) = usID u"
    using net by (simp_all add: talksTo_def postRequest_def)
  show ?thesis
  proof (cases "\<exists>v\<in>set (dbUsers db). usID v = usID u \<or> usUsername v = keyName \<or> usPubKey v = usPubKey u")
    case True
    then have "CreateUser u db = Inl UniqueViolation"
      by (auto simp: CreateUser_def list_ex_iff u)
    then have "serve env ta tn ?r db = (httpError 500 ''Failed creating user'', db)"
      using inp by (simp add: serve_postUsers CreateUserHandler_def Let_def u)
    with True send k show ?thesis by (simp add: Register_def Let_def httpError_def)
  next
    case False
    then have "CreateUser u db = Inr (db\<lparr>dbUsers := dbUsers db @ [u]\<rparr>)"
      by (auto simp: CreateUser_def list_ex_iff u)
    then have "serve env ta tn ?r db = (Response 201 (UserBody u), db\<lparr>dbUsers := dbUsers db @ [u]\<rparr>)"
      using inp by (simp add: serve_postUsers CreateUserHandler_def Let_def u)
    with False send k uid show ?thesis by (simp add: Register_def Let_def)
  qed
qed

end
