(* ===== verification/Cli_Sync.thy ===== *)
theory Cli_Sync
  imports Cli_Http
begin

text \<open>
  Synchronising with peers and publishing to servers, \<open>sync.go\<close>.  The loops are over the
  rows as they were read before the first of them is handled; a row that fails is
  skipped and the loop goes on.
\<close>

section \<open>Fetching from one peer\<close>

text \<open>The loop over an answer: a \<open>null\<close> is a nil pointer and the program dies at it.  The flag says
  whether it did.\<close>

fun cacheVerified :: "('a \<Rightarrow> store \<Rightarrow> bool) \<Rightarrow> ('a \<Rightarrow> store \<Rightarrow> store) \<Rightarrow> 'a option list \<Rightarrow> store \<Rightarrow> store \<times> bool" where
  "cacheVerified ok save [] s = (s, False)"
| "cacheVerified ok save (None # xs) s = (s, True)"
| "cacheVerified ok save (Some x # xs) s = cacheVerified ok save xs (if ok x s then save x s else s)"

definition syncConnRow :: "int \<Rightarrow> string \<Rightarrow> connection \<Rightarrow> cachedConnection" where
  "syncConnRow now peerID c =
     \<lparr>ccID = cnID c, ccSigner = peerID, ccOtherID = cnOtherID c, ccPayload = cnPayload c,
      ccAlgorithm = cnAlgorithm c, ccSig = cnSig c, ccCreatedAt = cnCreatedAt c,
      ccRevoked = cnRevoked c, ccRevokedAt = cnRevokedAt c, ccFetchedAt = now\<rparr>"

definition syncSigRow :: "int \<Rightarrow> signature \<Rightarrow> cachedSignature" where
  "syncSigRow now g =
     \<lparr>csID = sgID g, csSigner = sgSigner g, csPayload = sgPayload g, csAlgorithm = sgAlgorithm g,
      csSig = sgSig g, csUploadedAt = sgUploadedAt g, csRevoked = sgRevoked g,
      csRevokedAt = sgRevokedAt g, csFetchedAt = now\<rparr>"

definition cacheConnections :: "schemes \<Rightarrow> int \<Rightarrow> string \<Rightarrow> connection option list \<Rightarrow> store \<Rightarrow> store \<times> bool" where
  "cacheConnections sch now peerID = cacheVerified
     (\<lambda>c s. verifySigned sch s peerID (cnPayload c) (cnAlgorithm c) (cnSig c) = None)
     (\<lambda>c s. SaveCachedConnection (syncConnRow now peerID c) s)"

definition cacheSignatures :: "schemes \<Rightarrow> int \<Rightarrow> string \<Rightarrow> signature option list \<Rightarrow> store \<Rightarrow> store \<times> bool" where
  "cacheSignatures sch now peerID = cacheVerified
     (\<lambda>g s. verifySigned sch s peerID (sgPayload g) (sgAlgorithm g) (sgSig g) = None)
     (\<lambda>g s. SaveCachedSignature (syncSigRow now g) s)"

text \<open>The public key of a peer is fetched if it is not cached; \<open>pubNow\<close> is the clock then.  The flag
  says whether to go on with the peer.\<close>

definition ensurePubkey :: "schemes \<Rightarrow> 'w http \<Rightarrow> int \<Rightarrow> peer \<Rightarrow> store \<Rightarrow> 'w \<Rightarrow> store \<times> 'w \<times> bool" where
  "ensurePubkey sch ht pubNow p s w =
     (case GetCachedUser (peID p) s of
        Inr _ \<Rightarrow> (s, w, True)
      | Inl _ \<Rightarrow> (case fetchUser ht (peServerURL p) (peID p) w of
          (resp, w') \<Rightarrow> (case fetchAndCachePubkey sch pubNow resp (peID p) s of
            (s', None) \<Rightarrow> (s', w', True)
          | (s', Some _) \<Rightarrow> (s', w', False))))"

definition fetchedRows :: "'a option list option \<Rightarrow> 'a option list" where
  "fetchedRows r = (case r of None \<Rightarrow> [] | Some l \<Rightarrow> l)"

text \<open>The body of the loop over the peers; the flag says whether the program died.\<close>

definition syncPeer :: "schemes \<Rightarrow> 'w http \<Rightarrow> int \<Rightarrow> (string \<Rightarrow> int) \<Rightarrow> peer \<Rightarrow> store \<Rightarrow> 'w \<Rightarrow> store \<times> 'w \<times> bool" where
  "syncPeer sch ht now pubNow p s w =
     (if peDistrusted p then (s, w, False)
      else (case ensurePubkey sch ht (pubNow (peID p)) p s w of
        (s1, w1, False) \<Rightarrow> (s1, w1, False)
      | (s1, w1, True) \<Rightarrow> (case fetchUserConnections ht (peServerURL p) (peID p) (peLastSyncedAt p) w1 of
          (conns, w2) \<Rightarrow> (case cacheConnections sch now (peID p) (fetchedRows conns) s1 of
            (s2, True) \<Rightarrow> (s2, w2, True)
          | (s2, False) \<Rightarrow> (case fetchUserSignatures ht (peServerURL p) (peID p) (peLastSyncedAt p) w2 of
              (None, w3) \<Rightarrow> (s2, w3, False)
            | (Some sigs, w3) \<Rightarrow> (case cacheSignatures sch now (peID p) sigs s2 of
                (s3, True) \<Rightarrow> (s3, w3, True)
              | (s3, False) \<Rightarrow> (orUnchanged s3 (SetPeerLastSyncedAt (peID p) now s3), w3, False)))))))"

fun syncPeers :: "schemes \<Rightarrow> 'w http \<Rightarrow> int \<Rightarrow> (string \<Rightarrow> int) \<Rightarrow> peer list \<Rightarrow> store \<Rightarrow> 'w \<Rightarrow> store \<times> 'w \<times> bool" where
  "syncPeers sch ht now pubNow [] s w = (s, w, False)"
| "syncPeers sch ht now pubNow (p # ps) s w = (case syncPeer sch ht now pubNow p s w of
     (s', w', died) \<Rightarrow> if died then (s', w', True) else syncPeers sch ht now pubNow ps s' w')"

definition Sync :: "schemes \<Rightarrow> 'w http \<Rightarrow> int \<Rightarrow> (string \<Rightarrow> int) \<Rightarrow> store \<Rightarrow> 'w \<Rightarrow> outcome \<times> 'w" where
  "Sync sch ht now pubNow s w = (case syncPeers sch ht now pubNow (ListPeers s) s w of
     (s', w', died) \<Rightarrow> ((s', if died then Some NilPointer else None), w'))"

section \<open>Publishing\<close>

definition publishSignature :: "'w http \<Rightarrow> int \<Rightarrow> string \<Rightarrow> string \<Rightarrow> cachedSignature \<Rightarrow> store \<times> 'w \<Rightarrow> store \<times> 'w" where
  "publishSignature ht now userID url g = (\<lambda>(s, w).
     if IsPushed (csID g) ItemSignature url s then (s, w)
     else (case uploadSignature ht url userID \<lparr>sinID = [], sinPayload = csPayload g, sinAlgorithm = csAlgorithm g,
              sinSig = csSig g, sinPublic = None\<rparr> w of
         (Some _, w') \<Rightarrow> (s, w')
       | (None, w') \<Rightarrow> (RecordPush (csID g) ItemSignature url now s, w')))"

definition connectionShouldBePushed :: "codec \<Rightarrow> cachedConnection \<Rightarrow> bool" where
  "connectionShouldBePushed c n =
     (case ParsePayload (decPayload c) (ccPayload n) of
        Inl _ \<Rightarrow> False
      | Inr p \<Rightarrow>
          if pType p = PayloadTypeConnectionRevocation then True
          else if pType p = PayloadTypeConnection then pPublic p
          else False)"

definition publishConnection :: "codec \<Rightarrow> 'w http \<Rightarrow> int \<Rightarrow> string \<Rightarrow> string \<Rightarrow> cachedConnection \<Rightarrow> store \<times> 'w \<Rightarrow> store \<times> 'w" where
  "publishConnection c ht now userID url n = (\<lambda>(s, w).
     if \<not> connectionShouldBePushed c n then (s, w)
     else if IsPushed (ccID n) ItemConnection url s then (s, w)
     else (case uploadConnection ht url userID \<lparr>ciID = ccID n, ciPayload = ccPayload n,
              ciAlgorithm = ccAlgorithm n, ciSig = ccSig n\<rparr> w of
         (Some _, w') \<Rightarrow> (s, w')
       | (None, w') \<Rightarrow> (RecordPush (ccID n) ItemConnection url now s, w')))"

definition publishTo ::
  "codec \<Rightarrow> 'w http \<Rightarrow> int \<Rightarrow> string \<Rightarrow> cachedSignature list \<Rightarrow> cachedConnection list \<Rightarrow> server \<Rightarrow> store \<times> 'w \<Rightarrow> store \<times> 'w" where
  "publishTo c ht now userID sigs conns srv sw =
     fold (publishConnection c ht now userID (svURL srv)) conns
       (fold (publishSignature ht now userID (svURL srv)) sigs sw)"

definition Publish :: "schemes \<Rightarrow> codec \<Rightarrow> 'w http \<Rightarrow> int \<Rightarrow> store \<Rightarrow> 'w \<Rightarrow> outcome \<times> 'w" where
  "Publish sch c ht now s w =
     (case activeUserID sch s of
        Inl e \<Rightarrow> ((s, Some e), w)
      | Inr userID \<Rightarrow>
         (if ListServers s = [] then ((s, Some (Usage ''no servers registered'')), w)
          else
            (let sigs = GetCachedSignaturesBySigner userID s; conns = GetCachedConnectionsBySigner userID s in
             if sigs = [] \<and> conns = [] then ((s, None), w)
             else (case fold (publishTo c ht now userID sigs conns) (ListServers s) (s, w) of
               (s', w') \<Rightarrow> ((s', None), w')))))"

section \<open>What synchronising can change\<close>

text \<open>The cached users: none is lost, and a new or changed row has the public key of one of the given ids that
  had no row, though perhaps under the id of somebody else.\<close>

definition usersGrew :: "schemes \<Rightarrow> string set \<Rightarrow> store \<Rightarrow> store \<Rightarrow> bool" where
  "usersGrew sch ids s s' \<longleftrightarrow> cuID ` set (cachedUsers s) \<subseteq> cuID ` set (cachedUsers s')
     \<and> (\<forall>u\<in>set (cachedUsers s'). u \<in> set (cachedUsers s)
          \<or> (\<exists>pub. b64Decode (cuPubKey u) = Some pub \<and> userIDOf sch pub \<in> ids
               \<and> userIDOf sch pub \<notin> cuID ` set (cachedUsers s)))"

text \<open>A store that grew by rows signed by keys of the given ids, whose cached users grew, and in which
  nothing else changed but the times of the last synchronisation.\<close>

definition syncGrew :: "schemes \<Rightarrow> string set \<Rightarrow> store \<Rightarrow> store \<Rightarrow> bool" where
  "syncGrew sch ids s s' \<longleftrightarrow>
     set (cachedSignatures s) \<subseteq> set (cachedSignatures s') \<and> set (cachedConnections s) \<subseteq> set (cachedConnections s')
     \<and> (\<forall>g\<in>set (cachedSignatures s'). g \<in> set (cachedSignatures s)
          \<or> (\<exists>i\<in>ids. signedBy sch i (csAlgorithm g) (csPayload g) (csSig g)))
     \<and> (\<forall>n\<in>set (cachedConnections s'). n \<in> set (cachedConnections s)
          \<or> (ccSigner n \<in> ids \<and> signedBy sch (ccSigner n) (ccAlgorithm n) (ccPayload n) (ccSig n)))
     \<and> usersGrew sch ids s s'
     \<and> keys s' = keys s \<and> activeKey s' = activeKey s \<and> servers s' = servers s \<and> pushState s' = pushState s
     \<and> map (\<lambda>p. p\<lparr>peLastSyncedAt := None\<rparr>) (peers s') = map (\<lambda>p. p\<lparr>peLastSyncedAt := None\<rparr>) (peers s)"

lemma usersGrew_same [simp]: "cachedUsers s' = cachedUsers s \<Longrightarrow> usersGrew sch ids s s'"
  by (simp add: usersGrew_def)

lemma usersGrew_trans:
  assumes "usersGrew sch ids s s1" and "usersGrew sch ids s1 s2"
  shows "usersGrew sch ids s s2"
  unfolding usersGrew_def
proof (intro conjI ballI)
  note a = assms(1)[unfolded usersGrew_def] and b = assms(2)[unfolded usersGrew_def]
  from a b show "cuID ` set (cachedUsers s) \<subseteq> cuID ` set (cachedUsers s2)" by (meson subset_trans)
  fix u assume "u \<in> set (cachedUsers s2)"
  with b consider "u \<in> set (cachedUsers s1)" | pub where "b64Decode (cuPubKey u) = Some pub" "userIDOf sch pub \<in> ids"
      "userIDOf sch pub \<notin> cuID ` set (cachedUsers s1)" by blast
  then show "u \<in> set (cachedUsers s) \<or> (\<exists>pub. b64Decode (cuPubKey u) = Some pub \<and> userIDOf sch pub \<in> ids
      \<and> userIDOf sch pub \<notin> cuID ` set (cachedUsers s))"
    using a by cases blast+
qed

lemma usersGrew_mono: "usersGrew sch ids s s' \<Longrightarrow> ids \<subseteq> ids' \<Longrightarrow> usersGrew sch ids' s s'"
  unfolding usersGrew_def by blast

lemma syncGrew_refl [simp]: "syncGrew sch ids s s"
  by (simp add: syncGrew_def)

text \<open>Sets of rows that grow by rows with a property.\<close>

lemma grew_trans:
  assumes "A \<subseteq> B \<and> (\<forall>x\<in>B. x \<in> A \<or> P x)" and "B \<subseteq> C \<and> (\<forall>x\<in>C. x \<in> B \<or> P x)"
  shows "A \<subseteq> C" and "\<forall>x\<in>C. x \<in> A \<or> P x"
  using assms by blast+

lemma syncGrew_trans:
  assumes "syncGrew sch ids s s1" and "syncGrew sch ids s1 s2"
  shows "syncGrew sch ids s s2"
proof -
  let ?P = "\<lambda>g. \<exists>i\<in>ids. signedBy sch i (csAlgorithm g) (csPayload g) (csSig g)"
  let ?Q = "\<lambda>n. ccSigner n \<in> ids \<and> signedBy sch (ccSigner n) (ccAlgorithm n) (ccPayload n) (ccSig n)"
  note sigs = grew_trans[of "set (cachedSignatures s)" "set (cachedSignatures s1)" ?P "set (cachedSignatures s2)"]
  note conns = grew_trans[of "set (cachedConnections s)" "set (cachedConnections s1)" ?Q "set (cachedConnections s2)"]
  show ?thesis
    unfolding syncGrew_def
    using assms[unfolded syncGrew_def] by (intro conjI sigs conns usersGrew_trans[of sch ids s s1 s2]) simp_all
qed

lemma syncGrew_connection:
  assumes "verifySigned sch s i (cnPayload c) (cnAlgorithm c) (cnSig c) = None" and "i \<in> ids"
  shows "syncGrew sch ids s (SaveCachedConnection (syncConnRow now i c) s)"
  using verifySigned_signedBy[OF assms(1)] assms(2)
  by (auto simp: syncGrew_def SaveCachedConnection_def set_insertIgnore storedConnection_def syncConnRow_def)

lemma syncGrew_signature:
  assumes "verifySigned sch s i (sgPayload g) (sgAlgorithm g) (sgSig g) = None" and "i \<in> ids"
  shows "syncGrew sch ids s (SaveCachedSignature (syncSigRow now g) s)"
  using verifySigned_signedBy[OF assms(1)] assms(2)
  by (auto simp: syncGrew_def SaveCachedSignature_def set_insertIgnore storedSignature_def syncSigRow_def)

lemma cacheVerified_grew:
  assumes "\<And>x s. ok x s \<Longrightarrow> syncGrew sch ids s (save x s)"
  shows "syncGrew sch ids s (fst (cacheVerified ok save xs s))"
  using assms
proof (induction xs arbitrary: s)
  case (Cons x xs)
  show ?case
  proof (cases x)
    case (Some y)
    have "syncGrew sch ids s (if ok y s then save y s else s)" using Cons.prems by simp
    then show ?thesis using Cons.IH[OF Cons.prems] Some by (auto intro: syncGrew_trans)
  qed simp
qed simp

lemma usersGrew_saved:
  assumes "b64Decode (cuPubKey u) = Some pub" and "userIDOf sch pub \<in> ids" and "userIDOf sch pub \<notin> cuID ` set (cachedUsers s)"
  shows "usersGrew sch ids s (SaveCachedUser u s)"
proof -
  let ?u = "u\<lparr>cuFetchedAt := cutToSecond (cuFetchedAt u)\<rparr>"
  have "cuID ` (\<lambda>x. if cuID x = cuID u then ?u else x) ` A = cuID ` A" for A
    unfolding image_image by (rule image_cong) auto
  then have "cuID ` set (cachedUsers s) \<subseteq> cuID ` set (cachedUsers (SaveCachedUser u s))"
    by (auto simp: SaveCachedUser_def upsertRow_def)
  moreover have "x = ?u \<or> x \<in> set (cachedUsers s)" if "x \<in> set (cachedUsers (SaveCachedUser u s))" for x
    using that by (auto simp: SaveCachedUser_def upsertRow_def split: if_splits)
  ultimately show ?thesis using assms unfolding usersGrew_def by fastforce
qed

lemma fetchAndCachePubkey_grew:
  assumes "i \<in> ids" and "i \<notin> cuID ` set (cachedUsers s)"
  shows "syncGrew sch ids s (fst (fetchAndCachePubkey sch now resp i s))"
  using assms usersGrew_saved[where sch = sch and ids = ids and s = s]
  by (auto simp: fetchAndCachePubkey_def Let_def syncGrew_def split: option.split) (simp_all add: SaveCachedUser_def)

lemma GetCachedUser_Inl: "GetCachedUser i s = Inl e \<Longrightarrow> i \<notin> cuID ` set (cachedUsers s)"
  by (auto simp: GetCachedUser_def orNotFound_def rowByKey_None split: option.splits)

lemma ensurePubkey_grew: "ensurePubkey sch ht t p s w = (s', w', b) \<Longrightarrow> peID p \<in> ids \<Longrightarrow> syncGrew sch ids s s'"
  using fetchAndCachePubkey_grew[of "peID p" ids s sch t "fst (fetchUser ht (peServerURL p) (peID p) w)"]
  by (auto simp: ensurePubkey_def dest!: GetCachedUser_Inl split: sum.splits prod.splits option.splits)

lemma cacheConnections_grew:
  "cacheConnections sch now i xs s = (s', b) \<Longrightarrow> i \<in> ids \<Longrightarrow> syncGrew sch ids s s'"
  unfolding cacheConnections_def by (drule arg_cong[where f = fst]) (auto intro!: cacheVerified_grew syncGrew_connection)

lemma cacheSignatures_grew:
  "cacheSignatures sch now i xs s = (s', b) \<Longrightarrow> i \<in> ids \<Longrightarrow> syncGrew sch ids s s'"
  unfolding cacheSignatures_def by (drule arg_cong[where f = fst]) (auto intro!: cacheVerified_grew syncGrew_signature)

lemma syncGrew_synced: "syncGrew sch ids s (orUnchanged s (SetPeerLastSyncedAt i now s))"
  by (auto simp: syncGrew_def orUnchanged_def SetPeerLastSyncedAt_def)

lemma syncPeer_grew:
  assumes "syncPeer sch ht now pubNow p s w = (s', w', b)"
  shows "syncGrew sch (if peDistrusted p then {} else {peID p}) s s'"
proof (cases "peDistrusted p")
  case True
  with assms show ?thesis by (simp add: syncPeer_def)
next
  case False
  let ?ids = "{peID p}"
  obtain s1 w1 go where e: "ensurePubkey sch ht (pubNow (peID p)) p s w = (s1, w1, go)"
    by (metis prod_cases3)
  obtain conns w2 where c: "fetchUserConnections ht (peServerURL p) (peID p) (peLastSyncedAt p) w1 = (conns, w2)"
    by fastforce
  obtain s2 d2 where k: "cacheConnections sch now (peID p) (fetchedRows conns) s1 = (s2, d2)" by fastforce
  obtain sigs w3 where g: "fetchUserSignatures ht (peServerURL p) (peID p) (peLastSyncedAt p) w2 = (sigs, w3)"
    by fastforce
  obtain s3 d3 where l: "cacheSignatures sch now (peID p) (fetchedRows sigs) s2 = (s3, d3)" by fastforce
  have s1: "syncGrew sch ?ids s s1" by (rule ensurePubkey_grew[OF e]) simp
  then have s2: "syncGrew sch ?ids s s2" using cacheConnections_grew[OF k] syncGrew_trans by blast
  then have s3: "syncGrew sch ?ids s s3" using cacheSignatures_grew[OF l] syncGrew_trans by blast
  have "s' \<in> {s1, s2, s3, orUnchanged s3 (SetPeerLastSyncedAt (peID p) now s3)}"
    using assms False e c k g l by (auto simp: syncPeer_def fetchedRows_def split: bool.splits option.splits)
  with False s1 s2 s3 syncGrew_trans[OF s3 syncGrew_synced] show ?thesis by auto
qed

lemma syncGrew_mono: "syncGrew sch ids s s' \<Longrightarrow> ids \<subseteq> ids' \<Longrightarrow> syncGrew sch ids' s s'"
  using usersGrew_mono[of sch ids s s' ids'] unfolding syncGrew_def by blast

lemma syncPeers_grew:
  "syncPeers sch ht now pubNow ps s w = (s', w', b) \<Longrightarrow>
     syncGrew sch {peID p | p. p \<in> set ps \<and> \<not> peDistrusted p} s s'"
proof (induction ps arbitrary: s w)
  case (Cons p ps)
  let ?ids = "{peID q | q. q \<in> set (p # ps) \<and> \<not> peDistrusted q}"
  obtain s1 w1 d where p: "syncPeer sch ht now pubNow p s w = (s1, w1, d)" by (metis prod_cases3)
  have s1: "syncGrew sch ?ids s s1"
    by (rule syncGrew_mono[OF syncPeer_grew[OF p]]) auto
  show ?case
  proof (cases d)
    case True
    with Cons.prems p s1 show ?thesis by simp
  next
    case False
    with Cons.prems p have "syncPeers sch ht now pubNow ps s1 w1 = (s', w', b)" by simp
    then have "syncGrew sch ?ids s1 s'" by (rule syncGrew_mono[OF Cons.IH]) auto
    with s1 show ?thesis by (rule syncGrew_trans)
  qed
qed simp

text \<open>C18: Whatever the servers answer, synchronising only adds signed rows of peers that are not
  distrusted: each new connection is signed with a key that hashes to such a peer, the
  owner it is stored under, and each new signature is signed with the key of such a
  peer; no cached signature or connection changes, and of the peers only the times of
  their last synchronisation; no own key, server or push record changes.  No cached user is lost, and the public key
  of a new or replaced one hashes to such a peer that had none, but the row may be that of another user,
  since it is stored under the id that the answer names.  The program ends this way even when it
  dies half way.\<close>

theorem Sync_adds_signed_rows:
  assumes "Sync sch ht now pubNow s w = ((s', e), w')"
  shows "syncGrew sch {peID p | p. p \<in> set (peers s) \<and> \<not> peDistrusted p} s s'"
proof -
  have "\<exists>b. syncPeers sch ht now pubNow (ListPeers s) s w = (s', w', b)"
    using assms by (auto simp: Sync_def split: prod.splits)
  then show ?thesis using syncPeers_grew[of sch ht now pubNow "ListPeers s" s w s' w'] by (auto simp: ListPeers_def)
qed

text \<open>A peer can speak for others: the client checks a fetched signature against the key of the
  peer it asked, but stores the id and the signer that the answer claims.  A peer that
  signs a revocation with its own key can in this way revoke any cached
  signature of anybody, the user's own included.\<close>

theorem Sync_peer_revokes_others:
  assumes wf: "store_wf s" and p: "peers s = [p]" "\<not> peDistrusted p"
    and signed: "verifySigned sch s (peID p) (sgPayload g) (sgAlgorithm g) (sgSig g) = None"
    and net: "fetchUserConnections ht (peServerURL p) (peID p) (peLastSyncedAt p) w = (Some [], w1)"
      "fetchUserSignatures ht (peServerURL p) (peID p) (peLastSyncedAt p) w1 = (Some [Some g], w2)"
    and h: "GetCachedSignature target s = Inr h" "csSigner h = sgSigner g"
    and claim: "sgID g \<notin> csID ` set (cachedSignatures s)" "decRef c (sgPayload g) = Some (''revocation'', target)"
  shows "\<exists>s' t. Sync sch ht now pubNow s w = ((s', None), w2) \<and> IsCachedSignatureRevoked c target s' = Inr (True, t)"
proof -
  let ?r = "syncSigRow now g"
  let ?s2 = "SaveCachedSignature ?r s"
  let ?s' = "orUnchanged ?s2 (SetPeerLastSyncedAt (peID p) now ?s2)"
  obtain u where "GetCachedUser (peID p) s = Inr u" using signed by (auto simp: verifySigned_None)
  then have "Sync sch ht now pubNow s w = ((?s', None), w2)"
    using p net signed
    by (simp add: Sync_def ListPeers_def syncPeer_def ensurePubkey_def fetchedRows_def cacheConnections_def cacheSignatures_def)
  moreover have "\<exists>t. IsCachedSignatureRevoked c target ?s' = Inr (True, t)"
  proof -
    have wf': "store_wf ?s'"
      using store_wf_runOp[OF store_wf_runOp[OF wf, of "OpSaveSignature ?r"], of "OpSetPeerSynced (peID p) now"] by simp
    have rows: "set (cachedSignatures ?s') = insert (storedSignature ?r) (set (cachedSignatures s))"
      using claim(1) by (auto simp: orUnchanged_def SetPeerLastSyncedAt_def SaveCachedSignature_def set_insertIgnore
          syncSigRow_def image_iff)
    have "h \<in> set (cachedSignatures s)" "csID h = target"
      using h(1) GetCachedSignature_iff[OF wf] by auto
    with claim h(2) show ?thesis
      unfolding signature_revoked_iff[OF wf'] rows by (auto simp: storedSignature_def syncSigRow_def)
  qed
  ultimately show ?thesis by blast
qed

text \<open>When only the connections cannot be fetched, the peer still counts as synchronised, so that
  the next request asks for rows from this moment on.\<close>

lemma Sync_skips_connections:
  assumes "\<not> peDistrusted p" "GetCachedUser (peID p) s = Inr u" "GetPeer (peID p) s = Inr q"
    and "fetchUserConnections ht (peServerURL p) (peID p) (peLastSyncedAt p) w = (None, w1)"
    and "fetchUserSignatures ht (peServerURL p) (peID p) (peLastSyncedAt p) w1 = (Some [], w2)"
  shows "syncPeer sch ht now pubNow p s w = (orUnchanged s (SetPeerLastSyncedAt (peID p) now s), w2, False)"
  using assms by (simp add: syncPeer_def ensurePubkey_def fetchedRows_def cacheConnections_def cacheSignatures_def)

end
