(* ===== verification/Cli_Publish.thy ===== *)
theory Cli_Publish
  imports Cli_Sync
begin

text \<open>
  What publishing achieves when the program's own server is at the other end: signatures
  never arrive, public connections do.
\<close>

section \<open>Push records\<close>

lemma IsPushed_iff:
  "IsPushed i ty u s \<longleftrightarrow> (\<exists>r\<in>set (pushState s). prItemID r = i \<and> prItemType r = ty \<and> prServerURL r = u)"
  by (auto simp: IsPushed_def filter_empty_conv)

lemma image_set_map: "(\<And>x. key (f x) = key x) \<Longrightarrow> key ` set (map f rows) = key ` set rows"
  by (simp add: image_image)

lemma pushKey_upsertRow:
  "pushKey ` set (upsertRow pushKey (\<lambda>old new. new) r rows) = insert (pushKey r) (pushKey ` set rows)"
proof -
  have "pushKey ` set (map (\<lambda>x. if pushKey x = pushKey r then r else x) rows) = pushKey ` set rows"
    by (rule image_set_map) simp
  then show ?thesis
    unfolding upsertRow_def by (cases "list_ex (\<lambda>x. pushKey x = pushKey r) rows") (auto simp: list_ex_iff intro: image_eqI[OF sym])
qed

lemma IsPushed_key: "IsPushed i ty u s \<longleftrightarrow> (i, ty, u) \<in> pushKey ` set (pushState s)"
  by (auto simp: IsPushed_iff pushKey_def)

lemma IsPushed_RecordPush [simp]:
  "IsPushed i ty u (RecordPush j ty' v t s) \<longleftrightarrow> (i, ty, u) = (j, ty', v) \<or> IsPushed i ty u s"
  by (simp add: IsPushed_key RecordPush_def pushKey_upsertRow pushKey_def[of "\<lparr>prItemID = j, prItemType = ty', prServerURL = v, prPushedAt = cutToSecond t\<rparr>"])

section \<open>The uploads at the program's server\<close>

lemma serve_postSigs:
  "serve env ta tn (postRequest (sigsURL userID) b) db =
     (if userID = [] then (httpNotFound, db)
      else CreateSignatureHandler env tn userID None (postRequest (sigsURL userID) b) db)"
  by (simp add: serve_def postRequest_def methodMatches_def usersPath_def userPath_def signaturesPath_def
      connectionsPath_def sigsURL_def userURL_def Authenticate_def)

lemma serve_postConns:
  "serve env ta tn (postRequest (connsURL userID) b) db =
     (if userID = [] then (httpNotFound, db)
      else CreateConnectionHandler env tn userID None (postRequest (connsURL userID) b) db)"
  by (simp add: serve_def postRequest_def methodMatches_def usersPath_def userPath_def signaturesPath_def
      connectionsPath_def connsURL_def userURL_def Authenticate_def)

text \<open>An upload that names no id is refused.\<close>

lemma upload_without_id:
  assumes net: "talksTo ht env" and "sinID inp = []"
  shows "\<exists>e. uploadSignature ht url userID inp db = (Some e, db)"
proof -
  let ?r = "postRequest (sigsURL userID) (htEncSig ht inp)"
  obtain ta tn where send: "htSend ht url ?r db = (Some (fst (serve env ta tn ?r db)), snd (serve env ta tn ?r db))"
    by (rule talksTo_send[OF net])
  have inp: "evSigInput env (rqBody ?r) = Some inp"
    using net by (simp add: talksTo_def postRequest_def)
  have "\<exists>resp. serve env ta tn ?r db = (resp, db) \<and> 400 \<le> rsStatus resp"
  proof (cases "userID = []")
    case True
    then show ?thesis by (simp add: serve_postSigs http_defs)
  next
    case False
    then show ?thesis
      using inp assms(2)
      by (cases rule: CreateSignatureHandler_cases[of env tn userID None ?r db])
         (auto simp: serve_postSigs sigAccepted_def uploadOk_def)
  qed
  with send show ?thesis by (auto simp: uploadSignature_def)
qed

lemma publishSignature_refused: "talksTo ht env \<Longrightarrow> publishSignature ht now userID url g (s, db) = (s, db)"
  using upload_without_id[of ht env "\<lparr>sinID = [], sinPayload = csPayload g, sinAlgorithm = csAlgorithm g,
      sinSig = csSig g, sinPublic = None\<rparr>" url userID db]
  by (auto simp: publishSignature_def)

lemma publishSignatures_refused: "talksTo ht env \<Longrightarrow> fold (publishSignature ht now userID url) gs (s, db) = (s, db)"
  by (induction gs) (simp_all add: publishSignature_refused)

text \<open>Everything that publishing connections keeps; \<open>X\<close> are the ids and servers it may have pushed.\<close>

definition pushedConns :: "store \<Rightarrow> (string \<times> string) set" where
  "pushedConns s = {(i, u). IsPushed i ItemConnection u s}"

definition publishKeeps :: "(string \<times> string) set \<Rightarrow> store \<times> serverDb \<Rightarrow> store \<times> serverDb \<Rightarrow> bool" where
  "publishKeeps X a b \<longleftrightarrow>
     dbUsers (snd b) = dbUsers (snd a) \<and> dbSignatures (snd b) = dbSignatures (snd a)
     \<and> cnID ` set (dbConnections (snd a)) \<subseteq> cnID ` set (dbConnections (snd b))
     \<and> (\<forall>i u. IsPushed i ItemSignature u (fst b) = IsPushed i ItemSignature u (fst a))
     \<and> pushedConns (fst a) \<subseteq> pushedConns (fst b) \<and> pushedConns (fst b) \<subseteq> pushedConns (fst a) \<union> X"

lemma publishKeeps_refl [simp]: "publishKeeps X a a"
  by (simp add: publishKeeps_def)

lemma publishKeeps_trans:
  assumes "publishKeeps X a b" and "publishKeeps Y b c"
  shows "publishKeeps (X \<union> Y) a c"
proof -
  note ab = assms(1)[unfolded publishKeeps_def] and bc = assms(2)[unfolded publishKeeps_def]
  have "pushedConns (fst c) \<subseteq> pushedConns (fst a) \<union> (X \<union> Y)"
    using ab[THEN conjunct2, THEN conjunct2, THEN conjunct2, THEN conjunct2, THEN conjunct2]
      bc[THEN conjunct2, THEN conjunct2, THEN conjunct2, THEN conjunct2, THEN conjunct2] by blast
  moreover have "pushedConns (fst a) \<subseteq> pushedConns (fst c)"
      "cnID ` set (dbConnections (snd a)) \<subseteq> cnID ` set (dbConnections (snd c))"
    using ab bc by (meson subset_trans)+
  ultimately show ?thesis using ab bc by (simp add: publishKeeps_def)
qed

lemma connection_ids:
  "cnID ` set (dbConnections (revokeConnRows i t db)) = cnID ` set (dbConnections db)"
  "cnID ` set (dbConnections (CreateConnection t n db)) = insert (cnID n) (cnID ` set (dbConnections db))"
proof -
  show "cnID ` set (dbConnections (revokeConnRows i t db)) = cnID ` set (dbConnections db)"
  proof -
    have "cnID ` set (map (\<lambda>c. if cnID c = i then c\<lparr>cnRevoked := True, cnRevokedAt := Some (cutToSecond t)\<rparr> else c)
        (dbConnections db)) = cnID ` set (dbConnections db)"
      by (rule image_set_map) simp
    then show ?thesis by (simp add: revokeConnRows_def del: set_map)
  qed
  show "cnID ` set (dbConnections (CreateConnection t n db)) = insert (cnID n) (cnID ` set (dbConnections db))"
    by (auto simp: CreateConnection_def set_insertIgnore newConnectionRow_def intro: image_eqI[OF sym])
qed

lemma serve_conn_keeps:
  assumes "serve env ta tn (postRequest (connsURL userID) b) db = (resp, db')"
  shows "dbUsers db' = dbUsers db" and "dbSignatures db' = dbSignatures db"
    and "cnID ` set (dbConnections db) \<subseteq> cnID ` set (dbConnections db')"
proof -
  have "db' = db \<or> (\<exists>n. db' = CreateConnection tn n db) \<or> (\<exists>i. db' = revokeConnRows i tn db)"
    using assms
    by (cases rule: CreateConnectionHandler_cases[of env tn userID None "postRequest (connsURL userID) b" db])
       (auto simp: serve_postConns split: if_splits)
  then show "dbUsers db' = dbUsers db" "dbSignatures db' = dbSignatures db"
      "cnID ` set (dbConnections db) \<subseteq> cnID ` set (dbConnections db')"
    by (auto simp: connection_ids) (auto simp: CreateConnection_def revokeConnRows_def)
qed

lemma publishConnection_keeps:
  assumes "talksTo ht env"
  shows "publishKeeps {(ccID n, url)} a (publishConnection c ht now userID url n a)"
proof (cases a)
  case (Pair s db)
  let ?inp = "\<lparr>ciID = ccID n, ciPayload = ccPayload n, ciAlgorithm = ccAlgorithm n, ciSig = ccSig n\<rparr>"
  let ?r = "postRequest (connsURL userID) (htEncConn ht ?inp None)"
  obtain ta tn where send: "htSend ht url ?r db = (Some (fst (serve env ta tn ?r db)), snd (serve env ta tn ?r db))"
    by (rule talksTo_send[OF assms])
  obtain resp db' where sv: "serve env ta tn ?r db = (resp, db')" by fastforce
  note kept = serve_conn_keeps[OF sv]
  have "uploadConnection ht url userID ?inp db = (Some (ServerReturned (rsStatus resp)), db')
      \<or> uploadConnection ht url userID ?inp db = (None, db')"
    using send sv by (auto simp: uploadConnection_def)
  then have "publishConnection c ht now userID url n a
      \<in> {(s, db), (s, db'), (RecordPush (ccID n) ItemConnection url now s, db')}"
    by (auto simp: publishConnection_def Pair)
  with kept Pair show ?thesis by (auto simp: publishKeeps_def pushedConns_def)
qed

lemma publishConnections_keep:
  assumes "talksTo ht env"
  shows "publishKeeps {(ccID n, url) | n. n \<in> set ns} a (fold (publishConnection c ht now userID url) ns a)"
proof (induction ns arbitrary: a)
  case (Cons n ns)
  have "publishKeeps ({(ccID n, url)} \<union> {(ccID m, url) | m. m \<in> set ns}) a (fold (publishConnection c ht now userID url) (n # ns) a)"
    using publishKeeps_trans[OF publishConnection_keeps[OF assms] Cons.IH] by simp
  moreover have "{(ccID n, url)} \<union> {(ccID m, url) | m. m \<in> set ns} = {(ccID m, url) | m. m \<in> set (n # ns)}" by auto
  ultimately show ?case by simp
qed simp

lemma publishTo_keeps:
  assumes "talksTo ht env"
  shows "publishKeeps {(ccID n, svURL srv) | n. n \<in> set ns} a (publishTo c ht now userID gs ns srv a)"
  using publishConnections_keep[OF assms] publishSignatures_refused[OF assms]
  by (cases a) (simp add: publishTo_def)

lemma publishServers_keep:
  assumes "talksTo ht env"
  shows "publishKeeps {(ccID n, svURL srv) | n srv. n \<in> set ns \<and> srv \<in> set srvs} a
     (fold (publishTo c ht now userID gs ns) srvs a)"
proof (induction srvs arbitrary: a)
  case (Cons srv srvs)
  have "publishKeeps ({(ccID n, svURL srv) | n. n \<in> set ns} \<union> {(ccID n, svURL v) | n v. n \<in> set ns \<and> v \<in> set srvs})
      a (fold (publishTo c ht now userID gs ns) (srv # srvs) a)"
    using publishKeeps_trans[OF publishTo_keeps[OF assms] Cons.IH] by simp
  moreover have "{(ccID n, svURL srv) | n. n \<in> set ns} \<union> {(ccID n, svURL v) | n v. n \<in> set ns \<and> v \<in> set srvs}
      = {(ccID n, svURL v) | n v. n \<in> set ns \<and> v \<in> set (srv # srvs)}" by auto
  ultimately show ?case by simp
qed simp

text \<open>Publishing signatures to the program's own server never works: the client leaves out the
  id that the server insists on, so that every one is refused; after \<open>tillit publish\<close> the
  server has the signatures it had, and the client has recorded no signature as
  pushed that it had not before.\<close>

theorem Publish_signatures_refused:
  assumes net: "talksTo ht env" and pub: "Publish sch c ht now s db = ((s', e), db')"
  shows "dbSignatures db' = dbSignatures db \<and> (\<forall>i url. IsPushed i ItemSignature url s' = IsPushed i ItemSignature url s)"
proof (cases "(s', db') = (s, db)")
  case False
  then obtain userID where "fold (publishTo c ht now userID (GetCachedSignaturesBySigner userID s)
      (GetCachedConnectionsBySigner userID s)) (ListServers s) (s, db) = (s', db')"
    using pub by (auto simp: Publish_def Let_def split: sum.splits if_splits prod.splits)
  with publishServers_keep[OF net, of "GetCachedConnectionsBySigner userID s" "ListServers s" "(s, db)" c now userID
      "GetCachedSignaturesBySigner userID s"]
  show ?thesis by (simp add: publishKeeps_def)
qed simp

section \<open>Public connections arrive\<close>

lemma publishConnection_arrives:
  assumes net: "talksTo ht env" and new: "\<not> IsPushed (ccID n) ItemConnection url s" and id: "userID \<noteq> []"
    and acc: "connAccepted env userID db u \<lparr>ciID = ccID n, ciPayload = ccPayload n, ciAlgorithm = ccAlgorithm n,
        ciSig = ccSig n\<rparr> p" "pType p = PayloadTypeConnection" "pPublic p"
    and dec: "decPayload c (ccPayload n) = Some p"
    and step: "publishConnection c ht now userID url n (s, db) = (s', db')"
  shows "IsPushed (ccID n) ItemConnection url s'" and "ccID n \<in> cnID ` set (dbConnections db')"
proof -
  let ?inp = "\<lparr>ciID = ccID n, ciPayload = ccPayload n, ciAlgorithm = ccAlgorithm n, ciSig = ccSig n\<rparr>"
  let ?r = "postRequest (connsURL userID) (htEncConn ht ?inp None)"
  obtain ta tn where send: "htSend ht url ?r db = (Some (fst (serve env ta tn ?r db)), snd (serve env ta tn ?r db))"
    by (rule talksTo_send[OF net])
  have inp: "evConnInput env (rqBody ?r) = Some ?inp"
    using net by (simp add: talksTo_def postRequest_def)
  have "serve env ta tn ?r db = (Response 201 (ConnBody (uploadedConn tn userID ?inp p)),
      CreateConnection tn (uploadedConn tn userID ?inp p) db)"
    using id CreateConnectionHandler_created[OF inp acc(1,2)] by (simp add: serve_postConns)
  with send have "uploadConnection ht url userID ?inp db = (None, CreateConnection tn (uploadedConn tn userID ?inp p) db)"
    by (simp add: uploadConnection_def)
  then have "s' = RecordPush (ccID n) ItemConnection url now s \<and> db' = CreateConnection tn (uploadedConn tn userID ?inp p) db"
    using step new dec acc(2,3) by (simp add: publishConnection_def connectionShouldBePushed_def ParsePayload_def)
  then show "IsPushed (ccID n) ItemConnection url s'" "ccID n \<in> cnID ` set (dbConnections db')"
    by (simp_all add: connection_ids uploadedConn_def)
qed

text \<open>The element of a list with distinct keys, and what comes before it.\<close>

lemma split_at_key:
  assumes "distinct (map key xs)" and "x \<in> set xs"
  obtains as bs where "xs = as @ x # bs" and "key x \<notin> key ` set as"
  using split_list[OF assms(2)] assms(1) by auto

lemma connAccepted_users:
  "dbUsers db' = dbUsers db \<Longrightarrow> connAccepted env userID db u inp p \<Longrightarrow> connAccepted env userID db' u inp p"
  by (simp add: connAccepted_def GetUser_def)

lemma pushed_mono: "publishKeeps X a b \<Longrightarrow> IsPushed i ItemConnection u (fst a) \<Longrightarrow> IsPushed i ItemConnection u (fst b)"
  by (auto simp: publishKeeps_def pushedConns_def)

lemma pushed_only: "publishKeeps X a b \<Longrightarrow> IsPushed i ItemConnection u (fst b) \<Longrightarrow> (i, u) \<notin> X \<Longrightarrow> IsPushed i ItemConnection u (fst a)"
  by (auto simp: publishKeeps_def pushedConns_def)

lemma publishTo_arrives:
  assumes net: "talksTo ht env" and id: "userID \<noteq> []"
    and n: "distinct (map ccID ns)" "n \<in> set ns" "\<not> IsPushed (ccID n) ItemConnection (svURL srv) (fst a)"
    and acc: "connAccepted env userID (snd a) u \<lparr>ciID = ccID n, ciPayload = ccPayload n, ciAlgorithm = ccAlgorithm n,
        ciSig = ccSig n\<rparr> p" "pType p = PayloadTypeConnection" "pPublic p" "decPayload c (ccPayload n) = Some p"
  shows "IsPushed (ccID n) ItemConnection (svURL srv) (fst (publishTo c ht now userID gs ns srv a))
     \<and> ccID n \<in> cnID ` set (dbConnections (snd (publishTo c ht now userID gs ns srv a)))"
proof -
  let ?f = "publishConnection c ht now userID (svURL srv)"
  obtain as bs where ns: "ns = as @ n # bs" "ccID n \<notin> ccID ` set as"
    by (rule split_at_key[OF n(1,2)])
  let ?a = "fold ?f as a"
  have a: "publishKeeps {(ccID m, svURL srv) | m. m \<in> set as} a ?a"
    by (rule publishConnections_keep[OF net])
  have new: "\<not> IsPushed (ccID n) ItemConnection (svURL srv) (fst ?a)"
    using pushed_only[OF a] n(3) ns(2) by auto
  have acc': "connAccepted env userID (snd ?a) u \<lparr>ciID = ccID n, ciPayload = ccPayload n,
      ciAlgorithm = ccAlgorithm n, ciSig = ccSig n\<rparr> p"
    by (rule connAccepted_users[OF _ acc(1)]) (use a in \<open>simp add: publishKeeps_def\<close>)
  obtain s1 db1 where step: "?f n (fst ?a, snd ?a) = (s1, db1)" by fastforce
  note here = publishConnection_arrives[OF net new id acc' acc(2,3,4) step]
  have rest: "publishKeeps {(ccID m, svURL srv) | m. m \<in> set bs} (s1, db1) (fold ?f bs (s1, db1))"
    by (rule publishConnections_keep[OF net])
  have "publishTo c ht now userID gs ns srv a = fold ?f bs (s1, db1)"
    using step publishSignatures_refused[OF net, of now userID "svURL srv" gs "fst a" "snd a"]
    by (simp add: publishTo_def ns(1))
  with here rest pushed_mono[OF rest] show ?thesis by (auto simp: publishKeeps_def)
qed

text \<open>C20: Publishing public connections works: when the user is registered at the program's own
  server with the key that signed, then after \<open>tillit publish\<close> every cached public connection
  of the user whose payload validates is at the server, and recorded as pushed to
  every server of the store, if it was not before.\<close>

theorem Publish_connection_arrives:
  assumes net: "talksTo ht env" and wf: "store_wf s"
    and user: "activeUserID sch s = Inr userID" "userID \<noteq> []" and srv: "srv \<in> set (servers s)"
    and n: "n \<in> set (cachedConnections s)" "ccSigner n = userID"
      "\<not> IsPushed (ccID n) ItemConnection (svURL srv) s"
    and acc: "connAccepted env userID db u \<lparr>ciID = ccID n, ciPayload = ccPayload n, ciAlgorithm = ccAlgorithm n,
        ciSig = ccSig n\<rparr> p" "pType p = PayloadTypeConnection" "pPublic p" "decPayload c (ccPayload n) = Some p"
  shows "\<exists>s' db'. Publish sch c ht now s db = ((s', None), db')
     \<and> IsPushed (ccID n) ItemConnection (svURL srv) s' \<and> ccID n \<in> cnID ` set (dbConnections db')"
proof -
  let ?gs = "GetCachedSignaturesBySigner userID s" and ?ns = "GetCachedConnectionsBySigner userID s"
  let ?f = "publishTo c ht now userID ?gs ?ns"
  have ns: "distinct (map ccID ?ns)" "n \<in> set ?ns"
    using wf n by (auto simp: GetCachedConnectionsBySigner_def store_wf_def keysDistinct_def distinct_map
        intro: inj_on_subset)
  have "distinct (map svURL (ListServers s))" "srv \<in> set (ListServers s)"
    using wf srv by (auto simp: ListServers_def store_wf_def keysDistinct_def distinct_map)
  then obtain as bs where srvs: "ListServers s = as @ srv # bs" "svURL srv \<notin> svURL ` set as"
    by (rule split_at_key)
  let ?a = "fold ?f as (s, db)" and ?X = "\<lambda>vs. {(ccID m, svURL v) | m v. m \<in> set ?ns \<and> v \<in> set vs}"
  have a: "publishKeeps (?X as) (s, db) ?a" by (rule publishServers_keep[OF net])
  have new: "\<not> IsPushed (ccID n) ItemConnection (svURL srv) (fst ?a)"
    using pushed_only[OF a] n(3) srvs(2) by auto
  have acc': "connAccepted env userID (snd ?a) u \<lparr>ciID = ccID n, ciPayload = ccPayload n,
      ciAlgorithm = ccAlgorithm n, ciSig = ccSig n\<rparr> p"
    by (rule connAccepted_users[OF _ acc(1)]) (use a in \<open>simp add: publishKeeps_def\<close>)
  note here = publishTo_arrives[OF net user(2) ns new acc' acc(2,3,4), of now ?gs]
  have rest: "publishKeeps (?X bs) (?f srv ?a) (fold ?f bs (?f srv ?a))" by (rule publishServers_keep[OF net])
  have "Publish sch c ht now s db = (case fold ?f bs (?f srv ?a) of (s', w') \<Rightarrow> ((s', None), w'))"
    using user ns(2) srvs(1) by (auto simp: Publish_def Let_def)
  with here rest pushed_mono[OF rest] show ?thesis
    by (cases "fold ?f bs (?f srv ?a)") (auto simp: publishKeeps_def)
qed

end
