(* ===== verification/Cli_Mirror.thy ===== *)
theory Cli_Mirror
  imports Cli_Publish Server
begin

text \<open>
  Mirroring the own rows between devices through a server, \<open>mirror.go\<close>: every signature
  goes up marked as private, under an authorization header, and comes down again
  through the owner's view.  Both commands stop at the first error and keep what they
  have done.
\<close>

section \<open>Pushing\<close>

text \<open>The token of every request is minted anew; \<open>rnd\<close> and \<open>now\<close> are the randomness and the clock
  of the request for a row.\<close>

fun pushAll :: "('a \<Rightarrow> 'w \<Rightarrow> cliError option \<times> 'w) \<Rightarrow> 'a list \<Rightarrow> 'w \<Rightarrow> cliError option \<times> 'w" where
  "pushAll post [] w = (None, w)"
| "pushAll post (x # xs) w = (case post x w of
     (Some e, w') \<Rightarrow> (Some e, w') | (None, w') \<Rightarrow> pushAll post xs w')"

definition mirrorPush ::
  "cliEnv \<Rightarrow> 'w http \<Rightarrow> (string \<Rightarrow> string) \<Rightarrow> (string \<Rightarrow> int) \<Rightarrow> keyIO \<Rightarrow> string list \<Rightarrow> store \<Rightarrow> 'w \<Rightarrow> outcome \<times> 'w" where
  "mirrorPush env ht rnd now io args s w =
     (case args of
        [url] \<Rightarrow>
         (let serverURL = trimRightSlash url in
          case activeSignerAndID (ceSchemes env) (ceSealing env) io s of
            Inl e \<Rightarrow> ((s, Some e), w)
          | Inr (sg, userID) \<Rightarrow>
             (case pushAll (\<lambda>g. postPrivateSignature (ceSchemes env) ht (rnd (csID g)) (now (csID g)) serverURL userID sg g)
                (GetCachedSignaturesBySigner userID s) w of
               (Some e, w') \<Rightarrow> ((s, Some e), w')
             | (None, w') \<Rightarrow> (case pushAll (\<lambda>n. postPrivateConnection (ceSchemes env) ht (rnd (ccID n)) (now (ccID n)) serverURL userID sg n)
                  (GetCachedConnectionsBySigner userID s) w' of
                 (e, w'') \<Rightarrow> ((s, e), w''))))
      | _ \<Rightarrow> ((s, Some (Usage ''tillit mirror push <server>'')), w))"

section \<open>Pulling\<close>

text \<open>The rows of an answer are stored unseen, up to the first \<open>null\<close>, at which the program dies.\<close>

definition pullSigRow :: "int \<Rightarrow> signature \<Rightarrow> cachedSignature" where
  "pullSigRow = syncSigRow"

definition pullConnRow :: "int \<Rightarrow> connection \<Rightarrow> cachedConnection" where
  "pullConnRow now c = syncConnRow now (cnOwner c) c"

definition mirrorPull ::
  "cliEnv \<Rightarrow> 'w http \<Rightarrow> string \<times> string \<Rightarrow> int \<times> int \<Rightarrow> int \<Rightarrow> keyIO \<Rightarrow> string list \<Rightarrow> store \<Rightarrow> 'w \<Rightarrow> outcome \<times> 'w" where
  "mirrorPull env ht rnds clocks now io args s w =
     (case args of
        [url] \<Rightarrow>
         (let serverURL = trimRightSlash url in
          case activeSignerAndID (ceSchemes env) (ceSealing env) io s of
            Inl e \<Rightarrow> ((s, Some e), w)
          | Inr (sg, userID) \<Rightarrow>
             (case fetchUserSignaturesAuth (ceSchemes env) ht (fst rnds) (fst clocks) serverURL userID sg w of
               (None, w1) \<Rightarrow> ((s, Some RequestFailed), w1)
             | (Some sigs, w1) \<Rightarrow> (case fetchUserConnectionsAuth (ceSchemes env) ht (snd rnds) (snd clocks) serverURL userID sg w1 of
                 (None, w2) \<Rightarrow> ((s, Some RequestFailed), w2)
               | (Some conns, w2) \<Rightarrow> (case cacheVerified (\<lambda>_ _. True) (\<lambda>g. SaveCachedSignature (pullSigRow now g)) sigs s of
                   (s1, True) \<Rightarrow> ((s1, Some NilPointer), w2)
                 | (s1, False) \<Rightarrow> (case cacheVerified (\<lambda>_ _. True) (\<lambda>c. SaveCachedConnection (pullConnRow now c)) conns s1 of
                     (s2, True) \<Rightarrow> ((s2, Some NilPointer), w2)
                   | (s2, False) \<Rightarrow> ((s2, None), w2))))))
      | _ \<Rightarrow> ((s, Some (Usage ''tillit mirror pull <server>'')), w))"

definition Mirror ::
  "cliEnv \<Rightarrow> 'w http \<Rightarrow> (string \<Rightarrow> string) \<Rightarrow> (string \<Rightarrow> int) \<Rightarrow> string \<times> string \<Rightarrow> int \<times> int \<Rightarrow> int \<Rightarrow> keyIO
     \<Rightarrow> string list \<Rightarrow> store \<Rightarrow> 'w \<Rightarrow> outcome \<times> 'w" where
  "Mirror env ht rnd clock rnds clocks now io args s w =
     (case args of
        [] \<Rightarrow> ((s, Some (Usage ''tillit mirror <push|pull> <server>'')), w)
      | sub # rest \<Rightarrow>
          if sub = ''push'' then mirrorPush env ht rnd clock io rest s w
          else if sub = ''pull'' then mirrorPull env ht rnds clocks now io rest s w
          else ((s, Some (UnknownFlag sub)), w))"

section \<open>What is pushed stays private\<close>

text \<open>The rows that everybody can fetch.\<close>

definition publicRows :: "serverDb \<Rightarrow> signature list" where
  "publicRows db = filter sgPublic (dbSignatures db)"

text \<open>A row that is as it was, or is one of the rows \<open>T\<close> and has the mark of a revocation.\<close>

definition onlyRevoked :: "(signature \<Rightarrow> bool) \<Rightarrow> signature \<Rightarrow> signature \<Rightarrow> bool" where
  "onlyRevoked T g g' \<longleftrightarrow> g' = g \<or> T g \<and> (\<exists>t. g' = g\<lparr>sgRevoked := True, sgRevokedAt := Some t\<rparr>)"

text \<open>The rows of the active user that a revocation in his store names.\<close>

definition revokedInStore :: "env \<Rightarrow> cliEnv \<Rightarrow> keyIO \<Rightarrow> store \<Rightarrow> signature \<Rightarrow> bool" where
  "revokedInStore env cli io s g \<longleftrightarrow>
     (\<exists>sg. activeSignerAndID (ceSchemes cli) (ceSealing cli) io s = Inr (sg, sgSigner g))
     \<and> (\<exists>r\<in>set (GetCachedSignaturesBySigner (sgSigner g) s). \<exists>p.
          evPayload env (csPayload r) = Some p \<and> IsRevocation p \<and> pTargetID p = sgID g)"

text \<open>A request to the server with a header is answered by the middleware or by the handler.\<close>

lemma serve_auth_sigs:
  assumes "rqPath r = sigsURL userID" and "rqMethod r = ''POST''"
  shows "snd (serve env ta tn r db) = db \<or> (\<exists>ctx. serve env ta tn r db = CreateSignatureHandler env tn userID ctx r db)"
proof (cases "userID = []")
  case True
  with assms show ?thesis
    by (simp add: serve_def methodMatches_def usersPath_def userPath_def signaturesPath_def connectionsPath_def
        sigsURL_def userURL_def httpNotFound_def)
next
  case False
  with assms have "serve env ta tn r db = Authenticate env ta (CreateSignatureHandler env tn userID) None r db"
    by (simp add: serve_def methodMatches_def usersPath_def userPath_def signaturesPath_def connectionsPath_def
        sigsURL_def userURL_def)
  then show ?thesis
    by (cases rule: Authenticate_None[of env ta "CreateSignatureHandler env tn userID" r db]) auto
qed

lemma serve_auth_conns:
  assumes "rqPath r = connsURL userID" and "rqMethod r = ''POST''"
  shows "snd (serve env ta tn r db) = db \<or> (\<exists>ctx. serve env ta tn r db = CreateConnectionHandler env tn userID ctx r db)"
proof (cases "userID = []")
  case True
  with assms show ?thesis
    by (simp add: serve_def methodMatches_def usersPath_def userPath_def signaturesPath_def connectionsPath_def
        connsURL_def userURL_def httpNotFound_def)
next
  case False
  with assms have "serve env ta tn r db = Authenticate env ta (CreateConnectionHandler env tn userID) None r db"
    by (simp add: serve_def methodMatches_def usersPath_def userPath_def signaturesPath_def connectionsPath_def
        connsURL_def userURL_def)
  then show ?thesis
    by (cases rule: Authenticate_None[of env ta "CreateConnectionHandler env tn userID" r db]) auto
qed

lemma onlyRevoked_trans:
  assumes "list_all2 (onlyRevoked T) gs hs" and "list_all2 (onlyRevoked T) hs ks"
    and "\<And>g t. T (g\<lparr>sgRevoked := True, sgRevokedAt := Some t\<rparr>) = T g"
  shows "list_all2 (onlyRevoked T) gs ks"
  by (rule list_all2_trans[OF _ assms(1,2)]) (use assms(3) in \<open>auto simp: onlyRevoked_def\<close>)

lemma revokedInStore_marked [simp]:
  "revokedInStore env cli io s (g\<lparr>sgRevoked := True, sgRevokedAt := t\<rparr>) = revokedInStore env cli io s g"
  by (simp add: revokedInStore_def)

text \<open>What a private upload leaves: the ids are still distinct and the public rows change by marks only.\<close>

definition mirrorKeeps :: "(signature \<Rightarrow> bool) \<Rightarrow> serverDb \<Rightarrow> serverDb \<Rightarrow> bool" where
  "mirrorKeeps T db db' \<longleftrightarrow> keysDistinct sgID (dbSignatures db') \<and> list_all2 (onlyRevoked T) (publicRows db) (publicRows db')
     \<and> dbUsers db' = dbUsers db"

lemma mirrorKeeps_same:
  "keysDistinct sgID (dbSignatures db) \<Longrightarrow> dbSignatures db' = dbSignatures db \<Longrightarrow> dbUsers db' = dbUsers db \<Longrightarrow> mirrorKeeps T db db'"
  by (simp add: mirrorKeeps_def publicRows_def list_all2_refl onlyRevoked_def)

lemma publicRows_afterSig:
  assumes ids: "keysDistinct sgID (dbSignatures db)" and "sinPublic inp = Some False"
    and target: "IsRevocation p \<longrightarrow> (\<exists>t. GetSignature (pTargetID p) db = Inr t \<and> T t)"
  shows "mirrorKeeps T db (afterSig now i inp p db)"
proof -
  have step: "onlyRevoked T g (revIf p now g)" if "g \<in> set (dbSignatures db)" for g
  proof (cases "IsRevocation p \<and> sgID g = pTargetID p")
    case True
    with target obtain t where t: "GetSignature (pTargetID p) db = Inr t" "T t" by blast
    then have "t \<in> set (dbSignatures db)" "sgID t = sgID g"
      using True by (auto simp: GetSignature_def dest!: rowByKey_Some split: option.splits)
    with ids that have "t = g" unfolding keysDistinct_def by (metis distinct_map inj_onD)
    with t(2) show ?thesis using True by (auto simp: onlyRevoked_def revIf_def)
  qed (auto simp: onlyRevoked_def revIf_def)
  have "publicRows (afterSig now i inp p db) = map (revIf p now) (publicRows db)"
    using assms(2) by (simp add: publicRows_def afterSig_rows filter_map comp_def insertIgnore_def newSignatureRow_def)
  moreover have "list_all2 (onlyRevoked T) (publicRows db) (map (revIf p now) (publicRows db))"
    unfolding list_all2_map2 by (rule list.rel_refl_strong) (auto simp: publicRows_def intro: step)
  moreover have "keysDistinct sgID (dbSignatures (afterSig now i inp p db))"
    using keysDistinct_insertIgnore[OF ids, of "newSignatureRow (uploadedSig now i inp)"]
    by (simp add: keysDistinct_def afterSig_rows comp_def)
  ultimately show ?thesis by (simp add: mirrorKeeps_def)
qed

lemma postPrivateSignature_private:
  assumes net: "talksTo ht env" and ids: "keysDistinct sgID (dbSignatures db)"
    and active: "activeSignerAndID (ceSchemes cli) (ceSealing cli) io s = Inr (sg, userID)"
    and g: "g \<in> set (GetCachedSignaturesBySigner userID s)"
  shows "mirrorKeeps (revokedInStore env cli io s) db (snd (postPrivateSignature sch ht rnd now serverURL userID sg g db))"
proof -
  let ?inp = "\<lparr>sinID = csID g, sinPayload = csPayload g, sinAlgorithm = csAlgorithm g, sinSig = csSig g,
     sinPublic = Some False\<rparr>"
  let ?r = "withAuth sch ht rnd now sg userID serverURL (postRequest (sigsURL userID) (htEncSig ht ?inp))"
  obtain ta tn where send: "htSend ht serverURL ?r db = (Some (fst (serve env ta tn ?r db)), snd (serve env ta tn ?r db))"
    by (rule talksTo_send[OF net])
  have r: "rqPath ?r = sigsURL userID" "rqMethod ?r = ''POST''" "evSigInput env (rqBody ?r) = Some ?inp"
    using net by (simp_all add: talksTo_def postRequest_def withAuth_def)
  have "mirrorKeeps (revokedInStore env cli io s) db (snd (serve env ta tn ?r db))"
    using serve_auth_sigs[OF r(1,2), of env ta tn db]
  proof
    assume "\<exists>ctx. serve env ta tn ?r db = CreateSignatureHandler env tn userID ctx ?r db"
    then obtain ctx where h: "serve env ta tn ?r db = CreateSignatureHandler env tn userID ctx ?r db" ..
    show ?thesis
    proof (cases rule: CreateSignatureHandler_cases[of env tn userID ctx ?r db])
      case 1
      with h show ?thesis by (simp add: mirrorKeeps_same ids)
    next
      case (2 u inp p)
      then have inp: "inp = ?inp" using r(3) by simp
      have "IsRevocation p \<longrightarrow> (\<exists>t. GetSignature (pTargetID p) db = Inr t \<and> revokedInStore env cli io s t)"
      proof
        assume rev: "IsRevocation p"
        with 2(2) obtain t where t: "GetSignature (pTargetID p) db = Inr t" "sgSigner t = userID"
          by (auto simp: sigAccepted_def)
        then have "sgID t = pTargetID p" by (auto simp: GetSignature_def dest!: rowByKey_Some split: option.splits)
        moreover have "evPayload env (csPayload g) = Some p" using 2(2) by (simp add: sigAccepted_def uploadOk_def inp)
        ultimately show "\<exists>t. GetSignature (pTargetID p) db = Inr t \<and> revokedInStore env cli io s t"
          using t active g rev by (auto simp: revokedInStore_def)
      qed
      then have "mirrorKeeps (revokedInStore env cli io s) db (afterSig tn userID inp p db)"
        by (intro publicRows_afterSig ids) (simp_all add: inp)
      with h 2(3) show ?thesis by simp
    qed
  qed (simp add: mirrorKeeps_same ids)
  with send show ?thesis by (simp add: postPrivateSignature_def privateStatus_def Let_def)
qed

lemma postPrivateConnection_private:
  assumes net: "talksTo ht env" and ids: "keysDistinct sgID (dbSignatures db)"
  shows "mirrorKeeps T db (snd (postPrivateConnection sch ht rnd now serverURL userID sg n db))"
proof -
  let ?inp = "\<lparr>ciID = ccID n, ciPayload = ccPayload n, ciAlgorithm = ccAlgorithm n, ciSig = ccSig n\<rparr>"
  let ?r = "withAuth sch ht rnd now sg userID serverURL (postRequest (connsURL userID) (htEncConn ht ?inp (Some False)))"
  obtain ta tn where send: "htSend ht serverURL ?r db = (Some (fst (serve env ta tn ?r db)), snd (serve env ta tn ?r db))"
    by (rule talksTo_send[OF net])
  have r: "rqPath ?r = connsURL userID" "rqMethod ?r = ''POST''"
    by (simp_all add: postRequest_def withAuth_def)
  have "dbSignatures (snd (serve env ta tn ?r db)) = dbSignatures db \<and> dbUsers (snd (serve env ta tn ?r db)) = dbUsers db"
    using serve_auth_conns[OF r, of env ta tn db]
  proof
    assume "\<exists>ctx. serve env ta tn ?r db = CreateConnectionHandler env tn userID ctx ?r db"
    then obtain ctx where "serve env ta tn ?r db = CreateConnectionHandler env tn userID ctx ?r db" ..
    then show ?thesis
      by (cases rule: CreateConnectionHandler_cases[of env tn userID ctx ?r db])
         (auto simp: CreateConnection_def revokeConnRows_def)
  qed simp
  with send show ?thesis by (simp add: postPrivateConnection_def privateStatus_def Let_def mirrorKeeps_same ids)
qed

text \<open>A loop that stops at the first error keeps what each of its steps keeps.\<close>

lemma pushAll_keeps:
  assumes "\<And>x w. x \<in> set xs \<Longrightarrow> P w \<Longrightarrow> P (snd (post x w))" and "P w"
  shows "P (snd (pushAll post xs w))"
  using assms
proof (induction xs arbitrary: w)
  case (Cons x xs)
  obtain e w' where x: "post x w = (e, w')" by fastforce
  with Cons.prems(1)[of x w] Cons.prems(2) have "P w'" by simp
  have "P (snd (pushAll post xs w'))" by (rule Cons.IH[OF Cons.prems(1) \<open>P w'\<close>]) simp_all
  with x \<open>P w'\<close> show ?case by (cases e) simp_all
qed simp

lemma mirrorKeeps_trans:
  "mirrorKeeps (revokedInStore env cli io s) db w \<Longrightarrow> mirrorKeeps (revokedInStore env cli io s) w w' \<Longrightarrow>
     mirrorKeeps (revokedInStore env cli io s) db w'"
  by (auto simp: mirrorKeeps_def intro: onlyRevoked_trans)

text \<open>C23: Mirroring publishes no signature: whether it ends well or not, after \<open>tillit mirror push\<close>
  to the program's own server the signatures that everybody can fetch are those of before, in the same order and with
  the same contents; only a public signature of the user himself that a revocation in his store names can
  have been marked as revoked.  The users of the server and the local store have not changed.\<close>

theorem mirrorPush_publishes_nothing:
  assumes net: "talksTo ht env" and ids: "keysDistinct sgID (dbSignatures db)"
    and push: "mirrorPush cli ht rnd now io args s db = ((s', e), db')"
  shows "list_all2 (onlyRevoked (revokedInStore env cli io s)) (publicRows db) (publicRows db')
     \<and> dbUsers db' = dbUsers db \<and> s' = s"
proof -
  let ?T = "revokedInStore env cli io s"
  have keep: "mirrorKeeps ?T db db" by (rule mirrorKeeps_same[OF ids]) simp_all
  have sigs: "mirrorKeeps ?T db (snd (pushAll (\<lambda>g. postPrivateSignature sch ht (rnd (csID g)) (now (csID g)) url userID sg g)
        (GetCachedSignaturesBySigner userID s) db))"
    if "activeSignerAndID (ceSchemes cli) (ceSealing cli) io s = Inr (sg, userID)" for sch url userID sg
    by (rule pushAll_keeps[where P = "mirrorKeeps ?T db"])
      (blast intro: mirrorKeeps_trans postPrivateSignature_private[OF net _ that] mirrorKeeps_def[THEN iffD1, THEN conjunct1] keep)+
  have conns: "mirrorKeeps ?T db (snd (pushAll (\<lambda>n. postPrivateConnection sch ht (rnd (ccID n)) (now (ccID n)) url userID sg n) ns w))"
    if "mirrorKeeps ?T db w" for sch url userID sg ns w
    by (rule pushAll_keeps[where P = "mirrorKeeps ?T db"])
      (blast intro: mirrorKeeps_trans postPrivateConnection_private[OF net] mirrorKeeps_def[THEN iffD1, THEN conjunct1] that)+
  have "mirrorKeeps ?T db db' \<and> s' = s"
  proof (cases "\<exists>url. args = [url]")
    case False
    with push keep show ?thesis by (auto simp: mirrorPush_def split: list.splits)
  next
    case True
    then obtain url where args: "args = [url]" ..
    show ?thesis
    proof (cases "activeSignerAndID (ceSchemes cli) (ceSealing cli) io s")
      case (Inl x)
      with push keep show ?thesis by (simp add: mirrorPush_def args Let_def)
    next
      case (Inr k)
      obtain sg userID where k: "k = (sg, userID)" by fastforce
      note a = Inr[unfolded k]
      show ?thesis
        using push sigs[OF a, of "ceSchemes cli" "trimRightSlash url"]
          conns[of "snd (pushAll (\<lambda>g. postPrivateSignature (ceSchemes cli) ht (rnd (csID g)) (now (csID g)) (trimRightSlash url) userID sg g)
             (GetCachedSignaturesBySigner userID s) db)" "ceSchemes cli" "trimRightSlash url" userID sg "GetCachedConnectionsBySigner userID s"]
        by (auto simp: mirrorPush_def args Let_def a split: prod.splits option.splits)
    qed
  qed
  then show ?thesis by (simp add: mirrorKeeps_def)
qed

end
