(* ===== verification/Cli_Examples.thy ===== *)
theory Cli_Examples
  imports Cli_Trust Semver
begin

text \<open>
  A concrete client: the toy schemes, sealing and encoding, one unencrypted key that is
  active, and one signature of its own.  The properties of signing, revoking and
  deleting are applied to it.
\<close>

definition demoCli :: cliEnv where
  "demoCli = \<lparr>ceSchemes = toySchemes, ceSealing = toySealing,
     ceCodec = \<lparr>decPayload = decPayloadFields, decRef = decRefFields, decType = decTypeField\<rparr>,
     ceMarshal = encPayload\<rparr>"

definition demoIO :: cliIO where
  "demoIO = \<lparr>ioKey = \<lparr>kiSalt = [], kiNonce = [], kiCurrent = None, kiNew = None, kiAgain = None\<rparr>, ioRnd = [], ioNow = 0\<rparr>"

definition demoKey :: key where
  "demoKey = \<lparr>kyName = ''default'', kyAlgorithm = ''slh-dsa-shake-128s'', kyPubKey = b64Encode ''key'',
     kyPrivKey = b64Encode ''key''\<rparr>"

definition demoUserID :: string where "demoUserID = userIDOf toySchemes ''key''"

definition demoTarget :: cachedSignature where
  "demoTarget = \<lparr>csID = ''t'', csSigner = demoUserID, csPayload = [], csAlgorithm = [], csSig = [],
     csUploadedAt = 0, csRevoked = False, csRevokedAt = None, csFetchedAt = 0\<rparr>"

definition demoStore :: store where
  "demoStore = emptyStore\<lparr>keys := [demoKey], activeKey := Some ''default'', cachedSignatures := [demoTarget]\<rparr>"

lemma demoCli_simps [simp]:
  "ceSchemes demoCli = toySchemes" "ceSealing demoCli = toySealing" "ceMarshal demoCli = encPayload"
  "decPayload (ceCodec demoCli) = decPayloadFields" "decRef (ceCodec demoCli) = decRefFields"
  "decType (ceCodec demoCli) = decTypeField"
  by (simp_all add: demoCli_def)

lemma demo_codec_ok: "codec_ok (ceCodec demoCli)"
  by (auto simp: codec_ok_def decPayloadFields_def decRefFields_def decTypeField_def split: option.splits prod.splits)

lemma demo_active:
  "activeSignerAndID toySchemes toySealing (ioKey demoIO) demoStore = Inr (SLHDSASigner ''key'', demoUserID)"
proof -
  have "GetActiveKey demoStore = Inr ''default''" "GetKey ''default'' demoStore = Inr demoKey"
    by (simp_all add: demoStore_def GetActiveKey_def GetKey_def orNotFound_def demoKey_def rowByKey_def)
  moreover have "decodePrivateKey toySealing (ioKey demoIO) demoKey = Inr ''key''"
    by (simp add: decodePrivateKey_def demoKey_def plain_not_encrypted b64Decode_Encode)
  moreover have "LoadSigner toySchemes (kyAlgorithm demoKey) ''key'' = Inr (SLHDSASigner ''key'')"
    by (simp add: LoadSigner_def loadSLHDSASigner_def toySchemes_def demoKey_def)
  ultimately show ?thesis
    by (simp add: activeSignerAndID_def demoUserID_def toySchemes_def)
qed

lemma demoUserID_val: "demoUserID = ''a2V5''"
  by code_simp

lemma demoStore_wf: "store_wf demoStore"
  by (simp add: store_wf_def demoStore_def emptyStore_def keysDistinct_def)

text \<open>A hex id has at least two characters.\<close>

lemma hex_not_empty: "SignatureID (sha256 toySchemes) pl sg \<noteq> []"
proof -
  have "length (sha256 toySchemes (sigFrame pl sg)) \<ge> 8" by (simp add: toySchemes_def sigFrame_def)
  then have "sha256 toySchemes (sigFrame pl sg) \<noteq> []" by auto
  then show ?thesis by (cases "sha256 toySchemes (sigFrame pl sg)") (simp_all add: SignatureID_def hexEncode_def)
qed

lemma hex_not_t: "SignatureID (sha256 toySchemes) pl sg \<noteq> ''t''"
proof -
  have "length (sha256 toySchemes (sigFrame pl sg)) \<ge> 8" by (simp add: toySchemes_def sigFrame_def)
  then have "sha256 toySchemes (sigFrame pl sg) \<noteq> []" by auto
  then obtain c r where "sha256 toySchemes (sigFrame pl sg) = c # r" by (cases "sha256 toySchemes (sigFrame pl sg)") auto
  then show ?thesis by (simp add: SignatureID_def hexEncode_def)
qed

section \<open>Signing, revoking, deleting\<close>

definition demoAdapter :: adapter where
  "demoAdapter = \<lparr>adName = ''demo'', adEcosystem = ''npm'', adCanParse = (\<lambda>_. False), adCompare = semver_Compare,
     adValidate = (\<lambda>_. None), adResolve = (\<lambda>_ _. None)\<rparr>"

lemma Sign_authentic_witness:
  "\<exists>s' i. Sign demoCli [demoAdapter] demoIO [''delta'', ''npm'', ''p'', ''1.0.0'', ''1.1.0'', ''--level'', ''vetted''] demoStore = Inr (s', i)
     \<and> set (cachedSignatures s') \<subseteq> {demoTarget} \<union> {g. authentic demoCli g \<and> csID g = i}"
proof -
  let ?args = "[''delta'', ''npm'', ''p'', ''1.0.0'', ''1.1.0'', ''--level'', ''vetted'']"
  have cmp: "\<not> semver_Compare ''1.0.0'' ''1.1.0'' \<ge> 0" by code_simp
  have flags: "parseSignFlags [''--level'', ''vetted''] = Inr (''vetted'', [], False)"
    by (simp add: parseSignFlags_def)
  have valid: "Validate (emptyPayload\<lparr>pType := ''delta_decision'', pSigner := demoUserID, pEcosystem := ''npm'',
      pPackageID := ''p'', pFromVersion := ''1.0.0'', pToVersion := ''1.1.0'', pLevel := ''vetted'', pReason := []\<rparr>) = None"
    by (simp add: Validate_def emptyPayload_def demoUserID_val validLevels_def)
  obtain s' i where r: "Sign demoCli [demoAdapter] demoIO ?args demoStore = Inr (s', i)"
    using cmp flags valid demo_active
    by (simp add: Sign_def signDelta_def adapterForEcosystem_def demoAdapter_def checkDelta_def signAndCache_def
        signPayload_def Let_def)
  moreover have "schemes_ok (ceSchemes demoCli)" by (simp add: toySchemes_ok)
  ultimately show ?thesis
    using Sign_authentic[of demoCli "[demoAdapter]" demoIO ?args demoStore s' i]
    by (auto simp: demoStore_def)
qed

lemma Revoke_effective_witness:
  "\<exists>s' i t. Revoke demoCli demoIO [''t''] demoStore = Inr (s', i)
     \<and> IsCachedSignatureRevoked (ceCodec demoCli) ''t'' s' = Inr (True, t)"
proof -
  let ?p = "emptyPayload\<lparr>pType := ''revocation'', pSigner := demoUserID, pTargetID := ''t''\<rparr>"
  have "Validate ?p = None"
    by (simp add: Validate_def emptyPayload_def demoUserID_val validLevels_def)
  then obtain s' i where r: "Revoke demoCli demoIO [''t''] demoStore = Inr (s', i)"
      and i: "i = SignatureID (sha256 toySchemes) (encPayload ?p) (b64Encode (signerSign toySchemes [] (SLHDSASigner ''key'') (encPayload ?p)))"
    using demo_active by (simp add: Revoke_def signAndCache_def signPayload_def Let_def demoIO_def)
  have ne: "i \<noteq> ''t''" using hex_not_t i by simp
  have g: "GetCachedSignature ''t'' demoStore = Inr demoTarget"
    by (simp add: GetCachedSignature_def demoStore_def orNotFound_def rowByKey_def demoTarget_def)
  have fresh: "\<forall>h\<in>set (cachedSignatures demoStore). csID h = i \<longrightarrow> csSigner h = demoUserID \<and> csPayload h = ceMarshal demoCli ?p"
    using ne by (auto simp: demoStore_def demoTarget_def)
  have "\<exists>t. IsCachedSignatureRevoked (ceCodec demoCli) ''t'' s' = Inr (True, t)"
    using Revoke_effective[OF demoStore_wf demo_codec_ok r _ g _ ne fresh, of "SLHDSASigner ''key''"] demo_active
    by (simp add: demoTarget_def)
  with r show ?thesis by blast
qed

lemma runDelete_spares_pushed_witness:
  "\<exists>s'. runDelete ''t'' demoStore = Inr s' \<and> set (cachedSignatures s') = {}"
proof -
  have g: "LookupCachedSignature ''t'' demoStore = Inr demoTarget"
    by (simp add: LookupCachedSignature_def GetCachedSignature_def demoStore_def orNotFound_def rowByKey_def demoTarget_def)
  have np: "\<not> HasBeenPushed (csID demoTarget) ItemSignature demoStore"
    by (simp add: HasBeenPushed_def demoStore_def emptyStore_def)
  have "\<exists>s'. DeleteCachedSignature (csID demoTarget) demoStore = Inr s'"
    by (simp add: DeleteCachedSignature_def demoStore_def rowByKey_def emptyStore_def)
  then obtain s' where r: "runDelete ''t'' demoStore = Inr s'"
    using g np by (auto simp: runDelete_def)
  have "set (cachedSignatures demoStore) = {demoTarget}" by (simp add: demoStore_def)
  with r g runDelete_spares_pushed[OF demoStore_wf r] show ?thesis by auto
qed

section \<open>Trusting\<close>

definition demoPeer :: peer where
  "demoPeer = \<lparr>peID = ''p'', peServerURL = ''https://t'', peTrustDepth = 1, pePublic = True, peDistrusted = False,
     peVetoOnly = False, peLastSyncedAt = None\<rparr>"

lemma demo_marshal_ok: "marshal_ok demoCli"
  by (simp add: marshal_ok_def demo_codec_ok)

abbreviation demoConnItem :: signedItem where
  "demoConnItem \<equiv> itemFor demoCli [] (SLHDSASigner ''key'') (connPayload demoUserID demoPeer)"

text \<open>The ids of the two kinds of connection payload differ, whatever is revoked.\<close>

lemma demo_ids_differ:
  "itID (itemFor demoCli [] (SLHDSASigner ''key'') (revPayload demoUserID t)) \<noteq> itID demoConnItem"
proof
  let ?pl = "\<lambda>p. encPayload p" and ?sg = "\<lambda>p. b64Encode (signerSign toySchemes [] (SLHDSASigner ''key'') (encPayload p))"
  assume "itID (itemFor demoCli [] (SLHDSASigner ''key'') (revPayload demoUserID t)) = itID demoConnItem"
  then have "take 32 (sigFrame (?pl (revPayload demoUserID t)) (?sg (revPayload demoUserID t)))
      = take 32 (sigFrame (?pl (connPayload demoUserID demoPeer)) (?sg (connPayload demoUserID demoPeer)))"
    by (auto simp: itemFor_def Let_def SignatureID_def toySchemes_def dest: hexEncode_inj)
  then show False
    by (simp add: sigFrame_def revPayload_def connPayload_def encPayload_def emptyPayload_def)
qed

text \<open>The peer was trusted with another depth before.\<close>

definition demoTrustingStore :: store where
  "demoTrustingStore = demoStore\<lparr>cachedConnections :=
     [connectionRow demoUserID ''p'' 0 (demoConnItem\<lparr>itID := ''t'', itPayload := encPayload (connPayload demoUserID (demoPeer\<lparr>peTrustDepth := 0\<rparr>))\<rparr>)]\<rparr>"

lemma demoTrustingStore_rows:
  "n \<in> set (cachedConnections demoTrustingStore) \<longleftrightarrow> n =
     connectionRow demoUserID ''p'' 0 (demoConnItem\<lparr>itID := ''t'', itPayload := ceMarshal demoCli (connPayload demoUserID (demoPeer\<lparr>peTrustDepth := 0\<rparr>))\<rparr>)"
  by (simp add: demoTrustingStore_def)

lemma recordTrustChange_active_witness:
  "(\<exists>n. GetActiveConnection (ceCodec demoCli) demoUserID ''p'' demoTrustingStore = Some n \<and> ccID n = ''t'')
   \<and> (\<exists>s' n. recordTrustChange demoCli [] [] 0 (SLHDSASigner ''key'') demoUserID demoPeer demoTrustingStore = (s', None)
     \<and> GetActiveConnection (ceCodec demoCli) demoUserID ''p'' s' = Some n \<and> ccID n = itID demoConnItem)"
proof
  note rows = demoTrustingStore_rows
  have ids: "itID (itemFor demoCli [] (SLHDSASigner ''key'') p) \<noteq> ''t''" for p
    using hex_not_t by (simp add: itemFor_def Let_def SignatureID_def)
  show "\<exists>n. GetActiveConnection (ceCodec demoCli) demoUserID ''p'' demoTrustingStore = Some n \<and> ccID n = ''t''"
  proof -
    let ?n = "connectionRow demoUserID ''p'' 0 (demoConnItem\<lparr>itID := ''t'',
      itPayload := ceMarshal demoCli (connPayload demoUserID (demoPeer\<lparr>peTrustDepth := 0\<rparr>))\<rparr>)"
    have "?n \<in> activeCandidates (ceCodec demoCli) demoUserID ''p'' demoTrustingStore"
      by (simp add: activeCandidates_def rows connectionRow_def marshal_simps[OF demo_marshal_ok] connPayload_def del: demoCli_simps)
    moreover have "n = ?n" if "n \<in> activeCandidates (ceCodec demoCli) demoUserID ''p'' demoTrustingStore" for n
      using that unfolding activeCandidates_def rows by blast
    ultimately have "activeCandidates (ceCodec demoCli) demoUserID ''p'' demoTrustingStore = {?n}" by blast
    moreover have "ccID ?n = ''t''" by (simp add: connectionRow_def)
    ultimately show ?thesis
      using GetActiveConnection_spec[of "ceCodec demoCli" demoUserID "''p''" demoTrustingStore]
      by (cases "GetActiveConnection (ceCodec demoCli) demoUserID ''p'' demoTrustingStore") simp_all
  qed
  have u: "demoUserID \<noteq> []" "peID demoPeer \<noteq> []" by (simp_all add: demoUserID_val demoPeer_def)
  have one: "\<forall>a\<in>activeCandidates (ceCodec demoCli) demoUserID (peID demoPeer) demoTrustingStore.
      \<forall>b\<in>activeCandidates (ceCodec demoCli) demoUserID (peID demoPeer) demoTrustingStore. a = b"
    by (simp add: activeCandidates_def rows)
  have new: "\<forall>n\<in>set (cachedConnections demoTrustingStore). ccID n \<noteq> []"
      "itID (itemFor demoCli [] (SLHDSASigner ''key'') p) \<notin> ccID ` set (cachedConnections demoTrustingStore)" for p
    using ids by (auto simp: rows connectionRow_def)
  have unnamed: "\<forall>r\<in>set (cachedConnections demoTrustingStore). ccSigner r = demoUserID \<longrightarrow>
      decRef (ceCodec demoCli) (ccPayload r) \<noteq> Some (''connection_revocation'', itID demoConnItem)"
    by (simp add: rows connectionRow_def marshal_simps[OF demo_marshal_ok] connPayload_def del: demoCli_simps)
  show "\<exists>s' n. recordTrustChange demoCli [] [] 0 (SLHDSASigner ''key'') demoUserID demoPeer demoTrustingStore = (s', None)
     \<and> GetActiveConnection (ceCodec demoCli) demoUserID ''p'' s' = Some n \<and> ccID n = itID demoConnItem"
    using recordTrustChange_active[OF demo_marshal_ok u one new(1) refl _ new(2) unnamed, of "[]" 0] new(2) demo_ids_differ
    by (auto simp: demoPeer_def)
qed

definition demoRevokedStore :: store where
  "demoRevokedStore = demoStore\<lparr>cachedConnections :=
     [connectionRow demoUserID ''p'' 0 (itemFor demoCli [] (SLHDSASigner ''key'') (revPayload demoUserID (itID demoConnItem)))]\<rparr>"

lemma recordTrustChange_again_inactive_witness:
  "\<exists>s'. recordTrustChange demoCli [] [] 0 (SLHDSASigner ''key'') demoUserID demoPeer demoRevokedStore = (s', None)
     \<and> (\<exists>l. GetPeer ''p'' s' = Inr (demoPeer\<lparr>peLastSyncedAt := l\<rparr>))
     \<and> (GetActiveConnection (ceCodec demoCli) demoUserID ''p'' s' = None
        \<or> (\<exists>n. GetActiveConnection (ceCodec demoCli) demoUserID ''p'' s' = Some n \<and> ccID n \<noteq> itID demoConnItem))"
proof -
  let ?r = "connectionRow demoUserID ''p'' 0 (itemFor demoCli [] (SLHDSASigner ''key'') (revPayload demoUserID (itID demoConnItem)))"
  have r: "?r \<in> set (cachedConnections demoRevokedStore)" "ccSigner ?r = demoUserID"
      "decRef (ceCodec demoCli) (ccPayload ?r) = Some (''connection_revocation'', itID demoConnItem)"
      "decType (ceCodec demoCli) (ccPayload ?r) \<noteq> Some ''connection''"
    by (simp_all add: demoRevokedStore_def connectionRow_def marshal_simps[OF demo_marshal_ok] revPayload_def del: demoCli_simps)
  have none: "GetActiveConnection (ceCodec demoCli) demoUserID ''p'' demoRevokedStore = None"
    using GetActiveConnection_spec[of "ceCodec demoCli" demoUserID "''p''" demoRevokedStore] r(4)
    by (auto simp: activeCandidates_def demoRevokedStore_def split: option.splits)
  have ids: "demoUserID \<noteq> []" "peID demoPeer \<noteq> []" by (simp_all add: demoUserID_val demoPeer_def)
  obtain s' where s': "recordTrustChange demoCli [] [] 0 (SLHDSASigner ''key'') demoUserID demoPeer demoRevokedStore = (s', None)"
      "\<exists>s1. s' = SavePeer demoPeer s1"
    using none signPayload_valid[OF Validate_connections(2)[OF ids]]
    by (simp add: recordTrustChange_def revokeActiveConnection_def demoPeer_def del: demoCli_simps) blast
  have i: "itID demoConnItem \<noteq> []"
    using hex_not_empty by (simp add: itemFor_def Let_def)
  show ?thesis
    using s' recordTrustChange_again_inactive[OF demo_marshal_ok ids refl i r(1-3) s'(1)]
    by (auto simp: GetPeer_def orNotFound_def peerTable.get_put demoPeer_def)
qed

end
