(* ===== verification/Net_Examples.thy ===== *)
theory Net_Examples
  imports Cli_Mirror Cli_Examples Server_Access
begin

text \<open>
  A concrete network: the program's server with the toy schemes and encoding, and the
  client of the examples registered at it.  The properties of the client's requests
  are applied to them.
\<close>

section \<open>Encoders\<close>

definition encSig :: "sigInput \<Rightarrow> string" where
  "encSig i = encF (sinID i) @ encF (sinPayload i) @ encF (sinAlgorithm i) @ encF (sinSig i)
     @ encF (case sinPublic i of None \<Rightarrow> [] | Some b \<Rightarrow> encBool b)"

definition decSig :: "string \<Rightarrow> sigInput option" where
  "decSig s0 =
     (case decF s0 of None \<Rightarrow> None | Some (i, s1) \<Rightarrow> (case decF s1 of None \<Rightarrow> None | Some (p, s2) \<Rightarrow>
     (case decF s2 of None \<Rightarrow> None | Some (a, s3) \<Rightarrow> (case decF s3 of None \<Rightarrow> None | Some (g, s4) \<Rightarrow>
     (case decF s4 of None \<Rightarrow> None | Some (b, s5) \<Rightarrow>
       Some \<lparr>sinID = i, sinPayload = p, sinAlgorithm = a, sinSig = g, sinPublic = map_option fst (decBool b)\<rparr>)))))"

lemma decSig_encSig [simp]: "decSig (encSig i) = Some i"
proof -
  have "decBool [] = None" by (simp add: decBool_def)
  then show ?thesis by (cases i) (simp add: decSig_def encSig_def split: option.split)
qed

definition encConn :: "connInput \<Rightarrow> bool option \<Rightarrow> string" where
  "encConn i b = encF (ciID i) @ encF (ciPayload i) @ encF (ciAlgorithm i) @ encF (ciSig i)"

definition decConn :: "string \<Rightarrow> connInput option" where
  "decConn s0 =
     (case decF s0 of None \<Rightarrow> None | Some (i, s1) \<Rightarrow> (case decF s1 of None \<Rightarrow> None | Some (p, s2) \<Rightarrow>
     (case decF s2 of None \<Rightarrow> None | Some (a, s3) \<Rightarrow> (case decF s3 of None \<Rightarrow> None | Some (g, s4) \<Rightarrow>
       Some \<lparr>ciID = i, ciPayload = p, ciAlgorithm = a, ciSig = g\<rparr>))))"

lemma decConn_encConn [simp]: "decConn (encConn i b) = Some i"
  by (simp add: decConn_def encConn_def)

definition encUser :: "userInput \<Rightarrow> string" where
  "encUser i = encF (uinID i) @ encF (uinUsername i) @ encF (uinPubKey i) @ encF (uinAlgorithm i)"

definition decUser :: "string \<Rightarrow> userInput option" where
  "decUser s0 =
     (case decF s0 of None \<Rightarrow> None | Some (i, s1) \<Rightarrow> (case decF s1 of None \<Rightarrow> None | Some (p, s2) \<Rightarrow>
     (case decF s2 of None \<Rightarrow> None | Some (a, s3) \<Rightarrow> (case decF s3 of None \<Rightarrow> None | Some (g, s4) \<Rightarrow>
       Some \<lparr>uinID = i, uinUsername = p, uinPubKey = a, uinAlgorithm = g\<rparr>))))"

lemma decUser_encUser [simp]: "decUser (encUser i) = Some i"
  by (simp add: decUser_def encUser_def)

definition encTok :: "authToken \<Rightarrow> string" where
  "encTok t = encF (atType t) @ encF (atSigner t) @ encF (atServer t) @ encF (atIAT t) @ encF (atEXP t)"

definition decTok :: "string \<Rightarrow> authToken option" where
  "decTok s0 =
     (case decF s0 of None \<Rightarrow> None | Some (ty, s1) \<Rightarrow> (case decF s1 of None \<Rightarrow> None | Some (si, s2) \<Rightarrow>
     (case decF s2 of None \<Rightarrow> None | Some (sv, s3) \<Rightarrow> (case decF s3 of None \<Rightarrow> None | Some (ia, s4) \<Rightarrow>
     (case decF s4 of None \<Rightarrow> None | Some (ex, s5) \<Rightarrow>
       Some \<lparr>atType = ty, atSigner = si, atServer = sv, atIAT = ia, atEXP = ex\<rparr>)))))"

lemma decTok_encTok [simp]: "decTok (encTok t) = Some t"
  by (simp add: decTok_def encTok_def)

definition encEnv :: "signedAuthEnvelope \<Rightarrow> string" where
  "encEnv e = encF (aePayload e) @ encF (aeAlgorithm e) @ encF (aeSig e)"

definition decEnv :: "string \<Rightarrow> signedAuthEnvelope option" where
  "decEnv s0 =
     (case decF s0 of None \<Rightarrow> None | Some (p, s1) \<Rightarrow> (case decF s1 of None \<Rightarrow> None | Some (a, s2) \<Rightarrow>
     (case decF s2 of None \<Rightarrow> None | Some (g, s3) \<Rightarrow> Some \<lparr>aePayload = p, aeAlgorithm = a, aeSig = g\<rparr>)))"

lemma decEnv_encEnv [simp]: "decEnv (encEnv e) = Some e"
  by (simp add: decEnv_def encEnv_def)

section \<open>The network\<close>

definition netEnv :: env where
  "netEnv = \<lparr>evSchemes = toySchemes, evPublicURL = ''https://t'', evTime = (\<lambda>s. map_option fst (decInt s)),
     evPayload = decPayloadFields, evEnvelope = decEnv, evToken = decTok, evConnInput = decConn,
     evSigInput = decSig, evUserInput = decUser\<rparr>"

definition demoNet :: "serverDb http" where
  "demoNet = \<lparr>htSend = (\<lambda>url r db. (Some (fst (serve netEnv 0 0 r db)), snd (serve netEnv 0 0 r db))),
     htEncSig = encSig, htEncConn = encConn, htEncUser = encUser,
     htDecSig = (\<lambda>b. case b of SigBody g \<Rightarrow> Some g | _ \<Rightarrow> None),
     htDecSigs = (\<lambda>b. case b of SigsBody gs \<Rightarrow> Some (map Some gs) | _ \<Rightarrow> None),
     htDecConns = (\<lambda>b. case b of ConnsBody ns \<Rightarrow> Some (map Some ns) | _ \<Rightarrow> None),
     htDecUser = (\<lambda>b. case b of UserBody u \<Rightarrow> Some u | _ \<Rightarrow> None),
     htUserID = (\<lambda>b. case b of UserBody u \<Rightarrow> usID u | _ \<Rightarrow> []),
     htEncToken = encTok, htEncEnvelope = encEnv, htFormat = (\<lambda>t. encInt (cutToSecond t))\<rparr>"

lemma demo_talksTo: "talksTo demoNet netEnv"
proof -
  have "htSend demoNet url r db = (Some (fst (serve netEnv 0 0 r db)), snd (serve netEnv 0 0 r db))" for url r db
    by (simp add: demoNet_def)
  then show ?thesis
    unfolding talksTo_def by (intro conjI) (blast | simp add: demoNet_def netEnv_def)+
qed

lemma demo_authCoded: "authCoded demoNet netEnv"
  by (simp add: authCoded_def demoNet_def netEnv_def)

definition aliceUser :: user where
  "aliceUser = \<lparr>usID = demoUserID, usUsername = ''default'', usPubKey = b64Encode ''key'',
     usAlgorithm = ''slh-dsa-shake-128s'', usIsAdmin = False\<rparr>"

definition aliceDb :: serverDb where "aliceDb = emptyDb\<lparr>dbUsers := [aliceUser]\<rparr>"

lemma alice_registered: "GetUser demoUserID aliceDb = Inr aliceUser"
  by (simp add: GetUser_def aliceDb_def emptyDb_def aliceUser_def rowByKey_def)

lemma demo_signer: "LoadSigner toySchemes ''slh-dsa-shake-128s'' ''key'' = Inr (SLHDSASigner ''key'')"
  by (simp add: LoadSigner_def loadSLHDSASigner_def toySchemes_def)

lemma demo_key:
  "GetActiveKey demoStore = Inr ''default''" "GetKey ''default'' demoStore = Inr demoKey"
  by (simp_all add: demoStore_def GetActiveKey_def GetKey_def orNotFound_def demoKey_def rowByKey_def)

lemma demo_activeUserID: "activeUserID toySchemes demoStore = Inr demoUserID"
  by (simp add: activeUserID_def demo_key demoKey_def b64Decode_Encode demoUserID_def)

section \<open>Authorization and registration\<close>

lemma withAuth_authenticates_witness:
  "authenticateRequest netEnv (withAuth toySchemes demoNet [] 0 (SLHDSASigner ''key'') demoUserID ''HTTPS://u@t/v''
     (getRequest (sigsURL demoUserID) [])) aliceDb (100 * second) = Inr aliceUser"
proof -
  have "evPublicURL netEnv = requestOrigin ''HTTPS://u@t/v''"
    unfolding netEnv_def by code_simp
  then show ?thesis
    using withAuth_authenticates[of netEnv demoNet "''slh-dsa-shake-128s''" "''key''" "SLHDSASigner ''key''" demoUserID aliceDb
        aliceUser "''HTTPS://u@t/v''" 0 "100 * second"] demo_authCoded alice_registered demo_signer toySchemes_ok
    by (simp add: netEnv_def demoUserID_val aliceUser_def second_def toySchemes_def)
qed

lemma stolen_token_expires_witness:
  "\<exists>r. authenticateRequest netEnv r aliceDb (100 * second) = Inr aliceUser
     \<and> authenticateRequest netEnv r aliceDb (140 * second) = Inr aliceUser \<and> \<bar>140 * second - 100 * second\<bar> \<le> 360 * second"
proof -
  let ?r = "withAuth toySchemes demoNet [] 0 (SLHDSASigner ''key'') demoUserID ''HTTPS://u@t/v'' (getRequest (sigsURL demoUserID) [])"
  have url: "evPublicURL netEnv = requestOrigin ''HTTPS://u@t/v''"
    unfolding netEnv_def by code_simp
  have ok: "authenticateRequest netEnv ?r aliceDb (k * second) = Inr aliceUser" if "0 \<le> k" "k \<le> 149" for k
    using withAuth_accepted[of netEnv demoNet "''slh-dsa-shake-128s''" "''key''" "SLHDSASigner ''key''" demoUserID aliceDb
        aliceUser "''HTTPS://u@t/v''" 0 "k * second"] url that demo_authCoded alice_registered demo_signer toySchemes_ok
    by (simp add: netEnv_def demoUserID_val aliceUser_def second_def toySchemes_def)
  have "\<bar>140 * second - 100 * second\<bar> \<le> 360 * second"
    using stolen_token_expires[of netEnv ?r aliceDb "100 * second" aliceUser "evPublicURL netEnv" ?r aliceDb "140 * second" aliceUser] ok
    by simp
  with ok[of 100] ok[of 140] show ?thesis by (intro exI[of _ ?r]) simp
qed

lemma Register_iff_witness:
  "Register toySchemes demoNet [''https://t/''] demoStore aliceDb = ((demoStore, Some (ServerReturned 500)), aliceDb)
   \<and> snd (fst (Register toySchemes demoNet [''https://t/''] demoStore emptyDb)) = None"
proof -
  have pub: "b64Decode (kyPubKey demoKey) = Some ''key''" by (simp add: demoKey_def b64Decode_Encode)
  note r = Register_iff[OF demo_talksTo demo_key pub refl]
  show ?thesis
    unfolding r by (simp add: aliceDb_def emptyDb_def aliceUser_def)
qed

section \<open>Synchronising\<close>

text \<open>Mallory is a peer of Alice whose key is cached; her server answers as she likes.\<close>

definition malloryID :: string where "malloryID = userIDOf toySchemes ''mall''"

definition mallory :: peer where
  "mallory = \<lparr>peID = malloryID, peServerURL = ''https://m'', peTrustDepth = 1, pePublic = False, peDistrusted = False,
     peVetoOnly = False, peLastSyncedAt = None\<rparr>"

definition peerStore :: store where
  "peerStore = demoStore\<lparr>peers := [mallory], cachedUsers := [\<lparr>cuID = malloryID, cuUsername = ''m'',
     cuPubKey = b64Encode ''mall'', cuAlgorithm = ''slh-dsa-shake-128s'', cuFetchedAt = 0\<rparr>]\<rparr>"

definition forgedSig :: signature where
  "forgedSig = (let pl = encPayload (emptyPayload\<lparr>pType := ''revocation'', pSigner := demoUserID, pTargetID := ''t''\<rparr>) in
     \<lparr>sgID = ''x'', sgSigner = demoUserID, sgPayload = pl, sgAlgorithm = ''slh-dsa-shake-128s'',
      sgSig = b64Encode (''mall'' @ pl), sgUploadedAt = 0, sgRevoked = False, sgRevokedAt = None, sgPublic = True\<rparr>)"

definition malloryNet :: "unit http" where
  "malloryNet = \<lparr>htSend = (\<lambda>url r w. (Some (Response 200 (if rqPath r = sigsURL malloryID then SigsBody [forgedSig] else ConnsBody [])), w)),
     htEncSig = encSig, htEncConn = encConn, htEncUser = encUser,
     htDecSig = (\<lambda>b. None),
     htDecSigs = (\<lambda>b. case b of SigsBody gs \<Rightarrow> Some (map Some gs) | _ \<Rightarrow> None),
     htDecConns = (\<lambda>b. case b of ConnsBody ns \<Rightarrow> Some (map Some ns) | _ \<Rightarrow> None),
     htDecUser = (\<lambda>b. None), htUserID = (\<lambda>b. []), htEncToken = encTok, htEncEnvelope = encEnv, htFormat = (\<lambda>t. [])\<rparr>"

lemma mallory_fetch:
  "fetchUserConnections malloryNet u malloryID since () = (Some [], ())"
  "fetchUserSignatures malloryNet u malloryID since () = (Some [Some forgedSig], ())"
  by (simp_all add: fetchUserConnections_def fetchUserSignatures_def malloryNet_def okDecoded_def getRequest_def
      sigsURL_def connsURL_def)

lemma mallory_signed:
  "verifySigned toySchemes peerStore malloryID (sgPayload forgedSig) (sgAlgorithm forgedSig) (sgSig forgedSig) = None"
  unfolding verifySigned_None
  by (simp add: GetCachedUser_def peerStore_def orNotFound_def rowByKey_def b64Decode_Encode malloryID_def
      forgedSig_def Let_def NewVerifier_def newSLHDSAVerifier_def toySchemes_def userIDOf_def)

lemma Sync_peer_revokes_others_witness:
  "\<exists>s' t. Sync toySchemes malloryNet 0 (\<lambda>_. 0) peerStore () = ((s', None), ())
     \<and> IsCachedSignatureRevoked (ceCodec demoCli) ''t'' s' = Inr (True, t)"
proof -
  have wf: "store_wf peerStore"
    using demoStore_wf by (simp add: store_wf_def peerStore_def keysDistinct_def)
  have h: "GetCachedSignature ''t'' peerStore = Inr demoTarget"
    by (simp add: GetCachedSignature_def peerStore_def demoStore_def orNotFound_def rowByKey_def demoTarget_def)
  have claim: "decRef (ceCodec demoCli) (sgPayload forgedSig) = Some (''revocation'', ''t'')"
    using marshal_simps(2)[OF demo_marshal_ok, of "emptyPayload\<lparr>pType := ''revocation'', pSigner := demoUserID, pTargetID := ''t''\<rparr>"]
    by (simp add: forgedSig_def Let_def)
  have fresh: "sgID forgedSig \<notin> csID ` set (cachedSignatures peerStore)" "csSigner demoTarget = sgSigner forgedSig"
    by (simp_all add: peerStore_def demoStore_def demoTarget_def forgedSig_def Let_def)
  show ?thesis
    using Sync_peer_revokes_others[OF wf, of mallory toySchemes forgedSig malloryNet "()" "()" "()" "''t''" demoTarget "ceCodec demoCli"
        0 "\<lambda>_. 0"] h mallory_signed mallory_fetch claim fresh
    by (simp add: peerStore_def mallory_def)
qed

lemma Sync_adds_signed_rows_witness:
  "\<exists>s'. fst (fst (Sync toySchemes malloryNet 0 (\<lambda>_. 0) peerStore ())) = s' \<and> pushState s' = pushState peerStore
     \<and> syncGrew toySchemes {malloryID} peerStore s'"
proof -
  obtain s' e w' where r: "Sync toySchemes malloryNet 0 (\<lambda>_. 0) peerStore () = ((s', e), w')" by (metis surj_pair)
  have "{peID p | p. p \<in> set (peers peerStore) \<and> \<not> peDistrusted p} = {malloryID}"
    by (auto simp: peerStore_def mallory_def)
  with Sync_adds_signed_rows[OF r] r show ?thesis by (simp add: syncGrew_def)
qed

section \<open>Publishing and mirroring\<close>

definition alicePublishes :: store where
  "alicePublishes = demoStore\<lparr>servers := [\<lparr>svURL = ''https://t'', svAlias = [], svUserID = demoUserID, svLastSyncedAt = None\<rparr>],
     cachedConnections := [connectionRow demoUserID ''p'' 0 demoConnItem]\<rparr>"

lemma Publish_signatures_refused_witness:
  "\<exists>s' e db'. Publish toySchemes (ceCodec demoCli) demoNet 0 alicePublishes aliceDb = ((s', e), db') \<and> dbSignatures db' = []"
proof -
  obtain s' e db' where r: "Publish toySchemes (ceCodec demoCli) demoNet 0 alicePublishes aliceDb = ((s', e), db')"
    by (metis surj_pair)
  have "dbSignatures aliceDb = []" by (simp add: aliceDb_def emptyDb_def)
  with Publish_signatures_refused[OF demo_talksTo r] r show ?thesis by simp
qed

lemma alice_verifies: "verifiesFor toySchemes aliceUser pl (b64Encode (signerSign toySchemes rnd (SLHDSASigner ''key'') pl))"
  using signed_verifies[OF toySchemes_ok demo_signer, of "[]" pl rnd]
    verifiesFor_key[of aliceUser "NewUserFromSigner toySchemes [] (SLHDSASigner ''key'')"]
  by (simp add: NewUserFromSigner_def Let_def aliceUser_def toySchemes_def)

lemma Publish_connection_arrives_witness:
  "\<exists>s' db'. Publish toySchemes (ceCodec demoCli) demoNet 0 alicePublishes aliceDb = ((s', None), db')
     \<and> IsPushed (itID demoConnItem) ItemConnection ''https://t'' s' \<and> itID demoConnItem \<in> cnID ` set (dbConnections db')"
proof -
  let ?n = "connectionRow demoUserID ''p'' 0 demoConnItem" and ?p = "connPayload demoUserID demoPeer"
  let ?srv = "\<lparr>svURL = ''https://t'', svAlias = [], svUserID = demoUserID, svLastSyncedAt = None\<rparr>"
  have wf: "store_wf alicePublishes"
    using demoStore_wf by (simp add: store_wf_def alicePublishes_def keysDistinct_def)
  have user: "activeUserID toySchemes alicePublishes = Inr demoUserID"
  proof -
    have "GetActiveKey alicePublishes = Inr ''default''" "GetKey ''default'' alicePublishes = Inr demoKey"
      using demo_key by (simp_all add: GetActiveKey_def GetKey_def alicePublishes_def)
    then show ?thesis by (simp add: activeUserID_def demoKey_def b64Decode_Encode demoUserID_def)
  qed
  have acc: "connAccepted netEnv demoUserID aliceDb aliceUser
      \<lparr>ciID = ccID ?n, ciPayload = ccPayload ?n, ciAlgorithm = ccAlgorithm ?n, ciSig = ccSig ?n\<rparr> ?p"
    using alice_registered alice_verifies Validate_connections(2)[of demoUserID demoPeer] hex_not_empty
    by (simp add: connAccepted_def uploadOk_def netEnv_def connectionRow_def itemFor_def Let_def demoUserID_val
        connPayload_def demoPeer_def)
  have id: "demoUserID \<noteq> []" by (simp add: demoUserID_val)
  have "\<exists>s' db'. Publish toySchemes (ceCodec demoCli) demoNet 0 alicePublishes aliceDb = ((s', None), db')
      \<and> IsPushed (ccID ?n) ItemConnection (svURL ?srv) s' \<and> ccID ?n \<in> cnID ` set (dbConnections db')"
    by (rule Publish_connection_arrives[OF demo_talksTo wf user id _ _ _ _ acc])
       (simp_all add: alicePublishes_def connectionRow_def IsPushed_def demoStore_def emptyStore_def connPayload_def demoPeer_def)
  then show ?thesis by (simp add: connectionRow_def)
qed

definition alicePublished :: serverDb where
  "alicePublished = aliceDb\<lparr>dbSignatures := [\<lparr>sgID = ''t'', sgSigner = demoUserID, sgPayload = ''D'', sgAlgorithm = ''slh-dsa-shake-128s'',
     sgSig = [], sgUploadedAt = 0, sgRevoked = False, sgRevokedAt = None, sgPublic = True\<rparr>]\<rparr>"

lemma mirrorPush_publishes_nothing_witness:
  "\<exists>s' e db'. mirrorPush demoCli demoNet (\<lambda>_. []) (\<lambda>_. 0) (ioKey demoIO) [''https://t''] demoStore alicePublished = ((s', e), db')
     \<and> map sgID (publicRows db') = [''t''] \<and> s' = demoStore"
proof -
  obtain s' e db' where r: "mirrorPush demoCli demoNet (\<lambda>_. []) (\<lambda>_. 0) (ioKey demoIO) [''https://t''] demoStore alicePublished = ((s', e), db')"
    by (metis surj_pair)
  have ids: "keysDistinct sgID (dbSignatures alicePublished)" by (simp add: alicePublished_def keysDistinct_def)
  have rows: "map sgID (publicRows alicePublished) = [''t'']" by (simp add: publicRows_def alicePublished_def)
  have "list_all2 (onlyRevoked (revokedInStore netEnv demoCli (ioKey demoIO) demoStore)) (publicRows alicePublished) (publicRows db')"
    using mirrorPush_publishes_nothing[OF demo_talksTo ids r] by blast
  then have "map sgID (publicRows db') = map sgID (publicRows alicePublished)"
    by (induction rule: list_all2_induct) (auto simp: onlyRevoked_def)
  with mirrorPush_publishes_nothing[OF demo_talksTo ids r] r rows show ?thesis by auto
qed

end
