(* ===== verification/Cli_Clean.thy ===== *)
theory Cli_Clean
  imports Resolver Cli_Keys
begin

text \<open>
  Pruning rows of signers outside the trust graph, \<open>clean.go\<close>, and why that is safe: the
  trust set and every verdict depend only on the peers and on the rows of the
  signers in the trust set.  \<open>iter\<close> is the order in which Go ranges over a map.
\<close>

section \<open>The command\<close>

record pruneCandidates =
  pcSignatures :: "cachedSignature list"
  pcConnections :: "cachedConnection list"
  pcUsers :: "cachedUser list"

type_synonym mapOrder = "(string \<times> trustEntry) list \<Rightarrow> (string \<times> trustEntry) list"

definition pruneTotal :: "pruneCandidates \<Rightarrow> nat" where
  "pruneTotal p = length (pcSignatures p) + length (pcConnections p) + length (pcUsers p)"

definition findPruneCandidates :: "mapOrder \<Rightarrow> codec \<Rightarrow> store \<Rightarrow> string \<Rightarrow> pruneCandidates" where
  "findPruneCandidates iter c s viewer =
     (let live = set (map trSignerID (TrustSet iter c s viewer viewer)) in
      \<lparr>pcSignatures = filter (\<lambda>g. csSigner g \<notin> live) (ListAllCachedSignatures s),
       pcConnections = filter (\<lambda>n. ccSigner n \<notin> live) (ListAllCachedConnections s),
       pcUsers = filter (\<lambda>u. cuID u \<notin> live) (ListCachedUsers s)\<rparr>)"

text \<open>Rows that cannot be deleted are skipped.\<close>

definition applyPrune :: "pruneCandidates \<Rightarrow> store \<Rightarrow> store" where
  "applyPrune p s =
     fold (\<lambda>u s. orUnchanged s (DeleteCachedUser (cuID u) s)) (pcUsers p)
       (fold (\<lambda>n s. orUnchanged s (DeleteCachedConnection (ccID n) s)) (pcConnections p)
         (fold (\<lambda>g s. orUnchanged s (DeleteCachedSignature (csID g) s)) (pcSignatures p) s))"

definition isAffirmative :: "string \<Rightarrow> bool" where
  "isAffirmative answer \<longleftrightarrow> toLower (trimSpace answer) = ''y'' \<or> toLower (trimSpace answer) = ''yes''"

definition runClean :: "schemes \<Rightarrow> mapOrder \<Rightarrow> codec \<Rightarrow> string option \<Rightarrow> store \<Rightarrow> cliError + store" where
  "runClean sch iter c typed s =
     bindE (activeUserID sch s) (\<lambda>userID.
       (let candidates = findPruneCandidates iter c s userID in
        if pruneTotal candidates = 0 then Inr s
        else bindE (promptLine typed) (\<lambda>answer.
          if \<not> isAffirmative answer then Inr s else Inr (applyPrune candidates s))))"

section \<open>What a verdict depends on\<close>

text \<open>The walk asks for the edges of those signers only that it puts into the result.\<close>

lemma bfs_cong:
  "\<forall>i\<in>fst ` set (bfs out distrusted result queue). out i = out' i \<Longrightarrow>
   bfs out' distrusted result queue = bfs out distrusted result queue"
proof (induction out distrusted result queue rule: bfs.induct)
  case (2 out distrusted result f queue)
  show ?case
  proof (cases "frSigner f \<in> set distrusted \<or> frSigner f \<in> fst ` set result")
    case True
    with 2 show ?thesis by auto
  next
    case False
    let ?result = "result @ [(frSigner f, \<lparr>tePath = frPath f, teVetoOnly = frVetoOnly f\<rparr>)]"
    have "frSigner f \<in> fst ` set (bfs out distrusted ?result (queue @ expand out distrusted f))"
      using bfs_mono[of ?result out distrusted "queue @ expand out distrusted f"] by force
    moreover have all: "\<forall>i\<in>fst ` set (bfs out distrusted ?result (queue @ expand out distrusted f)). out i = out' i"
      using "2.prems" False by simp
    ultimately have "out (frSigner f) = out' (frSigner f)" by blast
    then have "expand out' distrusted f = expand out distrusted f" by (simp add: expand_def)
    with "2.IH"(3) all False show ?thesis by simp
  qed
qed simp

definition peerSettings :: "store \<Rightarrow> peer list" where
  "peerSettings s = map (\<lambda>p. p\<lparr>peLastSyncedAt := None\<rparr>) (ListPeers s)"

text \<open>Two stores that the signers \<open>live\<close> and the peers do not tell apart.\<close>

definition sameView :: "string set \<Rightarrow> store \<Rightarrow> store \<Rightarrow> bool" where
  "sameView live s s' \<longleftrightarrow> peerSettings s' = peerSettings s
     \<and> (\<forall>i\<in>live. GetCachedConnectionsBySigner i s' = GetCachedConnectionsBySigner i s)
     \<and> (\<forall>i\<in>live. GetCachedSignaturesBySigner i s' = GetCachedSignaturesBySigner i s)"

definition liveSigners :: "codec \<Rightarrow> store \<Rightarrow> string \<Rightarrow> string set" where
  "liveSigners c s viewer = fst ` set (buildTrustSet c s viewer viewer)"

lemma distrusted_peerSettings:
  "distrustedOf s a v = (if v = a \<and> a \<noteq> [] then map peID (filter peDistrusted (peerSettings s)) else [])"
  by (simp add: distrustedOf_def peerSettings_def filter_map comp_def)

lemma seeds_peerSettings:
  "a \<noteq> [] \<Longrightarrow> seeds c s a a = map (\<lambda>p. \<lparr>frSigner = peID p, frPath = [peID p], frDepthLeft = peTrustDepth p,
              frVetoOnly = peVetoOnly p\<rparr>) (filter (\<lambda>p. \<not> peDistrusted p) (peerSettings s))"
  by (simp add: seeds_def peerSettings_def filter_map comp_def)

lemma sameView_buildTrustSet:
  assumes "sameView (liveSigners c s viewer) s s'" and "viewer \<noteq> []"
  shows "buildTrustSet c s' viewer viewer = buildTrustSet c s viewer viewer"
proof -
  have p: "distrustedOf s' viewer viewer = distrustedOf s viewer viewer" "seeds c s' viewer viewer = seeds c s viewer viewer"
    using assms by (simp_all add: sameView_def distrusted_peerSettings seeds_peerSettings)
  have "\<forall>i\<in>liveSigners c s viewer. signerOutgoing c s i = signerOutgoing c s' i"
    using assms(1) by (simp add: sameView_def signerOutgoing_def)
  then show ?thesis
    unfolding liveSigners_def buildTrustSet_def p by (rule bfs_cong)
qed

lemma sameView_collect:
  assumes "sameView (liveSigners c s viewer) s s'" and "viewer \<noteq> []" and "\<And>l. set (iter l) \<subseteq> set l"
  shows "collectMatching iter c s' viewer viewer e p = collectMatching iter c s viewer viewer e p"
proof -
  let ?l = "iter (buildTrustSet c s viewer viewer)"
  have "map (signerOutcomes c s' e p) ?l = map (signerOutcomes c s e p) ?l"
  proof (rule map_cong[OF refl])
    fix x assume "x \<in> set ?l"
    then have "fst x \<in> liveSigners c s viewer"
      using assms(3) by (auto simp: liveSigners_def)
    with assms(1) have "GetCachedSignaturesBySigner (fst x) s' = GetCachedSignaturesBySigner (fst x) s"
      by (simp add: sameView_def)
    then show "signerOutcomes c s' e p x = signerOutcomes c s e p x"
      by (cases x) (simp add: signerOutcomes_def)
  qed
  then show ?thesis
    unfolding collectMatching_def sameView_buildTrustSet[OF assms(1,2)] by (simp only:)
qed

lemma sameView_verdicts:
  assumes "sameView (liveSigners c s viewer) s s'" and "viewer \<noteq> []" and "\<And>l. set (iter l) \<subseteq> set l"
  shows "Version iter c s' viewer viewer e p v = Version iter c s viewer viewer e p v"
    and "Package srt iter c s' viewer viewer e p = Package srt iter c s viewer viewer e p"
  by (simp_all add: Version_def Package_def sameView_collect[OF assms])

section \<open>Cleaning keeps verdicts\<close>

text \<open>Deleting rows by their ids.\<close>

lemma fold_delete_signatures:
  "fold (\<lambda>g s. orUnchanged s (DeleteCachedSignature (csID g) s)) gs s =
     s\<lparr>cachedSignatures := filter (\<lambda>x. csID x \<notin> csID ` set gs) (cachedSignatures s)\<rparr>"
proof (induction gs arbitrary: s)
  case (Cons g gs)
  have "orUnchanged s (DeleteCachedSignature (csID g) s) =
      s\<lparr>cachedSignatures := filter (\<lambda>x. csID x \<noteq> csID g) (cachedSignatures s)\<rparr>"
    by (auto simp: orUnchanged_def DeleteCachedSignature_def deleteRows_def rowByKey_None filter_id_conv)
  then show ?case by (auto simp: Cons.IH conj_commute intro!: arg_cong[where f = "\<lambda>l. s\<lparr>cachedSignatures := l\<rparr>"] filter_cong)
qed simp

lemma fold_delete_connections:
  "fold (\<lambda>n s. orUnchanged s (DeleteCachedConnection (ccID n) s)) ns s =
     s\<lparr>cachedConnections := filter (\<lambda>x. ccID x \<notin> ccID ` set ns) (cachedConnections s)\<rparr>"
proof (induction ns arbitrary: s)
  case (Cons n ns)
  have "orUnchanged s (DeleteCachedConnection (ccID n) s) =
      s\<lparr>cachedConnections := filter (\<lambda>x. ccID x \<noteq> ccID n) (cachedConnections s)\<rparr>"
    by (auto simp: orUnchanged_def DeleteCachedConnection_def deleteRows_def rowByKey_None filter_id_conv)
  then show ?case by (auto simp: Cons.IH conj_commute intro!: arg_cong[where f = "\<lambda>l. s\<lparr>cachedConnections := l\<rparr>"] filter_cong)
qed simp

lemma fold_delete_users:
  "fold (\<lambda>u s. orUnchanged s (DeleteCachedUser (cuID u) s)) us s =
     s\<lparr>cachedUsers := filter (\<lambda>x. cuID x \<notin> cuID ` set us) (cachedUsers s)\<rparr>"
proof (induction us arbitrary: s)
  case (Cons u us)
  have "orUnchanged s (DeleteCachedUser (cuID u) s) =
      s\<lparr>cachedUsers := filter (\<lambda>x. cuID x \<noteq> cuID u) (cachedUsers s)\<rparr>"
    by (auto simp: orUnchanged_def DeleteCachedUser_def deleteRows_def rowByKey_None filter_id_conv)
  then show ?case by (auto simp: Cons.IH conj_commute intro!: arg_cong[where f = "\<lambda>l. s\<lparr>cachedUsers := l\<rparr>"] filter_cong)
qed simp

text \<open>With distinct ids, deleting by id the rows that fail a test keeps those that pass it.\<close>

lemma filter_by_id:
  assumes "distinct (map key rows)"
  shows "filter (\<lambda>x. key x \<notin> key ` {y \<in> set rows. \<not> P y}) rows = filter P rows"
  using assms by (intro filter_cong refl) (auto dest: distinct_map_inj)

lemma live_TrustSet:
  assumes "\<And>l. set (iter l) = set l"
  shows "trSignerID ` set (TrustSet iter c s v v) = liveSigners c s v"
  using assms by (force simp: TrustSet_def liveSigners_def)

lemma applyPrune_candidates:
  assumes "store_wf s" and "\<And>l. set (iter l) = set l"
  shows "applyPrune (findPruneCandidates iter c s viewer) s =
     (let live = liveSigners c s viewer in
      s\<lparr>cachedSignatures := filter (\<lambda>g. csSigner g \<in> live) (cachedSignatures s),
        cachedConnections := filter (\<lambda>n. ccSigner n \<in> live) (cachedConnections s),
        cachedUsers := filter (\<lambda>u. cuID u \<in> live) (cachedUsers s)\<rparr>)"
proof -
  let ?live = "liveSigners c s viewer"
  have d: "distinct (map csID (cachedSignatures s))" "distinct (map ccID (cachedConnections s))" "distinct (map cuID (cachedUsers s))"
    using assms(1) by (simp_all add: store_wf_def keysDistinct_def)
  show ?thesis
    using filter_by_id[OF d(1), of "\<lambda>g. csSigner g \<in> ?live"] filter_by_id[OF d(2), of "\<lambda>n. ccSigner n \<in> ?live"]
      filter_by_id[OF d(3), of "\<lambda>u. cuID u \<in> ?live"]
    by (simp add: applyPrune_def findPruneCandidates_def Let_def live_TrustSet[OF assms(2)] fold_delete_signatures
        fold_delete_connections fold_delete_users ListAllCachedSignatures_def ListAllCachedConnections_def ListCachedUsers_def)
qed

text \<open>Without candidates nothing would be deleted.\<close>

lemma applyPrune_none: "pruneTotal p = 0 \<Longrightarrow> applyPrune p s = s"
  by (simp add: pruneTotal_def applyPrune_def)

definition agreed :: "string option \<Rightarrow> bool" where
  "agreed typed \<longleftrightarrow> (case typed of None \<Rightarrow> False | Some line \<Rightarrow> isAffirmative (trimCRLF line))"

lemma runClean_result:
  assumes "activeUserID sch s = Inr userID" and "runClean sch iter c typed s = Inr s'"
  shows "s' = (if agreed typed then applyPrune (findPruneCandidates iter c s userID) s else s)"
  using assms by (auto simp: runClean_def Let_def bindE_eq_Inr agreed_def promptLine_def applyPrune_none split: if_splits option.splits)

text \<open>C29: Cleaning is safe: after \<open>tillit clean\<close> every verdict on a version and every view of a package is what it
  was for the active user.  Without the user's agreement the store is as before; with it exactly the cached signatures
  and connections of signers outside the trust graph and the cached keys of users outside it are gone, and
  nothing else has changed: no key of the user's own, server, peer or push record, and no remaining row.\<close>

theorem runClean_keeps_verdicts:
  assumes wf: "store_wf s" and iter: "\<And>l. set (iter l) = set l"
    and user: "activeUserID sch s = Inr userID" "userID \<noteq> []" and run: "runClean sch iter c typed s = Inr s'"
  shows "Version iter c s' userID userID e p v = Version iter c s userID userID e p v
     \<and> Package srt iter c s' userID userID e p = Package srt iter c s userID userID e p
     \<and> s' = (if agreed typed
         then s\<lparr>cachedSignatures := filter (\<lambda>g. csSigner g \<in> liveSigners c s userID) (cachedSignatures s),
                cachedConnections := filter (\<lambda>n. ccSigner n \<in> liveSigners c s userID) (cachedConnections s),
                cachedUsers := filter (\<lambda>u. cuID u \<in> liveSigners c s userID) (cachedUsers s)\<rparr>
         else s)"
proof -
  let ?live = "liveSigners c s userID"
  have s': "s' = (if agreed typed
      then s\<lparr>cachedSignatures := filter (\<lambda>g. csSigner g \<in> ?live) (cachedSignatures s),
             cachedConnections := filter (\<lambda>n. ccSigner n \<in> ?live) (cachedConnections s),
             cachedUsers := filter (\<lambda>u. cuID u \<in> ?live) (cachedUsers s)\<rparr>
      else s)"
    unfolding runClean_result[OF user(1) run] applyPrune_candidates[OF wf iter] Let_def ..
  have "sameView ?live s s'"
    unfolding s' by (auto simp: sameView_def peerSettings_def ListPeers_def GetCachedConnectionsBySigner_def
        GetCachedSignaturesBySigner_def intro!: arg_cong[where f = "sort_key _"] filter_cong)
  moreover have "set (iter l) \<subseteq> set l" for l using iter by simp
  ultimately show ?thesis
    using sameView_verdicts[of c s userID s' iter] user(2) s' by blast
qed

end
