(* ===== verification/Cli_Import.thy ===== *)
theory Cli_Import
  imports Cli_Keys Cli_Trust
begin

text \<open>
  Importing a file into the local store, \<open>Import\<close> and \<open>applyImport\<close> of \<open>export.go\<close>.  The import is not a
  transaction: each row is written at once, and the first that cannot be written, or a null in the file, ends
  it with the rows before it in the store.  An import that failed can be repeated.
\<close>

section \<open>Documents\<close>

definition exportFormatVersion :: int where "exportFormatVersion = 1"

text \<open>What the JSON decoder makes of a file: slices of pointers, which are nil for a null.  The time of the export,
  which nothing reads, is left out.\<close>

record importDoc =
  mdVersion :: int
  mdActiveKey :: string
  mdKeys :: "key option list"
  mdPeers :: "peer option list"
  mdServers :: "server option list"
  mdCachedSignatures :: "cachedSignature option list"
  mdCachedConnections :: "cachedConnection option list"
  mdCachedUsers :: "cachedUser option list"
  mdPushState :: "pushRow option list"

section \<open>Rows\<close>

text \<open>What becomes of a row: a nil pointer at which the program dies, a row that is skipped because of one that is
  there, or the store with the row.\<close>

datatype rowResult = NilRow | SkippedRow | SavedRow store

definition importKey :: "key \<Rightarrow> store \<Rightarrow> rowResult" where
  "importKey k s = (case GetKey (kyName k) s of Inr _ \<Rightarrow> SkippedRow | Inl _ \<Rightarrow> SavedRow (SaveKey k s))"

definition importActive :: "string \<Rightarrow> store \<Rightarrow> rowResult" where
  "importActive name s = (if name \<noteq> [] \<and> activeNameOf s = [] then SavedRow (SetActiveKey name s) else SkippedRow)"

definition importPeer :: "peer \<Rightarrow> store \<Rightarrow> rowResult" where
  "importPeer p s = (case GetPeer (peID p) s of Inr _ \<Rightarrow> SkippedRow | Inl _ \<Rightarrow> SavedRow (SavePeer p s))"

definition importServer :: "server \<Rightarrow> store \<Rightarrow> rowResult" where
  "importServer v s = (case GetServer (svURL v) s of Inr _ \<Rightarrow> SkippedRow | Inl _ \<Rightarrow> SavedRow (SaveServer v s))"

text \<open>The steps of the loops, in their order.\<close>

datatype importStep = KeyStep "key option" | ActiveStep string | PeerStep "peer option" | ServerStep "server option"
  | SignatureStep "cachedSignature option" | ConnectionStep "cachedConnection option" | UserStep "cachedUser option"
  | PushStep "pushRow option"

definition onRow :: "('r \<Rightarrow> rowResult) \<Rightarrow> 'r option \<Rightarrow> rowResult" where
  "onRow f r = (case r of None \<Rightarrow> NilRow | Some x \<Rightarrow> f x)"

fun importRow :: "importStep \<Rightarrow> store \<Rightarrow> rowResult" where
  "importRow (KeyStep r) s = onRow (\<lambda>k. importKey k s) r"
| "importRow (ActiveStep name) s = importActive name s"
| "importRow (PeerStep r) s = onRow (\<lambda>p. importPeer p s) r"
| "importRow (ServerStep r) s = onRow (\<lambda>v. importServer v s) r"
| "importRow (SignatureStep r) s = onRow (\<lambda>g. SavedRow (SaveCachedSignature g s)) r"
| "importRow (ConnectionStep r) s = onRow (\<lambda>n. SavedRow (SaveCachedConnection n s)) r"
| "importRow (UserStep r) s = onRow (\<lambda>u. SavedRow (SaveCachedUser u s)) r"
| "importRow (PushStep r) s = onRow (\<lambda>p. SavedRow (RecordPush (prItemID p) (prItemType p) (prServerURL p) (prPushedAt p) s)) r"

definition importSteps :: "importDoc \<Rightarrow> importStep list" where
  "importSteps doc = map KeyStep (mdKeys doc) @ ActiveStep (mdActiveKey doc) # map PeerStep (mdPeers doc)
     @ map ServerStep (mdServers doc) @ map SignatureStep (mdCachedSignatures doc)
     @ map ConnectionStep (mdCachedConnections doc) @ map UserStep (mdCachedUsers doc) @ map PushStep (mdPushState doc)"

text \<open>\<open>fails n\<close> says that the database refuses the write of the row at place \<open>n\<close>.\<close>

fun runImport :: "(nat \<Rightarrow> bool) \<Rightarrow> nat \<Rightarrow> importStep list \<Rightarrow> store \<Rightarrow> outcome" where
  "runImport fails n [] s = (s, None)"
| "runImport fails n (t # ts) s = (case importRow t s of
     NilRow \<Rightarrow> (s, Some NilPointer)
   | SkippedRow \<Rightarrow> runImport fails (Suc n) ts s
   | SavedRow s' \<Rightarrow> if fails n then (s, Some WriteFailed) else runImport fails (Suc n) ts s')"

definition applyImport :: "(nat \<Rightarrow> bool) \<Rightarrow> importDoc \<Rightarrow> store \<Rightarrow> outcome" where
  "applyImport fails doc s = runImport fails 0 (importSteps doc) s"

section \<open>The command\<close>

text \<open>The passwords of encrypted keys are tried first; \<open>typed\<close> answers the prompt for a key.\<close>

fun checkPasswords :: "sealing \<Rightarrow> (string \<Rightarrow> string option) \<Rightarrow> key option list \<Rightarrow> cliError option" where
  "checkPasswords sl typed [] = None"
| "checkPasswords sl typed (None # ks) = Some NilPointer"
| "checkPasswords sl typed (Some k # ks) =
     (if \<not> IsEncryptedKey (kyPrivKey k) then checkPasswords sl typed ks
      else (case promptPassword (typed (kyName k)) of
        Inl e \<Rightarrow> Some e
      | Inr pw \<Rightarrow> (case DecryptKey sl (kyPrivKey k) pw of
          Inl e \<Rightarrow> Some (KeyErr e)
        | Inr _ \<Rightarrow> checkPasswords sl typed ks)))"

text \<open>\<open>files\<close> reads a file and \<open>decode\<close> is the JSON decoder.\<close>

definition Import ::
  "sealing \<Rightarrow> (string \<Rightarrow> string option) \<Rightarrow> (nat \<Rightarrow> bool) \<Rightarrow> (string \<Rightarrow> string option) \<Rightarrow> (string \<Rightarrow> importDoc option)
     \<Rightarrow> string list \<Rightarrow> store \<Rightarrow> outcome" where
  "Import sl typed fails files decode args s =
     (case args of
        [path] \<Rightarrow> (case files path of
            None \<Rightarrow> (s, Some (Usage path))
          | Some raw \<Rightarrow> (case decode raw of
              None \<Rightarrow> (s, Some (Usage path))
            | Some doc \<Rightarrow>
                if mdVersion doc \<noteq> exportFormatVersion then (s, Some (UnsupportedFormat (mdVersion doc)))
                else (case checkPasswords sl typed (mdKeys doc) of
                  Some e \<Rightarrow> (s, Some e)
                | None \<Rightarrow> applyImport fails doc s)))
      | _ \<Rightarrow> (s, Some (Usage ''tillit import <file>'')))"

section \<open>What the steps do to each table\<close>

fun isNil :: "importStep \<Rightarrow> bool" where
  "isNil (KeyStep r) \<longleftrightarrow> r = None"
| "isNil (ActiveStep name) \<longleftrightarrow> False"
| "isNil (PeerStep r) \<longleftrightarrow> r = None"
| "isNil (ServerStep r) \<longleftrightarrow> r = None"
| "isNil (SignatureStep r) \<longleftrightarrow> r = None"
| "isNil (ConnectionStep r) \<longleftrightarrow> r = None"
| "isNil (UserStep r) \<longleftrightarrow> r = None"
| "isNil (PushStep r) \<longleftrightarrow> r = None"

lemma importRow_nil: "importRow t s = NilRow \<longleftrightarrow> isNil t"
  by (cases t) (auto simp: onRow_def importKey_def importActive_def importPeer_def importServer_def split: option.splits sum.splits)

definition stepped :: "importStep \<Rightarrow> store \<Rightarrow> store" where
  "stepped t s = (case importRow t s of SavedRow s' \<Rightarrow> s' | _ \<Rightarrow> s)"

text \<open>Skipping a row that is there and saving it otherwise is an insert that ignores conflicts.\<close>

lemma rowByKey_member: "rowByKey key k rows \<noteq> None \<longleftrightarrow> list_ex (\<lambda>x. key x = k) rows"
  by (auto simp: rowByKey_None list_ex_iff)

definition noted :: "string \<Rightarrow> string option \<Rightarrow> string option" where
  "noted name a = (if name \<noteq> [] \<and> (a = None \<or> a = Some []) then Some name else a)"

lemma pushRow_update: "r\<lparr>prPushedAt := t\<rparr> =
    \<lparr>prItemID = prItemID r, prItemType = prItemType r, prServerURL = prServerURL r, prPushedAt = t\<rparr>"
  by (cases r) simp

lemma stepped_simps [simp]:
  "stepped (KeyStep (Some k)) s = s\<lparr>keys := insertIgnore kyName k (keys s)\<rparr>"
  "stepped (ActiveStep name) s = s\<lparr>activeKey := noted name (activeKey s)\<rparr>"
  "stepped (PeerStep (Some p)) s = s\<lparr>peers := insertIgnore peID (p\<lparr>peLastSyncedAt := None\<rparr>) (peers s)\<rparr>"
  "stepped (ServerStep (Some v)) s = s\<lparr>servers := insertIgnore svURL (v\<lparr>svLastSyncedAt := None\<rparr>) (servers s)\<rparr>"
  "stepped (SignatureStep (Some g)) s = s\<lparr>cachedSignatures := insertIgnore csID (storedSignature g) (cachedSignatures s)\<rparr>"
  "stepped (ConnectionStep (Some n)) s = s\<lparr>cachedConnections := insertIgnore ccID (storedConnection n) (cachedConnections s)\<rparr>"
  "stepped (UserStep (Some u)) s = s\<lparr>cachedUsers := replaceRow cuID (u\<lparr>cuFetchedAt := cutToSecond (cuFetchedAt u)\<rparr>) (cachedUsers s)\<rparr>"
  "stepped (PushStep (Some r)) s = s\<lparr>pushState := replaceRow pushKey (r\<lparr>prPushedAt := cutToSecond (prPushedAt r)\<rparr>) (pushState s)\<rparr>"
  using rowByKey_member[of kyName "kyName k" "keys s"] rowByKey_member[of peID "peID p" "peers s"]
    rowByKey_member[of svURL "svURL v" "servers s"]
  by (auto simp: stepped_def onRow_def importKey_def importPeer_def importServer_def importActive_def GetKey_def GetPeer_def
      GetServer_def orNotFound_def SaveKey_def SavePeer_def SaveServer_def insertIgnore_def upsertRow_def activeNameOf_def
      GetActiveKey_def SetActiveKey_def noted_def SaveCachedSignature_def SaveCachedConnection_def SaveCachedUser_def
      RecordPush_def pushRow_update split: option.splits)

lemma stepped_nil [simp]: "isNil t \<Longrightarrow> stepped t s = s"
  using importRow_nil[of t s] by (simp add: stepped_def)

text \<open>The rows of one kind among steps.\<close>

fun keyIn :: "importStep \<Rightarrow> key option" where "keyIn (KeyStep r) = r" | "keyIn _ = None"
fun activeIn :: "importStep \<Rightarrow> string option" where "activeIn (ActiveStep name) = Some name" | "activeIn _ = None"
fun peerIn :: "importStep \<Rightarrow> peer option" where "peerIn (PeerStep r) = r" | "peerIn _ = None"
fun serverIn :: "importStep \<Rightarrow> server option" where "serverIn (ServerStep r) = r" | "serverIn _ = None"
fun signatureIn :: "importStep \<Rightarrow> cachedSignature option" where "signatureIn (SignatureStep r) = r" | "signatureIn _ = None"
fun connectionIn :: "importStep \<Rightarrow> cachedConnection option" where "connectionIn (ConnectionStep r) = r" | "connectionIn _ = None"
fun userIn :: "importStep \<Rightarrow> cachedUser option" where "userIn (UserStep r) = r" | "userIn _ = None"
fun pushIn :: "importStep \<Rightarrow> pushRow option" where "pushIn (PushStep r) = r" | "pushIn _ = None"

lemma stepped_tables:
  "keys (stepped t s) = (case keyIn t of None \<Rightarrow> keys s | Some k \<Rightarrow> insertIgnore kyName k (keys s))"
  "activeKey (stepped t s) = (case activeIn t of None \<Rightarrow> activeKey s | Some name \<Rightarrow> noted name (activeKey s))"
  "peers (stepped t s) = (case peerIn t of None \<Rightarrow> peers s | Some p \<Rightarrow> insertIgnore peID (p\<lparr>peLastSyncedAt := None\<rparr>) (peers s))"
  "servers (stepped t s) = (case serverIn t of None \<Rightarrow> servers s | Some v \<Rightarrow> insertIgnore svURL (v\<lparr>svLastSyncedAt := None\<rparr>) (servers s))"
  "cachedSignatures (stepped t s) = (case signatureIn t of None \<Rightarrow> cachedSignatures s
     | Some g \<Rightarrow> insertIgnore csID (storedSignature g) (cachedSignatures s))"
  "cachedConnections (stepped t s) = (case connectionIn t of None \<Rightarrow> cachedConnections s
     | Some n \<Rightarrow> insertIgnore ccID (storedConnection n) (cachedConnections s))"
  "cachedUsers (stepped t s) = (case userIn t of None \<Rightarrow> cachedUsers s
     | Some u \<Rightarrow> replaceRow cuID (u\<lparr>cuFetchedAt := cutToSecond (cuFetchedAt u)\<rparr>) (cachedUsers s))"
  "pushState (stepped t s) = (case pushIn t of None \<Rightarrow> pushState s
     | Some r \<Rightarrow> replaceRow pushKey (r\<lparr>prPushedAt := cutToSecond (prPushedAt r)\<rparr>) (pushState s))"
  by (cases t; cases "isNil t"; auto)+

definition rowsIn :: "('t \<Rightarrow> 'r option) \<Rightarrow> ('r \<Rightarrow> 'r) \<Rightarrow> 't list \<Rightarrow> 'r list" where
  "rowsIn sel f ts = map f (List.map_filter sel ts)"

lemma rowsIn_simps [simp]:
  "rowsIn sel f [] = []"
  "rowsIn sel f (t # ts) = (case sel t of None \<Rightarrow> rowsIn sel f ts | Some r \<Rightarrow> f r # rowsIn sel f ts)"
  by (simp_all add: rowsIn_def split: option.split)

lemma rowsIn_append [simp]: "rowsIn sel f (ts @ us) = rowsIn sel f ts @ rowsIn sel f us"
  by (induction ts) (simp_all split: option.split)

lemma rowsIn_map: "(\<And>x. sel (g x) = x) \<Longrightarrow> rowsIn sel f (map g (map Some xs)) = map f xs"
  by (induction xs) simp_all

lemma rowsIn_none: "(\<And>x. sel (g x) = None) \<Longrightarrow> rowsIn sel f (map g ys) = []"
  by (induction ys) simp_all

text \<open>The loops as loops over each table.\<close>

lemma steps_tables:
  "keys (fold stepped ts s) = fold (insertIgnore kyName) (rowsIn keyIn id ts) (keys s)"
  "activeKey (fold stepped ts s) = fold noted (rowsIn activeIn id ts) (activeKey s)"
  "peers (fold stepped ts s) = fold (insertIgnore peID) (rowsIn peerIn (peLastSyncedAt_update (\<lambda>_. None)) ts) (peers s)"
  "servers (fold stepped ts s) = fold (insertIgnore svURL) (rowsIn serverIn (svLastSyncedAt_update (\<lambda>_. None)) ts) (servers s)"
  "cachedSignatures (fold stepped ts s) = fold (insertIgnore csID) (rowsIn signatureIn storedSignature ts) (cachedSignatures s)"
  "cachedConnections (fold stepped ts s) = fold (insertIgnore ccID) (rowsIn connectionIn storedConnection ts) (cachedConnections s)"
  "cachedUsers (fold stepped ts s) = fold (replaceRow cuID) (rowsIn userIn (\<lambda>u. u\<lparr>cuFetchedAt := cutToSecond (cuFetchedAt u)\<rparr>) ts) (cachedUsers s)"
  "pushState (fold stepped ts s) = fold (replaceRow pushKey) (rowsIn pushIn (\<lambda>r. r\<lparr>prPushedAt := cutToSecond (prPushedAt r)\<rparr>) ts) (pushState s)"
  by (induction ts arbitrary: s; simp add: stepped_tables split: option.split)+

lemma fold_noted: "fold noted names a = (if a = None \<or> a = Some [] then (case find (\<lambda>n. n \<noteq> []) names of None \<Rightarrow> a | Some n \<Rightarrow> Some n) else a)"
  by (induction names arbitrary: a) (auto simp: noted_def)

lemma fold_noted_twice: "fold noted names (fold noted names a) = fold noted names a"
  by (auto simp: fold_noted split: option.splits)

lemma steps_twice: "fold stepped ts (fold stepped ts s) = fold stepped ts s"
  by (rule store.equality)
    (simp_all add: steps_tables fold_insertIgnore_twice fold_replaceRow_twice fold_noted_twice)

section \<open>Imports that fail\<close>

text \<open>An import ends after some of its steps, and one that nothing disturbs runs up to the first null.\<close>

lemma runImport_steps:
  "runImport fails n ts s = (s', e) \<Longrightarrow>
     \<exists>pre post. takeWhile (\<lambda>t. \<not> isNil t) ts = pre @ post \<and> s' = fold stepped pre s"
proof (induction fails n ts s rule: runImport.induct)
  case (2 fails n t ts s)
  show ?case
  proof (cases "importRow t s")
    case NilRow
    with "2.prems" importRow_nil[of t s] show ?thesis by auto
  next
    case SkippedRow
    then have t: "\<not> isNil t" "stepped t s = s" using importRow_nil[of t s] by (auto simp: stepped_def)
    with 2 SkippedRow obtain pre post where "takeWhile (\<lambda>t. \<not> isNil t) ts = pre @ post" "s' = fold stepped pre s" by auto
    with t show ?thesis by (intro exI[of _ "t # pre"] exI[of _ post]) simp
  next
    case (SavedRow s1)
    then have t: "\<not> isNil t" "stepped t s = s1" using importRow_nil[of t s] by (auto simp: stepped_def)
    show ?thesis
    proof (cases "fails n")
      case True
      with SavedRow "2.prems" have "s' = s" by simp
      then show ?thesis by (intro exI[of _ "[]"] exI[of _ "takeWhile (\<lambda>t. \<not> isNil t) (t # ts)"]) simp
    next
      case False
      with 2 SavedRow obtain pre post where "takeWhile (\<lambda>t. \<not> isNil t) ts = pre @ post" "s' = fold stepped pre s1" by auto
      with t show ?thesis by (intro exI[of _ "t # pre"] exI[of _ post]) simp
    qed
  qed
qed auto

lemma runImport_undisturbed:
  "runImport (\<lambda>_. False) n ts s =
     (fold stepped (takeWhile (\<lambda>t. \<not> isNil t) ts) s, if list_ex isNil ts then Some NilPointer else None)"
proof (induction ts arbitrary: n s)
  case (Cons t ts)
  then show ?case
    using importRow_nil[of t s] by (cases "importRow t s") (auto simp: stepped_def)
qed simp

lemma runImport_repeated:
  assumes "runImport fails n ts s = (s', e)"
  shows "runImport (\<lambda>_. False) m ts s' = runImport (\<lambda>_. False) m ts s"
proof -
  obtain pre post where "takeWhile (\<lambda>t. \<not> isNil t) ts = pre @ post" "s' = fold stepped pre s"
    using runImport_steps[OF assms] by blast
  then show ?thesis by (simp add: runImport_undisturbed steps_twice)
qed

lemma runImport_complete: "runImport fails n ts s = (s', None) \<Longrightarrow> runImport (\<lambda>_. False) m ts s = (s', None)"
  by (induction fails n ts s arbitrary: m rule: runImport.induct) (auto split: rowResult.splits if_splits)

text \<open>A command that imports runs steps or does nothing.\<close>

lemma Import_cases:
  fixes decode :: "string \<Rightarrow> importDoc option"
  obtains (refused) x where "\<And>fails s. Import sl typed fails files decode args s = (s, Some x)"
  | (run) path raw doc where "args = [path]" "files path = Some raw" "decode raw = Some doc"
      "\<And>fails s. Import sl typed fails files decode args s = runImport fails 0 (importSteps doc) s"
proof (cases "\<exists>path raw doc. args = [path] \<and> files path = Some raw \<and> decode raw = Some doc
    \<and> mdVersion doc = exportFormatVersion \<and> checkPasswords sl typed (mdKeys doc) = None")
  case True
  then obtain path raw doc where d: "args = [path]" "files path = Some raw" "decode raw = Some doc"
      "mdVersion doc = exportFormatVersion" "checkPasswords sl typed (mdKeys doc) = None" by blast
  then show thesis by (intro run[OF d(1-3)]) (simp add: Import_def applyImport_def)
next
  case False
  consider path where "args = [path]" | "\<And>path. args \<noteq> [path]" by blast
  then show thesis
  proof cases
    case 1
    with False show thesis
      by (cases "files path"; cases "decode (the (files path))"; cases "checkPasswords sl typed (mdKeys (the (decode (the (files path)))))";
          cases "mdVersion (the (decode (the (files path)))) = exportFormatVersion")
        (auto simp: Import_def intro: refused)
  next
    case 2
    then have "Import sl typed fails files decode args s = (s, Some (Usage ''tillit import <file>''))" for fails s
      by (cases args; cases "tl args") (simp_all add: Import_def)
    then show thesis by (rule refused)
  qed
qed

lemma rowByKey_fold_insertIgnore:
  "rowByKey key k rows = Some r \<Longrightarrow> rowByKey key k (fold (insertIgnore key) xs rows) = Some r"
  by (induction xs arbitrary: rows) (simp_all add: rowByKey_insertIgnore)

text \<open>What an import keeps, however it ends.\<close>

definition keptIn :: "store \<Rightarrow> store \<Rightarrow> bool" where
  "keptIn s s' \<longleftrightarrow> (\<forall>n k. GetKey n s = Inr k \<longrightarrow> GetKey n s' = Inr k) \<and> (\<forall>i p. GetPeer i s = Inr p \<longrightarrow> GetPeer i s' = Inr p)
     \<and> (\<forall>u v. GetServer u s = Inr v \<longrightarrow> GetServer u s' = Inr v)
     \<and> (\<forall>i g. GetCachedSignature i s = Inr g \<longrightarrow> GetCachedSignature i s' = Inr g)
     \<and> (\<forall>i n. GetCachedConnection i s = Inr n \<longrightarrow> GetCachedConnection i s' = Inr n)
     \<and> (activeNameOf s \<noteq> [] \<longrightarrow> activeKey s' = activeKey s)"

lemma steps_keep: "keptIn s (fold stepped ts s)"
  by (auto simp: keptIn_def GetKey_def GetPeer_def GetServer_def GetCachedSignature_def GetCachedConnection_def orNotFound_def
      steps_tables activeNameOf_def GetActiveKey_def fold_noted rowByKey_fold_insertIgnore split: option.splits)

text \<open>C37: An import that fails does no harm and can be repeated.  However it ends, refused, at a row that the database
  does not take, or at a null in the file, every key, peer, server, signature and connection of the store and
  its active key are as before, while cached users and push records may have the values of the file; importing the same file again, this time undisturbed, ends with the store and the result
  with which an undisturbed import would have ended in the first place; and an import that reports success has the
  store of an undisturbed one.\<close>

theorem failed_import_repeats:
  assumes "Import sl typed fails files decode args s = (s', e)"
  shows "keptIn s s'
    \<and> Import sl typed (\<lambda>_. False) files decode args s' = Import sl typed (\<lambda>_. False) files decode args s
    \<and> (e = None \<longrightarrow> Import sl typed (\<lambda>_. False) files decode args s = (s', None))"
proof (cases rule: Import_cases[where sl = sl and typed = typed and files = files and decode = decode and args = args])
  case (refused x)
  then show ?thesis using assms steps_keep[of s "[]"] by auto
next
  case (run path raw doc)
  then have r: "runImport fails 0 (importSteps doc) s = (s', e)" using assms by simp
  have "keptIn s s'" using runImport_steps[OF r] steps_keep by blast
  then show ?thesis
    unfolding run(4) using runImport_repeated[OF r] runImport_complete[of fails 0 "importSteps doc" s s'] r by simp
qed

end
