(* ===== verification/Cli_Export.thy ===== *)
theory Cli_Export
  imports Cli_Clean Cli_Import
begin

text \<open>
  Exporting the local store to a file, \<open>export.go\<close>, and what an import makes of the file.  A document is the
  value that the JSON file encodes; the encoder is a parameter, as is \<open>at\<close>, the formatted time of the export.  A
  backup restores the store up to the times of the last synchronisation, and the
  export of an identity with its peers carries over every verdict.
\<close>

section \<open>Documents\<close>

record exportDoc =
  xdVersion :: int
  xdExportedAt :: string
  xdActiveKey :: string
  xdKeys :: "key list"
  xdPeers :: "peer list"
  xdServers :: "server list"
  xdCachedSignatures :: "cachedSignature list"
  xdCachedConnections :: "cachedConnection list"
  xdCachedUsers :: "cachedUser list"
  xdPushState :: "pushRow list"

datatype exportScope = ScopeSelf | ScopeIncludePeers | ScopeAll

section \<open>Exporting\<close>

definition userIDFromKey :: "schemes \<Rightarrow> key \<Rightarrow> cliError + string" where
  "userIDFromKey sch k =
     (case b64Decode (kyPrivKey k) of
        None \<Rightarrow> Inl BadPrivateKey
      | Some privBytes \<Rightarrow> (case LoadSigner sch (kyAlgorithm k) privBytes of
          Inl e \<Rightarrow> Inl (SchemeErr e)
        | Inr sg \<Rightarrow> Inr (userIDOf sch (signerPublicKey sch sg))))"

text \<open>Identity, keys to export and the name of the active key.\<close>

definition exportIdentity :: "schemes \<Rightarrow> store \<Rightarrow> string \<Rightarrow> cliError + string \<times> key list \<times> string" where
  "exportIdentity sch s keyName =
     (if keyName \<noteq> [] then
        bindE (liftStore (GetKey keyName s)) (\<lambda>k. bindE (userIDFromKey sch k) (\<lambda>uid.
          Inr (uid, [k], keyName)))
      else
        (let activeName = activeNameOf s in
         Inr (if activeName \<noteq> [] then
                (case GetKey activeName s of
                   Inl _ \<Rightarrow> []
                 | Inr k \<Rightarrow> (case userIDFromKey sch k of Inl _ \<Rightarrow> [] | Inr uid \<Rightarrow> uid))
              else [], ListKeys s, activeName)))"

definition buildExportDoc ::
  "schemes \<Rightarrow> mapOrder \<Rightarrow> codec \<Rightarrow> string \<Rightarrow> store \<Rightarrow> exportScope \<Rightarrow> string \<Rightarrow> cliError + exportDoc" where
  "buildExportDoc sch iter c at s scope keyName =
     bindE (exportIdentity sch s keyName) (\<lambda>(identityID, exportKeys, activeName).
       (let doc = \<lparr>xdVersion = exportFormatVersion, xdExportedAt = at, xdActiveKey = activeName,
              xdKeys = exportKeys, xdPeers = ListPeers s, xdServers = ListServers s, xdCachedSignatures = [],
              xdCachedConnections = [], xdCachedUsers = [], xdPushState = ListAllPushState s\<rparr> in
        case scope of
          ScopeAll \<Rightarrow> Inr (doc\<lparr>xdCachedSignatures := ListAllCachedSignatures s,
              xdCachedConnections := ListAllCachedConnections s, xdCachedUsers := ListCachedUsers s\<rparr>)
        | ScopeIncludePeers \<Rightarrow>
            if identityID = [] then Inr doc
            else (let signers = trSignerID ` set (TrustSet iter c s identityID identityID) in
              Inr (doc\<lparr>xdCachedSignatures := filter (\<lambda>g. csSigner g \<in> signers) (ListAllCachedSignatures s),
                xdCachedConnections := filter (\<lambda>n. ccSigner n \<in> signers) (ListAllCachedConnections s),
                xdCachedUsers := filter (\<lambda>u. cuID u \<in> signers) (ListCachedUsers s)\<rparr>))
        | ScopeSelf \<Rightarrow>
            if identityID = [] then Inr doc
            else Inr (doc\<lparr>xdCachedSignatures := filter (\<lambda>g. csSigner g = identityID) (ListAllCachedSignatures s),
                xdCachedConnections := filter (\<lambda>n. ccSigner n = identityID) (ListAllCachedConnections s)\<rparr>)))"

record exportOpts =
  eoIncludePeers :: bool
  eoAll :: bool
  eoKey :: string
  eoPositional :: "string list"

text \<open>\<open>None\<close> is the help text.\<close>

fun exportFlags :: "string list \<Rightarrow> exportOpts \<Rightarrow> cliError + exportOpts option" where
  "exportFlags [] opt = Inr (Some opt)"
| "exportFlags (a # args) opt =
     (if a = ''--all'' \<or> a = ''-a'' then exportFlags args (opt\<lparr>eoAll := True\<rparr>)
      else if a = ''--include-peers'' then exportFlags args (opt\<lparr>eoIncludePeers := True\<rparr>)
      else if a = ''--help'' \<or> a = ''-h'' then Inr None
      else if a = ''--key'' \<or> a = ''-k'' then
        (case args of [] \<Rightarrow> Inl (MissingValue a) | v # rest \<Rightarrow> exportFlags rest (opt\<lparr>eoKey := v\<rparr>))
      else if hasPrefix a ''--key='' then exportFlags args (opt\<lparr>eoKey := trimPrefix a ''--key=''\<rparr>)
      else if hasPrefix a ''-'' then Inl (UnknownFlag a)
      else exportFlags args (opt\<lparr>eoPositional := eoPositional opt @ [a]\<rparr>))"

text \<open>The path of the file and the text written to it.\<close>

definition Export ::
  "schemes \<Rightarrow> mapOrder \<Rightarrow> codec \<Rightarrow> string \<Rightarrow> (exportDoc \<Rightarrow> string) \<Rightarrow> string list \<Rightarrow> store \<Rightarrow> cliError + (string \<times> string) option" where
  "Export sch iter c at encode args s =
     bindE (exportFlags args \<lparr>eoIncludePeers = False, eoAll = False, eoKey = [], eoPositional = []\<rparr>) (\<lambda>opts.
       case opts of
         None \<Rightarrow> Inr None
       | Some f \<Rightarrow>
          if eoAll f \<and> eoKey f \<noteq> [] then Inl (Usage ''--all and --key are mutually exclusive'')
          else (case eoPositional f of
            [path] \<Rightarrow> bindE (buildExportDoc sch iter c at s
                (if eoAll f then ScopeAll else if eoIncludePeers f then ScopeIncludePeers else ScopeSelf) (eoKey f))
                (\<lambda>doc. Inr (Some (path, encode doc)))
          | _ \<Rightarrow> Inl (Usage ''tillit export [--all | --key <name>] [--include-peers] <file>'')))"

section \<open>Reading a document back\<close>

text \<open>The decoder makes pointers of the rows; the time of the export is not looked at.\<close>

definition asRead :: "exportDoc \<Rightarrow> importDoc" where
  "asRead d = \<lparr>mdVersion = xdVersion d, mdActiveKey = xdActiveKey d, mdKeys = map Some (xdKeys d), mdPeers = map Some (xdPeers d),
     mdServers = map Some (xdServers d), mdCachedSignatures = map Some (xdCachedSignatures d),
     mdCachedConnections = map Some (xdCachedConnections d), mdCachedUsers = map Some (xdCachedUsers d),
     mdPushState = map Some (xdPushState d)\<rparr>"

lemma asRead_sel [simp]: "mdVersion (asRead d) = xdVersion d" "mdKeys (asRead d) = map Some (xdKeys d)" "mdActiveKey (asRead d) = xdActiveKey d"
  by (simp_all add: asRead_def)

lemma no_nulls: "\<not> list_ex isNil (importSteps (asRead d))"
  by (auto simp: importSteps_def asRead_def list_ex_iff)

definition importedStore :: "exportDoc \<Rightarrow> store \<Rightarrow> store" where
  "importedStore d s = fold stepped (importSteps (asRead d)) s"

lemma applyImport_asRead: "applyImport (\<lambda>_. False) (asRead d) s = (importedStore d s, None)"
proof -
  have "takeWhile (\<lambda>t. \<not> isNil t) (importSteps (asRead d)) = importSteps (asRead d)"
    using no_nulls[of d] by (simp add: takeWhile_eq_all_conv list_ex_iff)
  then show ?thesis
    using no_nulls[of d] by (simp only: applyImport_def runImport_undisturbed importedStore_def if_False)
qed

lemma importedStore_tables:
  "keys (importedStore d s) = fold (insertIgnore kyName) (xdKeys d) (keys s)"
  "activeKey (importedStore d s) = noted (xdActiveKey d) (activeKey s)"
  "peers (importedStore d s) = fold (insertIgnore peID) (map (\<lambda>p. p\<lparr>peLastSyncedAt := None\<rparr>) (xdPeers d)) (peers s)"
  "servers (importedStore d s) = fold (insertIgnore svURL) (map (\<lambda>v. v\<lparr>svLastSyncedAt := None\<rparr>) (xdServers d)) (servers s)"
  "cachedSignatures (importedStore d s) = fold (insertIgnore csID) (map storedSignature (xdCachedSignatures d)) (cachedSignatures s)"
  "cachedConnections (importedStore d s) = fold (insertIgnore ccID) (map storedConnection (xdCachedConnections d)) (cachedConnections s)"
  "cachedUsers (importedStore d s) = fold (replaceRow cuID) (map (\<lambda>u. u\<lparr>cuFetchedAt := cutToSecond (cuFetchedAt u)\<rparr>) (xdCachedUsers d)) (cachedUsers s)"
  "pushState (importedStore d s) = fold (replaceRow pushKey) (map (\<lambda>r. r\<lparr>prPushedAt := cutToSecond (prPushedAt r)\<rparr>) (xdPushState d)) (pushState s)"
  by (simp_all add: importedStore_def importSteps_def asRead_def steps_tables rowsIn_map rowsIn_none del: map_map)

lemma fold_insertIgnore_new:
  "distinct (map key rs) \<Longrightarrow> key ` set rs \<inter> key ` set rows = {} \<Longrightarrow> fold (insertIgnore key) rs rows = rows @ rs"
proof (induction rs arbitrary: rows)
  case (Cons r rs)
  then have "insertIgnore key r rows = rows @ [r]" by (auto simp: insertIgnore_def list_ex_iff intro: image_eqI[OF sym])
  moreover have "key ` set rs \<inter> key ` set (rows @ [r]) = {}" using Cons.prems by auto
  ultimately show ?case using Cons.IH[of "rows @ [r]"] Cons.prems(1) by simp
qed simp

lemma fold_replaceRow_new:
  "distinct (map key rs) \<Longrightarrow> key ` set rs \<inter> key ` set rows = {} \<Longrightarrow> fold (replaceRow key) rs rows = rows @ rs"
proof (induction rs arbitrary: rows)
  case (Cons r rs)
  then have "replaceRow key r rows = rows @ [r]" by (simp add: replaceRow_eq)
  moreover have "key ` set rs \<inter> key ` set (rows @ [r]) = {}" using Cons.prems by auto
  ultimately show ?case using Cons.IH[of "rows @ [r]"] Cons.prems(1) by simp
qed simp

section \<open>Restoring into an empty store\<close>

text \<open>Every time in the cache is a whole second, as storing leaves it.\<close>

definition timesCut :: "store \<Rightarrow> bool" where
  "timesCut s \<longleftrightarrow> (\<forall>g\<in>set (cachedSignatures s). storedSignature g = g)
     \<and> (\<forall>n\<in>set (cachedConnections s). storedConnection n = n)
     \<and> (\<forall>u\<in>set (cachedUsers s). u\<lparr>cuFetchedAt := cutToSecond (cuFetchedAt u)\<rparr> = u)
     \<and> (\<forall>r\<in>set (pushState s). r\<lparr>prPushedAt := cutToSecond (prPushedAt r)\<rparr> = r)"

lemma cutToSecond_idem [simp]: "cutToSecond (cutToSecond t) = cutToSecond t"
  by (simp add: cutToSecond_def second_def)

lemma stored_idem [simp]:
  "storedSignature (storedSignature g) = storedSignature g" "storedConnection (storedConnection n) = storedConnection n"
  by (simp_all add: storedSignature_def storedConnection_def option.map_comp comp_def)

lemma upsertRow_cases: "x \<in> set (upsertRow key (\<lambda>old new. new) r rows) \<Longrightarrow> x = r \<or> x \<in> set rows"
  by (auto simp: upsertRow_def split: if_splits)

lemma timesCut_runOp: "timesCut s \<Longrightarrow> timesCut (runOp op s)"
  by (cases op)
     (auto simp: timesCut_def storeOp_defs orUnchanged_def set_insertIgnore deleteRows_def split: if_splits
        dest!: upsertRow_cases)

lemma timesCut_runOps: "timesCut (runOps ops emptyStore)"
proof -
  have "timesCut s \<Longrightarrow> timesCut (runOps ops s)" for s
    by (induction ops arbitrary: s) (auto intro: timesCut_runOp)
  moreover have "timesCut emptyStore" by (simp add: timesCut_def emptyStore_def)
  ultimately show ?thesis by blast
qed

text \<open>A document whose tables have distinct keys and whole seconds is restored row by row.\<close>

definition docOk :: "exportDoc \<Rightarrow> bool" where
  "docOk d \<longleftrightarrow> distinct (map kyName (xdKeys d)) \<and> distinct (map peID (xdPeers d)) \<and> distinct (map svURL (xdServers d))
     \<and> distinct (map csID (xdCachedSignatures d)) \<and> distinct (map ccID (xdCachedConnections d))
     \<and> distinct (map cuID (xdCachedUsers d)) \<and> distinct (map pushKey (xdPushState d))
     \<and> (\<forall>g\<in>set (xdCachedSignatures d). storedSignature g = g) \<and> (\<forall>n\<in>set (xdCachedConnections d). storedConnection n = n)
     \<and> (\<forall>u\<in>set (xdCachedUsers d). u\<lparr>cuFetchedAt := cutToSecond (cuFetchedAt u)\<rparr> = u)
     \<and> (\<forall>r\<in>set (xdPushState d). r\<lparr>prPushedAt := cutToSecond (prPushedAt r)\<rparr> = r)"

definition restored :: "exportDoc \<Rightarrow> store" where
  "restored d = \<lparr>keys = xdKeys d, activeKey = (if xdActiveKey d = [] then None else Some (xdActiveKey d)),
     servers = map (\<lambda>v. v\<lparr>svLastSyncedAt := None\<rparr>) (xdServers d), peers = map (\<lambda>p. p\<lparr>peLastSyncedAt := None\<rparr>) (xdPeers d),
     cachedSignatures = xdCachedSignatures d, cachedConnections = xdCachedConnections d,
     cachedUsers = xdCachedUsers d, pushState = xdPushState d\<rparr>"

lemma pushKey_cut [simp]: "pushKey (r\<lparr>prPushedAt := t\<rparr>) = pushKey r"
  by (simp add: pushKey_def)

lemma importedStore_empty:
  assumes "docOk d"
  shows "importedStore d emptyStore = restored d"
proof (rule store.equality)
  note new = fold_insertIgnore_new[where rows = "[]"] and up = fold_replaceRow_new[where rows = "[]"]
  note ok = assms[unfolded docOk_def]
  show "keys (importedStore d emptyStore) = keys (restored d)" "peers (importedStore d emptyStore) = peers (restored d)"
      "servers (importedStore d emptyStore) = servers (restored d)"
    using ok by (simp_all add: importedStore_tables restored_def emptyStore_def new comp_def)
  show "activeKey (importedStore d emptyStore) = activeKey (restored d)"
    by (simp add: importedStore_tables restored_def emptyStore_def noted_def)
  have "map storedSignature (xdCachedSignatures d) = xdCachedSignatures d"
      "map storedConnection (xdCachedConnections d) = xdCachedConnections d"
      "map (\<lambda>u. u\<lparr>cuFetchedAt := cutToSecond (cuFetchedAt u)\<rparr>) (xdCachedUsers d) = xdCachedUsers d"
      "map (\<lambda>r. r\<lparr>prPushedAt := cutToSecond (prPushedAt r)\<rparr>) (xdPushState d) = xdPushState d"
    using ok by (auto intro: map_idI)
  then show "cachedSignatures (importedStore d emptyStore) = cachedSignatures (restored d)"
      "cachedConnections (importedStore d emptyStore) = cachedConnections (restored d)"
      "cachedUsers (importedStore d emptyStore) = cachedUsers (restored d)"
      "pushState (importedStore d emptyStore) = pushState (restored d)"
    using ok by (simp_all add: importedStore_tables restored_def emptyStore_def new up)
qed simp

section \<open>Backups\<close>

lemma not_a_flag: "\<not> hasPrefix path ''-'' \<Longrightarrow> path \<noteq> CHR ''-'' # r \<and> \<not> hasPrefix path (CHR ''-'' # r)"
  by (cases path) (auto simp: hasPrefix_def)

lemma distinct_sort_key: "distinct (map key (sort_key f rows)) \<longleftrightarrow> distinct (map key rows)"
  by (metis distinct_map distinct_sort set_sort)

lemma docOk_filtered:
  assumes "store_wf s" and "timesCut s" and "distinct (map kyName ks)"
  shows "docOk \<lparr>xdVersion = v, xdExportedAt = at, xdActiveKey = n, xdKeys = ks, xdPeers = ListPeers s, xdServers = ListServers s,
     xdCachedSignatures = filter P (ListAllCachedSignatures s), xdCachedConnections = filter Q (ListAllCachedConnections s),
     xdCachedUsers = filter R (ListCachedUsers s), xdPushState = ListAllPushState s\<rparr>"
  using assms
  by (auto simp: docOk_def store_wf_def keysDistinct_def timesCut_def ListPeers_def ListServers_def ListAllCachedSignatures_def
      ListAllCachedConnections_def ListCachedUsers_def ListAllPushState_def distinct_sort_key distinct_map_filter)

text \<open>C30: A full backup can be restored: the file that \<open>tillit export --all\<close> writes, imported into an
  empty store with the passwords of the encrypted keys, gives a store with the same
  active key and the same rows in every table, up to their order and the times of the
  last synchronisation, provided that the JSON decoder reads what the encoder wrote and no write fails.\<close>

theorem backup_restores:
  assumes wf: "store_wf s" and cut: "timesCut s" and active: "activeKey s \<noteq> Some []"
    and path: "\<not> hasPrefix path ''-''" and pw: "checkPasswords sl typed (map Some (ListKeys s)) = None"
    and json: "\<And>d. buildExportDoc sch iter c at s ScopeAll [] = Inr d \<Longrightarrow> decode (encode d) = Some (asRead d)"
  shows "\<exists>raw s'. Export sch iter c at encode [''--all'', path] s = Inr (Some (path, raw))
     \<and> Import sl typed (\<lambda>_. False) (\<lambda>f. if f = path then Some raw else None) decode [path] emptyStore = (s', None)
     \<and> activeKey s' = activeKey s \<and> mset (keys s') = mset (keys s)
     \<and> image_mset (\<lambda>p. p\<lparr>peLastSyncedAt := None\<rparr>) (mset (peers s')) = image_mset (\<lambda>p. p\<lparr>peLastSyncedAt := None\<rparr>) (mset (peers s))
     \<and> image_mset (\<lambda>v. v\<lparr>svLastSyncedAt := None\<rparr>) (mset (servers s')) = image_mset (\<lambda>v. v\<lparr>svLastSyncedAt := None\<rparr>) (mset (servers s))
     \<and> mset (cachedSignatures s') = mset (cachedSignatures s) \<and> mset (cachedConnections s') = mset (cachedConnections s)
     \<and> mset (cachedUsers s') = mset (cachedUsers s) \<and> mset (pushState s') = mset (pushState s)"
proof -
  let ?d = "\<lparr>xdVersion = exportFormatVersion, xdExportedAt = at, xdActiveKey = activeNameOf s,
      xdKeys = ListKeys s, xdPeers = ListPeers s, xdServers = ListServers s,
      xdCachedSignatures = ListAllCachedSignatures s, xdCachedConnections = ListAllCachedConnections s,
      xdCachedUsers = ListCachedUsers s, xdPushState = ListAllPushState s\<rparr>"
  have built: "buildExportDoc sch iter c at s ScopeAll [] = Inr ?d"
    by (simp add: buildExportDoc_def exportIdentity_def Let_def)
  moreover have "path \<noteq> ''--all''" "path \<noteq> ''-a''" "path \<noteq> ''--include-peers''" "path \<noteq> ''--help''" "path \<noteq> ''-h''"
      "path \<noteq> ''--key''" "path \<noteq> ''-k''" "\<not> hasPrefix path ''--key=''"
    using not_a_flag[OF path] by simp_all
  ultimately have ex: "Export sch iter c at encode [''--all'', path] s = Inr (Some (path, encode ?d))"
    using path by (simp add: Export_def)
  have "docOk ?d"
    using docOk_filtered[OF wf cut, of "ListKeys s" exportFormatVersion at "activeNameOf s" "\<lambda>_. True" "\<lambda>_. True" "\<lambda>_. True"] wf
    by (simp add: ListKeys_def distinct_sort_key store_wf_def keysDistinct_def)
  then have im: "Import sl typed (\<lambda>_. False) (\<lambda>f. if f = path then Some (encode ?d) else None) decode [path] emptyStore = (restored ?d, None)"
    using pw json[OF built] by (simp add: Import_def applyImport_asRead importedStore_empty)
  have "activeKey (restored ?d) = activeKey s"
    using active by (cases "activeKey s") (auto simp: restored_def activeNameOf_def GetActiveKey_def orNotFound_def)
  moreover have "mset (keys (restored ?d)) = mset (keys s)" "mset (cachedSignatures (restored ?d)) = mset (cachedSignatures s)"
      "mset (cachedConnections (restored ?d)) = mset (cachedConnections s)" "mset (cachedUsers (restored ?d)) = mset (cachedUsers s)"
      "mset (pushState (restored ?d)) = mset (pushState s)"
    by (simp_all add: restored_def ListKeys_def ListAllCachedSignatures_def ListAllCachedConnections_def ListCachedUsers_def ListAllPushState_def)
  moreover have "image_mset (\<lambda>p. p\<lparr>peLastSyncedAt := None\<rparr>) (mset (peers (restored ?d))) = image_mset (\<lambda>p. p\<lparr>peLastSyncedAt := None\<rparr>) (mset (peers s))"
      "image_mset (\<lambda>v. v\<lparr>svLastSyncedAt := None\<rparr>) (mset (servers (restored ?d))) = image_mset (\<lambda>v. v\<lparr>svLastSyncedAt := None\<rparr>) (mset (servers s))"
    by (simp_all add: restored_def ListPeers_def ListServers_def multiset.map_comp comp_def)
  ultimately show ?thesis using ex im by blast
qed

section \<open>Carrying verdicts over\<close>

lemma sort_sorted [simp]: "sort_key f (sort_key f xs) = sort_key f xs"
  by (rule sort_key_id_if_sorted) simp

lemma peers_settings_sorted:
  "sort_key peID (map (\<lambda>p. p\<lparr>peLastSyncedAt := t\<rparr>) (sort_key peID ps)) = map (\<lambda>p. p\<lparr>peLastSyncedAt := t\<rparr>) (sort_key peID ps)"
  by (rule sort_key_id_if_sorted) (simp add: comp_def)

text \<open>The rows of one signer, in the order of a query, are those of the exported list.\<close>

lemma rows_of_signer:
  assumes "\<And>x. P x \<Longrightarrow> Q x"
  shows "sort_key f (filter P (filter Q (sort_key f xs))) = sort_key f (filter P xs)"
proof -
  have "filter P (filter Q (sort_key f xs)) = filter P (sort_key f xs)"
    using assms by (auto simp: conj_commute intro: filter_cong)
  then show ?thesis by (simp add: filter_sort)
qed

text \<open>What one identity needs is carried over: exporting an identity with its peers and
  importing the file into an empty store gives that identity the same verdict on
  every version and the same view of every package.\<close>

theorem export_peers_keeps_verdicts:
  assumes wf: "store_wf s" and cut: "timesCut s" and iter: "\<And>l. set (iter l) = set l"
    and i: "exportIdentity sch s keyName = Inr (viewer, ks, n)" "viewer \<noteq> []"
    and d: "buildExportDoc sch iter c at s ScopeIncludePeers keyName = Inr d"
  shows "\<exists>s'. applyImport (\<lambda>_. False) (asRead d) emptyStore = (s', None)
     \<and> Version iter c s' viewer viewer e p v = Version iter c s viewer viewer e p v
     \<and> Package srt iter c s' viewer viewer e p = Package srt iter c s viewer viewer e p"
proof -
  let ?live = "liveSigners c s viewer"
  have d': "d = \<lparr>xdVersion = exportFormatVersion, xdExportedAt = at, xdActiveKey = n, xdKeys = ks, xdPeers = ListPeers s,
      xdServers = ListServers s, xdCachedSignatures = filter (\<lambda>g. csSigner g \<in> ?live) (ListAllCachedSignatures s),
      xdCachedConnections = filter (\<lambda>n. ccSigner n \<in> ?live) (ListAllCachedConnections s),
      xdCachedUsers = filter (\<lambda>u. cuID u \<in> ?live) (ListCachedUsers s), xdPushState = ListAllPushState s\<rparr>"
    using d i by (simp add: buildExportDoc_def Let_def live_TrustSet[OF iter])
  have "distinct (map kyName (ListKeys s))"
    using wf by (simp add: ListKeys_def distinct_sort_key store_wf_def keysDistinct_def)
  then have "distinct (map kyName ks)"
    using i(1) by (auto simp: exportIdentity_def Let_def bindE_eq_Inr split: if_splits)
  then have imp: "applyImport (\<lambda>_. False) (asRead d) emptyStore = (restored d, None)"
    unfolding applyImport_asRead d' by (subst importedStore_empty[OF docOk_filtered[OF wf cut]]) simp_all
  have "sameView ?live s (restored d)"
    unfolding sameView_def
  proof (intro conjI ballI)
    show "peerSettings (restored d) = peerSettings s"
      by (simp add: peerSettings_def restored_def d' ListPeers_def peers_settings_sorted comp_def)
    fix i assume "i \<in> ?live"
    then show "GetCachedConnectionsBySigner i (restored d) = GetCachedConnectionsBySigner i s"
        "GetCachedSignaturesBySigner i (restored d) = GetCachedSignaturesBySigner i s"
      by (auto simp: GetCachedConnectionsBySigner_def GetCachedSignaturesBySigner_def restored_def d'
          ListAllCachedConnections_def ListAllCachedSignatures_def simp del: filter_filter intro!: rows_of_signer)
  qed
  moreover have "set (iter l) \<subseteq> set l" for l using iter by simp
  ultimately show ?thesis
    using sameView_verdicts[of c s viewer "restored d" iter] i(2) imp by blast
qed

section \<open>Encrypted keys\<close>

lemma encrypted_not_b64: "IsEncryptedKey raw \<Longrightarrow> b64Decode raw = None"
proof -
  assume "IsEncryptedKey raw"
  then have "b64Vals (filter (\<lambda>c. \<not> isNewline c) raw) = None"
  proof (induction raw rule: IsEncryptedKey.induct)
    case (2 b raw)
    have "b64Val b = None" if "byte b = 32 \<or> byte b = 9 \<or> byte b = 123"
      using that by (auto simp: b64Val_def isUpper_def isLower_def isDigit_def byte_def)
    with 2 show ?case by (auto simp: isNewline_def split: if_splits)
  qed simp
  then show ?thesis by (simp add: b64Decode_def)
qed

text \<open>An encrypted key loses its rows: when the private key of the active key is encrypted,
  an export other than a full backup holds no signature and no connection at all, yet
  every key of the store, and choosing the key by its name fails.\<close>

theorem export_encrypted_drops_rows:
  assumes "GetActiveKey s = Inr name" and "name \<noteq> []" and "GetKey name s = Inr k" and "IsEncryptedKey (kyPrivKey k)"
    and "scope \<noteq> ScopeAll"
  shows "\<exists>d. buildExportDoc sch iter c at s scope [] = Inr d \<and> xdCachedSignatures d = [] \<and> xdCachedConnections d = []
     \<and> xdKeys d = ListKeys s \<and> buildExportDoc sch iter c at s scope name = Inl BadPrivateKey"
proof -
  have u: "userIDFromKey sch k = Inl BadPrivateKey"
    using assms(4) by (simp add: userIDFromKey_def encrypted_not_b64)
  have n: "activeNameOf s = name" using assms(1) by (simp add: activeNameOf_def)
  have "exportIdentity sch s [] = Inr ([], ListKeys s, name)" "exportIdentity sch s name = Inl BadPrivateKey"
    using assms(2,3) u by (simp_all add: exportIdentity_def n Let_def)
  then show ?thesis
    using assms(5) by (cases scope) (simp_all add: buildExportDoc_def Let_def)
qed

end
