(* ===== verification/Store_Examples.thy ===== *)
theory Store_Examples
  imports Cli_Export Net_Examples
begin

text \<open>
  The client of the examples cleans its store, backs it up and moves to another device.
\<close>

lemma peerStore_wf: "store_wf peerStore"
  using demoStore_wf by (simp add: store_wf_def peerStore_def keysDistinct_def)

lemma peerStore_cut: "timesCut peerStore"
  by (simp add: timesCut_def peerStore_def demoStore_def emptyStore_def demoTarget_def storedSignature_def cutToSecond_def)

lemma peerStore_key:
  "GetActiveKey peerStore = Inr ''default''" "GetKey ''default'' peerStore = Inr demoKey"
  "activeUserID toySchemes peerStore = Inr demoUserID"
proof -
  show "GetActiveKey peerStore = Inr ''default''" "GetKey ''default'' peerStore = Inr demoKey"
    using demo_key by (simp_all add: GetActiveKey_def GetKey_def peerStore_def)
  then show "activeUserID toySchemes peerStore = Inr demoUserID"
    by (simp add: activeUserID_def demoKey_def b64Decode_Encode demoUserID_def)
qed

text \<open>A stranger's signature is cleaned away.\<close>

definition cleanStore :: store where
  "cleanStore = peerStore\<lparr>cachedSignatures := [demoTarget, demoTarget\<lparr>csID := ''z'', csSigner := ''stranger''\<rparr>]\<rparr>"

lemma runClean_keeps_verdicts_witness:
  "\<exists>s'. runClean toySchemes (\<lambda>l. l) (ceCodec demoCli) (Some ''yes'') cleanStore = Inr s'
     \<and> keys s' = keys cleanStore \<and> cachedSignatures s'
       = filter (\<lambda>g. csSigner g \<in> liveSigners (ceCodec demoCli) cleanStore demoUserID) (cachedSignatures cleanStore)"
proof -
  have wf: "store_wf cleanStore"
    using peerStore_wf by (simp add: store_wf_def cleanStore_def keysDistinct_def demoTarget_def)
  have user: "activeUserID toySchemes cleanStore = Inr demoUserID"
  proof -
    have "GetActiveKey cleanStore = Inr ''default''" "GetKey ''default'' cleanStore = Inr demoKey"
      using peerStore_key by (simp_all add: GetActiveKey_def GetKey_def cleanStore_def)
    then show ?thesis by (simp add: activeUserID_def demoKey_def b64Decode_Encode demoUserID_def)
  qed
  obtain s' where r: "runClean toySchemes (\<lambda>l. l) (ceCodec demoCli) (Some ''yes'') cleanStore = Inr s'"
    using user
    by (cases "pruneTotal (findPruneCandidates (\<lambda>l. l) (ceCodec demoCli) cleanStore demoUserID) = 0";
        cases "isAffirmative (trimCRLF ''yes'')") (simp_all add: runClean_def Let_def promptLine_def)
  have "demoUserID \<noteq> []" by (simp add: demoUserID_val)
  moreover have "agreed (Some ''yes'')" unfolding agreed_def by code_simp
  ultimately show ?thesis using runClean_keeps_verdicts[OF wf refl user _ r] r by simp
qed

lemma backup_restores_witness:
  "\<exists>raw s' dec. Export toySchemes (\<lambda>l. l) (ceCodec demoCli) [] (\<lambda>_. ''{}'') [''--all'', ''f''] peerStore = Inr (Some (''f'', raw))
     \<and> Import toySealing (\<lambda>_. None) (\<lambda>_. False) (\<lambda>f. if f = ''f'' then Some raw else None) dec [''f''] emptyStore = (s', None)
     \<and> mset (cachedSignatures s') = {#demoTarget#}"
proof -
  have pw: "checkPasswords toySealing (\<lambda>_. None) (map Some (ListKeys peerStore)) = None"
    by (simp add: ListKeys_def peerStore_def demoStore_def demoKey_def plain_not_encrypted)
  define d where "d = projr (buildExportDoc toySchemes (\<lambda>l. l) (ceCodec demoCli) [] peerStore ScopeAll [])"
  have json: "(\<lambda>_. Some (asRead d)) ((\<lambda>_. ''{}'') d') = Some (asRead d')"
    if "buildExportDoc toySchemes (\<lambda>l. l) (ceCodec demoCli) [] peerStore ScopeAll [] = Inr d'" for d'
    using that by (simp add: d_def)
  have active: "activeKey peerStore \<noteq> Some []" and path: "\<not> hasPrefix ''f'' ''-''"
    by (simp_all add: hasPrefix_def peerStore_def demoStore_def)
  obtain raw s' where "Export toySchemes (\<lambda>l. l) (ceCodec demoCli) [] (\<lambda>_. ''{}'') [''--all'', ''f''] peerStore = Inr (Some (''f'', raw))"
      "Import toySealing (\<lambda>_. None) (\<lambda>_. False) (\<lambda>f. if f = ''f'' then Some raw else None) (\<lambda>_. Some (asRead d)) [''f''] emptyStore = (s', None)"
      "mset (cachedSignatures s') = mset (cachedSignatures peerStore)"
    using backup_restores[OF peerStore_wf peerStore_cut active path pw json] by blast
  moreover have "mset (cachedSignatures peerStore) = {#demoTarget#}" by (simp add: peerStore_def demoStore_def)
  ultimately show ?thesis by auto
qed

lemma export_peers_keeps_verdicts_witness:
  "\<exists>d s'. buildExportDoc toySchemes (\<lambda>l. l) (ceCodec demoCli) [] peerStore ScopeIncludePeers [] = Inr d
     \<and> applyImport (\<lambda>_. False) (asRead d) emptyStore = (s', None)
     \<and> Version (\<lambda>l. l) (ceCodec demoCli) s' demoUserID demoUserID ''npm'' ''p'' ''1''
       = Version (\<lambda>l. l) (ceCodec demoCli) peerStore demoUserID demoUserID ''npm'' ''p'' ''1''"
proof -
  have "userIDFromKey toySchemes demoKey = Inr demoUserID"
    using demo_signer by (simp add: userIDFromKey_def demoKey_def b64Decode_Encode demoUserID_def toySchemes_def)
  then have i: "exportIdentity toySchemes peerStore [] = Inr (demoUserID, ListKeys peerStore, ''default'')"
    using peerStore_key by (simp add: exportIdentity_def Let_def activeNameOf_def)
  then obtain d where d: "buildExportDoc toySchemes (\<lambda>l. l) (ceCodec demoCli) [] peerStore ScopeIncludePeers [] = Inr d"
    by (simp add: buildExportDoc_def Let_def demoUserID_val)
  have "demoUserID \<noteq> []" by (simp add: demoUserID_val)
  from export_peers_keeps_verdicts[OF peerStore_wf peerStore_cut refl i this d] d show ?thesis by blast
qed

text \<open>A key, a peer that is not written because of an error, and a null: the key stays, and the import can be repeated.\<close>

definition demoDoc :: importDoc where
  "demoDoc = \<lparr>mdVersion = 1, mdActiveKey = [], mdKeys = [Some (demoKey\<lparr>kyPubKey := []\<rparr>), Some (demoKey\<lparr>kyName := ''n''\<rparr>)],
     mdPeers = [Some mallory, None], mdServers = [], mdCachedSignatures = [], mdCachedConnections = [], mdCachedUsers = [], mdPushState = []\<rparr>"

abbreviation importDemo :: "(nat \<Rightarrow> bool) \<Rightarrow> store \<Rightarrow> outcome" where
  "importDemo fails \<equiv> Import toySealing (\<lambda>_. None) fails (\<lambda>_. Some ''{}'') (\<lambda>_. Some demoDoc) [''f'']"

lemma failed_import_repeats_witness:
  "\<exists>s'. importDemo (\<lambda>n. n = 3) demoStore = (s', Some WriteFailed) \<and> s' \<noteq> demoStore
     \<and> GetKey ''default'' s' = Inr demoKey \<and> snd (importDemo (\<lambda>_. False) demoStore) = Some NilPointer
     \<and> importDemo (\<lambda>_. False) s' = importDemo (\<lambda>_. False) demoStore"
proof -
  let ?s = "SaveKey (demoKey\<lparr>kyName := ''n''\<rparr>) demoStore"
  have key: "GetKey ''default'' demoStore = Inr demoKey" using demo_key by simp
  note eval = Import_def demoDoc_def exportFormatVersion_def applyImport_def importSteps_def onRow_def importKey_def importActive_def
    importPeer_def plain_not_encrypted demoKey_def
  have r: "importDemo (\<lambda>n. n = 3) demoStore = (?s, Some WriteFailed)"
    by (simp add: eval GetKey_def GetPeer_def orNotFound_def rowByKey_def SaveKey_def upsertRow_def demoStore_def emptyStore_def mallory_def)
  have "snd (importDemo (\<lambda>_. False) demoStore) = Some NilPointer"
    by (simp add: eval GetKey_def GetPeer_def orNotFound_def rowByKey_def SaveKey_def upsertRow_def demoStore_def emptyStore_def mallory_def)
  moreover have "keys ?s \<noteq> keys demoStore" by (simp add: SaveKey_def upsertRow_def demoStore_def demoKey_def)
  then have "?s \<noteq> demoStore" by metis
  ultimately show ?thesis
    using failed_import_repeats[OF r] r key by (auto simp: keptIn_def)
qed

lemma export_encrypted_drops_rows_witness:
  "\<exists>d. buildExportDoc toySchemes (\<lambda>l. l) (ceCodec demoCli) []
      (peerStore\<lparr>keys := [demoKey\<lparr>kyPrivKey := ''{}''\<rparr>]\<rparr>) ScopeSelf [] = Inr d \<and> xdCachedSignatures d = []"
proof -
  let ?s = "peerStore\<lparr>keys := [demoKey\<lparr>kyPrivKey := ''{}''\<rparr>]\<rparr>"
  have "GetActiveKey ?s = Inr ''default''" "GetKey ''default'' ?s = Inr (demoKey\<lparr>kyPrivKey := ''{}''\<rparr>)"
    using peerStore_key(1) by (simp_all add: GetActiveKey_def GetKey_def orNotFound_def rowByKey_def demoKey_def)
  moreover have "IsEncryptedKey (kyPrivKey (demoKey\<lparr>kyPrivKey := ''{}''\<rparr>))" by (simp add: byte_def)
  ultimately show ?thesis
    using export_encrypted_drops_rows[of ?s "''default''" "demoKey\<lparr>kyPrivKey := ''{}''\<rparr>" ScopeSelf toySchemes "\<lambda>l. l" "ceCodec demoCli" "[]"]
    by auto
qed

end
