(* ===== verification/Go_Path.thy ===== *)
theory Go_Path
  imports Go_Strings
begin

text \<open>
  Slash-separated paths, as the packages \<open>path\<close> and (on Unix) \<open>path/filepath\<close> handle them.
\<close>

text \<open>\<open>Clean\<close> works on the elements; \<open>out\<close> is what it keeps, reversed.\<close>

fun cleanStack :: "bool \<Rightarrow> string list \<Rightarrow> string list \<Rightarrow> string list" where
  "cleanStack rooted out [] = rev out"
| "cleanStack rooted out (e # es) =
     (if e = [] \<or> e = ''.'' then cleanStack rooted out es
      else if e = ''..'' then (case out of
          [] \<Rightarrow> cleanStack rooted (if rooted then [] else [''..'']) es
        | t # ts \<Rightarrow> if t = ''..'' then cleanStack rooted (''..'' # t # ts) es else cleanStack rooted ts es)
      else cleanStack rooted (e # out) es)"

definition pathClean :: "string \<Rightarrow> string" where
  "pathClean p =
     (let rooted = hasPrefix p ''/''; body = join ''/'' (cleanStack rooted [] (splitChar (CHR ''/'') p))
      in if rooted then CHR ''/'' # body else if body = [] then ''.'' else body)"

text \<open>The directory with its last slash, and the file.\<close>

definition pathSplit :: "string \<Rightarrow> string \<times> string" where
  "pathSplit p = (let file = rev (takeWhile (\<lambda>c. c \<noteq> CHR ''/'') (rev p)) in (take (length p - length file) p, file))"

definition pathDir :: "string \<Rightarrow> string" where
  "pathDir p = pathClean (fst (pathSplit p))"

definition pathBase :: "string \<Rightarrow> string" where
  "pathBase p =
     (if p = [] then ''.''
      else (let q = rev (dropWhile (\<lambda>c. c = CHR ''/'') (rev p)); file = snd (pathSplit q)
            in if file = [] then ''/'' else file))"

definition pathJoin :: "string \<Rightarrow> string \<Rightarrow> string" where
  "pathJoin a b =
     (if a = [] \<and> b = [] then [] else if a = [] then pathClean b else if b = [] then pathClean a
      else pathClean (a @ ''/'' @ b))"

lemma cleanStack_snoc:
  "e \<noteq> [] \<Longrightarrow> e \<noteq> ''.'' \<Longrightarrow> e \<noteq> ''..'' \<Longrightarrow> \<exists>out'. cleanStack rooted out (es @ [e]) = out' @ [e]"
  by (induction rooted out es rule: cleanStack.induct) (auto split: list.splits)

lemma join_snoc: "join sep (xs @ [x]) = (if xs = [] then x else join sep xs @ sep @ x)"
  by (induction sep xs rule: join.induct) auto

lemma file_last: "CHR ''/'' \<notin> set f \<Longrightarrow> snd (pathSplit (d @ CHR ''/'' # f)) = f"
proof -
  assume "CHR ''/'' \<notin> set f"
  then have "takeWhile (\<lambda>c. c \<noteq> CHR ''/'') (rev f @ CHR ''/'' # rev d) = rev f"
    by (subst takeWhile_append2) auto
  then show ?thesis by (simp add: pathSplit_def)
qed

lemma file_only: "CHR ''/'' \<notin> set f \<Longrightarrow> pathSplit f = ([], f)"
proof -
  assume "CHR ''/'' \<notin> set f"
  then have "takeWhile (\<lambda>c. c \<noteq> CHR ''/'') (rev f) = rev f" by (subst takeWhile_eq_all_conv) auto
  then show ?thesis unfolding pathSplit_def Let_def by (simp only:) simp
qed

lemma pathBase_file:
  assumes "f \<noteq> []" and "CHR ''/'' \<notin> set f" and "p = f \<or> (\<exists>d. p = d @ CHR ''/'' # f)"
  shows "pathBase p = f"
proof -
  have "last f \<noteq> CHR ''/''" using last_in_set[OF assms(1)] assms(2) by metis
  moreover have "rev p \<noteq> []" "last p = last f" using assms(1,3) by auto
  ultimately have "rev p \<noteq> []" "hd (rev p) \<noteq> CHR ''/''" by (simp_all add: hd_rev)
  then have "rev (dropWhile (\<lambda>c. c = CHR ''/'') (rev p)) = p"
    by (cases "rev p") (auto simp: rev_swap)
  moreover have "snd (pathSplit p) = f" using assms(2,3) file_last[of f] file_only[of f] by auto
  ultimately show ?thesis using assms(1,3) by (auto simp: pathBase_def)
qed

text \<open>A name that \<open>ReadDir\<close> lists is the base of the path that is made with it.\<close>

lemma pathBase_pathJoin:
  assumes "name \<noteq> []" and "CHR ''/'' \<notin> set name" and "name \<noteq> ''.''" and "name \<noteq> ''..''"
  shows "pathBase (pathJoin dir name) = name"
proof -
  have clean: "\<exists>out. cleanStack r [] (splitChar (CHR ''/'') (if dir = [] then name else dir @ ''/'' @ name)) = out @ [name]" for r
    using assms cleanStack_snoc[of name r "[]" "[]"] cleanStack_snoc[of name r "[]" "splitChar (CHR ''/'') dir"]
    by (auto simp: splitChar_append)
  have "\<exists>d. pathJoin dir name = name \<or> pathJoin dir name = d @ CHR ''/'' # name"
  proof -
    let ?p = "if dir = [] then name else dir @ ''/'' @ name"
    have j: "pathJoin dir name = pathClean ?p" using assms(1) by (simp add: pathJoin_def)
    obtain out where o: "cleanStack (hasPrefix ?p ''/'') [] (splitChar (CHR ''/'') ?p) = out @ [name]"
      using clean by blast
    have b: "join ''/'' (out @ [name]) = (if out = [] then name else join ''/'' out @ ''/'' @ name)" by (rule join_snoc)
    show ?thesis
    proof (cases "hasPrefix ?p ''/''")
      case True
      have "pathJoin dir name = CHR ''/'' # join ''/'' (out @ [name])"
        using o True unfolding j pathClean_def Let_def by simp
      then show ?thesis unfolding b by (cases "out = []") (auto intro: exI[of _ "[]"] exI[of _ "CHR ''/'' # join ''/'' out"])
    next
      case False
      have "join ''/'' (out @ [name]) \<noteq> []" using assms(1) unfolding b by simp
      then have "pathJoin dir name = join ''/'' (out @ [name])"
        using o False unfolding j pathClean_def Let_def by simp
      then show ?thesis unfolding b by (cases "out = []") auto
    qed
  qed
  with pathBase_file[OF assms(1,2)] show ?thesis by blast
qed

end
