(* ===== verification/Lockfile.thy ===== *)
theory Lockfile
  imports Go_Path "HOL-Library.Monad_Syntax" "HOL-Library.List_Lexorder" "HOL-Library.Char_ord" "HOL-Library.Multiset"
begin

text \<open>
  The contract of the lockfile adapters, \<open>ecosystems/types.go\<close>: the packages a lockfile
  names, the dependency graph and the warnings.  A Go map is a list of pairs with
  different keys, in the order in which Go ranges over it.
\<close>

section \<open>Results\<close>

record packageRef =
  pkEcosystem :: string
  pkPackageID :: string
  pkVersion :: string
  pkDirect :: bool
  pkHash :: string
  pkSource :: string

type_synonym edgeMap = "(string \<times> string list) list"

text \<open>The warnings by what they say.  A reason is the text in parentheses, with the source that
  is quoted in it.\<close>

datatype reason = Reason string | ReasonQuoting string string

datatype lockWarning =
    SkippedEntry string string reason
  | SkippedName string reason
  | BadFieldCount nat nat string
  | GoModUnreadable
  | ReadStopped
  | GraphFailed
  | SkippedOption nat string
  | SkippedURL nat string
  | NotPinned nat string
  | NoSeparator string
  | NotATuple string
  | BadTuple string
  | NoNameVersion string
  | OldLockfileVersion int

datatype parseError = OpenFailed string | LineTooLong | DecodeFailed | BadMixLock | UnmatchedBrace | UnterminatedKey nat

record parseResult =
  psPackages :: "packageRef list"
  psEdges :: "edgeMap option"
  psWarnings :: "lockWarning list"

text \<open>A file system by its readable files.\<close>

type_synonym files = "string \<Rightarrow> string option"

definition flatResult :: "packageRef list \<times> lockWarning list \<Rightarrow> parseResult" where
  "flatResult r = \<lparr>psPackages = fst r, psEdges = None, psWarnings = snd r\<rparr>"

definition parseFile :: "(string \<Rightarrow> parseError + parseResult) \<Rightarrow> files \<Rightarrow> string \<Rightarrow> parseError + parseResult" where
  "parseFile parse fs path = (case fs path of None \<Rightarrow> Inl (OpenFailed path) | Some body \<Rightarrow> parse body)"

section \<open>Lines\<close>

text \<open>
  What a \<open>bufio.Scanner\<close> with a buffer of 1 MiB yields: the lines without their newline and
  without one trailing carriage return; a last line without a newline counts when it
  is not empty.  A line that fills the buffer stops the scanner with an error, which
  only some callers ask for.
\<close>

definition dropCR :: "string \<Rightarrow> string" where
  "dropCR l = (if l \<noteq> [] \<and> byte (last l) = 13 then butlast l else l)"

definition maxToken :: int where "maxToken = 1024 * 1024"

definition newline :: char where "newline = char_of (10 :: nat)"

definition rawLines :: "string \<Rightarrow> string list" where
  "rawLines s = (let ls = splitChar newline s in if last ls = [] then butlast ls else ls)"

definition scanText :: "string \<Rightarrow> string list \<times> bool" where
  "scanText s =
     (let ls = rawLines s; good = takeWhile (\<lambda>l. int (length l) < maxToken) ls
      in (map dropCR good, length good = length ls))"

text \<open>Lines of ordinary size are read back.\<close>

definition plainLine :: "string \<Rightarrow> bool" where
  "plainLine l \<longleftrightarrow> newline \<notin> set l \<and> (l \<noteq> [] \<longrightarrow> byte (last l) \<noteq> 13) \<and> int (length l) < maxToken"

lemma rawLines_concat:
  "list_all (\<lambda>l. newline \<notin> set l) ls \<Longrightarrow> rawLines (concat (map (\<lambda>l. l @ [newline]) ls)) = ls"
proof -
  assume "list_all (\<lambda>l. newline \<notin> set l) ls"
  then have "splitChar newline (concat (map (\<lambda>l. l @ [newline]) ls)) = ls @ [[]]"
    by (induction ls) (simp_all add: splitChar_append)
  then show ?thesis by (simp add: rawLines_def)
qed

lemma scanText_lines: "list_all plainLine ls \<Longrightarrow> scanText (concat (map (\<lambda>l. l @ [newline]) ls)) = (ls, True)"
proof -
  assume p: "list_all plainLine ls"
  then have r: "rawLines (concat (map (\<lambda>l. l @ [newline]) ls)) = ls"
    by (intro rawLines_concat) (auto simp: list_all_iff plainLine_def)
  have t: "takeWhile (\<lambda>l. int (length l) < maxToken) ls = ls"
    using p by (auto simp: takeWhile_eq_all_conv list_all_iff plainLine_def)
  have "map dropCR ls = ls"
    using p by (auto simp: list_all_iff plainLine_def dropCR_def intro!: map_idI)
  then show ?thesis by (simp add: scanText_def Let_def r t)
qed

text \<open>A line that is too long hides everything behind it.\<close>

lemma scanText_long:
  assumes ls: "list_all plainLine ls" and l: "newline \<notin> set l" "maxToken \<le> int (length l)"
  shows "scanText (concat (map (\<lambda>l. l @ [newline]) ls) @ l @ newline # rest) = (ls, False)"
proof -
  have "list_all (\<lambda>l. newline \<notin> set l) ls" using ls by (auto simp: list_all_iff plainLine_def)
  then have "splitChar newline (concat (map (\<lambda>l. l @ [newline]) ls) @ l @ newline # rest) = ls @ l # splitChar newline rest"
    using l(1) by (induction ls) (simp_all add: splitChar_append)
  then have "\<exists>more. rawLines (concat (map (\<lambda>l. l @ [newline]) ls) @ l @ newline # rest) = ls @ l # more"
    by (cases "last (splitChar newline rest) = []") (simp_all add: rawLines_def butlast_append)
  then obtain more where r: "rawLines (concat (map (\<lambda>l. l @ [newline]) ls) @ l @ newline # rest) = ls @ l # more" by blast
  have short: "list_all (\<lambda>l. int (length l) < maxToken) ls" and cr: "map dropCR ls = ls"
    using ls by (auto simp: list_all_iff plainLine_def dropCR_def intro!: map_idI)
  have "takeWhile (\<lambda>l. int (length l) < maxToken) (ls @ l # more) = ls"
    using short l(2) by (simp add: list_all_iff takeWhile_append2)
  then show ?thesis unfolding scanText_def Let_def r by (simp add: cr)
qed

section \<open>Plain text\<close>

text \<open>ASCII without white space: neither trimmed nor split.\<close>

definition plainChar :: "char \<Rightarrow> bool" where
  "plainChar c \<longleftrightarrow> byte c < 128 \<and> \<not> asciiSpace c"

definition plainText :: "string \<Rightarrow> bool" where
  "plainText s \<longleftrightarrow> list_all plainChar s"

lemma spaceLen_plain: "plainChar c \<Longrightarrow> spaceLen (c # r) = 0"
  by (simp add: plainChar_def)

lemma trimSpaceLeft_plain: "plainText s \<Longrightarrow> trimSpaceLeft (s @ r) = (if s = [] then trimSpaceLeft r else s @ r)"
  by (cases s) (simp_all add: trimSpaceLeft.simps[of "_ # _"] spaceLen_plain plainText_def del: spaceLen.simps)

lemma spaceLenEnd_plain:
  assumes "plainText s" "s \<noteq> []"
  shows "spaceLenEnd s = 0"
proof -
  have "spaceLen (drop (length s - k) s) = 0" if "1 \<le> k" "k \<le> length s" for k
  proof -
    have "drop (length s - k) s = s ! (length s - k) # drop (Suc (length s - k)) s"
      using that by (intro Cons_nth_drop_Suc[symmetric]) auto
    moreover have "plainChar (s ! (length s - k))" using assms(1) that by (auto simp: plainText_def list_all_length)
    ultimately show ?thesis by (simp add: spaceLen_plain del: spaceLen.simps)
  qed
  then show ?thesis unfolding spaceLenEnd_def Let_def by simp
qed

lemma trimSpace_plain: "plainText s \<Longrightarrow> trimSpace s = s"
proof (cases "s = []")
  case True
  then show ?thesis by (simp add: trimSpace_def trimSpaceLeft.simps trimSpaceRight.simps spaceLenEnd_def)
next
  case False
  assume p: "plainText s"
  then show ?thesis
    using trimSpaceLeft_plain[OF p, of "[]"] spaceLenEnd_plain[OF p False] False
    by (simp add: trimSpace_def trimSpaceRight.simps)
qed

lemma fieldsFrom_plain: "plainText s \<Longrightarrow> fieldsFrom acc (s @ r) = fieldsFrom (rev s @ acc) r"
proof (induction s arbitrary: acc)
  case (Cons c s)
  then have "spaceLen (c # s @ r) = 0" by (simp add: spaceLen_plain plainText_def del: spaceLen.simps)
  then have "fieldsFrom acc ((c # s) @ r) = fieldsFrom (c # acc) (s @ r)"
    by (subst fieldsFrom.simps) (simp del: spaceLen.simps)
  with Cons show ?case by (simp add: plainText_def)
qed simp

lemma fields_plain: "plainText s \<Longrightarrow> Go_Strings.fields s = (if s = [] then [] else [s])"
  using fieldsFrom_plain[of s "[]" "[]"] by (simp add: Go_Strings.fields_def fieldsFrom.simps[of _ "[]"])

lemma fields_plain_space:
  assumes "plainText s" "s \<noteq> []"
  shows "Go_Strings.fields (s @ CHR '' '' # r) = s # Go_Strings.fields r"
proof -
  have "asciiSpace (CHR '' '')" by code_simp
  then have "fieldsFrom (rev s) (CHR '' '' # r) = s # fieldsFrom [] r"
    using assms(2) by (subst fieldsFrom.simps) simp
  then show ?thesis using fieldsFrom_plain[OF assms(1), of "[]" "CHR '' '' # r"] by (simp add: Go_Strings.fields_def)
qed

lemma plainLine_plain: "plainText s \<Longrightarrow> int (length s) < maxToken \<Longrightarrow> plainLine s"
proof -
  assume p: "plainText s" and l: "int (length s) < maxToken"
  have "byte c \<noteq> 10 \<and> byte c \<noteq> 13" if "c \<in> set s" for c
    using p that by (auto simp: plainText_def list_all_iff plainChar_def asciiSpace_def)
  moreover have "byte newline = 10" by code_simp
  ultimately show ?thesis using l by (auto simp: plainLine_def dest: last_in_set)
qed

section \<open>Go maps\<close>

text \<open>Reading a map, and writing to it.\<close>

definition edgesOf :: "edgeMap \<Rightarrow> string \<Rightarrow> string list" where
  "edgesOf m k = (case map_of m k of None \<Rightarrow> [] | Some ds \<Rightarrow> ds)"

definition putEntry :: "string \<Rightarrow> 'a \<Rightarrow> (string \<times> 'a) list \<Rightarrow> (string \<times> 'a) list" where
  "putEntry k v m = (if k \<in> fst ` set m then map (\<lambda>(k', v'). (k', if k' = k then v else v')) m else m @ [(k, v)])"

lemma keys_putEntry [simp]: "fst ` set (putEntry k v m) = insert k (fst ` set m)"
  by (force simp: putEntry_def image_iff)

lemma map_of_putEntry [simp]: "map_of (putEntry k v m) = (map_of m)(k \<mapsto> v)"
proof (cases "k \<in> fst ` set m")
  case True
  have "map_of (map (\<lambda>(k', v'). (k', if k' = k then v else v')) m) x
      = (if x = k then map_option (\<lambda>_. v) (map_of m x) else map_of m x)" for x
    by (induction m) auto
  moreover obtain w where "map_of m k = Some w"
    using True by (metis map_of_eq_None_iff option.exhaust)
  ultimately show ?thesis using True by (auto simp: putEntry_def fun_eq_iff)
next
  case False
  then have "map_of m k = None" by (simp add: map_of_eq_None_iff)
  with False show ?thesis by (auto simp: putEntry_def fun_eq_iff map_add_def split: option.split)
qed

lemma distinct_putEntry: "distinct (map fst m) \<Longrightarrow> distinct (map fst (putEntry k v m))"
proof -
  assume d: "distinct (map fst m)"
  have "map fst (map (\<lambda>(k', v'). (k', if k' = k then v else v')) m) = map fst m" by auto
  with d show ?thesis by (auto simp: putEntry_def simp del: map_map)
qed

text \<open>The key of a package in the graph.\<close>

definition pkgKey :: "packageRef \<Rightarrow> string" where
  "pkgKey p = pkPackageID p @ ''@'' @ pkVersion p"

section \<open>Collecting packages\<close>

text \<open>
  The loop that the adapters share: an entry is passed over, or skipped with a warning,
  or it is a package, which is added unless its name and version are there (the
  Go map \<open>seen\<close> holds the names and versions of the packages collected so far).
\<close>

datatype entryVerdict = Quiet | Warned lockWarning | Pinned packageRef

definition pkgName :: "packageRef \<Rightarrow> string \<times> string" where
  "pkgName r = (pkPackageID r, pkVersion r)"

fun addEntry :: "entryVerdict \<Rightarrow> packageRef list \<times> lockWarning list \<Rightarrow> packageRef list \<times> lockWarning list" where
  "addEntry Quiet (pkgs, ws) = (pkgs, ws)"
| "addEntry (Warned w) (pkgs, ws) = (pkgs, ws @ [w])"
| "addEntry (Pinned r) (pkgs, ws) = (if pkgName r \<in> pkgName ` set pkgs then (pkgs, ws) else (pkgs @ [r], ws))"

definition collect :: "entryVerdict list \<Rightarrow> packageRef list \<times> lockWarning list" where
  "collect vs = fold addEntry vs ([], [])"

definition flatRef :: "string \<Rightarrow> string \<Rightarrow> string \<Rightarrow> string \<Rightarrow> packageRef" where
  "flatRef eco name version hash =
     \<lparr>pkEcosystem = eco, pkPackageID = name, pkVersion = version, pkDirect = False, pkHash = hash, pkSource = []\<rparr>"

lemma flatRef_sel [simp]:
  "pkEcosystem (flatRef e n v h) = e" "pkPackageID (flatRef e n v h) = n" "pkVersion (flatRef e n v h) = v"
  "pkDirect (flatRef e n v h) = False" "pkHash (flatRef e n v h) = h" "pkSource (flatRef e n v h) = []"
  by (simp_all add: flatRef_def)

lemma addEntry_distinct: "distinct (map pkgName (fst acc)) \<Longrightarrow> distinct (map pkgName (fst (addEntry v acc)))"
  by (cases "(v, acc)" rule: addEntry.cases) auto

lemma collect_snoc: "collect (vs @ [v]) = addEntry v (collect vs)"
  by (simp add: collect_def)

lemma collect_Nil [simp]: "collect [] = ([], [])"
  by (simp add: collect_def)

lemma collect_distinct: "distinct (map pkgName (fst (collect vs)))"
  by (induction vs rule: rev_induct) (simp_all add: collect_snoc addEntry_distinct)

lemma collect_sound: "r \<in> set (fst (collect vs)) \<Longrightarrow> Pinned r \<in> set vs"
proof (induction vs rule: rev_induct)
  case (snoc v vs)
  then show ?case by (cases "(v, collect vs)" rule: addEntry.cases) (auto simp: collect_snoc split: if_splits)
qed simp

lemma collect_complete: "Pinned r \<in> set vs \<Longrightarrow> pkgName r \<in> pkgName ` set (fst (collect vs))"
proof (induction vs rule: rev_induct)
  case (snoc v vs)
  then show ?case by (cases "(v, collect vs)" rule: addEntry.cases) (auto simp: collect_snoc split: if_splits)
qed simp

lemma collect_warnings: "snd (collect vs) = concat (map (\<lambda>v. case v of Warned w \<Rightarrow> [w] | _ \<Rightarrow> []) vs)"
proof (induction vs rule: rev_induct)
  case (snoc v vs)
  then show ?case by (cases "(v, collect vs)" rule: addEntry.cases) (auto simp: collect_snoc split: if_splits)
qed simp

lemma collect_all: "distinct (map pkgName rs) \<Longrightarrow> collect (map Pinned rs) = (rs, [])"
  by (induction rs rule: rev_induct) (auto simp: collect_snoc)

text \<open>A lockfile format that a third-party decoder reads; \<open>None\<close> is its error.\<close>

definition decodeFile :: "(string \<Rightarrow> 'd option) \<Rightarrow> ('d \<Rightarrow> parseResult) \<Rightarrow> files \<Rightarrow> string \<Rightarrow> parseError + parseResult" where
  "decodeFile decode convert = parseFile (\<lambda>body. case decode body of None \<Rightarrow> Inl DecodeFailed | Some d \<Rightarrow> Inr (convert d))"

definition baseIs :: "string \<Rightarrow> string \<Rightarrow> bool" where
  "baseIs name p \<longleftrightarrow> p \<noteq> [] \<and> pathBase p = name"

text \<open>A map is visited in the order of its sorted keys.\<close>

definition sortedEntries :: "(string \<times> 'a) list \<Rightarrow> (string \<times> 'a) list" where
  "sortedEntries m = sort_key fst m"

lemma sortedEntries_order:
  assumes "mset m = mset m'" and "distinct (map fst m)"
  shows "sortedEntries m = sortedEntries m'"
  unfolding sortedEntries_def
proof (rule properties_for_sort_key)
  show "mset (sort_key fst m') = mset m" using assms(1) by simp
  show "sorted (map fst (sort_key fst m'))" by simp
  fix e assume e: "e \<in> set (sort_key fst m')"
  have d: "distinct (map fst (sort_key fst m'))"
    using assms mset_eq_imp_distinct_iff[of "map fst (sort_key fst m')" "map fst m"] by simp
  have "filter (\<lambda>x. fst e = fst x) xs = [e]" if "e \<in> set xs" "distinct (map fst xs)" for xs
    using that by (induction xs) (force simp: filter_empty_conv)+
  moreover have "e \<in> set m" using e assms(1) by (metis mset_eq_setD set_sort)
  ultimately show "filter (\<lambda>x. fst e = fst x) (sort_key fst m') = filter (\<lambda>x. fst e = fst x) m"
    using e d assms(2) by presburger
qed

section \<open>The contract of an adapter\<close>

text \<open>
  What a check relies on: the packages carry the ecosystem of the adapter, a version, and
  a name in the form of the ecosystem, none of them twice.
\<close>

definition refsOk :: "string \<Rightarrow> (string \<Rightarrow> bool) \<Rightarrow> packageRef list \<Rightarrow> bool" where
  "refsOk eco normal pkgs \<longleftrightarrow> distinct (map pkgName pkgs)
     \<and> (\<forall>r\<in>set pkgs. pkEcosystem r = eco \<and> pkVersion r \<noteq> [] \<and> normal (pkPackageID r))"

text \<open>No entry is lost: it is passed over on purpose, has a warning, or its package is listed.\<close>

definition accounted :: "entryVerdict \<Rightarrow> packageRef list \<times> lockWarning list \<Rightarrow> bool" where
  "accounted v res \<longleftrightarrow> (case v of Quiet \<Rightarrow> True | Warned w \<Rightarrow> w \<in> set (snd res)
     | Pinned r \<Rightarrow> pkgName r \<in> pkgName ` set (fst res))"

locale entries_of =
  fixes eco :: string and verdict :: "'e \<Rightarrow> entryVerdict"
  assumes own: "verdict e = Pinned r \<Longrightarrow> pkEcosystem r = eco"
begin

lemma collected: "r \<in> set (fst (collect (map verdict es))) \<Longrightarrow> \<exists>e\<in>set es. verdict e = Pinned r"
  by (drule collect_sound) (metis imageE list.set_map)

lemma refs_own: "r \<in> set (fst (collect (map verdict es))) \<Longrightarrow> pkEcosystem r = eco"
proof -
  assume "r \<in> set (fst (collect (map verdict es)))"
  then obtain e where "verdict e = Pinned r" using collected by blast
  then show ?thesis by (rule own)
qed

lemma all_accounted: "e \<in> set es \<Longrightarrow> accounted (verdict e) (collect (map verdict es))"
proof (cases "verdict e")
  case (Warned w)
  assume "e \<in> set es"
  then have "w \<in> set (snd (collect (map verdict es)))"
    using Warned by (force simp: collect_warnings)
  with Warned show ?thesis by (simp add: accounted_def)
next
  case (Pinned r)
  assume "e \<in> set es"
  then have "Pinned r \<in> set (map verdict es)" using Pinned by (metis image_eqI set_map)
  with Pinned collect_complete show ?thesis by (simp add: accounted_def del: set_map)
qed (simp add: accounted_def)

end

locale lock_entries = entries_of eco verdict for eco :: string and verdict :: "'e \<Rightarrow> entryVerdict" +
  fixes normal :: "string \<Rightarrow> bool"
  assumes named: "verdict e = Pinned r \<Longrightarrow> pkVersion r \<noteq> [] \<and> normal (pkPackageID r)"
begin

lemma refs_ok: "refsOk eco normal (fst (collect (map verdict es)))"
  unfolding refsOk_def
proof (intro conjI ballI collect_distinct)
  fix r assume r: "r \<in> set (fst (collect (map verdict es)))"
  obtain e where "verdict e = Pinned r" using collected[OF r] by blast
  then show "pkVersion r \<noteq> []" "normal (pkPackageID r)" using named by blast+
  show "pkEcosystem r = eco" using r by (rule refs_own)
qed

end

end
