(* ===== verification/Check_Tree.thy ===== *)
theory Check_Tree
  imports Lockfile Resolver "HOL-Library.Transitive_Closure_Table"
begin

text \<open>
  The tree that \<open>tillit check\<close> prints, \<open>checktree.go\<close>: the edges of the dependency graph
  moved to the versions the lockfile names, the tree below every direct
  dependency with cycles cut, and the packages that no tree reaches.  A line is the
  key of a package with a flag per level, whether it is the last of its
  siblings; the text is made from these.  The tree and the rest show every package.
\<close>

section \<open>Rows\<close>

record checkRow =
  rowPkg :: packageRef
  rowStatus :: status
  rowVerdict :: verdict

record nodeInfo =
  niLabel :: string
  niVersion :: string
  niStatus :: status
  niDirect :: bool

definition rowKey :: "checkRow \<Rightarrow> string" where
  "rowKey r = pkgKey (rowPkg r)"

definition indexRows :: "checkRow list \<Rightarrow> (string \<times> nodeInfo) list" where
  "indexRows rows = fold (\<lambda>r. putEntry (rowKey r) \<lparr>niLabel = pkPackageID (rowPkg r), niVersion = pkVersion (rowPkg r),
     niStatus = rowStatus r, niDirect = pkDirect (rowPkg r)\<rparr>) rows []"

definition directRoots :: "checkRow list \<Rightarrow> string list" where
  "directRoots rows = sort (map rowKey (filter (\<lambda>r. pkDirect (rowPkg r)) rows))"

definition buildResolvedKeyMap :: "checkRow list \<Rightarrow> (string \<times> string) list" where
  "buildResolvedKeyMap rows = fold (\<lambda>r. putEntry (pkPackageID (rowPkg r)) (rowKey r)) rows []"

section \<open>Edges between resolved versions\<close>

text \<open>\<open>strings.SplitN(key, "@", 2)[0]\<close>; \<open>None\<close> stands for the empty key.\<close>

definition canonKey :: "(string \<times> nodeInfo) list \<Rightarrow> (string \<times> string) list \<Rightarrow> string \<Rightarrow> string option" where
  "canonKey infos resolved key =
     (if map_of infos key \<noteq> None then Some key
      else map_of resolved (takeWhile (\<lambda>c. c \<noteq> CHR ''@'') key))"

fun keepDeps :: "(string \<Rightarrow> string option) \<Rightarrow> string \<Rightarrow> string list \<Rightarrow> string list \<Rightarrow> string list" where
  "keepDeps canon fromKey keep [] = keep"
| "keepDeps canon fromKey keep (d # ds) = (case canon d of
     None \<Rightarrow> keepDeps canon fromKey keep ds
   | Some c \<Rightarrow> if c = fromKey \<or> c \<in> set keep then keepDeps canon fromKey keep ds
       else keepDeps canon fromKey (keep @ [c]) ds)"

definition canonicaliseEdges :: "edgeMap \<Rightarrow> (string \<times> nodeInfo) list \<Rightarrow> (string \<times> string) list \<Rightarrow> edgeMap" where
  "canonicaliseEdges edges infos resolved = fold (\<lambda>(from_k, deps) out.
     (let fromKey = (case canonKey infos resolved from_k of None \<Rightarrow> from_k | Some c \<Rightarrow> c);
          keep = keepDeps (canonKey infos resolved) fromKey [] deps
      in if keep \<noteq> [] then putEntry fromKey keep out else out)) edges []"

section \<open>The tree\<close>

text \<open>\<open>srt\<close> is \<open>sort.Slice\<close>.\<close>

definition childLess :: "(string \<times> nodeInfo) list \<Rightarrow> string \<Rightarrow> string \<Rightarrow> bool" where
  "childLess infos a b = (case (map_of infos a, map_of infos b) of
     (Some ai, Some bi) \<Rightarrow> if niLabel ai \<noteq> niLabel bi then niLabel ai < niLabel bi else niVersion ai < niVersion bi
   | _ \<Rightarrow> a < b)"

type_synonym stringSort = "(string \<Rightarrow> string \<Rightarrow> bool) \<Rightarrow> string list \<Rightarrow> string list"

definition sortedChildren :: "stringSort \<Rightarrow> (string \<times> nodeInfo) list \<Rightarrow> string list \<Rightarrow> string list" where
  "sortedChildren srt infos ks = srt (childLess infos) ks"

text \<open>The ancestors of the current branch are a list; leaving the branch takes the key off again.\<close>

function printChild ::
  "stringSort \<Rightarrow> edgeMap \<Rightarrow> (string \<times> nodeInfo) list \<Rightarrow> string \<Rightarrow> bool list \<Rightarrow> string list \<Rightarrow> (bool list \<times> string) list" where
  "printChild srt edges infos key flags ancestors =
     (if key \<notin> fst ` set infos then []
      else (flags, key) #
        (if key \<in> set ancestors then []
         else (let children = sortedChildren srt infos (edgesOf edges key) in
           concat (map (\<lambda>(i, c). printChild srt edges infos c (flags @ [i + 1 = length children]) (key # ancestors))
             (enumerate 0 children)))))"
  by pat_completeness auto

termination
proof (relation "measure (\<lambda>(srt, edges, infos, key, flags, ancestors). card (fst ` set infos - set ancestors))")
  fix srt :: stringSort and edges :: edgeMap and infos :: "(string \<times> nodeInfo) list" and key :: string
    and flags :: "bool list" and ancestors :: "string list" and children :: "string list" and x :: "nat \<times> string" and i :: nat and c :: string
  assume "\<not> key \<notin> fst ` set infos" "key \<notin> set ancestors"
  then have "card (fst ` set infos - set (key # ancestors)) < card (fst ` set infos - set ancestors)"
    by (intro psubset_card_mono) auto
  then show "((srt, edges, infos, c, flags @ [i + 1 = length children], key # ancestors), srt, edges, infos, key, flags, ancestors)
      \<in> measure (\<lambda>(srt, edges, infos, key, flags, ancestors). card (fst ` set infos - set ancestors))"
    by simp
qed simp

declare printChild.simps [simp del]

definition printRoot :: "stringSort \<Rightarrow> edgeMap \<Rightarrow> (string \<times> nodeInfo) list \<Rightarrow> string \<Rightarrow> (bool list \<times> string) list" where
  "printRoot srt edges infos key =
     (let children = sortedChildren srt infos (edgesOf edges key) in
      ([], key) # concat (map (\<lambda>(i, c). printChild srt edges infos c [i + 1 = length children] [key]) (enumerate 0 children)))"

section \<open>What no tree reaches\<close>

text \<open>The recursive walk with its calls on a stack.\<close>

function walk :: "edgeMap \<Rightarrow> string list \<Rightarrow> string list \<Rightarrow> string list" where
  "walk edges [] reachable = reachable"
| "walk edges (key # stack) reachable =
     (if key \<in> set reachable then walk edges stack reachable
      else walk edges (edgesOf edges key @ stack) (key # reachable))"
  by pat_completeness auto

termination
proof (relation "(\<lambda>(edges, stack, reachable). card (fst ` set edges - set reachable)) <*mlex*>
    measure (\<lambda>(edges, stack, reachable). length stack)")
  show "wf ((\<lambda>(edges, stack, reachable). card (fst ` set edges - set reachable)) <*mlex*>
      measure (\<lambda>(edges :: edgeMap, stack :: string list, reachable :: string list). length stack))"
    by (intro wf_mlex wf_measure)
next
  fix edges :: edgeMap and key :: string and stack reachable :: "string list"
  show "((edges, stack, reachable), edges, key # stack, reachable) \<in> (\<lambda>(edges, stack, reachable).
      card (fst ` set edges - set reachable)) <*mlex*> measure (\<lambda>(edges, stack, reachable). length stack)"
    by (simp add: mlex_iff)
next
  fix edges :: edgeMap and key :: string and stack reachable :: "string list"
  assume new: "key \<notin> set reachable"
  show "((edges, edgesOf edges key @ stack, key # reachable), edges, key # stack, reachable) \<in> (\<lambda>(edges, stack, reachable).
      card (fst ` set edges - set reachable)) <*mlex*> measure (\<lambda>(edges, stack, reachable). length stack)"
  proof (cases "key \<in> fst ` set edges")
    case True
    then have "card (fst ` set edges - set (key # reachable)) < card (fst ` set edges - set reachable)"
      using new by (intro psubset_card_mono) auto
    then show ?thesis by (simp add: mlex_iff)
  next
    case False
    then have "edgesOf edges key = []" "fst ` set edges - set (key # reachable) = fst ` set edges - set reachable"
      by (auto simp: edgesOf_def map_of_eq_None_iff[symmetric])
    then show ?thesis by (simp add: mlex_iff)
  qed
qed

definition unvisitedFromDirects :: "stringSort \<Rightarrow> checkRow list \<Rightarrow> edgeMap \<Rightarrow> string list \<Rightarrow> string list" where
  "unvisitedFromDirects srt rows edges directs =
     (let reachable = walk edges directs [] in
      srt (\<lambda>a b. toLower a < toLower b) (filter (\<lambda>k. k \<notin> set reachable) (map rowKey rows)))"

text \<open>The trees of the direct dependencies, and the keys listed after them.\<close>

definition renderTree :: "stringSort \<Rightarrow> checkRow list \<Rightarrow> edgeMap \<Rightarrow> (bool list \<times> string) list list \<times> string list" where
  "renderTree srt rows edges =
     (let infos = indexRows rows;
          edges' = canonicaliseEdges edges infos (buildResolvedKeyMap rows);
          directs = directRoots rows
      in (map (printRoot srt edges' infos) directs, unvisitedFromDirects srt rows edges' directs))"

section \<open>Text\<close>

definition statusName :: "status \<Rightarrow> string" where
  "statusName st = (case st of StatusAllowed \<Rightarrow> ''allowed'' | StatusVetted \<Rightarrow> ''vetted''
     | StatusRejected \<Rightarrow> ''rejected'' | StatusUnknown \<Rightarrow> ''unknown'')"

definition showNode :: "(string \<times> nodeInfo) list \<Rightarrow> string \<Rightarrow> string" where
  "showNode infos key = (case map_of infos key of
       None \<Rightarrow> ''  []''
     | Some i \<Rightarrow> niLabel i @ '' '' @ niVersion i @ '' ['' @ statusName (niStatus i) @ '']'')"

text \<open>The branches are drawn with box characters of three bytes each.\<close>

definition boxBar :: string where "boxBar = map char_of [226 :: nat, 148, 130]"

definition boxTee :: string where "boxTee = map char_of [226 :: nat, 148, 156]"

definition boxCorner :: string where "boxCorner = map char_of [226 :: nat, 148, 148]"

definition boxDash :: string where "boxDash = map char_of [226 :: nat, 148, 128]"

definition showBranch :: "bool list \<Rightarrow> string" where
  "showBranch flags =
     (if flags = [] then []
      else concat (map (\<lambda>last_one. (if last_one then '' '' else boxBar) @ ''   '') (butlast flags))
        @ (if last flags then boxCorner else boxTee) @ boxDash @ boxDash @ '' '')"

definition showTree :: "(string \<times> nodeInfo) list \<Rightarrow> (bool list \<times> string) list \<Rightarrow> string" where
  "showTree infos entries = concat (map (\<lambda>(flags, key). showBranch flags @ showNode infos key @ [char_of (10 :: nat)]) entries)"

definition showOutput :: "(string \<times> nodeInfo) list \<Rightarrow> (bool list \<times> string) list list \<Rightarrow> string list \<Rightarrow> string" where
  "showOutput infos trees leftovers =
     join [char_of (10 :: nat)] (map (showTree infos) trees)
     @ (if leftovers = [] then [] else
          (if trees = [] then [] else [char_of (10 :: nat)] @ ''(packages not reached from any direct dependency)'' @ [char_of (10 :: nat)])
          @ concat (map (\<lambda>key. showNode infos key @ [char_of (10 :: nat)]) leftovers))"

section \<open>Summary\<close>

definition formatStatusCounts :: "(status \<Rightarrow> nat) \<Rightarrow> string" where
  "formatStatusCounts cnt = join '', '' (map (\<lambda>st. itoa (cnt st) @ '' '' @ statusName st)
     [StatusRejected, StatusUnknown, StatusAllowed, StatusVetted])"

definition countStatus :: "bool \<Rightarrow> checkRow list \<Rightarrow> status \<Rightarrow> nat" where
  "countStatus direct rows st = length (filter (\<lambda>r. pkDirect (rowPkg r) = direct \<and> rowStatus r = st) rows)"

definition formatSummary :: "checkRow list \<Rightarrow> string" where
  "formatSummary rows =
     ''Direct   ('' @ itoa (length (filter (\<lambda>r. pkDirect (rowPkg r)) rows)) @ ''): ''
       @ formatStatusCounts (countStatus True rows) @ [char_of (10 :: nat)]
     @ ''Indirect ('' @ itoa (length (filter (\<lambda>r. \<not> pkDirect (rowPkg r)) rows)) @ ''): ''
       @ formatStatusCounts (countStatus False rows) @ [char_of (10 :: nat)]"

section \<open>The walk finds what is reachable\<close>

definition edgeRel :: "edgeMap \<Rightarrow> string \<Rightarrow> string \<Rightarrow> bool" where
  "edgeRel edges a b \<longleftrightarrow> b \<in> set (edgesOf edges a)"

lemma walk_mono: "set reachable \<subseteq> set (walk edges stack reachable)"
  by (induction edges stack reachable rule: walk.induct) auto

lemma walk_stack: "set stack \<subseteq> set (walk edges stack reachable)"
proof (induction edges stack reachable rule: walk.induct)
  case (2 edges key stack reachable)
  then show ?case
    using walk_mono[of "key # reachable" edges "edgesOf edges key @ stack"] walk_mono[of reachable edges stack] by auto
qed simp

text \<open>What is reachable and not on the stack has its successors reachable or on the stack.\<close>

lemma walk_closed:
  "(\<And>a b. a \<in> set reachable \<Longrightarrow> edgeRel edges a b \<Longrightarrow> b \<in> set reachable \<union> set stack) \<Longrightarrow>
   a \<in> set (walk edges stack reachable) \<Longrightarrow> edgeRel edges a b \<Longrightarrow> b \<in> set (walk edges stack reachable)"
proof (induction edges stack reachable rule: walk.induct)
  case (1 edges reachable)
  then show ?case by fastforce
next
  case (2 edges key stack reachable)
  show ?case
  proof (cases "key \<in> set reachable")
    case True
    have "a \<in> set reachable \<Longrightarrow> edgeRel edges a b \<Longrightarrow> b \<in> set reachable \<union> set stack" for a b
      using "2.prems"(1)[of a b] True by auto
    from "2.IH"(1)[OF True this] "2.prems"(2,3) True show ?thesis by simp
  next
    case False
    have "a \<in> set (key # reachable) \<Longrightarrow> edgeRel edges a b \<Longrightarrow> b \<in> set (key # reachable) \<union> set (edgesOf edges key @ stack)" for a b
      using "2.prems"(1)[of a b] by (auto simp: edgeRel_def)
    from "2.IH"(2)[OF False this] "2.prems"(2,3) False show ?thesis by simp
  qed
qed

lemma walk_sound:
  "(\<And>k. k \<in> set reachable \<union> set stack \<Longrightarrow> P k) \<Longrightarrow> (\<And>a b. P a \<Longrightarrow> edgeRel edges a b \<Longrightarrow> P b) \<Longrightarrow>
   k \<in> set (walk edges stack reachable) \<Longrightarrow> P k"
proof (induction edges stack reachable rule: walk.induct)
  case (2 edges key stack reachable)
  show ?case
  proof (cases "key \<in> set reachable")
    case True
    with 2 show ?thesis by simp
  next
    case False
    have "x \<in> set (key # reachable) \<union> set (edgesOf edges key @ stack) \<Longrightarrow> P x" for x
      using "2.prems"(1)[of x] "2.prems"(1)[of key] "2.prems"(2)[of key x] by (auto simp: edgeRel_def)
    from "2.IH"(2)[OF False this "2.prems"(2)] "2.prems"(3) False show ?thesis by simp
  qed
qed simp

lemma walk_reachable:
  "k \<in> set (walk edges starts []) \<longleftrightarrow> (\<exists>d\<in>set starts. (edgeRel edges)\<^sup>*\<^sup>* d k)"
proof
  assume "k \<in> set (walk edges starts [])"
  then show "\<exists>d\<in>set starts. (edgeRel edges)\<^sup>*\<^sup>* d k"
    by (rule walk_sound[rotated 2]) (auto intro: rtranclp.rtrancl_into_rtrancl)
next
  assume "\<exists>d\<in>set starts. (edgeRel edges)\<^sup>*\<^sup>* d k"
  then obtain d where "d \<in> set starts" "(edgeRel edges)\<^sup>*\<^sup>* d k" by blast
  from this(2) show "k \<in> set (walk edges starts [])"
  proof (induction rule: rtranclp_induct)
    case base
    then show ?case using walk_stack \<open>d \<in> set starts\<close> by blast
  next
    case (step a b)
    show ?case by (rule walk_closed[of "[]" edges starts a b]) (use step in auto)
  qed
qed

section \<open>The tree shows what is reachable\<close>

definition sortKeeps :: "stringSort \<Rightarrow> bool" where
  "sortKeeps srt \<longleftrightarrow> (\<forall>lt ks. mset (srt lt ks) = mset ks)"

lemma sortKeeps_set: "sortKeeps srt \<Longrightarrow> set (srt lt ks) = set ks"
  unfolding sortKeeps_def by (metis set_mset_mset)

lemma sortedChildren_set: "sortKeeps srt \<Longrightarrow> set (sortedChildren srt infos ks) = set ks"
  using sortKeeps_set[of srt "childLess infos" ks] by (simp add: sortedChildren_def)

lemma printChild_known: "key \<in> fst ` set infos \<Longrightarrow> (flags, key) \<in> set (printChild srt edges infos key flags ancestors)"
  by (subst printChild.simps) simp

text \<open>A child's lines are among those of its parent.\<close>

lemma in_children:
  assumes "c \<in> set cs" and "\<And>i. k \<in> snd ` set (g i c)"
  shows "k \<in> snd ` set (concat (map (\<lambda>(i, c). g i c) (enumerate 0 cs)))"
proof -
  obtain i where "i < length cs" "c = cs ! i" using assms(1) by (auto simp: in_set_conv_nth)
  then have "(i, c) \<in> set (enumerate 0 cs)" by (auto simp: in_set_enumerate_eq)
  with assms(2)[of i] show ?thesis by force
qed

lemma printChild_path:
  assumes srt: "sortKeeps srt" and known: "\<And>a b. edgeRel edges a b \<Longrightarrow> b \<in> fst ` set infos"
  shows "rtrancl_path (edgeRel edges) a xs b \<Longrightarrow> distinct (a # xs) \<Longrightarrow> set (a # xs) \<inter> set ancestors = {} \<Longrightarrow>
    a \<in> fst ` set infos \<Longrightarrow> b \<in> snd ` set (printChild srt edges infos a flags ancestors)"
proof (induction arbitrary: flags ancestors rule: rtrancl_path.induct)
  case (base x)
  then show ?case using printChild_known by force
next
  case (step x y ys z)
  have y: "y \<in> set (sortedChildren srt infos (edgesOf edges x))"
    using step.hyps(1) by (simp add: sortedChildren_set[OF srt] edgeRel_def)
  have "z \<in> snd ` set (printChild srt edges infos y f (x # ancestors))" for f
    using step by (intro step.IH known[OF step.hyps(1)]) auto
  then have "z \<in> snd ` set (concat (map (\<lambda>(i, c). printChild srt edges infos c
      (flags @ [i + 1 = length (sortedChildren srt infos (edgesOf edges x))]) (x # ancestors))
      (enumerate 0 (sortedChildren srt infos (edgesOf edges x)))))"
    by (intro in_children[OF y])
  then show ?case
    using step.prems by (subst printChild.simps) (auto simp: Let_def)
qed

lemma printChild_sound:
  "sortKeeps srt \<Longrightarrow> k \<in> snd ` set (printChild srt edges infos key flags ancestors) \<Longrightarrow> (edgeRel edges)\<^sup>*\<^sup>* key k"
proof (induction srt edges infos key flags ancestors rule: printChild.induct)
  case (1 srt edges infos key flags ancestors)
  let ?cs = "sortedChildren srt infos (edgesOf edges key)"
  from "1.prems"(2) consider "k = key"
    | i c where "key \<in> fst ` set infos" "key \<notin> set ancestors" "(i, c) \<in> set (enumerate 0 ?cs)"
        "k \<in> snd ` set (printChild srt edges infos c (flags @ [i + 1 = length ?cs]) (key # ancestors))"
    by (subst (asm) printChild.simps) (auto simp: Let_def split: if_splits)
  then show ?case
  proof cases
    case 2
    then have "(edgeRel edges)\<^sup>*\<^sup>* c k"
      using "1.IH"[of ?cs "(i, c)" i c] "1.prems"(1) by auto
    moreover have "c \<in> set ?cs" using 2(3) by (auto simp: in_set_enumerate_eq)
    then have "edgeRel edges key c" using sortedChildren_set[OF "1.prems"(1)] by (simp add: edgeRel_def)
    ultimately show ?thesis by (rule converse_rtranclp_into_rtranclp[rotated])
  qed simp
qed

lemma printRoot_keys:
  assumes srt: "sortKeeps srt" and known: "\<And>a b. edgeRel edges a b \<Longrightarrow> b \<in> fst ` set infos" and root: "key \<in> fst ` set infos"
  shows "snd ` set (printRoot srt edges infos key) = {k. (edgeRel edges)\<^sup>*\<^sup>* key k}"
proof (intro set_eqI iffI)
  fix k
  let ?cs = "sortedChildren srt infos (edgesOf edges key)"
  {
    assume "k \<in> snd ` set (printRoot srt edges infos key)"
    then consider "k = key" | i c where "(i, c) \<in> set (enumerate 0 ?cs)"
        "k \<in> snd ` set (printChild srt edges infos c [i + 1 = length ?cs] [key])"
      by (auto simp: printRoot_def Let_def)
    then show "k \<in> {k. (edgeRel edges)\<^sup>*\<^sup>* key k}"
    proof cases
      case 2
      have "c \<in> set ?cs" using 2(1) by (auto simp: in_set_enumerate_eq)
      then have "edgeRel edges key c" using sortedChildren_set[OF srt] by (simp add: edgeRel_def)
      with printChild_sound[OF srt 2(2)] show ?thesis by (simp add: converse_rtranclp_into_rtranclp)
    qed simp
  next
    assume "k \<in> {k. (edgeRel edges)\<^sup>*\<^sup>* key k}"
    then obtain xs where "rtrancl_path (edgeRel edges) key xs k" using rtranclp_eq_rtrancl_path by fast
    then obtain ys where path: "rtrancl_path (edgeRel edges) key ys k" "distinct (key # ys)"
      using rtrancl_path_distinct by metis
    show "k \<in> snd ` set (printRoot srt edges infos key)"
      using path(1)
    proof cases
      case base
      then show ?thesis by (simp add: printRoot_def Let_def)
    next
      case (step y zs)
      have y: "y \<in> set ?cs" using step(2) by (simp add: sortedChildren_set[OF srt] edgeRel_def)
      have "k \<in> snd ` set (printChild srt edges infos y f [key])" for f
        using path(2) step by (intro printChild_path[OF srt known step(3)] known[OF step(2)]) auto
      then have "k \<in> snd ` set (concat (map (\<lambda>(i, c). printChild srt edges infos c [i + 1 = length ?cs] [key]) (enumerate 0 ?cs)))"
        by (intro in_children[OF y])
      then show ?thesis by (auto simp: printRoot_def Let_def)
    qed
  }
qed

section \<open>Every package is shown\<close>

lemma keys_indexRows: "fst ` set (indexRows rows) = rowKey ` set rows"
proof -
  have "fst ` set (fold (\<lambda>r. putEntry (rowKey r) (f r)) rows m) = fst ` set m \<union> rowKey ` set rows"
    for f :: "checkRow \<Rightarrow> nodeInfo" and m
    by (induction rows arbitrary: m) auto
  from this[where m = "[]"] show ?thesis by (simp add: indexRows_def)
qed

lemma resolved_keys: "map_of (buildResolvedKeyMap rows) i = Some k \<Longrightarrow> k \<in> rowKey ` set rows"
proof -
  have "map_of (fold (\<lambda>r. putEntry (pkPackageID (rowPkg r)) (rowKey r)) rows m) i = Some k \<Longrightarrow>
      map_of m i = Some k \<or> k \<in> rowKey ` set rows" for m
    by (induction rows arbitrary: m) (fastforce split: if_splits)+
  from this[of "[]"] show "map_of (buildResolvedKeyMap rows) i = Some k \<Longrightarrow> k \<in> rowKey ` set rows"
    by (simp add: buildResolvedKeyMap_def)
qed

lemma canonKey_known:
  "canonKey (indexRows rows) (buildResolvedKeyMap rows) key = Some c \<Longrightarrow> c \<in> fst ` set (indexRows rows)"
  by (auto simp: canonKey_def keys_indexRows dest: resolved_keys map_of_SomeD split: if_splits)
     (metis fst_conv image_eqI keys_indexRows map_of_SomeD)

lemma keepDeps_known:
  "set keep \<subseteq> A \<Longrightarrow> (\<And>d c. canon d = Some c \<Longrightarrow> c \<in> A) \<Longrightarrow> set (keepDeps canon fromKey keep ds) \<subseteq> A"
  by (induction canon fromKey keep ds rule: keepDeps.induct) (auto split: option.split)

lemma canonicaliseEdges_known:
  assumes "edgeRel (canonicaliseEdges edges (indexRows rows) (buildResolvedKeyMap rows)) a b"
  shows "b \<in> fst ` set (indexRows rows)"
proof -
  let ?canon = "canonKey (indexRows rows) (buildResolvedKeyMap rows)"
  let ?f = "\<lambda>(from_k, deps) out. (let fromKey = (case ?canon from_k of None \<Rightarrow> from_k | Some c \<Rightarrow> c);
      keep = keepDeps ?canon fromKey [] deps in if keep \<noteq> [] then putEntry fromKey keep out else out)"
  have "\<forall>ks\<in>ran (map_of m). set ks \<subseteq> fst ` set (indexRows rows) \<Longrightarrow>
      \<forall>ks\<in>ran (map_of (fold ?f edges m)). set ks \<subseteq> fst ` set (indexRows rows)" for m
  proof (induction edges arbitrary: m)
    case (Cons e es)
    obtain from_k deps where e: "e = (from_k, deps)" by fastforce
    have "set (keepDeps ?canon x [] deps) \<subseteq> fst ` set (indexRows rows)" for x
      by (rule keepDeps_known) (auto dest: canonKey_known)
    then have "\<forall>ks\<in>ran (map_of (?f e m)). set ks \<subseteq> fst ` set (indexRows rows)"
      using Cons.prems by (auto simp: e Let_def ran_def split: if_splits)
    from Cons.IH[OF this] show ?case by simp
  qed simp
  from this[of "[]"] have "\<forall>ks\<in>ran (map_of (canonicaliseEdges edges (indexRows rows) (buildResolvedKeyMap rows))).
      set ks \<subseteq> fst ` set (indexRows rows)"
    by (simp add: canonicaliseEdges_def)
  moreover obtain ks where "map_of (canonicaliseEdges edges (indexRows rows) (buildResolvedKeyMap rows)) a = Some ks" "b \<in> set ks"
    using assms
    by (cases "map_of (canonicaliseEdges edges (indexRows rows) (buildResolvedKeyMap rows)) a") (auto simp: edgeRel_def edgesOf_def)
  ultimately show ?thesis by (blast intro: ranI)
qed

lemma renderTree_shows:
  assumes srt: "sortKeeps srt" and r: "renderTree srt rows edges = (trees, leftovers)"
  shows "(\<Union>t\<in>set trees. snd ` set t) \<union> set leftovers = rowKey ` set rows"
    and "(\<Union>t\<in>set trees. snd ` set t) \<inter> set leftovers = {}"
    and "k \<in> (\<Union>t\<in>set trees. snd ` set t) \<longleftrightarrow> (\<exists>d\<in>set (directRoots rows).
      (edgeRel (canonicaliseEdges edges (indexRows rows) (buildResolvedKeyMap rows)))\<^sup>*\<^sup>* d k)"
proof -
  let ?infos = "indexRows rows" and ?e = "canonicaliseEdges edges (indexRows rows) (buildResolvedKeyMap rows)"
  let ?directs = "directRoots rows"
  have directs: "set ?directs \<subseteq> rowKey ` set rows" by (auto simp: directRoots_def)
  have trees: "(\<Union>t\<in>set trees. snd ` set t) = set (walk ?e ?directs [])"
  proof -
    have "snd ` set (printRoot srt ?e ?infos d) = {k. (edgeRel ?e)\<^sup>*\<^sup>* d k}" if "d \<in> set ?directs" for d
      using that directs by (intro printRoot_keys[OF srt]) (auto simp: keys_indexRows dest: canonicaliseEdges_known[unfolded keys_indexRows])
    then have "(\<Union>d\<in>set ?directs. snd ` set (printRoot srt ?e ?infos d)) = (\<Union>d\<in>set ?directs. {k. (edgeRel ?e)\<^sup>*\<^sup>* d k})"
      by (rule SUP_cong[OF refl])
    moreover have "trees = map (printRoot srt ?e ?infos) ?directs" using r by (simp add: renderTree_def Let_def)
    ultimately show ?thesis by (auto simp: walk_reachable)
  qed
  have "set (walk ?e ?directs []) \<subseteq> rowKey ` set rows"
  proof
    fix k assume "k \<in> set (walk ?e ?directs [])"
    then show "k \<in> rowKey ` set rows"
      by (rule walk_sound[rotated 2]) (use directs in \<open>auto dest: canonicaliseEdges_known[unfolded keys_indexRows]\<close>)
  qed
  moreover have "set leftovers = rowKey ` set rows - set (walk ?e ?directs [])"
    using r sortKeeps_set[OF srt] by (auto simp: renderTree_def Let_def unvisitedFromDirects_def)
  ultimately show "(\<Union>t\<in>set trees. snd ` set t) \<union> set leftovers = rowKey ` set rows"
      "(\<Union>t\<in>set trees. snd ` set t) \<inter> set leftovers = {}"
    unfolding trees by blast+
  show "k \<in> (\<Union>t\<in>set trees. snd ` set t) \<longleftrightarrow> (\<exists>d\<in>set ?directs. (edgeRel ?e)\<^sup>*\<^sup>* d k)"
    unfolding trees by (rule walk_reachable)
qed

text \<open>C32: The output shows every package exactly where it belongs: the keys in the trees are those
  of the packages reachable from a direct dependency over the edges moved to
  resolved versions, the keys listed after them are all others, and together they
  are the packages of the lockfile; whatever the graph is, cycles included, the
  tree is finite.\<close>

theorem renderTree_shows_all:
  assumes srt: "sortKeeps srt" and r: "renderTree srt rows edges = (trees, leftovers)"
  shows "(\<Union>t\<in>set trees. snd ` set t) \<union> set leftovers = rowKey ` set rows
     \<and> (\<Union>t\<in>set trees. snd ` set t) \<inter> set leftovers = {}
     \<and> (\<forall>k. k \<in> (\<Union>t\<in>set trees. snd ` set t) \<longleftrightarrow> (\<exists>d\<in>set (directRoots rows).
           (edgeRel (canonicaliseEdges edges (indexRows rows) (buildResolvedKeyMap rows)))\<^sup>*\<^sup>* d k))"
  using renderTree_shows[OF assms] by blast

section \<open>Depth\<close>

lemma printChild_depth:
  "(f, k) \<in> set (printChild srt edges infos key flags ancestors) \<Longrightarrow>
   length f \<le> length flags + card (fst ` set infos - set ancestors)"
proof (induction srt edges infos key flags ancestors rule: printChild.induct)
  case (1 srt edges infos key flags ancestors)
  let ?cs = "sortedChildren srt infos (edgesOf edges key)"
  from "1.prems" consider "f = flags"
    | i c where "key \<in> fst ` set infos" "key \<notin> set ancestors" "(i, c) \<in> set (enumerate 0 ?cs)"
        "(f, k) \<in> set (printChild srt edges infos c (flags @ [i + 1 = length ?cs]) (key # ancestors))"
    by (subst (asm) printChild.simps) (auto simp: Let_def split: if_splits)
  then show ?case
  proof cases
    case 2
    have "length f \<le> length (flags @ [i + 1 = length ?cs]) + card (fst ` set infos - set (key # ancestors))"
      by (rule "1.IH"[of ?cs "(i, c)" i c]) (use 2 in auto)
    moreover have "card (fst ` set infos - set (key # ancestors)) < card (fst ` set infos - set ancestors)"
      using 2(1,2) by (intro psubset_card_mono) auto
    ultimately show ?thesis by simp
  qed simp
qed

text \<open>C39: Drawing the tree ends and stays shallow on every graph, cycles included: no line of the
  output is deeper than the number of packages.\<close>

theorem renderTree_depth:
  assumes "renderTree srt rows edges = (trees, leftovers)" and "t \<in> set trees" and "(flags, key) \<in> set t"
  shows "length flags \<le> card (rowKey ` set rows)"
proof -
  let ?infos = "indexRows rows" and ?e = "canonicaliseEdges edges (indexRows rows) (buildResolvedKeyMap rows)"
  obtain root where root: "root \<in> set (directRoots rows)" "t = printRoot srt ?e ?infos root"
    using assms(1,2) by (auto simp: renderTree_def Let_def)
  have k: "root \<in> fst ` set ?infos" using root(1) by (auto simp: directRoots_def keys_indexRows)
  let ?cs = "sortedChildren srt ?infos (edgesOf ?e root)"
  from assms(3) consider "flags = []" | i c where "(flags, key) \<in> set (printChild srt ?e ?infos c [i + 1 = length ?cs] [root])"
    unfolding root(2) printRoot_def Let_def by auto
  then show ?thesis
  proof cases
    case 2
    from printChild_depth[OF this] have "length flags \<le> Suc (card (fst ` set ?infos - {root}))" by simp
    also have "\<dots> = card (fst ` set ?infos)" using k by (intro card_Suc_Diff1) auto
    finally show ?thesis by (simp add: keys_indexRows)
  qed simp
qed

end
