(* ===== verification/Cli_Check.thy ===== *)
theory Cli_Check
  imports Check_Tree Cli_Sign
begin

text \<open>
  The check command, \<open>check.go\<close>: arguments, choice of lockfile and adapter, the verdict
  on every package and the exit code.  The file system is an argument: \<open>fsStat\<close> says
  whether a path is a directory, \<open>None\<close> when it cannot be read, \<open>fsReadDir\<close> lists
  names with the same flag, \<open>fsAbs\<close> makes a path absolute, \<open>fsDir\<close> holds the files below
  a directory, and \<open>fsConfig\<close> is the decoded \<open>.tillit\<close> file of a directory.
\<close>

section \<open>Environment\<close>

text \<open>\<open>adGraph\<close> is there for adapters that are a \<open>GraphResolver\<close>.\<close>

record lockAdapter = adapter +
  adParse :: "files \<Rightarrow> string \<Rightarrow> parseError + parseResult"
  adGraph :: "(string \<Rightarrow> edgeMap option \<times> lockWarning list) option"

text \<open>What \<open>loadTillitConfig\<close> finds in a directory.\<close>

datatype configFile = NoConfig | BadConfig | Config string

record checkFs =
  fsStat :: "string \<Rightarrow> bool option"
  fsReadDir :: "string \<Rightarrow> (string \<times> bool) list option"
  fsConfig :: "string \<Rightarrow> configFile"
  fsAbs :: "string \<Rightarrow> string"
  fsDir :: "string \<Rightarrow> files"

datatype checkError =
    CheckFlagValue string | CheckUnknownFlag string | ConfigUnreadable | EcosystemRequired | UnknownEcosystem string
  | TargetUnreadable string | NoLockfile string | ManyLockfiles string "string list" | NoAdapter string
  | ParseFailed parseError | CheckClientErr cliError

section \<open>Arguments\<close>

fun checkArgsLoop :: "string list \<Rightarrow> string \<Rightarrow> string \<Rightarrow> checkError + string \<times> string" where
  "checkArgsLoop [] ecosystem target = Inr (ecosystem, target)"
| "checkArgsLoop (a # args) ecosystem target =
     (if a = ''-e'' \<or> a = ''--ecosystem'' then
        (case args of [] \<Rightarrow> Inl (CheckFlagValue a) | v # rest \<Rightarrow> checkArgsLoop rest v target)
      else if hasPrefix a ''--ecosystem='' then checkArgsLoop args (trimPrefix a ''--ecosystem='') target
      else if hasPrefix a ''-e='' then checkArgsLoop args (trimPrefix a ''-e='') target
      else if hasPrefix a ''-'' then Inl (CheckUnknownFlag a)
      else checkArgsLoop args ecosystem a)"

definition parseCheckArgs :: "string list \<Rightarrow> checkError + string \<times> string" where
  "parseCheckArgs args = checkArgsLoop args [] ''.''"

section \<open>Lockfile and adapter\<close>

definition adaptersForEcosystem :: "lockAdapter list \<Rightarrow> string \<Rightarrow> lockAdapter list" where
  "adaptersForEcosystem adapters ecosystem = filter (\<lambda>a. adEcosystem a = ecosystem) adapters"

definition findLockfile :: "checkFs \<Rightarrow> string \<Rightarrow> lockAdapter list \<Rightarrow> checkError + string" where
  "findLockfile fs dir candidates =
     (case fsReadDir fs dir of
        None \<Rightarrow> Inl (TargetUnreadable dir)
      | Some entries \<Rightarrow>
          (let hits = map (\<lambda>(name, _). pathJoin dir name)
                 (filter (\<lambda>(name, isDir). \<not> isDir \<and> list_ex (\<lambda>a. adCanParse a name) candidates) entries)
           in case hits of
             [] \<Rightarrow> Inl (NoLockfile dir)
           | [m] \<Rightarrow> Inr m
           | _ \<Rightarrow> Inl (ManyLockfiles dir hits)))"

definition resolveCheckTarget :: "checkFs \<Rightarrow> string \<Rightarrow> lockAdapter list \<Rightarrow> checkError + string" where
  "resolveCheckTarget fs target candidates =
     (case fsStat fs target of
        None \<Rightarrow> Inl (TargetUnreadable target)
      | Some isDir \<Rightarrow> if \<not> isDir then Inr target else findLockfile fs target candidates)"

definition pickAdapterFrom :: "string \<Rightarrow> lockAdapter list \<Rightarrow> checkError + lockAdapter" where
  "pickAdapterFrom lockfile candidates =
     (case find (\<lambda>a. adCanParse a (pathBase lockfile)) candidates of
        None \<Rightarrow> Inl (NoAdapter (pathBase lockfile)) | Some a \<Rightarrow> Inr a)"

definition parseLockfile :: "checkFs \<Rightarrow> lockAdapter \<Rightarrow> string \<Rightarrow> checkError + packageRef list \<times> edgeMap option \<times> lockWarning list" where
  "parseLockfile fs a lockfile =
     (case pathSplit (fsAbs fs lockfile) of (dir, name) \<Rightarrow>
        (case adParse a (fsDir fs dir) name of
           Inl e \<Rightarrow> Inl (ParseFailed e)
         | Inr res \<Rightarrow> (case (psEdges res, adGraph a) of
             (None, Some g) \<Rightarrow> (case g (trimSuffix dir ''/'') of (e, gw) \<Rightarrow> Inr (psPackages res, e, psWarnings res @ gw))
           | _ \<Rightarrow> Inr (psPackages res, psEdges res, psWarnings res))))"

section \<open>Verdicts\<close>

text \<open>\<open>iter\<close> is the order of the trust set in the call for a package.\<close>

type_synonym mapOrders = "packageRef \<Rightarrow> (string \<times> trustEntry) list \<Rightarrow> (string \<times> trustEntry) list"

definition checkRows :: "mapOrders \<Rightarrow> codec \<Rightarrow> store \<Rightarrow> string \<Rightarrow> packageRef list \<Rightarrow> checkRow list" where
  "checkRows iter c s userID pkgs = map (\<lambda>p.
     (let v = Version (iter p) c s userID userID (pkEcosystem p) (pkPackageID p) (pkVersion p)
      in \<lparr>rowPkg = p, rowStatus = vdStatus v, rowVerdict = v\<rparr>)) pkgs"

definition rowLess :: "checkRow \<Rightarrow> checkRow \<Rightarrow> bool" where
  "rowLess a b = (if pkPackageID (rowPkg a) \<noteq> pkPackageID (rowPkg b) then pkPackageID (rowPkg a) < pkPackageID (rowPkg b)
     else CompareVersions (pkVersion (rowPkg a)) (pkVersion (rowPkg b)) < 0)"

text \<open>\<open>sort.Slice\<close> on rows and on strings.\<close>

type_synonym rowSort = "(checkRow \<Rightarrow> checkRow \<Rightarrow> bool) \<Rightarrow> checkRow list \<Rightarrow> checkRow list"

definition printStatusGroup :: "rowSort \<Rightarrow> checkRow list \<Rightarrow> status \<Rightarrow> checkRow list" where
  "printStatusGroup srtR rows st = srtR rowLess (filter (\<lambda>r. rowStatus r = st) rows)"

datatype shown =
    NoPackages
  | FlatOutput "(status \<times> checkRow list) list"
  | TreeOutput "(bool list \<times> string) list list" "string list"

record checkReport =
  crLockfile :: string
  crWarnings :: "lockWarning list"
  crShown :: shown
  crSummary :: string
  crExit :: nat

definition checkPackages ::
  "stringSort \<Rightarrow> rowSort \<Rightarrow> mapOrders \<Rightarrow> codec \<Rightarrow> store \<Rightarrow> string \<Rightarrow> string \<Rightarrow> packageRef list \<Rightarrow> edgeMap option \<Rightarrow> lockWarning list
     \<Rightarrow> checkReport" where
  "checkPackages srt srtR iter c s userID lockfile pkgs edges warnings =
     (let rows = checkRows iter c s userID pkgs in
      \<lparr>crLockfile = lockfile, crWarnings = warnings,
       crShown = (case edges of
           Some e \<Rightarrow> (case renderTree srt rows e of (trees, leftovers) \<Rightarrow> TreeOutput trees leftovers)
         | None \<Rightarrow> FlatOutput (map (\<lambda>st. (st, printStatusGroup srtR rows st))
             [StatusRejected, StatusUnknown, StatusAllowed, StatusVetted])),
       crSummary = formatSummary rows,
       crExit = (if length (filter (\<lambda>r. rowStatus r = StatusRejected) rows) > 0 then 1 else 0)\<rparr>)"

definition checkTarget ::
  "lockAdapter list \<Rightarrow> checkFs \<Rightarrow> schemes \<Rightarrow> stringSort \<Rightarrow> rowSort \<Rightarrow> mapOrders \<Rightarrow> codec \<Rightarrow> store
     \<Rightarrow> string \<Rightarrow> string \<Rightarrow> checkError + checkReport" where
  "checkTarget adapters fs sch srt srtR iter c s ecosystem target =
     (let candidates = adaptersForEcosystem adapters ecosystem in
      if ecosystem = [] then Inl EcosystemRequired
      else if candidates = [] then Inl (UnknownEcosystem ecosystem)
      else bindE (resolveCheckTarget fs target candidates) (\<lambda>lockfile.
        bindE (pickAdapterFrom lockfile candidates) (\<lambda>a.
        bindE (parseLockfile fs a lockfile) (\<lambda>(pkgs, edges, warnings).
          if pkgs = [] then Inr \<lparr>crLockfile = lockfile, crWarnings = warnings, crShown = NoPackages,
            crSummary = [], crExit = 0\<rparr>
          else (case activeUserID sch s of
            Inl e \<Rightarrow> Inl (CheckClientErr e)
          | Inr userID \<Rightarrow> Inr (checkPackages srt srtR iter c s userID lockfile pkgs edges warnings))))))"

definition Check ::
  "lockAdapter list \<Rightarrow> checkFs \<Rightarrow> schemes \<Rightarrow> stringSort \<Rightarrow> rowSort \<Rightarrow> mapOrders \<Rightarrow> codec \<Rightarrow> store
     \<Rightarrow> string list \<Rightarrow> checkError + checkReport" where
  "Check adapters fs sch srt srtR iter c s args =
     bindE (parseCheckArgs args) (\<lambda>(ecosystem, target).
       (let configDir = (if fsStat fs target = Some False then pathDir target else target);
            run = checkTarget adapters fs sch srt srtR iter c s in
        case fsConfig fs configDir of
          BadConfig \<Rightarrow> Inl ConfigUnreadable
        | NoConfig \<Rightarrow> run ecosystem target
        | Config e \<Rightarrow> run (if ecosystem = [] then e else ecosystem) target))"

section \<open>Discovery\<close>

text \<open>A lockfile that is found in a directory has an adapter among the candidates.\<close>

lemma found_lockfile_has_adapter:
  assumes f: "findLockfile fs dir candidates = Inr lockfile"
    and names: "\<forall>entries. fsReadDir fs dir = Some entries \<longrightarrow> (\<forall>(n, d)\<in>set entries. n \<noteq> [] \<and> CHR ''/'' \<notin> set n \<and> n \<noteq> ''.'' \<and> n \<noteq> ''..'')"
  shows "\<exists>a\<in>set candidates. pickAdapterFrom lockfile candidates = Inr a"
proof -
  obtain entries where e: "fsReadDir fs dir = Some entries"
    using f by (cases "fsReadDir fs dir") (simp_all add: findLockfile_def)
  let ?hits = "map (\<lambda>(name, _). pathJoin dir name)
    (filter (\<lambda>(name, isDir). \<not> isDir \<and> list_ex (\<lambda>a. adCanParse a name) candidates) entries)"
  have "?hits = [lockfile]" using f e by (auto simp: findLockfile_def Let_def split: list.splits)
  then have "lockfile \<in> set ?hits" by (simp only: list.set) simp
  then obtain n where n: "(n, False) \<in> set entries" "list_ex (\<lambda>a. adCanParse a n) candidates" "lockfile = pathJoin dir n"
    by auto
  have "pathBase lockfile = n" using names e n(1) unfolding n(3) by (intro pathBase_pathJoin) auto
  then obtain a where a: "find (\<lambda>a. adCanParse a (pathBase lockfile)) candidates = Some a"
    using n(2) by (cases "find (\<lambda>a. adCanParse a (pathBase lockfile)) candidates") (auto simp: find_None_iff list_ex_iff)
  then have "a \<in> set candidates" by (auto simp: find_Some_iff)
  with a show ?thesis by (auto simp: pickAdapterFrom_def)
qed

section \<open>What a check says\<close>

definition rowSortKeeps :: "rowSort \<Rightarrow> bool" where
  "rowSortKeeps srtR \<longleftrightarrow> (\<forall>lt rows. mset (srtR lt rows) = mset rows)"

lemma checkRows_keys: "rowKey ` set (checkRows iter c s userID pkgs) = pkgKey ` set pkgs"
  by (force simp: checkRows_def rowKey_def Let_def image_iff)

text \<open>The keys of the packages that a report shows.\<close>

fun shownKeys :: "shown \<Rightarrow> string set" where
  "shownKeys NoPackages = {}"
| "shownKeys (FlatOutput groups) = (\<Union>(st, rows)\<in>set groups. rowKey ` set rows)"
| "shownKeys (TreeOutput trees leftovers) = (\<Union>t\<in>set trees. snd ` set t) \<union> set leftovers"

lemma flat_keys:
  assumes "rowSortKeeps srtR"
  shows "shownKeys (FlatOutput (map (\<lambda>st. (st, printStatusGroup srtR rows st))
     [StatusRejected, StatusUnknown, StatusAllowed, StatusVetted])) = rowKey ` set rows"
proof -
  have "set (srtR lt rs) = set rs" for lt rs
    using assms unfolding rowSortKeeps_def by (metis set_mset_mset)
  then have "shownKeys (FlatOutput (map (\<lambda>st. (st, printStatusGroup srtR rows st))
     [StatusRejected, StatusUnknown, StatusAllowed, StatusVetted])) = rowKey ` ({r \<in> set rows. rowStatus r = StatusRejected}
     \<union> {r \<in> set rows. rowStatus r = StatusUnknown} \<union> {r \<in> set rows. rowStatus r = StatusAllowed} \<union> {r \<in> set rows. rowStatus r = StatusVetted})"
    by (simp add: printStatusGroup_def image_Un Un_assoc)
  moreover have "{r \<in> set rows. rowStatus r = StatusRejected} \<union> {r \<in> set rows. rowStatus r = StatusUnknown}
      \<union> {r \<in> set rows. rowStatus r = StatusAllowed} \<union> {r \<in> set rows. rowStatus r = StatusVetted} = set rows"
    using status.exhaust by blast
  ultimately show ?thesis by (simp only:)
qed

lemma Check_run:
  assumes "Check adapters fs sch srt srtR iter c s args = Inr report"
  shows "\<exists>ecosystem target. checkTarget adapters fs sch srt srtR iter c s ecosystem target = Inr report"
proof -
  obtain e t where et: "parseCheckArgs args = Inr (e, t)"
    using assms by (cases "parseCheckArgs args") (auto simp: Check_def)
  show ?thesis
    using assms by (cases "fsConfig fs (if fsStat fs t = Some False then pathDir t else t)")
      (auto simp: Check_def et)
qed

text \<open>C6: A check is complete and its exit code is right: when it succeeds, the adapter it used is
  one of the ecosystem that accepts the name of the file, the report shows exactly the
  packages that the adapter found, and the exit code is 1 if and only if the
  verdict of the resolver on one of them is a rejection.\<close>

theorem Check_reports:
  assumes srt: "sortKeeps srt" and srtR: "rowSortKeeps srtR"
    and run: "Check adapters fs sch srt srtR iter c s args = Inr report"
  shows "\<exists>ecosystem a pkgs edges warnings. a \<in> set adapters \<and> adEcosystem a = ecosystem \<and> ecosystem \<noteq> []
     \<and> adCanParse a (pathBase (crLockfile report)) \<and> parseLockfile fs a (crLockfile report) = Inr (pkgs, edges, warnings)
     \<and> shownKeys (crShown report) = pkgKey ` set pkgs
     \<and> (crExit report = 1 \<longleftrightarrow> (\<exists>userID. activeUserID sch s = Inr userID \<and> (\<exists>p\<in>set pkgs.
          vdStatus (Version (iter p) c s userID userID (pkEcosystem p) (pkPackageID p) (pkVersion p)) = StatusRejected)))"
proof -
  obtain ecosystem target where "checkTarget adapters fs sch srt srtR iter c s ecosystem target = Inr report"
    using run Check_run by metis
  then obtain lockfile a pkgs edges warnings where
      e: "ecosystem \<noteq> []" and pick: "pickAdapterFrom lockfile (adaptersForEcosystem adapters ecosystem) = Inr a"
      and parse: "parseLockfile fs a lockfile = Inr (pkgs, edges, warnings)"
      and res: "(if pkgs = [] then Inr \<lparr>crLockfile = lockfile, crWarnings = warnings, crShown = NoPackages,
                  crSummary = [], crExit = 0\<rparr>
                else (case activeUserID sch s of
                  Inl e \<Rightarrow> Inl (CheckClientErr e)
                | Inr userID \<Rightarrow> Inr (checkPackages srt srtR iter c s userID lockfile pkgs edges warnings))) = Inr report"
    unfolding checkTarget_def Let_def bindE_eq_Inr
    by (cases "ecosystem = []"; cases "adaptersForEcosystem adapters ecosystem = []") (auto simp: bindE_eq_Inr)
  have a: "a \<in> set adapters" "adEcosystem a = ecosystem" "adCanParse a (pathBase lockfile)"
    using pick by (auto simp: pickAdapterFrom_def adaptersForEcosystem_def find_Some_iff split: option.splits dest: nth_mem)
  show ?thesis
  proof (cases "pkgs = []")
    case True
    with res have "report = \<lparr>crLockfile = lockfile, crWarnings = warnings, crShown = NoPackages, crSummary = [], crExit = 0\<rparr>" by simp
    with a e parse True show ?thesis by auto
  next
    case False
    then obtain userID where u: "activeUserID sch s = Inr userID"
        "report = checkPackages srt srtR iter c s userID lockfile pkgs edges warnings"
      using res by (auto split: sum.splits)
    let ?rows = "checkRows iter c s userID pkgs"
    have "shownKeys (crShown report) = rowKey ` set ?rows"
    proof (cases edges)
      case None
      then have "crShown report = FlatOutput (map (\<lambda>st. (st, printStatusGroup srtR ?rows st))
          [StatusRejected, StatusUnknown, StatusAllowed, StatusVetted])"
        by (simp only: u(2) checkPackages_def Let_def option.case checkReport.simps)
      then show ?thesis by (simp only: flat_keys[OF srtR])
    next
      case (Some ed)
      obtain trees leftovers where "renderTree srt ?rows ed = (trees, leftovers)" by fastforce
      with Some renderTree_shows[OF srt this] show ?thesis by (simp add: u(2) checkPackages_def Let_def)
    qed
    moreover have "crExit report = 1 \<longleftrightarrow> (\<exists>p\<in>set pkgs.
        vdStatus (Version (iter p) c s userID userID (pkEcosystem p) (pkPackageID p) (pkVersion p)) = StatusRejected)"
      by (auto simp: u(2) checkPackages_def checkRows_def Let_def filter_empty_conv)
    moreover have "crLockfile report = lockfile" by (simp add: u(2) checkPackages_def Let_def)
    ultimately show ?thesis using a e parse u(1) checkRows_keys[of iter c s userID pkgs] by auto
  qed
qed

end
