(* ===== verification/Check_Examples.thy ===== *)
theory Check_Examples
  imports Cli_Check Cli_Examples
begin

text \<open>
  A module with a dependency cycle and one package that nothing depends on is
  checked against the store of the examples.
\<close>

definition demoPackage :: "bool \<Rightarrow> string \<Rightarrow> packageRef" where
  "demoPackage direct i = \<lparr>pkEcosystem = ''npm'', pkPackageID = i, pkVersion = ''1'', pkDirect = direct, pkHash = [], pkSource = []\<rparr>"

definition demoEdges :: edgeMap where
  "demoEdges = [(''p@1'', [''q@1'']), (''q@1'', [''p@1''])]"

definition demoRow :: "bool \<Rightarrow> string \<Rightarrow> checkRow" where
  "demoRow direct i = \<lparr>rowPkg = demoPackage direct i, rowStatus = StatusUnknown,
     rowVerdict = \<lparr>vdStatus = StatusUnknown, vdDecisions = []\<rparr>\<rparr>"

lemma renderTree_shows_all_witness:
  "\<exists>trees leftovers. renderTree (\<lambda>lt ks. ks) [demoRow True ''p'', demoRow False ''q'', demoRow False ''r''] demoEdges = (trees, leftovers)
     \<and> ''r@1'' \<in> set leftovers \<union> (\<Union>t\<in>set trees. snd ` set t)"
proof -
  let ?rows = "[demoRow True ''p'', demoRow False ''q'', demoRow False ''r'']"
  obtain trees leftovers where r: "renderTree (\<lambda>lt ks. ks) ?rows demoEdges = (trees, leftovers)" by fastforce
  have "sortKeeps (\<lambda>lt ks. ks)" by (simp add: sortKeeps_def)
  from renderTree_shows_all[OF this r] have "(\<Union>t\<in>set trees. snd ` set t) \<union> set leftovers = rowKey ` set ?rows" ..
  moreover have "''r@1'' \<in> rowKey ` set ?rows" by (simp add: rowKey_def pkgKey_def demoRow_def demoPackage_def)
  ultimately have "''r@1'' \<in> set leftovers \<union> (\<Union>t\<in>set trees. snd ` set t)" by (simp only: Un_commute)
  with r show ?thesis by (intro exI conjI)
qed

lemma renderTree_depth_witness:
  "\<exists>trees leftovers t flags. renderTree (\<lambda>lt ks. ks) [demoRow True ''p'', demoRow False ''q''] demoEdges = (trees, leftovers)
     \<and> t \<in> set trees \<and> (flags, ''p@1'') \<in> set t \<and> length flags \<le> 2"
proof -
  let ?rows = "[demoRow True ''p'', demoRow False ''q'']"
  obtain trees leftovers where r: "renderTree (\<lambda>lt ks. ks) ?rows demoEdges = (trees, leftovers)" by fastforce
  have "directRoots ?rows = [''p@1'']" by code_simp
  then obtain t where t: "t \<in> set trees" "([], ''p@1'') \<in> set t"
    using r by (auto simp: renderTree_def Let_def printRoot_def)
  have "card (rowKey ` set ?rows) \<le> 2" by (simp add: card_insert_if)
  with renderTree_depth[OF r t] have "length ([] :: bool list) \<le> 2" by (rule le_trans)
  with r t show ?thesis by blast
qed

definition npmAdapter :: lockAdapter where
  "npmAdapter = \<lparr>adName = ''package-lock'', adEcosystem = ''npm'', adCanParse = (\<lambda>f. f = ''l''), adCompare = (\<lambda>a b. 0),
     adValidate = (\<lambda>v. None), adResolve = (\<lambda>p v. None),
     adParse = (\<lambda>fs f. Inr \<lparr>psPackages = [demoPackage True ''p'', demoPackage False ''q''], psEdges = Some demoEdges, psWarnings = []\<rparr>),
     adGraph = None\<rparr>"

definition demoFs :: checkFs where
  "demoFs = \<lparr>fsStat = (\<lambda>p. if p = ''l'' then Some False else None), fsReadDir = (\<lambda>p. None), fsConfig = (\<lambda>p. NoConfig),
     fsAbs = (\<lambda>p. ''/'' @ p), fsDir = (\<lambda>d. Map.empty)\<rparr>"

lemma Check_reports_witness:
  "\<exists>report. Check [npmAdapter] demoFs toySchemes (\<lambda>lt ks. ks) (\<lambda>lt rs. rs) (\<lambda>p l. l) (ceCodec demoCli) demoStore
       [''-e'', ''npm'', ''l''] = Inr report
     \<and> shownKeys (crShown report) = {''p@1'', ''q@1''}"
proof -
  let ?ck = "Check [npmAdapter] demoFs toySchemes (\<lambda>lt ks. ks) (\<lambda>lt rs. rs) (\<lambda>p l. l) (ceCodec demoCli) demoStore
       [''-e'', ''npm'', ''l'']"
  have args: "parseCheckArgs [''-e'', ''npm'', ''l''] = Inr (''npm'', ''l'')"
    by (simp add: parseCheckArgs_def hasPrefix_def)
  have user: "activeUserID toySchemes demoStore = Inr demoUserID"
  proof -
    have "GetActiveKey demoStore = Inr ''default''" "GetKey ''default'' demoStore = Inr demoKey"
      by (simp_all add: demoStore_def GetActiveKey_def GetKey_def orNotFound_def demoKey_def rowByKey_def)
    then show ?thesis by (simp add: activeUserID_def demoKey_def b64Decode_Encode demoUserID_def)
  qed
  have cands: "adaptersForEcosystem [npmAdapter] ''npm'' = [npmAdapter]"
    by (simp add: adaptersForEcosystem_def npmAdapter_def)
  have target: "resolveCheckTarget demoFs ''l'' [npmAdapter] = Inr ''l''"
    by (simp add: resolveCheckTarget_def demoFs_def)
  have pick: "pickAdapterFrom ''l'' [npmAdapter] = Inr npmAdapter"
    by (simp add: pickAdapterFrom_def npmAdapter_def pathBase_file)
  have parse: "parseLockfile demoFs npmAdapter ''l'' = Inr ([demoPackage True ''p'', demoPackage False ''q''], Some demoEdges, [])"
    by (simp add: parseLockfile_def npmAdapter_def pathSplit_def)
  have cfg: "fsStat demoFs ''l'' = Some False" "fsConfig demoFs x = NoConfig" for x by (simp_all add: demoFs_def)
  obtain report where r: "?ck = Inr report" and l: "crLockfile report = ''l''"
    by (simp add: Check_def args cfg checkTarget_def cands target pick parse user Let_def checkPackages_def)
  have "sortKeeps (\<lambda>lt ks. ks)" "rowSortKeeps (\<lambda>lt rs. rs)" by (simp_all add: sortKeeps_def rowSortKeeps_def)
  from Check_reports[OF this r] obtain a pkgs edges warnings where
      a: "a \<in> set [npmAdapter]" "parseLockfile demoFs a (crLockfile report) = Inr (pkgs, edges, warnings)"
      and k: "shownKeys (crShown report) = pkgKey ` set pkgs" by blast
  have "pkgs = [demoPackage True ''p'', demoPackage False ''q'']" using a by (simp add: l parse)
  then have "shownKeys (crShown report) = {''p@1'', ''q@1''}" using k by (simp add: pkgKey_def demoPackage_def)
  with r show ?thesis by blast
qed

section \<open>Edges that are lost\<close>

text \<open>Two requested versions that resolve to one package: the entry that Go reads last wins.\<close>

definition forkEdges :: edgeMap where
  "forkEdges = [(''p@0'', [''q@1'']), (''p@1'', [''r@1''])]"

lemma canonicaliseEdges_map_order:
  "canonicaliseEdges forkEdges (indexRows [demoRow True ''p'', demoRow False ''q'', demoRow False ''r''])
       (buildResolvedKeyMap [demoRow True ''p'', demoRow False ''q'', demoRow False ''r'']) = [(''p@1'', [''r@1''])]"
  "canonicaliseEdges (rev forkEdges) (indexRows [demoRow True ''p'', demoRow False ''q'', demoRow False ''r''])
       (buildResolvedKeyMap [demoRow True ''p'', demoRow False ''q'', demoRow False ''r'']) = [(''p@1'', [''q@1''])]"
  by code_simp+

text \<open>A scoped name starts with the separator, so that its id is read as the empty string.\<close>

lemma canonKey_scoped:
  "map_of infos (CHR ''@'' # rest) = None \<Longrightarrow> canonKey infos resolved (CHR ''@'' # rest) = map_of resolved []"
  by (simp add: canonKey_def)

end
