(* ===== verification/Lock_Gosum.thy ===== *)
theory Lock_Gosum
  imports Lockfile
begin

text \<open>
  The parser of \<open>go.sum\<close>, with the direct dependencies from \<open>go.mod\<close>, and of the output of
  \<open>go mod graph\<close>: \<open>gosum.go\<close>.  Running the command is a parameter.
\<close>

section \<open>go.sum\<close>

text \<open>The map \<open>entries\<close> with its order is the list of packages.\<close>

definition setSum :: "string \<Rightarrow> string \<Rightarrow> bool \<Rightarrow> string \<Rightarrow> packageRef list \<Rightarrow> packageRef list" where
  "setSum module version isGoModLine hash pkgs =
     (if (module, version) \<in> pkgName ` set pkgs then
        map (\<lambda>r. if pkgName r = (module, version) \<and> (\<not> isGoModLine \<or> pkHash r = []) then r\<lparr>pkHash := hash\<rparr> else r) pkgs
      else pkgs @ [flatRef ''go'' module version hash])"

fun goSumLine :: "nat \<times> string \<Rightarrow> packageRef list \<times> lockWarning list \<Rightarrow> packageRef list \<times> lockWarning list" where
  "goSumLine (lineNo, raw) (pkgs, ws) =
     (let line = trimSpace raw in
      if line = [] then (pkgs, ws)
      else (case Go_Strings.fields line of
        [module, versionField, hash] \<Rightarrow>
          (setSum module (trimSuffix versionField ''/go.mod'') (hasSuffix versionField ''/go.mod'') hash pkgs, ws)
      | _ \<Rightarrow> (pkgs, ws @ [BadFieldCount lineNo (length (Go_Strings.fields line)) line])))"

definition parseGoSum :: "string \<Rightarrow> parseError + packageRef list \<times> lockWarning list" where
  "parseGoSum body =
     (case scanText body of (ls, ok) \<Rightarrow>
        if \<not> ok then Inl LineTooLong else Inr (fold goSumLine (enumerate 1 ls) ([], [])))"

section \<open>go.mod\<close>

definition parseRequireLine :: "string \<Rightarrow> string \<times> bool" where
  "parseRequireLine line =
     (let (line', indirect) = (case indexOf line ''//'' of
            Some i \<Rightarrow> (trimSpace (take i line), contains (drop (i + 2) line) ''indirect'')
          | None \<Rightarrow> (line, False));
          fs = Go_Strings.fields line'
      in if length fs < 2 then ([], False) else (hd fs, \<not> indirect))"

definition addDirect :: "string \<Rightarrow> string list \<Rightarrow> string list" where
  "addDirect line directs = (case parseRequireLine line of (module, direct) \<Rightarrow>
     if module \<noteq> [] \<and> direct then List.insert module directs else directs)"

text \<open>The state is whether a block is open, and the direct modules.\<close>

fun modLine :: "string \<Rightarrow> bool \<times> string list \<Rightarrow> bool \<times> string list" where
  "modLine raw (inRequireBlock, directs) =
     (let line = trimSpace raw in
      if line = [] then (inRequireBlock, directs)
      else if \<not> inRequireBlock then
        (if line = ''require ('' then (True, directs)
         else if hasPrefix line ''require '' then (False, addDirect (trimPrefix line ''require '') directs)
         else (False, directs))
      else if line = '')'' then (False, directs)
      else (True, addDirect line directs))"

definition readDirectModules :: "files \<Rightarrow> string \<Rightarrow> string list \<times> lockWarning list" where
  "readDirectModules fs modPath =
     (case fs modPath of
        None \<Rightarrow> ([], [GoModUnreadable])
      | Some body \<Rightarrow> (case scanText body of (ls, ok) \<Rightarrow>
          (snd (fold modLine ls (False, [])), if ok then [] else [ReadStopped])))"

definition gosum_Parse :: "files \<Rightarrow> string \<Rightarrow> parseError + parseResult" where
  "gosum_Parse fs lockfilePath =
     (case fs lockfilePath of
        None \<Rightarrow> Inl (OpenFailed lockfilePath)
      | Some body \<Rightarrow> (case parseGoSum body of
          Inl e \<Rightarrow> Inl e
        | Inr (pkgs, sumWarnings) \<Rightarrow>
            (case readDirectModules fs (pathJoin (pathDir lockfilePath) ''go.mod'') of (directs, modWarnings) \<Rightarrow>
               Inr \<lparr>psPackages = map (\<lambda>r. if pkPackageID r \<in> set directs then r\<lparr>pkDirect := True\<rparr> else r) pkgs,
                    psEdges = None, psWarnings = sumWarnings @ modWarnings\<rparr>)))"

definition gosum_CanParse :: "string \<Rightarrow> bool" where
  "gosum_CanParse p \<longleftrightarrow> p \<noteq> [] \<and> pathBase p = ''go.sum''"

section \<open>go mod graph\<close>

definition graphLine :: "string \<Rightarrow> edgeMap \<Rightarrow> edgeMap" where
  "graphLine line edges = (case Go_Strings.fields line of
     [a, b] \<Rightarrow> if b \<in> set (edgesOf edges a) then edges else putEntry a (edgesOf edges a @ [b]) edges
   | _ \<Rightarrow> edges)"

definition parseModGraph :: "string \<Rightarrow> edgeMap \<times> lockWarning list" where
  "parseModGraph out = (case scanText out of (ls, ok) \<Rightarrow> (fold graphLine ls [], if ok then [] else [ReadStopped]))"

text \<open>\<open>run\<close> is the output of the command in a directory, or its error message.\<close>

definition gosum_Graph :: "(string \<Rightarrow> string + string) \<Rightarrow> string \<Rightarrow> edgeMap option \<times> lockWarning list" where
  "gosum_Graph run rootDir = (case run rootDir of
     Inl msg \<Rightarrow> (None, [GraphFailed])
   | Inr out \<Rightarrow> (case parseModGraph out of (edges, ws) \<Rightarrow> (Some edges, ws)))"

section \<open>What go.sum says\<close>

text \<open>The well-formed lines: module, version, whether the hash is of a \<open>go.mod\<close> file, and the hash.\<close>

definition sumEntries :: "string list \<Rightarrow> (string \<times> string \<times> bool \<times> string) list" where
  "sumEntries ls = concat (map (\<lambda>raw. case Go_Strings.fields (trimSpace raw) of
     [module, versionField, hash] \<Rightarrow> [(module, trimSuffix versionField ''/go.mod'', hasSuffix versionField ''/go.mod'', hash)]
   | _ \<Rightarrow> []) ls)"

definition badLines :: "string list \<Rightarrow> string list" where
  "badLines ls = filter (\<lambda>raw. trimSpace raw \<noteq> [] \<and> length (Go_Strings.fields (trimSpace raw)) \<noteq> 3) ls"

text \<open>The hash of the last line for the module itself; without one, that of the first line.\<close>

definition sumHashes :: "bool \<Rightarrow> (string \<times> string \<times> bool \<times> string) list \<Rightarrow> string \<times> string \<Rightarrow> string list" where
  "sumHashes isMod es k = map (\<lambda>(m, v, b, h). h) (filter (\<lambda>(m, v, b, h). (m, v) = k \<and> b = isMod) es)"

definition sumHash :: "(string \<times> string \<times> bool \<times> string) list \<Rightarrow> string \<times> string \<Rightarrow> string" where
  "sumHash es k =
     (if sumHashes False es k \<noteq> [] then last (sumHashes False es k)
      else if sumHashes True es k \<noteq> [] then hd (sumHashes True es k) else [])"

lemma setSum_key:
  "pkgName ` set (setSum m v b h pkgs) = insert (m, v) (pkgName ` set pkgs)"
proof (cases "(m, v) \<in> pkgName ` set pkgs")
  case True
  have "pkgName ` set (map (\<lambda>r. if pkgName r = (m, v) \<and> P r then r\<lparr>pkHash := h\<rparr> else r) pkgs) = pkgName ` set pkgs" for P
    unfolding set_map image_image by (rule image_cong[OF refl]) (simp add: pkgName_def)
  from this[of "\<lambda>r. \<not> b \<or> pkHash r = []"] True show ?thesis
    unfolding setSum_def by (simp only: if_True insert_absorb)
next
  case False
  then have "setSum m v b h pkgs = pkgs @ [flatRef ''go'' m v h]" by (simp only: setSum_def if_False)
  then show ?thesis by (simp add: pkgName_def flatRef_def)
qed

lemma setSum_distinct:
  assumes d: "distinct (map pkgName pkgs)"
  shows "distinct (map pkgName (setSum m v b h pkgs))"
proof (cases "(m, v) \<in> pkgName ` set pkgs")
  case True
  have "map pkgName (map (\<lambda>r. if pkgName r = (m, v) \<and> P r then r\<lparr>pkHash := h\<rparr> else r) pkgs) = map pkgName pkgs" for P
    unfolding map_map by (rule map_cong[OF refl]) (simp add: pkgName_def)
  from this[of "\<lambda>r. \<not> b \<or> pkHash r = []"] True d show ?thesis
    unfolding setSum_def by (simp only: if_True)
next
  case False
  then have "setSum m v b h pkgs = pkgs @ [flatRef ''go'' m v h]" by (simp only: setSum_def if_False)
  with False d show ?thesis by (simp add: pkgName_def flatRef_def)
qed

definition stepSums :: "string \<times> string \<times> bool \<times> string \<Rightarrow> packageRef list \<Rightarrow> packageRef list" where
  "stepSums e pkgs = (case e of (m, v, b, h) \<Rightarrow> setSum m v b h pkgs)"

lemma goSumLine_entries:
  "fst (fold goSumLine (enumerate n ls) acc) = fold stepSums (sumEntries ls) (fst acc)"
proof (induction ls arbitrary: n acc)
  case (Cons raw ls)
  obtain pkgs ws where acc: "acc = (pkgs, ws)" by fastforce
  have e: "fst (goSumLine (n, raw) (pkgs, ws)) = fold stepSums (sumEntries [raw]) pkgs"
  proof (cases "trimSpace raw = []")
    case True
    moreover have "Go_Strings.fields [] = []" by (simp add: Go_Strings.fields_def fieldsFrom.simps)
    ultimately show ?thesis by (simp add: sumEntries_def)
  next
    case False
    then show ?thesis by (simp add: sumEntries_def Let_def stepSums_def split: list.split)
  qed
  have s: "sumEntries (raw # ls) = sumEntries [raw] @ sumEntries ls" by (simp add: sumEntries_def)
  show ?case by (simp add: Cons.IH acc e s del: goSumLine.simps)
qed (simp add: sumEntries_def)

lemma goSumLine_warnings:
  "length (snd (fold goSumLine (enumerate n ls) acc)) = length (snd acc) + length (badLines ls)"
proof (induction ls arbitrary: n acc)
  case (Cons raw ls)
  obtain pkgs ws where acc: "acc = (pkgs, ws)" by fastforce
  have "length (snd (goSumLine (n, raw) (pkgs, ws))) = length ws + length (badLines [raw])"
    by (simp add: badLines_def Let_def split: list.split)
  moreover have "badLines (raw # ls) = badLines [raw] @ badLines ls" by (simp add: badLines_def)
  ultimately show ?case by (simp add: Cons.IH acc del: goSumLine.simps)
qed (simp add: badLines_def)

text \<open>Entries have a hash that is not empty, and then the list is what it should be.\<close>

lemma sumHash_snoc:
  "sumHash (es @ [(m, v, b, h)]) k =
     (if (m, v) \<noteq> k then sumHash es k
      else if \<not> b then h
      else if sumHashes False es k = [] \<and> sumHashes True es k = [] then h else sumHash es k)"
  by (auto simp: sumHash_def sumHashes_def)

lemma sumHash_Nil:
  "list_all (\<lambda>(m, v, b, h). h \<noteq> []) es \<Longrightarrow> sumHash es k = [] \<longleftrightarrow> sumHashes False es k = [] \<and> sumHashes True es k = []"
proof -
  assume all: "list_all (\<lambda>(m, v, b, h). h \<noteq> []) es"
  then have "h \<noteq> []" if "h \<in> set (sumHashes b es k)" for b h
    using that by (auto simp: sumHashes_def list_all_iff)
  then have "sumHashes False es k \<noteq> [] \<Longrightarrow> last (sumHashes False es k) \<noteq> []"
      "sumHashes True es k \<noteq> [] \<Longrightarrow> hd (sumHashes True es k) \<noteq> []"
    using last_in_set hd_in_set by blast+
  then show ?thesis by (auto simp: sumHash_def)
qed

definition sumsOk :: "(string \<times> string \<times> bool \<times> string) list \<Rightarrow> packageRef list \<Rightarrow> bool" where
  "sumsOk es pkgs \<longleftrightarrow> distinct (map pkgName pkgs) \<and> pkgName ` set pkgs = (\<lambda>(m, v, b, h). (m, v)) ` set es
     \<and> (\<forall>r\<in>set pkgs. pkEcosystem r = ''go'' \<and> pkHash r = sumHash es (pkgName r))"

lemma stepSums_ok:
  assumes ok: "sumsOk es pkgs" and all: "list_all (\<lambda>(m, v, b, h). h \<noteq> []) es" and h: "h \<noteq> []"
  shows "sumsOk (es @ [(m, v, b, h)]) (setSum m v b h pkgs)"
proof -
  let ?es = "es @ [(m, v, b, h)]"
  have "pkEcosystem r = ''go'' \<and> pkHash r = sumHash ?es (pkgName r)" if r: "r \<in> set (setSum m v b h pkgs)" for r
  proof (cases "(m, v) \<in> pkgName ` set pkgs")
    case True
    then obtain q where q: "q \<in> set pkgs" "r = (if pkgName q = (m, v) \<and> (\<not> b \<or> pkHash q = []) then q\<lparr>pkHash := h\<rparr> else q)"
      using r unfolding setSum_def if_P[OF True] set_map by (elim imageE)
    have eco: "pkEcosystem q = ''go''" and hash: "pkHash q = sumHash es (pkgName q)" using ok q(1) by (simp_all add: sumsOk_def)
    have r': "r = q\<lparr>pkHash := sumHash ?es (pkgName q)\<rparr>"
    proof (cases "pkgName q = (m, v) \<and> (\<not> b \<or> pkHash q = [])")
      case True
      then have "sumHash ?es (pkgName q) = h"
        using hash sumHash_Nil[OF all, of "pkgName q"] by (auto simp: sumHash_snoc)
      then show ?thesis by (simp only: q(2) if_P[OF True])
    next
      case False
      then have "sumHash ?es (pkgName q) = sumHash es (pkgName q)"
        using hash sumHash_Nil[OF all, of "pkgName q"] by (auto simp: sumHash_snoc)
      moreover have "r = q" using q(2) unfolding if_not_P[OF False] .
      ultimately show ?thesis by (simp add: hash[symmetric])
    qed
    then show ?thesis by (simp add: eco pkgName_def)
  next
    case False
    then have "r \<in> set pkgs \<or> r = flatRef ''go'' m v h" using r unfolding setSum_def if_not_P[OF False] by (simp add: disj_commute)
    then show ?thesis
    proof
      assume old: "r \<in> set pkgs"
      then have "pkgName r \<noteq> (m, v)" using False by (metis image_eqI)
      with ok old show ?thesis by (auto simp: sumsOk_def sumHash_snoc)
    next
      assume new: "r = flatRef ''go'' m v h"
      have "\<nexists>b' h'. (m, v, b', h') \<in> set es"
      proof
        assume "\<exists>b' h'. (m, v, b', h') \<in> set es"
        then obtain b' h' where "(m, v, b', h') \<in> set es" by blast
        then have "(m, v) \<in> (\<lambda>(m, v, b, h). (m, v)) ` set es" by (rule image_eqI[rotated]) simp
        with False ok show False by (simp add: sumsOk_def)
      qed
      then have "sumHashes x es (m, v) = []" for x by (auto simp: sumHashes_def filter_empty_conv)
      then show ?thesis by (simp add: new flatRef_def pkgName_def sumHash_snoc)
    qed
  qed
  moreover have "(\<lambda>(m, v, b, h). (m, v)) ` set ?es = insert (m, v) ((\<lambda>(m, v, b, h). (m, v)) ` set es)" by simp
  ultimately show ?thesis using ok by (simp add: sumsOk_def setSum_key setSum_distinct)
qed

lemma stepSums_spec: "list_all (\<lambda>(m, v, b, h). h \<noteq> []) es \<Longrightarrow> sumsOk es (fold stepSums es [])"
proof (induction es rule: rev_induct)
  case (snoc e es)
  then show ?case by (cases e) (auto simp: stepSums_def intro!: stepSums_ok)
qed (simp add: sumsOk_def)

text \<open>A field is never empty.\<close>

lemma fieldsFrom_nonempty: "f \<in> set (fieldsFrom acc s) \<Longrightarrow> f \<noteq> []"
proof (induction acc s rule: fieldsFrom.induct)
  case (1 acc s)
  then show ?case
    by (subst (asm) (2) fieldsFrom.simps) (auto split: list.splits if_splits simp del: spaceLen.simps)
qed

lemma sumEntries_hash: "list_all (\<lambda>(m, v, b, h). h \<noteq> []) (sumEntries ls)"
proof -
  have "h \<noteq> []" if "(m, v, b, h) \<in> set (sumEntries ls)" for m v b h
  proof -
    from that obtain raw where "(m, v, b, h) \<in> set (case Go_Strings.fields (trimSpace raw) of
        [module, versionField, hash] \<Rightarrow> [(module, trimSuffix versionField ''/go.mod'', hasSuffix versionField ''/go.mod'', hash)]
      | _ \<Rightarrow> [])" by (auto simp: sumEntries_def)
    then have "h \<in> set (Go_Strings.fields (trimSpace raw))" by (auto split: list.splits dest!: sym[of "[_, _, _]"])
    then show ?thesis unfolding Go_Strings.fields_def by (rule fieldsFrom_nonempty)
  qed
  then show ?thesis by (auto simp: list_all_iff)
qed

text \<open>C33: The parser of \<open>go.sum\<close> is exact: unless a line is too long it lists every module and
  version that a well-formed line names, once, with the hash of the last line for
  the module itself, or else of the first line for its \<open>go.mod\<close>, and every other
  line that is not blank gives one warning.\<close>

theorem parseGoSum_exact:
  assumes "scanText body = (ls, True)"
  shows "\<exists>pkgs ws. parseGoSum body = Inr (pkgs, ws) \<and> distinct (map pkgName pkgs)
     \<and> pkgName ` set pkgs = (\<lambda>(m, v, b, h). (m, v)) ` set (sumEntries ls)
     \<and> (\<forall>r\<in>set pkgs. pkEcosystem r = ''go'' \<and> pkHash r = sumHash (sumEntries ls) (pkgName r))
     \<and> length ws = length (badLines ls)"
proof -
  obtain pkgs ws where p: "fold goSumLine (enumerate 1 ls) ([], []) = (pkgs, ws)" by fastforce
  have "pkgs = fold stepSums (sumEntries ls) []" using goSumLine_entries[of 1 ls "([], [])"] p by simp
  then have ok: "sumsOk (sumEntries ls) pkgs" using stepSums_spec[OF sumEntries_hash] by simp
  have "length ws = length (badLines ls)" using goSumLine_warnings[of 1 ls "([], [])"] p by simp
  moreover have "parseGoSum body = Inr (pkgs, ws)" using assms p by (simp add: parseGoSum_def)
  ultimately show ?thesis using ok by (auto simp: sumsOk_def)
qed

end
