(* ===== verification/Pypi_Names.thy ===== *)
theory Pypi_Names
  imports Go_Strings
begin

text \<open>
  The names of Python packages, \<open>normalizePackageName\<close> in \<open>requirements_parse.go\<close>: a loop
  over the runes of a string, and why it computes the canonical form of a name.
\<close>

section \<open>Runes\<close>

definition contByte :: "nat \<Rightarrow> bool" where
  "contByte b \<longleftrightarrow> 128 \<le> b \<and> b \<le> 191"

definition conts :: "nat \<Rightarrow> string \<Rightarrow> bool" where
  "conts k r \<longleftrightarrow> k \<le> length r \<and> list_all (\<lambda>c. contByte (byte c)) (take k r)"

text \<open>The length of the UTF-8 sequence that a string starts with, 0 when there is none.\<close>

definition runeLen :: "string \<Rightarrow> nat" where
  "runeLen s = (case s of [] \<Rightarrow> 0 | c # r \<Rightarrow>
     (let b0 = byte c; b1 = (case r of [] \<Rightarrow> 0 | d # _ \<Rightarrow> byte d) in
      if b0 < 0x80 then 1
      else if 0xC2 \<le> b0 \<and> b0 \<le> 0xDF \<and> conts 1 r then 2
      else if 0xE0 \<le> b0 \<and> b0 \<le> 0xEF \<and> conts 2 r \<and> (b0 = 0xE0 \<longrightarrow> 0xA0 \<le> b1) \<and> (b0 = 0xED \<longrightarrow> b1 \<le> 0x9F) then 3
      else if 0xF0 \<le> b0 \<and> b0 \<le> 0xF4 \<and> conts 3 r \<and> (b0 = 0xF0 \<longrightarrow> 0x90 \<le> b1) \<and> (b0 = 0xF4 \<longrightarrow> b1 \<le> 0x8F) then 4
      else 0))"

text \<open>What \<open>range\<close> yields over a string, each rune by its bytes; a bad byte is U+FFFD.\<close>

definition errorRune :: string where "errorRune = map char_of [0xEF :: nat, 0xBF, 0xBD]"

function runes :: "string \<Rightarrow> string list" where
  "runes s = (if s = [] then []
     else if runeLen s = 0 then errorRune # runes (tl s)
     else take (runeLen s) s # runes (drop (runeLen s) s))"
  by auto
termination
  by (relation "measure length") auto

declare runes.simps [simp del]

section \<open>The loop\<close>

definition isSep :: "string \<Rightarrow> bool" where
  "isSep r \<longleftrightarrow> r = ''-'' \<or> r = ''_'' \<or> r = ''.''"

definition lowerRune :: "string \<Rightarrow> string" where
  "lowerRune r = (case r of [c] \<Rightarrow> [lowerByte c] | _ \<Rightarrow> r)"

fun normLoop :: "bool \<Rightarrow> string \<Rightarrow> string list \<Rightarrow> string" where
  "normLoop prevSep out [] = out"
| "normLoop prevSep out (r # rs) =
     (if isSep r then
        (if \<not> prevSep \<and> out \<noteq> [] then normLoop True (out @ ''-'') rs else normLoop prevSep out rs)
      else normLoop False (out @ lowerRune r) rs)"

definition trimRightChar :: "char \<Rightarrow> string \<Rightarrow> string" where
  "trimRightChar c s = rev (dropWhile (\<lambda>x. x = c) (rev s))"

definition normalizePackageName :: "string \<Rightarrow> string" where
  "normalizePackageName s = trimRightChar (CHR ''-'') (normLoop False [] (runes s))"

section \<open>The canonical form\<close>

text \<open>The reference: lower-case words joined by single hyphens; a word is a list of runes.\<close>

fun nameWords :: "string list \<Rightarrow> string list list" where
  "nameWords [] = [[]]"
| "nameWords (r # rs) =
     (if isSep r then [] # nameWords rs
      else (case nameWords rs of [] \<Rightarrow> [[lowerRune r]] | w # ws \<Rightarrow> (lowerRune r # w) # ws))"

definition canonicalWords :: "string \<Rightarrow> string list list" where
  "canonicalWords s = filter (\<lambda>w. w \<noteq> []) (nameWords (runes s))"

definition canonicalName :: "string \<Rightarrow> string" where
  "canonicalName s = join ''-'' (map concat (canonicalWords s))"

text \<open>A rune is one ASCII byte, or has none.\<close>

definition runeOk :: "string \<Rightarrow> bool" where
  "runeOk r \<longleftrightarrow> (\<exists>c. r = [c] \<and> byte c < 128) \<or> (r \<noteq> [] \<and> list_all (\<lambda>c. 128 \<le> byte c) r \<and> length r \<noteq> 1)"

lemma byte_of_char_of: "n < 256 \<Longrightarrow> byte (char_of n) = n"
  by (simp add: byte_def)

lemma runeLen_cases:
  "runeLen (c # r) = 0 \<or> (runeLen (c # r) = 1 \<and> byte c < 128)
   \<or> (1 < runeLen (c # r) \<and> 128 \<le> byte c \<and> conts (runeLen (c # r) - 1) r)"
  by (auto simp: runeLen_def Let_def)

lemma take_runeLen_ok:
  assumes "s \<noteq> []" and "runeLen s \<noteq> 0"
  shows "runeOk (take (runeLen s) s)"
proof -
  obtain c r where s: "s = c # r" using assms(1) by (cases s) auto
  show ?thesis
    using runeLen_cases[of c r] assms(2) unfolding s
    by (cases "runeLen (c # r)") (auto simp: runeOk_def conts_def list_all_iff contByte_def)
qed

lemma errorRune_ok: "runeOk errorRune"
  by (simp add: runeOk_def errorRune_def byte_of_char_of)

lemma runes_ok: "list_all runeOk (runes s)"
proof (induction s rule: runes.induct)
  case (1 s)
  then show ?case
    by (subst runes.simps) (simp add: errorRune_ok take_runeLen_ok)
qed

section \<open>The loop computes the canonical form\<close>

lemma trimRightChar_snoc [simp]:
  "trimRightChar c (s @ [c]) = trimRightChar c s"
  "x \<noteq> c \<Longrightarrow> trimRightChar c (s @ [x]) = s @ [x]"
  by (simp_all add: trimRightChar_def)

definition closed :: "string \<Rightarrow> bool" where
  "closed out \<longleftrightarrow> out \<noteq> [] \<and> last out \<noteq> CHR ''-''"

lemma trimRightChar_closed: "closed out \<Longrightarrow> trimRightChar (CHR ''-'') out = out"
  by (cases out rule: rev_cases) (auto simp: closed_def)

lemma nameWords_not_Nil [simp]: "nameWords rs \<noteq> []"
  by (cases rs) (auto split: list.splits)

lemma lowerRune_closed:
  assumes "runeOk r" and "\<not> isSep r"
  shows "closed (out @ lowerRune r)"
proof -
  have l: "lowerByte c \<noteq> CHR ''-''" if "c \<noteq> CHR ''-''" for c
  proof (cases "isUpper c")
    case True
    then have "byte (lowerByte c) = byte c + 32" "byte c \<ge> 65" by (simp_all add: lowerByte_def isUpper_def byte_of_char_of)
    moreover have "byte (CHR ''-'') = 45" by code_simp
    ultimately have "byte (lowerByte c) \<noteq> byte (CHR ''-'')" by linarith
    then show ?thesis by metis
  qed (use that in \<open>simp add: lowerByte_def\<close>)
  show ?thesis
  proof (cases "\<exists>c. r = [c]")
    case True
    then obtain c where c: "r = [c]" by blast
    then have "c \<noteq> CHR ''-''" using assms(2) unfolding isSep_def by metis
    then have "lowerByte c \<noteq> CHR ''-''" by (rule l)
    then show ?thesis by (simp only: closed_def lowerRune_def c list.case) simp
  next
    case False
    then have "lowerRune r = r" by (simp add: lowerRune_def split: list.split)
    moreover have "r \<noteq> []" "128 \<le> byte (last r)" using assms(1) False by (auto simp: runeOk_def list_all_iff)
    ultimately show ?thesis by (auto simp: closed_def byte_def)
  qed
qed

definition later :: "string list list \<Rightarrow> string" where
  "later ws = concat (map (\<lambda>w. ''-'' @ concat w) (filter (\<lambda>w. w \<noteq> []) ws))"

lemma normLoop_words:
  "list_all runeOk rs \<Longrightarrow> closed out \<Longrightarrow>
     trimRightChar (CHR ''-'') (normLoop False out rs) = out @ concat (hd (nameWords rs)) @ later (tl (nameWords rs))
   \<and> trimRightChar (CHR ''-'') (normLoop True (out @ ''-'') rs) = out @ later (nameWords rs)"
proof (induction rs arbitrary: out)
  case Nil
  then show ?case by (simp add: trimRightChar_closed later_def)
next
  case (Cons r rs)
  show ?case
  proof (cases "isSep r")
    case True
    then show ?thesis using Cons by (auto simp: closed_def later_def)
  next
    case False
    obtain w ws where w: "nameWords rs = w # ws" by (cases "nameWords rs") auto
    have "closed (out @ lowerRune r)" "closed (out @ ''-'' @ lowerRune r)"
      using lowerRune_closed[of r out] lowerRune_closed[of r "out @ ''-''"] Cons.prems(1) False by auto
    then show ?thesis
      using Cons.IH[of "out @ lowerRune r"] Cons.IH[of "out @ ''-'' @ lowerRune r"] Cons.prems(1) False w
      by (simp add: later_def)
  qed
qed

lemma join_later: "join ''-'' (map concat (w # ws)) = concat w @ concat (map (\<lambda>w. ''-'' @ concat w) ws)"
  by (induction ws arbitrary: w) simp_all

lemma normLoop_start:
  "list_all runeOk rs \<Longrightarrow>
   trimRightChar (CHR ''-'') (normLoop False [] rs) = join ''-'' (map concat (filter (\<lambda>w. w \<noteq> []) (nameWords rs)))"
proof (induction rs)
  case Nil
  then show ?case by (simp add: trimRightChar_def)
next
  case (Cons r rs)
  show ?case
  proof (cases "isSep r")
    case True
    then show ?thesis using Cons by simp
  next
    case False
    obtain w ws where w: "nameWords rs = w # ws" by (cases "nameWords rs") auto
    have "closed ([] @ lowerRune r)" by (rule lowerRune_closed) (use Cons.prems False in auto)
    then have "trimRightChar (CHR ''-'') (normLoop False (lowerRune r) rs) = lowerRune r @ concat w @ later ws"
      using normLoop_words[of rs "lowerRune r"] Cons.prems w by simp
    then show ?thesis using False w by (simp add: later_def join_later del: list.map)
  qed
qed

lemma normalizePackageName_eq: "normalizePackageName s = canonicalName s"
  using normLoop_start[OF runes_ok] by (simp add: normalizePackageName_def canonicalName_def canonicalWords_def)

section \<open>Canonical names are fixed\<close>

definition validRune :: "string \<Rightarrow> bool" where
  "validRune r \<longleftrightarrow> r \<noteq> [] \<and> runeLen r = length r"

lemma conts_append: "k \<le> length r \<Longrightarrow> conts k (r @ s) = conts k r"
  by (simp add: conts_def)

lemma runeLen_append:
  assumes "validRune r"
  shows "runeLen (r @ s) = length r"
proof -
  obtain c t where r: "r = c # t" using assms by (cases r) (auto simp: validRune_def)
  have n: "runeLen (c # t) = Suc (length t)" using assms by (simp add: validRune_def r)
  have hd2: "t \<noteq> [] \<Longrightarrow> (case t @ s of [] \<Rightarrow> 0 | d # _ \<Rightarrow> byte d) = (case t of [] \<Rightarrow> 0 | d # _ \<Rightarrow> byte d)"
    by (cases t) auto
  from n show ?thesis unfolding r
    by (cases "t = []") (auto simp: runeLen_def Let_def hd2 conts_append split: if_splits)
qed

lemma runes_concat: "list_all validRune rs \<Longrightarrow> runes (concat rs) = rs"
proof (induction rs)
  case Nil
  then show ?case by (simp add: runes.simps)
next
  case (Cons r rs)
  then have "runeLen (r @ concat rs) = length r" "r \<noteq> []" using runeLen_append[of r] by (auto simp: validRune_def)
  with Cons show ?case by (subst runes.simps) simp
qed

lemma runeLen_take: "runeLen s \<noteq> 0 \<Longrightarrow> validRune (take (runeLen s) s)"
proof -
  assume n: "runeLen s \<noteq> 0"
  then obtain c t where s: "s = c # t" by (cases s) (auto simp: runeLen_def)
  consider "runeLen s = 1" "byte c < 128" | "1 < runeLen s" "128 \<le> byte c" "conts (runeLen s - 1) t"
    using runeLen_cases[of c t] n unfolding s by blast
  then show ?thesis
  proof cases
    case 1
    then show ?thesis by (simp add: s validRune_def runeLen_def)
  next
    case 2
    define k where "k = runeLen s - 1"
    have k: "runeLen s = Suc k" "k \<noteq> 0" "k \<le> length t" using 2(1,3) by (auto simp: k_def conts_def)
    have c: "conts j (take k t) \<longleftrightarrow> j \<le> k \<and> conts j t" for j
      using k(3) by (auto simp: conts_def min_def)
    have b1: "(case take k t of [] \<Rightarrow> 0 | d # _ \<Rightarrow> byte d) = (case t of [] \<Rightarrow> 0 | d # _ \<Rightarrow> byte d)"
      using k(2) by (cases k; cases t) auto
    have "runeLen (c # take k t) = Suc k"
      using k(1,2) unfolding s runeLen_def by (auto simp: Let_def c b1 split: if_splits)
    then show ?thesis using k by (simp add: s validRune_def)
  qed
qed

lemma runes_valid: "list_all validRune (runes s)"
proof (induction s rule: runes.induct)
  case (1 s)
  have "validRune errorRune" by code_simp
  with 1 show ?case by (subst runes.simps) (simp add: runeLen_take)
qed

lemma lowerByte_ascii: "byte c < 128 \<Longrightarrow> byte (lowerByte c) < 128"
  by (auto simp: lowerByte_def isUpper_def byte_of_char_of)

lemma lowerByte_again [simp]: "lowerByte (lowerByte c) = lowerByte c"
  by (auto simp: lowerByte_def isUpper_def byte_of_char_of)

lemma lowerRune_valid: "validRune r \<Longrightarrow> validRune (lowerRune r)"
proof -
  assume v: "validRune r"
  show ?thesis
  proof (cases "\<exists>c. r = [c]")
    case True
    then obtain c where c: "r = [c]" by blast
    have "byte c < 128" using v runeLen_cases[of c "[]"] by (auto simp: c validRune_def)
    then have "byte (lowerByte c) < 128" by (rule lowerByte_ascii)
    then show ?thesis by (simp add: c lowerRune_def validRune_def runeLen_def)
  next
    case False
    then have "lowerRune r = r" by (simp add: lowerRune_def split: list.split)
    with v show ?thesis by simp
  qed
qed

lemma lowerRune_again: "lowerRune (lowerRune r) = lowerRune r"
  by (simp add: lowerRune_def split: list.split)

definition lowered :: "string \<Rightarrow> bool" where
  "lowered r \<longleftrightarrow> validRune r \<and> \<not> isSep r \<and> lowerRune r = r"

lemma lowered_lowerRune: "validRune r \<Longrightarrow> \<not> isSep r \<Longrightarrow> lowered (lowerRune r)"
proof -
  assume v: "validRune r" and n: "\<not> isSep r"
  have "\<not> isSep (lowerRune r)"
  proof (cases "\<exists>c. r = [c] \<and> isUpper c")
    case True
    then obtain c where c: "r = [c]" "isUpper c" by blast
    have "byte (lowerByte c) \<ge> 97" using c(2) by (simp add: lowerByte_def isUpper_def byte_of_char_of)
    moreover have "byte (CHR ''-'') < 97" "byte (CHR ''_'') < 97" "byte (CHR ''.'') < 97" by code_simp+
    ultimately have "lowerByte c \<noteq> CHR ''-''" "lowerByte c \<noteq> CHR ''_''" "lowerByte c \<noteq> CHR ''.''"
      by (metis linorder_not_le)+
    then show ?thesis by (simp add: c(1) lowerRune_def isSep_def)
  next
    case False
    then have "lowerRune r = r" by (auto simp: lowerRune_def lowerByte_def split: list.split)
    with n show ?thesis by simp
  qed
  with v show ?thesis by (simp add: lowered_def lowerRune_valid lowerRune_again)
qed

lemma nameWords_lowered: "list_all validRune rs \<Longrightarrow> list_all (list_all lowered) (nameWords rs)"
  by (induction rs) (auto simp: lowered_lowerRune split: list.splits)

text \<open>Reading lowered words that are joined by hyphens.\<close>

lemma nameWords_word:
  "list_all lowered w \<Longrightarrow> nameWords (w @ rs) = (case nameWords rs of [] \<Rightarrow> [w] | v # vs \<Rightarrow> (w @ v) # vs)"
  by (induction w) (auto simp: lowered_def split: list.splits)

definition joinRunes :: "string list list \<Rightarrow> string list" where
  "joinRunes ws = (case ws of [] \<Rightarrow> [] | w # vs \<Rightarrow> w @ concat (map (\<lambda>v. ''-'' # v) vs))"

lemma nameWords_later:
  "list_all (list_all lowered) vs \<Longrightarrow> nameWords (concat (map (\<lambda>v. ''-'' # v) vs)) = [] # vs"
  by (induction vs) (simp_all add: nameWords_word isSep_def)

lemma nameWords_joinRunes: "list_all (list_all lowered) ws \<Longrightarrow> ws \<noteq> [] \<Longrightarrow> nameWords (joinRunes ws) = ws"
  by (cases ws) (simp_all add: joinRunes_def nameWords_word nameWords_later)

lemma concat_joinRunes: "concat (joinRunes ws) = join ''-'' (map concat ws)"
proof (cases ws)
  case (Cons w vs)
  have "concat (concat (map (\<lambda>v. ''-'' # v) vs)) = concat (map (\<lambda>w. ''-'' @ concat w) vs)" by (induction vs) simp_all
  then show ?thesis by (simp add: Cons joinRunes_def join_later del: list.map)
qed (simp add: joinRunes_def)

lemma normalizePackageName_again: "normalizePackageName (normalizePackageName s) = normalizePackageName s"
proof -
  let ?ws = "canonicalWords s"
  have low: "list_all (list_all lowered) ?ws"
    using nameWords_lowered[OF runes_valid, of s] by (auto simp: canonicalWords_def list_all_iff)
  have "list_all validRune (joinRunes ?ws)"
  proof -
    have "validRune ''-''" by code_simp
    with low show ?thesis by (cases ?ws) (auto simp: joinRunes_def list_all_iff lowered_def)
  qed
  then have r: "runes (canonicalName s) = joinRunes ?ws"
    using runes_concat[of "joinRunes ?ws"] by (simp add: concat_joinRunes canonicalName_def)
  have "canonicalWords (canonicalName s) = ?ws"
  proof (cases "?ws = []")
    case True
    then show ?thesis by (simp add: canonicalWords_def[of "canonicalName s"] r) (simp add: joinRunes_def)
  next
    case False
    have "filter (\<lambda>w. w \<noteq> []) ?ws = ?ws" by (simp add: canonicalWords_def)
    then show ?thesis using nameWords_joinRunes[OF low False] by (simp only: canonicalWords_def[of "canonicalName s"] r)
  qed
  then show ?thesis by (simp add: normalizePackageName_eq canonicalName_def[of "canonicalName s"]) (simp add: canonicalName_def)
qed

text \<open>The canonical name of a Python package is well defined: the loop over the runes yields the
  lower-case words of the name joined by single hyphens, and a name in this form is
  left alone, so that all spellings of a name meet in one.\<close>

theorem normalizePackageName_canonical:
  "normalizePackageName s = canonicalName s \<and> normalizePackageName (normalizePackageName s) = normalizePackageName s"
  by (simp add: normalizePackageName_eq normalizePackageName_again[unfolded normalizePackageName_eq])

end
