(* ===== verification/Lock_Pypi.thy ===== *)
theory Lock_Pypi
  imports Lockfile Pypi_Names
begin

text \<open>
  The lockfiles of Python: \<open>requirements.txt\<close> by its text, \<open>Pipfile.lock\<close>, \<open>poetry.lock\<close>,
  \<open>uv.lock\<close> and \<open>pdm.lock\<close> from the decoded documents.
\<close>

section \<open>requirements.txt\<close>

definition stripComment :: "string \<Rightarrow> string" where
  "stripComment s = (case indexOf s ''#'' of Some i \<Rightarrow> take i s | None \<Rightarrow> s)"

definition stripInlineOptions :: "string \<Rightarrow> string" where
  "stripInlineOptions s =
     (let fs = Go_Strings.fields s; kept = takeWhile (\<lambda>f. \<not> hasPrefix f ''--'') fs
      in if length kept < length fs then join '' '' kept else s)"

definition looksLikeURL :: "string \<Rightarrow> bool" where
  "looksLikeURL s \<longleftrightarrow> list_ex (hasPrefix s)
     [''http://'', ''https://'', ''ftp://'', ''file://'', ''git+'', ''hg+'', ''svn+'', ''bzr+'']"

definition splitPinnedRequirement :: "string \<Rightarrow> (string \<times> string) option" where
  "splitPinnedRequirement s =
     (case indexOf s ''=='' of
        None \<Rightarrow> None
      | Some idx \<Rightarrow>
          (let rawName = trimSpace (take idx s); version = trimSpace (drop (idx + 2) s) in
           if rawName = [] \<or> version = [] then None
           else if hasPrefix version ''='' then None
           else (let name = (case indexOf rawName ''['' of Some i \<Rightarrow> trimSpace (take i rawName) | None \<Rightarrow> rawName)
                 in if name = [] then None else Some (normalizePackageName name, version))))"

text \<open>The closure \<open>flush\<close>, for one logical line.\<close>

definition reqEntry :: "nat \<times> string \<Rightarrow> entryVerdict" where
  "reqEntry l =
     (let lineNo = fst l; t1 = trimSpace (stripComment (snd l)) in
      if t1 = [] then Quiet
      else
        (let t2 = (case indexOf t1 '';'' of Some i \<Rightarrow> trimSpace (take i t1) | None \<Rightarrow> t1); t3 = stripInlineOptions t2 in
         if t3 = [] then Quiet
         else if hasPrefix t3 ''-'' then Warned (SkippedOption lineNo t3)
         else if looksLikeURL t3 then Warned (SkippedURL lineNo t3)
         else (case splitPinnedRequirement t3 of
             None \<Rightarrow> Warned (NotPinned lineNo t3)
           | Some (name, version) \<Rightarrow> Pinned (flatRef ''pypi'' name version []))))"

text \<open>Physical lines that end in a backslash are joined with the next one.\<close>

fun logicalLines :: "string \<Rightarrow> nat \<Rightarrow> (nat \<times> string) list \<Rightarrow> (nat \<times> string) list" where
  "logicalLines pending pendingLineNo [] = (if pending \<noteq> [] then [(pendingLineNo, pending)] else [])"
| "logicalLines pending pendingLineNo ((currentLine, raw) # rest) =
     (if hasSuffix raw [char_of (92 :: nat)] then
        logicalLines (pending @ trimSuffix raw [char_of (92 :: nat)] @ '' '')
          (if pending = [] then currentLine else pendingLineNo) rest
      else if pending \<noteq> [] then (pendingLineNo, pending @ raw) # logicalLines [] 0 rest
      else (currentLine, raw) # logicalLines [] 0 rest)"

definition parseRequirements :: "string \<Rightarrow> parseError + packageRef list \<times> lockWarning list" where
  "parseRequirements body =
     (case scanText body of (ls, ok) \<Rightarrow>
        if \<not> ok then Inl LineTooLong else Inr (collect (map reqEntry (logicalLines [] 0 (enumerate 1 ls)))))"

definition requirements_Parse :: "files \<Rightarrow> string \<Rightarrow> parseError + parseResult" where
  "requirements_Parse = parseFile (\<lambda>body. case parseRequirements body of Inl e \<Rightarrow> Inl e | Inr r \<Rightarrow> Inr (flatResult r))"

definition requirements_CanParse :: "string \<Rightarrow> bool" where
  "requirements_CanParse p \<longleftrightarrow> p \<noteq> [] \<and>
     (pathBase p = ''requirements.txt'' \<or> (hasPrefix (pathBase p) ''requirements-'' \<and> hasSuffix (pathBase p) ''.txt''))"

definition pypiName :: "string \<Rightarrow> bool" where
  "pypiName n \<longleftrightarrow> normalizePackageName n = n"

lemma pypiName_normalize [simp]: "pypiName (normalizePackageName s)"
  by (simp add: pypiName_def normalizePackageName_again)

lemma splitPinned_version: "splitPinnedRequirement s = Some (n, v) \<Longrightarrow> v \<noteq> [] \<and> pypiName n"
  by (auto simp: splitPinnedRequirement_def Let_def split: option.splits if_splits)

interpretation requirements: lock_entries "''pypi''" reqEntry pypiName
proof
  fix e r
  assume "reqEntry e = Pinned r"
  then obtain t n v where "splitPinnedRequirement t = Some (n, v)" "r = flatRef ''pypi'' n v []"
    by (auto simp: reqEntry_def Let_def split: if_splits option.splits prod.splits)
  with splitPinned_version show "pkEcosystem r = ''pypi''" "pkVersion r \<noteq> [] \<and> pypiName (pkPackageID r)" by auto
qed

section \<open>Pipfile.lock\<close>

record pipfileEntry =
  pfeVersion :: string
  pfeGit :: string
  pfePath :: string
  pfeFile :: string
  pfeEditable :: bool

record pipfileLockFile =
  pflDefault :: "(string \<times> pipfileEntry) list"
  pflDevelop :: "(string \<times> pipfileEntry) list"

definition pipfileNonRegistry :: "pipfileEntry \<Rightarrow> string" where
  "pipfileNonRegistry e =
     (if pfeGit e \<noteq> [] then ''git source'' else if pfePath e \<noteq> [] then ''local path source''
      else if pfeFile e \<noteq> [] then ''direct file source'' else if pfeEditable e then ''editable source'' else [])"

definition pipfileVerdict :: "string \<times> pipfileEntry \<Rightarrow> entryVerdict" where
  "pipfileVerdict ne =
     (case ne of (rawName, e) \<Rightarrow>
        if pipfileNonRegistry e \<noteq> [] then Warned (SkippedName rawName (Reason (pipfileNonRegistry e)))
        else if trimPrefix (pfeVersion e) ''=='' = [] then Warned (SkippedName rawName (Reason ''no pinned version''))
        else Pinned (flatRef ''pypi'' (normalizePackageName rawName) (trimPrefix (pfeVersion e) ''=='') []))"

definition pipfile_Parse :: "(string \<Rightarrow> pipfileLockFile option) \<Rightarrow> files \<Rightarrow> string \<Rightarrow> parseError + parseResult" where
  "pipfile_Parse decode = decodeFile decode (\<lambda>doc. flatResult (collect (map pipfileVerdict
     (sortedEntries (pflDefault doc) @ sortedEntries (pflDevelop doc)))))"

interpretation pipfile: lock_entries "''pypi''" pipfileVerdict pypiName
  by standard (auto simp: pipfileVerdict_def split: prod.splits if_splits)

section \<open>poetry.lock, uv.lock, pdm.lock\<close>

record poetryLockPackage =
  ppName :: string
  ppVersion :: string
  ppSourceType :: string

definition poetryNonRegistrySource :: "string \<Rightarrow> reason option" where
  "poetryNonRegistrySource ty =
     (if ty = [] \<or> ty = ''legacy'' then None
      else if ty = ''git'' then Some (Reason ''git source'') else if ty = ''file'' then Some (Reason ''file source'')
      else if ty = ''directory'' then Some (Reason ''directory source'')
      else if ty = ''url'' then Some (Reason ''direct URL source'')
      else Some (ReasonQuoting ''unsupported source type'' ty))"

text \<open>The body of the three loops: \<open>reason\<close> says why an entry cannot be vetted.\<close>

definition pypiEntry :: "string \<Rightarrow> string \<Rightarrow> reason option \<Rightarrow> entryVerdict" where
  "pypiEntry name version why =
     (if name = [] \<or> version = [] then Quiet
      else (case why of
          Some r \<Rightarrow> Warned (SkippedEntry name version r)
        | None \<Rightarrow> Pinned (flatRef ''pypi'' (normalizePackageName name) version [])))"

definition poetryVerdict :: "poetryLockPackage \<Rightarrow> entryVerdict" where
  "poetryVerdict p = pypiEntry (ppName p) (ppVersion p) (poetryNonRegistrySource (ppSourceType p))"

definition poetry_Parse :: "(string \<Rightarrow> poetryLockPackage list option) \<Rightarrow> files \<Rightarrow> string \<Rightarrow> parseError + parseResult" where
  "poetry_Parse decode = decodeFile decode (\<lambda>doc. flatResult (collect (map poetryVerdict doc)))"

record uvLockPackage =
  uvName :: string
  uvVersion :: string
  uvRegistry :: string
  uvURL :: string
  uvGit :: string
  uvPath :: string
  uvEditable :: string
  uvVirtual :: string
  uvDirectory :: string

definition uvNonRegistrySource :: "uvLockPackage \<Rightarrow> reason option" where
  "uvNonRegistrySource p =
     (if uvGit p \<noteq> [] then Some (Reason ''git source'') else if uvURL p \<noteq> [] then Some (Reason ''direct URL source'')
      else if uvPath p \<noteq> [] then Some (Reason ''local path source'')
      else if uvEditable p \<noteq> [] then Some (Reason ''editable source'')
      else if uvVirtual p \<noteq> [] then Some (Reason ''virtual workspace source'')
      else if uvDirectory p \<noteq> [] then Some (Reason ''directory source'') else None)"

definition uvVerdict :: "uvLockPackage \<Rightarrow> entryVerdict" where
  "uvVerdict p = pypiEntry (uvName p) (uvVersion p) (uvNonRegistrySource p)"

definition uv_Parse :: "(string \<Rightarrow> uvLockPackage list option) \<Rightarrow> files \<Rightarrow> string \<Rightarrow> parseError + parseResult" where
  "uv_Parse decode = decodeFile decode (\<lambda>doc. flatResult (collect (map uvVerdict doc)))"

record pdmLockPackage =
  pdName :: string
  pdVersion :: string
  pdRevision :: string
  pdPath :: string
  pdURL :: string
  pdEditable :: bool

definition pdmNonRegistry :: "pdmLockPackage \<Rightarrow> reason option" where
  "pdmNonRegistry p =
     (if pdRevision p \<noteq> [] then Some (Reason ''VCS revision'') else if pdPath p \<noteq> [] then Some (Reason ''local path source'')
      else if pdURL p \<noteq> [] then Some (Reason ''direct URL source'')
      else if pdEditable p then Some (Reason ''editable source'') else None)"

definition pdmVerdict :: "pdmLockPackage \<Rightarrow> entryVerdict" where
  "pdmVerdict p = pypiEntry (pdName p) (pdVersion p) (pdmNonRegistry p)"

definition pdm_Parse :: "(string \<Rightarrow> pdmLockPackage list option) \<Rightarrow> files \<Rightarrow> string \<Rightarrow> parseError + parseResult" where
  "pdm_Parse decode = decodeFile decode (\<lambda>doc. flatResult (collect (map pdmVerdict doc)))"

lemma pypiEntry_pinned: "pypiEntry n v w = Pinned r \<Longrightarrow> pkEcosystem r = ''pypi'' \<and> pkVersion r \<noteq> [] \<and> pypiName (pkPackageID r)"
  by (auto simp: pypiEntry_def split: if_splits option.splits)

interpretation poetry: lock_entries "''pypi''" poetryVerdict pypiName
  by standard (auto simp: poetryVerdict_def dest: pypiEntry_pinned)

interpretation uv: lock_entries "''pypi''" uvVerdict pypiName
  by standard (auto simp: uvVerdict_def dest: pypiEntry_pinned)

interpretation pdm: lock_entries "''pypi''" pdmVerdict pypiName
  by standard (auto simp: pdmVerdict_def dest: pypiEntry_pinned)

section \<open>Frozen requirements\<close>

text \<open>What \<open>pip freeze\<close> writes: canonical names and versions.\<close>

definition nameChar :: "char \<Rightarrow> bool" where
  "nameChar c \<longleftrightarrow> isLower c \<or> isDigit c \<or> byte c = 45"

definition versionChar :: "char \<Rightarrow> bool" where
  "versionChar c \<longleftrightarrow> isAlnum c \<or> byte c \<in> {33, 43, 45, 46, 95}"

definition frozen :: "string \<times> string \<Rightarrow> bool" where
  "frozen nv = (case nv of (n, v) \<Rightarrow> n \<noteq> [] \<and> list_all nameChar n \<and> byte (hd n) \<noteq> 45 \<and> pypiName n
     \<and> v \<noteq> [] \<and> list_all versionChar v \<and> int (length n + length v + 2) < maxToken)"

definition frozenLine :: "string \<times> string \<Rightarrow> string" where
  "frozenLine nv = fst nv @ ''=='' @ snd nv"

lemma indexOf_absent: "c \<notin> set s \<Longrightarrow> indexOf s [c] = None"
  by (induction s) (auto simp: hasPrefix_def)

lemma indexOf_at: "c \<notin> set n \<Longrightarrow> hasPrefix r p \<Longrightarrow> indexOf (n @ c # r) (c # p) = Some (length n)"
  by (induction n) (auto simp: hasPrefix_def)

lemma bytes_of_signs:
  "byte (CHR ''='') = 61" "byte (CHR ''#'') = 35" "byte (CHR '';'') = 59" "byte (CHR ''['') = 91" "byte (CHR ''-'') = 45"
  "byte (CHR '':'') = 58" "byte (CHR ''+'') = 43" "byte (char_of (92 :: nat)) = 92"
  by code_simp+

lemma char_absent: "\<forall>x\<in>set s. byte x \<noteq> byte c \<Longrightarrow> c \<notin> set s"
  by blast

lemma frozen_bytes:
  assumes "frozen nv"
  shows "\<forall>x\<in>set (fst nv). byte x \<notin> {33, 35, 43, 58, 59, 61, 91, 92} \<and> 33 \<le> byte x \<and> byte x < 128"
    and "\<forall>x\<in>set (snd nv). byte x \<notin> {35, 58, 59, 61, 91, 92} \<and> 33 \<le> byte x \<and> byte x < 128"
proof -
  show "\<forall>x\<in>set (fst nv). byte x \<notin> {33, 35, 43, 58, 59, 61, 91, 92} \<and> 33 \<le> byte x \<and> byte x < 128"
    using assms by (auto simp: frozen_def list_all_iff nameChar_def isLower_def isDigit_def split: prod.splits)
  show "\<forall>x\<in>set (snd nv). byte x \<notin> {35, 58, 59, 61, 91, 92} \<and> 33 \<le> byte x \<and> byte x < 128"
    using assms
    by (auto simp: frozen_def list_all_iff versionChar_def isAlnum_def isLower_def isUpper_def isDigit_def split: prod.splits)
qed

lemma plainText_bytes: "\<forall>x\<in>set s. 33 \<le> byte x \<and> byte x < 128 \<Longrightarrow> plainText s"
  by (auto simp: plainText_def list_all_iff plainChar_def asciiSpace_def)

lemma hasPrefix_before:
  assumes "hasPrefix (n @ e # r) p" and "e \<notin> set p" and "x \<in> set p"
  shows "x \<in> set n"
proof -
  have p: "take (length p) (n @ e # r) = p" using assms(1) by (simp add: hasPrefix_def)
  have "length p \<le> length n"
  proof (rule ccontr)
    assume "\<not> length p \<le> length n"
    then have "e \<in> set (take (length p) (n @ e # r))" by (simp add: Suc_diff_le take_Cons')
    with assms(2) show False by (simp only: p)
  qed
  then have "take (length p) n = p" using p by simp
  with assms(3) show ?thesis by (metis in_set_takeD)
qed

lemma reqEntry_pin:
  assumes "L \<noteq> []" "stripComment L = L" "trimSpace L = L" "indexOf L '';'' = None" "stripInlineOptions L = L"
    "\<not> hasPrefix L ''-''" "\<not> looksLikeURL L" "splitPinnedRequirement L = Some (n, v)"
  shows "reqEntry (k, L) = Pinned (flatRef ''pypi'' n v [])"
  using assms by (simp add: reqEntry_def Let_def)

lemma frozen_entry:
  assumes f: "frozen nv"
  shows "reqEntry (k, frozenLine nv) = Pinned (flatRef ''pypi'' (fst nv) (snd nv) [])"
proof -
  obtain n v where nv: "nv = (n, v)" by fastforce
  let ?l = "n @ ''=='' @ v"
  have nb: "\<forall>x\<in>set n. byte x \<notin> {33, 35, 43, 58, 59, 61, 91, 92} \<and> 33 \<le> byte x \<and> byte x < 128"
    and vb: "\<forall>x\<in>set v. byte x \<notin> {35, 58, 59, 61, 91, 92} \<and> 33 \<le> byte x \<and> byte x < 128"
    using frozen_bytes[OF f] by (simp_all add: nv)
  have lb: "\<forall>x\<in>set ?l. byte x \<notin> {35, 58, 59, 91} \<and> 33 \<le> byte x \<and> byte x < 128"
    using nb vb by (auto simp: bytes_of_signs)
  have plain: "plainText n" "plainText v" "plainText ?l" using nb vb lb by (auto intro!: plainText_bytes)
  have ne: "n \<noteq> []" "v \<noteq> []" "byte (hd n) \<noteq> 45" "pypiName n" using f by (auto simp: frozen_def nv)
  have c1: "CHR ''#'' \<notin> set ?l" by (rule char_absent) (use lb in \<open>auto simp: bytes_of_signs\<close>)
  have c2: "CHR '';'' \<notin> set ?l" by (rule char_absent) (use lb in \<open>auto simp: bytes_of_signs\<close>)
  have c3: "CHR ''='' \<notin> set n" by (rule char_absent) (use nb in \<open>auto simp: bytes_of_signs\<close>)
  have c4: "CHR ''['' \<notin> set n" by (rule char_absent) (use nb in \<open>auto simp: bytes_of_signs\<close>)
  have c5: "CHR '':'' \<notin> set n" by (rule char_absent) (use nb in \<open>auto simp: bytes_of_signs\<close>)
  have c6: "CHR ''+'' \<notin> set n" by (rule char_absent) (use nb in \<open>auto simp: bytes_of_signs\<close>)
  have hd: "hd n \<noteq> CHR ''-''" using ne(3) bytes_of_signs(5) by metis
  have comment: "stripComment ?l = ?l" by (simp only: stripComment_def indexOf_absent[OF c1] option.case)
  have options: "stripInlineOptions ?l = ?l"
  proof -
    have "\<not> hasPrefix ?l ''--''" using ne(1) hd by (cases n) (auto simp: hasPrefix_def)
    then show ?thesis using fields_plain[OF plain(3)] ne(1) by (simp add: stripInlineOptions_def Let_def)
  qed
  have dash: "\<not> hasPrefix ?l ''-''" using ne(1) hd by (cases n) (auto simp: hasPrefix_def)
  have url: "\<not> looksLikeURL ?l"
  proof -
    have "\<not> hasPrefix ?l p" if "p \<in> set [''http://'', ''https://'', ''ftp://'', ''file://'']" for p
      using hasPrefix_before[of n "CHR ''=''" "CHR ''='' # v" p "CHR '':''"] that c5 by auto
    moreover have "\<not> hasPrefix ?l p" if "p \<in> set [''git+'', ''hg+'', ''svn+'', ''bzr+'']" for p
      using hasPrefix_before[of n "CHR ''=''" "CHR ''='' # v" p "CHR ''+''"] that c6 by auto
    ultimately show ?thesis by (simp add: looksLikeURL_def)
  qed
  have split: "splitPinnedRequirement ?l = Some (n, v)"
  proof -
    have i: "indexOf ?l ''=='' = Some (length n)" using indexOf_at[OF c3, of "CHR ''='' # v" "''=''"] by (simp add: hasPrefix_def)
    have "hd v \<noteq> CHR ''=''" using ne(2) vb bytes_of_signs(1) by (metis hd_in_set insertCI)
    then have "\<not> hasPrefix v ''=''" using ne(2) by (cases v) (auto simp: hasPrefix_def)
    then show ?thesis
      using ne plain indexOf_absent[OF c4]
      unfolding splitPinnedRequirement_def i option.case Let_def by (simp add: trimSpace_plain pypiName_def)
  qed
  show ?thesis
    unfolding frozenLine_def nv fst_conv snd_conv
    using reqEntry_pin[OF _ comment trimSpace_plain[OF plain(3)] indexOf_absent[OF c2] options dash url split] ne(1) by simp
qed

lemma logicalLines_plain:
  "list_all (\<lambda>(k, l). \<not> hasSuffix l [char_of (92 :: nat)]) ls \<Longrightarrow> logicalLines [] 0 ls = ls"
  by (induction ls) auto

text \<open>C34: Frozen requirements are read back: a file with a line \<open>name==version\<close> for each of a list of
  different packages, with names in canonical form, gives exactly these packages in
  this order and no warning.\<close>

theorem parseRequirements_frozen:
  assumes f: "list_all frozen nvs" and d: "distinct nvs"
  shows "parseRequirements (concat (map (\<lambda>nv. frozenLine nv @ [newline]) nvs))
    = Inr (map (\<lambda>(n, v). flatRef ''pypi'' n v []) nvs, [])"
proof -
  have plain: "plainText (frozenLine nv) \<and> int (length (frozenLine nv)) < maxToken \<and> byte (last (frozenLine nv)) \<noteq> 92"
    if nv: "nv \<in> set nvs" for nv
  proof -
    have fz: "frozen nv" using f nv by (simp add: list_all_iff)
    have "plainText (frozenLine nv)"
      by (rule plainText_bytes) (use frozen_bytes[OF fz] in \<open>auto simp: frozenLine_def bytes_of_signs\<close>)
    moreover have "snd nv \<noteq> []" "int (length (frozenLine nv)) < maxToken"
      using fz by (auto simp: frozen_def frozenLine_def split: prod.splits)
    moreover have "byte (last (snd nv)) \<noteq> 92" using frozen_bytes(2)[OF fz] \<open>snd nv \<noteq> []\<close> by (metis insertCI last_in_set)
    ultimately show ?thesis by (simp add: frozenLine_def)
  qed
  have "list_all plainLine (map frozenLine nvs)" using plain by (auto simp: list_all_iff intro: plainLine_plain)
  then have scan: "scanText (concat (map (\<lambda>nv. frozenLine nv @ [newline]) nvs)) = (map frozenLine nvs, True)"
    using scanText_lines[of "map frozenLine nvs"] by (simp add: comp_def)
  have "\<not> hasSuffix (frozenLine nv) [char_of (92 :: nat)]" if "nv \<in> set nvs" for nv
  proof
    assume "hasSuffix (frozenLine nv) [char_of (92 :: nat)]"
    then obtain t where "frozenLine nv = t @ [char_of (92 :: nat)]"
      unfolding hasSuffix_def by (metis append_take_drop_id)
    then have "byte (last (frozenLine nv)) = 92" by (simp add: bytes_of_signs del: char_of_mod_256)
    with plain[OF that] show False by simp
  qed
  then have "\<not> hasSuffix l [char_of (92 :: nat)]" if "(k, l) \<in> set (enumerate 1 (map frozenLine nvs))" for k l
    using set_zip_rightD[OF that[unfolded enumerate_eq_zip]] by auto
  then have "logicalLines [] 0 (enumerate 1 (map frozenLine nvs)) = enumerate 1 (map frozenLine nvs)"
    by (intro logicalLines_plain) (simp only: list_all_iff split_paired_Ball_Sigma case_prod_beta, force)
  moreover have "map reqEntry (enumerate k (map frozenLine nvs)) = map Pinned (map (\<lambda>(n, v). flatRef ''pypi'' n v []) nvs)" for k
    using f by (induction nvs arbitrary: k) (auto simp: frozen_entry)
  moreover have "distinct (map pkgName (map (\<lambda>(n, v). flatRef ''pypi'' n v []) nvs))"
    using d by (simp add: comp_def case_prod_beta pkgName_def)
  ultimately show ?thesis by (simp add: parseRequirements_def scan collect_all del: map_map)
qed

section \<open>What is not a single pin\<close>

text \<open>A requirement with two clauses passes as a pin.\<close>

lemma splitPinned_two_clauses:
  "splitPinnedRequirement ''foo==1.0,>=0.5'' = Some (''foo'', ''1.0,>=0.5'')"
  "splitPinnedRequirement ''foo>=0.5,==1.0'' = Some (''foo>=0-5,'', ''1.0'')"
  by code_simp+

end
