(* ===== verification/Lock_Decoded.thy ===== *)
theory Lock_Decoded
  imports Lockfile
begin

text \<open>
  The lockfiles that a decoder for TOML, JSON or YAML reads: Cargo, Composer, NuGet, pub,
  Gleam and SwiftPM.  The decoders are parameters; a map of a document is a list of
  pairs in the order in which Go ranges over it.
\<close>

section \<open>Cargo.lock\<close>

record cargoLockPackage =
  cgName :: string
  cgVersion :: string
  cgSource :: string
  cgChecksum :: string

definition cargoVerdict :: "cargoLockPackage \<Rightarrow> entryVerdict" where
  "cargoVerdict p =
     (if cgName p = [] \<or> cgVersion p = [] then Quiet
      else if cgSource p = [] then Quiet
      else if hasPrefix (cgSource p) ''registry+'' then Pinned (flatRef ''cargo'' (cgName p) (cgVersion p) (cgChecksum p))
      else if hasPrefix (cgSource p) ''git+'' then Warned (SkippedEntry (cgName p) (cgVersion p) (Reason ''git source''))
      else if hasPrefix (cgSource p) ''path+'' then Warned (SkippedEntry (cgName p) (cgVersion p) (Reason ''local path source''))
      else Warned (SkippedEntry (cgName p) (cgVersion p) (ReasonQuoting ''unrecognised source'' (cgSource p))))"

definition cargo_Parse :: "(string \<Rightarrow> cargoLockPackage list option) \<Rightarrow> files \<Rightarrow> string \<Rightarrow> parseError + parseResult" where
  "cargo_Parse decode = decodeFile decode (\<lambda>doc. flatResult (collect (map cargoVerdict doc)))"

interpretation cargo: lock_entries "''cargo''" cargoVerdict "\<lambda>n. n \<noteq> []"
  by standard (auto simp: cargoVerdict_def split: if_splits)

section \<open>composer.lock\<close>

text \<open>A \<open>dist\<close> block has a URL and a checksum.\<close>

record composerLockPackage =
  cpName :: string
  cpVersion :: string
  cpDist :: "(string \<times> string) option"

record composerLockFile =
  clPackages :: "composerLockPackage list"
  clPackagesDev :: "composerLockPackage list"

definition composerVerdict :: "composerLockPackage \<Rightarrow> entryVerdict" where
  "composerVerdict p =
     (if cpName p = [] \<or> cpVersion p = [] then Quiet
      else if hasPrefix (cpVersion p) ''dev-'' then
        Warned (SkippedEntry (cpName p) (cpVersion p) (Reason ''dev-branch ref, not a release''))
      else (case cpDist p of
          None \<Rightarrow> Warned (SkippedEntry (cpName p) (cpVersion p) (Reason ''no dist block''))
        | Some (url, shasum) \<Rightarrow>
            if shasum = [] \<and> url = [] then Warned (SkippedEntry (cpName p) (cpVersion p) (Reason ''no dist block''))
            else Pinned (flatRef ''composer'' (cpName p) (trimPrefix (cpVersion p) ''v'') shasum)))"

definition composer_Parse :: "(string \<Rightarrow> composerLockFile option) \<Rightarrow> files \<Rightarrow> string \<Rightarrow> parseError + parseResult" where
  "composer_Parse decode = decodeFile decode (\<lambda>doc. flatResult (collect (map composerVerdict
     (clPackages doc @ clPackagesDev doc))))"

interpretation composer: entries_of "''composer''" composerVerdict
  by standard (auto simp: composerVerdict_def split: if_splits option.splits)

section \<open>packages.lock.json\<close>

record packagesLockEntry =
  nuType :: string
  nuResolved :: string
  nuContentHash :: string

definition nugetVerdict :: "string \<times> packagesLockEntry \<Rightarrow> entryVerdict" where
  "nugetVerdict ne =
     (case ne of (rawName, e) \<Rightarrow>
        if nuType e = ''Project'' then Quiet
        else if nuResolved e = [] then Warned (SkippedName rawName (Reason ''no resolved version''))
        else Pinned (flatRef ''nuget'' (toLower rawName) (nuResolved e) (nuContentHash e)))"

text \<open>A document is the map from frameworks to the maps from names to entries.\<close>

definition nuget_Parse :: "(string \<Rightarrow> (string \<times> (string \<times> packagesLockEntry) list) list option) \<Rightarrow> files \<Rightarrow> string \<Rightarrow> parseError + parseResult" where
  "nuget_Parse decode = decodeFile decode (\<lambda>doc. flatResult (collect (map nugetVerdict
     (concat (map (\<lambda>(fw, entries). sortedEntries entries) (sortedEntries doc))))))"

interpretation nuget: lock_entries "''nuget''" nugetVerdict "\<lambda>n. True"
  by standard (auto simp: nugetVerdict_def split: prod.splits if_splits)

section \<open>pubspec.lock\<close>

text \<open>The description of a package is a mapping with a name and a hash, or a scalar, which
  is taken as the name; any other node is an error of the decoder.  A mapping is still
  encoded; \<open>decodeMap\<close> reads its name, URL and hash.\<close>

datatype 'm yamlNode = ScalarNode string | MappingNode 'm | OtherNode nat

record pubspecLockDescription =
  pdName :: string
  pdURL :: string
  pdSHA256 :: string

datatype yamlError = UnsupportedNodeKind nat | MappingNotDecoded

definition UnmarshalYAML :: "('m \<Rightarrow> (string \<times> string \<times> string) option) \<Rightarrow> 'm yamlNode option
     \<Rightarrow> pubspecLockDescription \<Rightarrow> yamlError + pubspecLockDescription" where
  "UnmarshalYAML decodeMap value d =
     (case value of
        None \<Rightarrow> Inr d
      | Some (ScalarNode v) \<Rightarrow> Inr (d\<lparr>pdName := v\<rparr>)
      | Some (MappingNode m) \<Rightarrow> (case decodeMap m of
          None \<Rightarrow> Inl MappingNotDecoded
        | Some (name, url, hash) \<Rightarrow> Inr (d\<lparr>pdName := name, pdURL := url, pdSHA256 := hash\<rparr>))
      | Some (OtherNode k) \<Rightarrow> Inl (UnsupportedNodeKind k))"

record pubspecLockPackage =
  pbDescriptionName :: string
  pbDescriptionHash :: string
  pbSource :: string
  pbVersion :: string

definition pubVerdict :: "string \<times> pubspecLockPackage \<Rightarrow> entryVerdict" where
  "pubVerdict ne =
     (case ne of (mapKey, e) \<Rightarrow>
        if pbVersion e = [] then Warned (SkippedName mapKey (Reason ''no version''))
        else if pbSource e = ''hosted'' then
          Pinned (flatRef ''pub'' (if pbDescriptionName e = [] then mapKey else pbDescriptionName e) (pbVersion e) (pbDescriptionHash e))
        else Warned (SkippedEntry mapKey (pbVersion e)
          (if pbSource e = ''git'' then Reason ''git source'' else if pbSource e = ''path'' then Reason ''local path source''
           else if pbSource e = ''sdk'' then Reason ''SDK source'' else ReasonQuoting ''unrecognised source'' (pbSource e))))"

definition pub_Parse :: "(string \<Rightarrow> (string \<times> pubspecLockPackage) list option) \<Rightarrow> files \<Rightarrow> string \<Rightarrow> parseError + parseResult" where
  "pub_Parse decode = decodeFile decode (\<lambda>doc. flatResult (collect (map pubVerdict (sortedEntries doc))))"

text \<open>The decoder of the document: every description is read, an error of one is an error of all.  A
  description that is missing or null is not read.\<close>

record 'm pubspecNode =
  pnDescription :: "'m yamlNode option"
  pnSource :: string
  pnVersion :: string

definition pubPackage :: "('m \<Rightarrow> (string \<times> string \<times> string) option) \<Rightarrow> 'm pubspecNode \<Rightarrow> pubspecLockPackage option" where
  "pubPackage decodeMap n =
     (case UnmarshalYAML decodeMap (pnDescription n) \<lparr>pdName = [], pdURL = [], pdSHA256 = []\<rparr> of
        Inl e \<Rightarrow> None
      | Inr d \<Rightarrow> Some \<lparr>pbDescriptionName = pdName d, pbDescriptionHash = pdSHA256 d, pbSource = pnSource n, pbVersion = pnVersion n\<rparr>)"

definition pubDocument :: "('m \<Rightarrow> (string \<times> string \<times> string) option) \<Rightarrow> (string \<Rightarrow> (string \<times> 'm pubspecNode) list option)
     \<Rightarrow> string \<Rightarrow> (string \<times> pubspecLockPackage) list option" where
  "pubDocument decodeMap nodes b =
     (case nodes b of
        None \<Rightarrow> None
      | Some doc \<Rightarrow> those (map (\<lambda>(key, n). map_option (Pair key) (pubPackage decodeMap n)) doc))"

text \<open>An SDK package, whose description is a scalar, is warned about and does not stop the parse; a
  description that is a list does.\<close>

lemma pub_sdk:
  "pub_Parse (pubDocument decodeMap (\<lambda>_. Some [(''flutter'', \<lparr>pnDescription = Some (ScalarNode ''flutter''), pnSource = ''sdk'', pnVersion = ''0.0.0''\<rparr>)])) fs p
     = decodeFile (\<lambda>_. Some ()) (\<lambda>_. flatResult ([], [SkippedEntry ''flutter'' ''0.0.0'' (Reason ''SDK source'')])) fs p"
  by (simp add: pub_Parse_def pubDocument_def pubPackage_def UnmarshalYAML_def decodeFile_def sortedEntries_def pubVerdict_def
      collect_def split: option.split)

lemma pub_list_description:
  "(key, n) \<in> set doc \<Longrightarrow> pnDescription n = Some (OtherNode k) \<Longrightarrow> pubDocument decodeMap (\<lambda>_. Some doc) b = None"
  by (induction doc) (auto simp: pubDocument_def pubPackage_def UnmarshalYAML_def split: option.splits)

interpretation pub: lock_entries "''pub''" pubVerdict "\<lambda>n. True"
  by standard (auto simp: pubVerdict_def split: prod.splits if_splits)

section \<open>manifest.toml\<close>

record gleamManifestPackage =
  glName :: string
  glVersion :: string
  glSource :: string
  glOuterChecksum :: string

definition gleamVerdict :: "gleamManifestPackage \<Rightarrow> entryVerdict" where
  "gleamVerdict p =
     (if glName p = [] \<or> glVersion p = [] then Quiet
      else if glSource p = ''hex'' \<or> glSource p = [] then Pinned (flatRef ''hexpm'' (glName p) (glVersion p) (glOuterChecksum p))
      else if glSource p = ''git'' then Warned (SkippedEntry (glName p) (glVersion p) (Reason ''git source''))
      else if glSource p = ''local'' then Warned (SkippedEntry (glName p) (glVersion p) (Reason ''local path source''))
      else Warned (SkippedEntry (glName p) (glVersion p) (ReasonQuoting ''unrecognised source'' (glSource p))))"

definition gleam_Parse :: "(string \<Rightarrow> gleamManifestPackage list option) \<Rightarrow> files \<Rightarrow> string \<Rightarrow> parseError + parseResult" where
  "gleam_Parse decode = decodeFile decode (\<lambda>doc. flatResult (collect (map gleamVerdict doc)))"

interpretation gleam: lock_entries "''hexpm''" gleamVerdict "\<lambda>n. n \<noteq> []"
  by standard (auto simp: gleamVerdict_def split: if_splits)

section \<open>Package.resolved\<close>

record packageResolvedPin =
  prIdentity :: string
  prKind :: string
  prPackage :: string
  prBranch :: string
  prRevision :: string
  prVersion :: string

text \<open>The second list is there for documents of version 1.\<close>

record packageResolvedFile =
  prPins :: "packageResolvedPin list"
  prObjectPins :: "packageResolvedPin list option"

definition swiftID :: "packageResolvedPin \<Rightarrow> string" where
  "swiftID p = (if prIdentity p = [] then prPackage p else prIdentity p)"

definition swiftVerdict :: "packageResolvedPin \<Rightarrow> entryVerdict" where
  "swiftVerdict p =
     (if swiftID p = [] then Quiet
      else if prKind p = ''fileSystem'' \<or> prKind p = ''local'' then Warned (SkippedName (swiftID p) (Reason (prKind p @ '' source'')))
      else if prVersion p = [] then Warned (SkippedName (swiftID p)
        (if prBranch p \<noteq> [] then Reason (''branch pin ('' @ prBranch p @ '')'')
         else if prRevision p \<noteq> [] then Reason ''commit-revision pin (no version tag)'' else Reason ''no tagged version''))
      else Pinned (flatRef ''swiftpm'' (swiftID p) (prVersion p) (prRevision p)))"

definition swift_Parse :: "(string \<Rightarrow> packageResolvedFile option) \<Rightarrow> files \<Rightarrow> string \<Rightarrow> parseError + parseResult" where
  "swift_Parse decode = decodeFile decode (\<lambda>doc. flatResult (collect (map swiftVerdict
     (if prPins doc = [] then (case prObjectPins doc of None \<Rightarrow> [] | Some pins \<Rightarrow> pins) else prPins doc))))"

interpretation swift: lock_entries "''swiftpm''" swiftVerdict "\<lambda>n. n \<noteq> []"
  by standard (auto simp: swiftVerdict_def split: if_splits)

section \<open>Order and versions\<close>

text \<open>The packages do not depend on the order in which Go ranges over a map: two lists with the same entries for different keys give the
  same packages in the same order, and the same warnings.\<close>

lemma pub_order:
  assumes "mset doc = mset doc'" and "distinct (map fst doc)"
  shows "pub_Parse (\<lambda>b. Some doc) fs p = pub_Parse (\<lambda>b. Some doc') fs p"
  using sortedEntries_order[OF assms] by (simp add: pub_Parse_def decodeFile_def)

text \<open>A version of Composer that is a single letter v is listed as the empty version.\<close>

lemma composer_empty_version:
  "composerVerdict \<lparr>cpName = n, cpVersion = ''v'', cpDist = Some (u, h)\<rparr> = Pinned (flatRef ''composer'' n [] h)"
  if "n \<noteq> []" "h \<noteq> []"
  using that by (simp add: composerVerdict_def hasPrefix_def trimPrefix_def)

end
