(* ===== verification/Lock_Gem.thy ===== *)
theory Lock_Gem
  imports Lockfile
begin

text \<open>
  The line scanners for \<open>Gemfile.lock\<close> and \<open>Podfile.lock\<close>.  The regular expressions are
  written as scans: in all of them a run of characters is followed by one that is not
  in it, so that there is only one way to match.
\<close>

section \<open>Scanning\<close>

text \<open>The rest behind a literal, and the longest run of characters of a class, not empty.\<close>

definition scanLit :: "string \<Rightarrow> string \<Rightarrow> string option" where
  "scanLit p s = (if hasPrefix s p then Some (drop (length p) s) else None)"

definition scanRun :: "(char \<Rightarrow> bool) \<Rightarrow> string \<Rightarrow> (string \<times> string) option" where
  "scanRun P s = (if takeWhile P s = [] then None else Some (takeWhile P s, dropWhile P s))"

text \<open>The class \<open>\s\<close> of regular expressions.\<close>

definition reSpace :: "char \<Rightarrow> bool" where
  "reSpace c \<longleftrightarrow> byte c \<in> {9, 10, 12, 13, 32}"

definition skipRe :: "string \<Rightarrow> string" where
  "skipRe s = dropWhile reSpace s"

lemma scanLit_Some: "scanLit p s = Some r \<longleftrightarrow> s = p @ r"
proof
  assume "scanLit p s = Some r"
  then have "take (length p) s = p" "r = drop (length p) s"
    by (simp_all add: scanLit_def hasPrefix_def split: if_splits)
  then show "s = p @ r" by (metis append_take_drop_id)
qed (simp add: scanLit_def hasPrefix_def)

lemma scanRun_Some: "scanRun P s = Some (a, r) \<Longrightarrow> s = a @ r \<and> a \<noteq> [] \<and> (\<forall>c\<in>set a. P c)"
  by (auto simp: scanRun_def dest: set_takeWhileD split: if_splits)

lemma scanRun_app: "list_all P a \<Longrightarrow> a \<noteq> [] \<Longrightarrow> r = [] \<or> \<not> P (hd r) \<Longrightarrow> scanRun P (a @ r) = Some (a, r)"
proof -
  assume a: "list_all P a" "a \<noteq> []" "r = [] \<or> \<not> P (hd r)"
  have "takeWhile P (a @ r) = a" "dropWhile P (a @ r) = r"
    using a(1,3) by (cases r; simp add: list_all_iff takeWhile_append2 dropWhile_append2)+
  with a(2) show ?thesis by (simp add: scanRun_def)
qed

section \<open>Gemfile.lock\<close>

definition gemChar :: "char \<Rightarrow> bool" where
  "gemChar c \<longleftrightarrow> isAlnum c \<or> c = CHR ''.'' \<or> c = CHR ''_'' \<or> c = CHR ''-''"

definition notParen :: "char \<Rightarrow> bool" where
  "notParen c \<longleftrightarrow> c \<noteq> CHR '')''"

text \<open>\<open>gemSpecRE\<close>: four spaces, a name, a version in parentheses, spaces.\<close>

definition gemSpecRE :: "string \<Rightarrow> (string \<times> string) option" where
  "gemSpecRE line = do {
     r1 \<leftarrow> scanLit ''    '' line;
     (name, r2) \<leftarrow> scanRun gemChar r1;
     r3 \<leftarrow> scanLit '' ('' r2;
     (version, r4) \<leftarrow> scanRun notParen r3;
     r5 \<leftarrow> scanLit '')'' r4;
     if skipRe r5 = [] then Some (name, version) else None }"

datatype gemSection = SectionNone | SectionGem | SectionGit | SectionPath | SectionOther

text \<open>The state is the section and whether its specs have begun.\<close>

definition gemEntry :: "gemSection \<Rightarrow> string \<times> string \<Rightarrow> entryVerdict" where
  "gemEntry sec nv = (case sec of
     SectionGem \<Rightarrow> Pinned (flatRef ''rubygems'' (fst nv) (snd nv) [])
   | SectionGit \<Rightarrow> Warned (SkippedEntry (fst nv) (snd nv) (Reason ''git source''))
   | SectionPath \<Rightarrow> Warned (SkippedEntry (fst nv) (snd nv) (Reason ''local path source''))
   | _ \<Rightarrow> Quiet)"

definition gemHeader :: "string \<Rightarrow> gemSection" where
  "gemHeader line =
     (if line = ''GEM'' then SectionGem else if line = ''GIT'' then SectionGit
      else if line = ''PATH'' then SectionPath else SectionOther)"

fun gemScan :: "gemSection \<Rightarrow> bool \<Rightarrow> string list \<Rightarrow> entryVerdict list" where
  "gemScan sec inSpecs [] = []"
| "gemScan sec inSpecs (line # rest) =
     (if line = [] then gemScan SectionNone False rest
      else if hd line \<noteq> CHR '' '' then gemScan (gemHeader line) False rest
      else if line = ''  specs:'' then gemScan sec True rest
      else if \<not> inSpecs then gemScan sec inSpecs rest
      else (case gemSpecRE line of
          None \<Rightarrow> gemScan sec inSpecs rest
        | Some nv \<Rightarrow> gemEntry sec nv # gemScan sec inSpecs rest))"

text \<open>The error of the scanner is not asked for.\<close>

definition parseGemfileLock :: "string \<Rightarrow> packageRef list \<times> lockWarning list" where
  "parseGemfileLock body = collect (gemScan SectionNone False (fst (scanText body)))"

definition gemfile_Parse :: "files \<Rightarrow> string \<Rightarrow> parseError + parseResult" where
  "gemfile_Parse = parseFile (\<lambda>body. Inr (flatResult (parseGemfileLock body)))"

section \<open>Podfile.lock\<close>

definition podChar :: "char \<Rightarrow> bool" where
  "podChar c \<longleftrightarrow> isAlnum c \<or> c \<in> {CHR ''.'', CHR ''_'', CHR ''/'', CHR ''+'', CHR ''-''}"

definition hexChar :: "char \<Rightarrow> bool" where
  "hexChar c \<longleftrightarrow> isDigit c \<or> (65 \<le> byte c \<and> byte c \<le> 70) \<or> (97 \<le> byte c \<and> byte c \<le> 102)"

definition podLineRE :: "string \<Rightarrow> (string \<times> string) option" where
  "podLineRE line = do {
     r1 \<leftarrow> scanLit ''  - '' line;
     (name, r2) \<leftarrow> scanRun podChar r1;
     r3 \<leftarrow> scanLit '' ('' r2;
     (version, r4) \<leftarrow> scanRun notParen r3;
     r5 \<leftarrow> scanLit '')'' r4;
     if skipRe (trimPrefix r5 '':'') = [] then Some (name, version) else None }"

definition checksumLineRE :: "string \<Rightarrow> (string \<times> string) option" where
  "checksumLineRE line = do {
     r1 \<leftarrow> scanLit ''  '' line;
     (name, r2) \<leftarrow> scanRun podChar r1;
     r3 \<leftarrow> scanLit '':'' r2;
     (sum, r4) \<leftarrow> scanRun hexChar (skipRe r3);
     if skipRe r4 = [] then Some (name, sum) else None }"

definition checkoutPodRE :: "string \<Rightarrow> string option" where
  "checkoutPodRE line = do {
     r1 \<leftarrow> scanLit ''  '' line;
     (name, r2) \<leftarrow> scanRun podChar r1;
     r3 \<leftarrow> scanLit '':'' r2;
     if skipRe r3 = [] then Some name else None }"

datatype podSection = PodNone | PodPods | PodChecksums | PodCheckout

record podState =
  pdSection :: podSection
  pdPods :: "(string \<times> string) list"
  pdChecksums :: "(string \<times> string) list"
  pdCheckout :: "string list"

definition podHeader :: "string \<Rightarrow> podSection" where
  "podHeader line =
     (if line = ''PODS:'' then PodPods else if line = ''SPEC CHECKSUMS:'' then PodChecksums
      else if line = ''CHECKOUT OPTIONS:'' then PodCheckout else PodNone)"

definition podLine :: "string \<Rightarrow> podState \<Rightarrow> podState" where
  "podLine line s =
     (if line = [] then s\<lparr>pdSection := PodNone\<rparr>
      else if hd line \<noteq> CHR '' '' \<and> hasSuffix line '':'' then s\<lparr>pdSection := podHeader line\<rparr>
      else (case pdSection s of
          PodPods \<Rightarrow> (case podLineRE line of Some p \<Rightarrow> s\<lparr>pdPods := pdPods s @ [p]\<rparr> | None \<Rightarrow> s)
        | PodChecksums \<Rightarrow> (case checksumLineRE line of Some (n, h) \<Rightarrow> s\<lparr>pdChecksums := putEntry n h (pdChecksums s)\<rparr> | None \<Rightarrow> s)
        | PodCheckout \<Rightarrow> (case checkoutPodRE line of Some n \<Rightarrow> s\<lparr>pdCheckout := List.insert n (pdCheckout s)\<rparr> | None \<Rightarrow> s)
        | PodNone \<Rightarrow> s))"

definition podBase :: "string \<Rightarrow> string" where
  "podBase name = (case indexOf name ''/'' of Some i \<Rightarrow> take i name | None \<Rightarrow> name)"

definition podEntry :: "podState \<Rightarrow> string \<times> string \<Rightarrow> entryVerdict" where
  "podEntry s nv =
     (if fst nv \<in> set (pdCheckout s) \<or> podBase (fst nv) \<in> set (pdCheckout s)
      then Warned (SkippedEntry (fst nv) (snd nv) (Reason ''external source via CHECKOUT OPTIONS''))
      else Pinned (flatRef ''cocoapods'' (fst nv) (snd nv)
        (case map_of (pdChecksums s) (podBase (fst nv)) of None \<Rightarrow> [] | Some h \<Rightarrow> h)))"

text \<open>A pod that is listed again is passed over, warning included: the first of each is kept.\<close>

fun firstOnly :: "'a list \<Rightarrow> 'a list \<Rightarrow> 'a list" where
  "firstOnly seen [] = []"
| "firstOnly seen (x # xs) = (if x \<in> set seen then firstOnly seen xs else x # firstOnly (x # seen) xs)"

definition parsePodfileLock :: "string \<Rightarrow> packageRef list \<times> lockWarning list" where
  "parsePodfileLock body =
     (let s = fold podLine (fst (scanText body)) \<lparr>pdSection = PodNone, pdPods = [], pdChecksums = [], pdCheckout = []\<rparr>
      in collect (map (podEntry s) (firstOnly [] (pdPods s))))"

definition podfile_Parse :: "files \<Rightarrow> string \<Rightarrow> parseError + parseResult" where
  "podfile_Parse = parseFile (\<lambda>body. Inr (flatResult (parsePodfileLock body)))"

section \<open>Lines that are too long\<close>

text \<open>A lockfile of Bundler or CocoaPods with one line of a mebibyte or more is cut there without
  an error or a warning: whatever follows that line has no effect, so that its packages
  are never checked.\<close>

theorem long_line_hides_packages:
  assumes "list_all plainLine ls" and "newline \<notin> set l" and "maxToken \<le> int (length l)"
    and "fs f = Some (concat (map (\<lambda>l. l @ [newline]) ls) @ l @ newline # rest)"
    and "fs' f = Some (concat (map (\<lambda>l. l @ [newline]) ls))"
  shows "gemfile_Parse fs f = gemfile_Parse fs' f \<and> podfile_Parse fs f = podfile_Parse fs' f
     \<and> (\<exists>r. gemfile_Parse fs f = Inr r) \<and> (\<exists>r. podfile_Parse fs f = Inr r)"
  using scanText_long[OF assms(1-3), of rest] scanText_lines[OF assms(1)] assms(4,5)
  by (simp add: gemfile_Parse_def podfile_Parse_def parseFile_def parseGemfileLock_def parsePodfileLock_def)

end
