(* ===== verification/Lock_Mix.thy ===== *)
theory Lock_Mix
  imports Lock_Gem
begin

text \<open>
  The parser of \<open>mix.lock\<close>, a map written in Elixir: \<open>mixlock.go\<close>.  Positions are indices into
  the text, as in the code.  The scanner for braces is compared with the grammar of
  what it should match.
\<close>

section \<open>Characters\<close>

definition dquote :: char where "dquote = char_of (34 :: nat)"

definition bslash :: char where "bslash = char_of (92 :: nat)"

definition openBrace :: char where "openBrace = CHR ''{''"

definition closeBrace :: char where "closeBrace = CHR ''}''"

lemma signs_differ [simp]:
  "dquote \<noteq> bslash" "dquote \<noteq> openBrace" "dquote \<noteq> closeBrace" "bslash \<noteq> openBrace" "bslash \<noteq> closeBrace" "openBrace \<noteq> closeBrace"
  "bslash \<noteq> dquote" "openBrace \<noteq> dquote" "closeBrace \<noteq> dquote" "openBrace \<noteq> bslash" "closeBrace \<noteq> bslash" "closeBrace \<noteq> openBrace"
  by code_simp+

section \<open>Scanners\<close>

text \<open>The loop of \<open>matchBrace\<close> with the rest of the text behind index \<open>i\<close>.\<close>

fun braceEnd :: "nat \<Rightarrow> bool \<Rightarrow> nat \<Rightarrow> string \<Rightarrow> nat option" where
  "braceEnd depth inString i [] = None"
| "braceEnd depth True i (c # s) =
     (if c = bslash then (case s of [] \<Rightarrow> None | _ # s' \<Rightarrow> braceEnd depth True (i + 2) s')
      else braceEnd depth (c \<noteq> dquote) (i + 1) s)"
| "braceEnd depth False i (c # s) =
     (if c = dquote then braceEnd depth True (i + 1) s
      else if c = openBrace then braceEnd (depth + 1) False (i + 1) s
      else if c = closeBrace then (if depth - 1 = 0 then Some i else braceEnd (depth - 1) False (i + 1) s)
      else braceEnd depth False (i + 1) s)"

definition matchBrace :: "string \<Rightarrow> nat \<Rightarrow> nat option" where
  "matchBrace s openIdx =
     (if length s \<le> openIdx \<or> s ! openIdx \<noteq> openBrace then None else braceEnd 0 False openIdx (drop openIdx s))"

fun stringEnd :: "nat \<Rightarrow> string \<Rightarrow> nat option" where
  "stringEnd i [] = None"
| "stringEnd i (c # s) =
     (if c = bslash then (case s of [] \<Rightarrow> None | _ # s' \<Rightarrow> stringEnd (i + 2) s')
      else if c = dquote then Some i else stringEnd (i + 1) s)"

definition findStringEnd :: "string \<Rightarrow> nat \<Rightarrow> nat option" where
  "findStringEnd s openIdx =
     (if length s \<le> openIdx \<or> s ! openIdx \<noteq> dquote then None else stringEnd (openIdx + 1) (drop (openIdx + 1) s))"

text \<open>White space and comments to the end of a line.\<close>

definition mixSpace :: "char \<Rightarrow> bool" where
  "mixSpace c \<longleftrightarrow> byte c \<in> {32, 9, 10, 13}"

function skipLen :: "string \<Rightarrow> nat" where
  "skipLen s = (case s of [] \<Rightarrow> 0 | c # r \<Rightarrow>
     (if mixSpace c then Suc (skipLen r)
      else if c = CHR ''#'' then Suc (length (takeWhile (\<lambda>c. c \<noteq> newline) r) + skipLen (dropWhile (\<lambda>c. c \<noteq> newline) r))
      else 0))"
  by auto
termination
  by (relation "measure length") (auto simp: le_imp_less_Suc length_dropWhile_le)

declare skipLen.simps [simp del]

definition skipSpace :: "string \<Rightarrow> nat \<Rightarrow> nat" where
  "skipSpace s pos = pos + skipLen (drop pos s)"

text \<open>The loop of \<open>advanceToTopComma\<close>.\<close>

fun commaEnd :: "nat \<Rightarrow> bool \<Rightarrow> nat \<Rightarrow> string \<Rightarrow> nat" where
  "commaEnd depth inString i [] = i"
| "commaEnd depth True i (c # s) =
     (if c = bslash then (case s of [] \<Rightarrow> i + 1 | _ # s' \<Rightarrow> commaEnd depth True (i + 2) s')
      else commaEnd depth (c \<noteq> dquote) (i + 1) s)"
| "commaEnd depth False i (c # s) =
     (if c = dquote then commaEnd depth True (i + 1) s
      else if c = openBrace \<or> c = CHR ''['' \<or> c = CHR ''('' then commaEnd (depth + 1) False (i + 1) s
      else if c = closeBrace \<or> c = CHR '']'' \<or> c = CHR '')'' then commaEnd (depth - 1) False (i + 1) s
      else if c = CHR '','' \<and> depth = 0 then i + 1
      else commaEnd depth False (i + 1) s)"

definition advanceToTopComma :: "string \<Rightarrow> nat \<Rightarrow> nat" where
  "advanceToTopComma s pos = commaEnd 0 False pos (drop pos s)"

section \<open>Entries\<close>

definition wordStart :: "char \<Rightarrow> bool" where
  "wordStart c \<longleftrightarrow> isLower c \<or> isUpper c \<or> c = CHR ''_''"

definition wordChar :: "char \<Rightarrow> bool" where
  "wordChar c \<longleftrightarrow> isAlnum c \<or> c = CHR ''_''"

definition scanAtom :: "string \<Rightarrow> (string \<times> string) option" where
  "scanAtom s = (case s of [] \<Rightarrow> None | c # _ \<Rightarrow> if wordStart c then scanRun wordChar s else None)"

text \<open>\<open>hexEntryRE\<close> and \<open>otherSourceRE\<close>: the atoms of a tuple are longest runs.\<close>

definition hexEntryRE :: "string \<Rightarrow> (string \<times> string) option" where
  "hexEntryRE v = do {
     r1 \<leftarrow> scanLit ''{'' (skipRe v);
     r2 \<leftarrow> scanLit '':hex'' (skipRe r1);
     r3 \<leftarrow> scanLit '','' (skipRe r2);
     r4 \<leftarrow> scanLit '':'' (skipRe r3);
     (name, r5) \<leftarrow> scanAtom r4;
     r6 \<leftarrow> scanLit '','' (skipRe r5);
     r7 \<leftarrow> scanLit [dquote] (skipRe r6);
     (version, r8) \<leftarrow> scanRun (\<lambda>c. c \<noteq> dquote) r7;
     _ \<leftarrow> scanLit [dquote] r8;
     Some (name, version) }"

definition otherSourceRE :: "string \<Rightarrow> string option" where
  "otherSourceRE v = do {
     r1 \<leftarrow> scanLit ''{'' (skipRe v);
     r2 \<leftarrow> scanLit '':'' (skipRe r1);
     (source, _) \<leftarrow> scanAtom r2;
     Some source }"

definition mixEntry :: "string \<Rightarrow> string \<Rightarrow> entryVerdict" where
  "mixEntry entryKey val =
     (case hexEntryRE val of
        Some (name, version) \<Rightarrow> Pinned (flatRef ''hexpm'' name version [])
      | None \<Rightarrow> (case otherSourceRE val of
          Some source \<Rightarrow> Warned (SkippedName entryKey (Reason (source @ '' source'')))
        | None \<Rightarrow> Warned (BadTuple entryKey)))"

text \<open>The position behind the separator of a key.\<close>

definition keySeparator :: "string \<Rightarrow> nat \<Rightarrow> nat option" where
  "keySeparator s pos =
     (if pos < length s \<and> s ! pos = CHR '':'' then Some (pos + 1)
      else if pos + 1 < length s \<and> s ! pos = CHR ''='' \<and> s ! (pos + 1) = CHR ''>'' then Some (pos + 2)
      else None)"

definition slice :: "string \<Rightarrow> nat \<Rightarrow> nat \<Rightarrow> string" where
  "slice s a b = take (b - a) (drop a s)"

lemma braceEnd_ge: "braceEnd d q i s = Some j \<Longrightarrow> i \<le> j"
  by (induction d q i s rule: braceEnd.induct) (auto split: if_splits list.splits)

lemma matchBrace_ge: "matchBrace s i = Some j \<Longrightarrow> i \<le> j"
  by (auto simp: matchBrace_def dest: braceEnd_ge split: if_splits)

lemma stringEnd_ge: "stringEnd i s = Some j \<Longrightarrow> i \<le> j"
  by (induction i s rule: stringEnd.induct) (auto split: if_splits list.splits)

lemma findStringEnd_gt: "findStringEnd s i = Some j \<Longrightarrow> i < j"
  by (auto simp: findStringEnd_def dest!: stringEnd_ge split: if_splits)

lemma commaEnd_ge: "i \<le> commaEnd d q i s"
  by (induction d q i s rule: commaEnd.induct) (auto split: list.splits)

lemma keySeparator_gt: "keySeparator s p = Some q \<Longrightarrow> p < q"
  by (auto simp: keySeparator_def split: if_splits)

text \<open>The loop; \<open>vs\<close> are the verdicts on the entries so far.\<close>

function mixLoop :: "string \<Rightarrow> nat \<Rightarrow> entryVerdict list \<Rightarrow> parseError + entryVerdict list" where
  "mixLoop body pos0 vs =
     (let pos = skipSpace body pos0 in
      if length body \<le> pos0 \<or> length body \<le> pos then Inr vs
      else if body ! pos \<noteq> dquote then mixLoop body (pos + 1) vs
      else (case findStringEnd body pos of
          None \<Rightarrow> Inl (UnterminatedKey pos)
        | Some keyEnd \<Rightarrow>
            (let entryKey = slice body (pos + 1) keyEnd; p2 = skipSpace body (keyEnd + 1) in
             case keySeparator body p2 of
               None \<Rightarrow> mixLoop body (advanceToTopComma body p2) (vs @ [Warned (NoSeparator entryKey)])
             | Some p3 \<Rightarrow>
                 (let p4 = skipSpace body p3 in
                  if length body \<le> p4 \<or> body ! p4 \<noteq> openBrace then
                    mixLoop body (advanceToTopComma body p4) (vs @ [Warned (NotATuple entryKey)])
                  else (case matchBrace body p4 of
                      None \<Rightarrow> Inl UnmatchedBrace
                    | Some valueEnd \<Rightarrow>
                        (let p5 = skipSpace body (valueEnd + 1);
                             p6 = (if p5 < length body \<and> body ! p5 = CHR '','' then p5 + 1 else p5)
                         in mixLoop body p6 (vs @ [mixEntry entryKey (slice body p4 (valueEnd + 1))])))))))"
  by auto

termination
proof (relation "measure (\<lambda>(body, pos, vs). length body - pos)", goal_cases)
  case (3 body pos0 vs pos keyEnd entryKey p2)
  then show ?case
    using findStringEnd_gt[of body pos keyEnd] commaEnd_ge[of p2 0 False "drop p2 body"]
    by (auto simp: skipSpace_def advanceToTopComma_def)
next
  case (4 body pos0 vs pos keyEnd entryKey p2 p3 p4)
  then show ?case
    using findStringEnd_gt[of body pos keyEnd] keySeparator_gt[of body p2 p3] commaEnd_ge[of p4 0 False "drop p4 body"]
    by (auto simp: skipSpace_def advanceToTopComma_def)
next
  case (5 body pos0 vs pos keyEnd entryKey p2 p3 p4 valueEnd p5 p6)
  then show ?case
    using findStringEnd_gt[of body pos keyEnd] keySeparator_gt[of body p2 p3] matchBrace_ge[of body p4 valueEnd]
    by (auto simp: skipSpace_def)
qed (auto simp: skipSpace_def)

declare mixLoop.simps [simp del]

definition parseMixLock :: "string \<Rightarrow> parseError + packageRef list \<times> lockWarning list" where
  "parseMixLock s =
     (case indexOf s ''%{'' of
        None \<Rightarrow> Inl BadMixLock
      | Some outer \<Rightarrow> (case matchBrace s (outer + 1) of
          None \<Rightarrow> Inl UnmatchedBrace
        | Some closing \<Rightarrow> (case mixLoop (slice s (outer + 2) closing) 0 [] of
            Inl e \<Rightarrow> Inl e
          | Inr vs \<Rightarrow> Inr (collect vs))))"

definition mix_Parse :: "files \<Rightarrow> string \<Rightarrow> parseError + parseResult" where
  "mix_Parse = parseFile (\<lambda>body. case parseMixLock body of Inl e \<Rightarrow> Inl e | Inr r \<Rightarrow> Inr (flatResult r))"

section \<open>The grammar of braces\<close>

text \<open>What stands between the quotes of a string, and between two braces.\<close>

inductive_set strBody :: "string set" where
  str_Nil: "[] \<in> strBody"
| str_char: "c \<noteq> dquote \<Longrightarrow> c \<noteq> bslash \<Longrightarrow> u \<in> strBody \<Longrightarrow> c # u \<in> strBody"
| str_escape: "u \<in> strBody \<Longrightarrow> bslash # c # u \<in> strBody"

inductive_set braceBody :: "string set" where
  body_Nil: "[] \<in> braceBody"
| body_char: "c \<noteq> dquote \<Longrightarrow> c \<noteq> openBrace \<Longrightarrow> c \<noteq> closeBrace \<Longrightarrow> w \<in> braceBody \<Longrightarrow> c # w \<in> braceBody"
| body_string: "u \<in> strBody \<Longrightarrow> w \<in> braceBody \<Longrightarrow> dquote # u @ dquote # w \<in> braceBody"
| body_braces: "v \<in> braceBody \<Longrightarrow> w \<in> braceBody \<Longrightarrow> openBrace # v @ closeBrace # w \<in> braceBody"

definition braceTerm :: "string \<Rightarrow> bool" where
  "braceTerm t \<longleftrightarrow> (\<exists>w\<in>braceBody. t = openBrace # w @ [closeBrace])"

lemma braceEnd_string: "u \<in> strBody \<Longrightarrow> braceEnd d True i (u @ dquote # s) = braceEnd d False (i + length u + 1) s"
  by (induction arbitrary: i rule: strBody.induct) simp_all

lemma braceEnd_body: "w \<in> braceBody \<Longrightarrow> braceEnd (Suc d) False i (w @ s) = braceEnd (Suc d) False (i + length w) s"
  by (induction arbitrary: d i s rule: braceBody.induct) (simp_all add: braceEnd_string ac_simps)

text \<open>A text that closes \<open>k\<close> open braces within \<open>n\<close> characters.\<close>

definition closedText :: "string list \<Rightarrow> string" where
  "closedText ws = concat (map (\<lambda>w. w @ [closeBrace]) ws)"

definition closes :: "nat \<Rightarrow> string \<Rightarrow> nat \<Rightarrow> bool" where
  "closes k s n \<longleftrightarrow> (\<exists>ws r. length ws = k \<and> set ws \<subseteq> braceBody \<and> s = closedText ws @ r \<and> n = length (closedText ws))"

lemma closes_0: "closes 0 s 0"
  by (simp add: closes_def closedText_def)

lemma closes_map:
  assumes "closes (Suc k) s n" and "\<And>w. w \<in> braceBody \<Longrightarrow> p @ w \<in> braceBody"
  shows "closes (Suc k) (p @ s) (length p + n)"
proof -
  obtain ws' r where ws': "length ws' = Suc k" "set ws' \<subseteq> braceBody" "s = closedText ws' @ r" "n = length (closedText ws')"
    using assms(1) unfolding closes_def by blast
  then obtain w ws where "ws' = w # ws" by (cases ws') auto
  with ws' have "length ws = k" "set (w # ws) \<subseteq> braceBody" "s = closedText (w # ws) @ r" "n = length (closedText (w # ws))"
    by simp_all
  then have "length ((p @ w) # ws) = Suc k \<and> set ((p @ w) # ws) \<subseteq> braceBody \<and> p @ s = closedText ((p @ w) # ws) @ r
      \<and> length p + n = length (closedText ((p @ w) # ws))"
    using assms(2)[of w] by (simp add: closedText_def)
  then show ?thesis unfolding closes_def by blast
qed

lemma closes_char:
  "closes (Suc k) s n \<Longrightarrow> c \<noteq> dquote \<Longrightarrow> c \<noteq> openBrace \<Longrightarrow> c \<noteq> closeBrace \<Longrightarrow> closes (Suc k) (c # s) (Suc n)"
  using closes_map[of k s n "[c]"] by (simp add: body_char)

lemma closes_string:
  "closes (Suc k) s n \<Longrightarrow> u \<in> strBody \<Longrightarrow> closes (Suc k) (dquote # u @ dquote # s) (n + length u + 2)"
  using closes_map[of k s n "dquote # u @ [dquote]"] by (simp add: body_string ac_simps)

lemma closes_open: "closes (Suc (Suc k)) s n \<Longrightarrow> closes (Suc k) (openBrace # s) (Suc n)"
proof -
  assume "closes (Suc (Suc k)) s n"
  then obtain ws' r where ws': "length ws' = Suc (Suc k)" "set ws' \<subseteq> braceBody" "s = closedText ws' @ r" "n = length (closedText ws')"
    unfolding closes_def by blast
  then obtain v w ws where "ws' = v # w # ws" by (cases ws'; cases "tl ws'") auto
  with ws' have "length ws = k" "set (v # w # ws) \<subseteq> braceBody" "s = closedText (v # w # ws) @ r"
      "n = length (closedText (v # w # ws))" by simp_all
  then have "length ((openBrace # v @ closeBrace # w) # ws) = Suc k \<and> set ((openBrace # v @ closeBrace # w) # ws) \<subseteq> braceBody
      \<and> openBrace # s = closedText ((openBrace # v @ closeBrace # w) # ws) @ r
      \<and> Suc n = length (closedText ((openBrace # v @ closeBrace # w) # ws))"
    by (simp add: closedText_def body_braces)
  then show ?thesis unfolding closes_def by blast
qed

lemma closes_close: "closes k s n \<Longrightarrow> closes (Suc k) (closeBrace # s) (Suc n)"
proof -
  assume "closes k s n"
  then obtain ws r where "length ws = k" "set ws \<subseteq> braceBody" "s = closedText ws @ r" "n = length (closedText ws)"
    unfolding closes_def by blast
  then have "length ([] # ws) = Suc k \<and> set ([] # ws) \<subseteq> braceBody \<and> closeBrace # s = closedText ([] # ws) @ r
      \<and> Suc n = length (closedText ([] # ws))"
    by (simp add: closedText_def body_Nil)
  then show ?thesis unfolding closes_def by blast
qed

lemma braceEnd_sound:
  "braceEnd depth q i s = Some j \<Longrightarrow> depth = Suc d \<Longrightarrow>
   (if q then \<exists>u t n. u \<in> strBody \<and> s = u @ dquote # t \<and> closes (Suc d) t n \<and> j + 1 = i + length u + 1 + n
    else \<exists>n. closes (Suc d) s n \<and> j + 1 = i + n)"
proof (induction depth q i s arbitrary: d rule: braceEnd.induct)
  case (2 depth i c s)
  consider (escape) e s' where "c = bslash" "s = e # s'" "braceEnd depth True (i + 2) s' = Some j"
    | (close) "c = dquote" "braceEnd depth False (i + 1) s = Some j"
    | (char) "c \<noteq> bslash" "c \<noteq> dquote" "braceEnd depth True (i + 1) s = Some j"
    using "2.prems"(1) by (cases "c = bslash"; cases "c = dquote") (auto split: list.splits)
  then show ?case
  proof cases
    case escape
    then obtain u t n where "u \<in> strBody" "s' = u @ dquote # t" "closes (Suc d) t n" "j + 1 = i + 2 + length u + 1 + n"
      using "2.IH"(1)[of e s' d] "2.prems"(2) by auto
    with escape have "bslash # e # u \<in> strBody \<and> c # s = (bslash # e # u) @ dquote # t \<and> closes (Suc d) t n
        \<and> j + 1 = i + length (bslash # e # u) + 1 + n" by (simp add: str_escape)
    then show ?thesis by (simp only: if_True) blast
  next
    case close
    then obtain n where "closes (Suc d) s n" "j + 1 = i + 1 + n" using "2.IH"(2)[of d] "2.prems"(2) by auto
    with close have "[] \<in> strBody \<and> c # s = [] @ dquote # s \<and> closes (Suc d) s n \<and> j + 1 = i + length ([] :: string) + 1 + n"
      by (simp add: str_Nil)
    then show ?thesis by (simp only: if_True) blast
  next
    case char
    then obtain u t n where "u \<in> strBody" "s = u @ dquote # t" "closes (Suc d) t n" "j + 1 = i + 1 + length u + 1 + n"
      using "2.IH"(2)[of d] "2.prems"(2) by auto
    with char have "c # u \<in> strBody \<and> c # s = (c # u) @ dquote # t \<and> closes (Suc d) t n \<and> j + 1 = i + length (c # u) + 1 + n"
      by (simp add: str_char)
    then show ?thesis by (simp only: if_True) blast
  qed
next
  case (3 depth i c s)
  consider (str) "c = dquote" "braceEnd depth True (i + 1) s = Some j"
    | (op) "c = openBrace" "braceEnd (depth + 1) False (i + 1) s = Some j"
    | (last_close) "c = closeBrace" "d = 0" "j = i"
    | (cl) e where "c = closeBrace" "d = Suc e" "braceEnd (depth - 1) False (i + 1) s = Some j"
    | (char) "c \<noteq> dquote" "c \<noteq> openBrace" "c \<noteq> closeBrace" "braceEnd depth False (i + 1) s = Some j"
    using "3.prems" by (cases "c = dquote"; cases "c = openBrace"; cases "c = closeBrace"; cases d) auto
  then show ?case
  proof cases
    case str
    then obtain u t n where "u \<in> strBody" "s = u @ dquote # t" "closes (Suc d) t n" "j + 1 = i + 1 + length u + 1 + n"
      using "3.IH"(1)[of d] "3.prems"(2) by auto
    with str show ?thesis using closes_string[of d t n u] by (auto simp: ac_simps intro!: exI[of _ "n + length u + 2"])
  next
    case op
    then obtain n where "closes (Suc (Suc d)) s n" "j + 1 = i + 1 + n" using "3.IH"(2)[of "Suc d"] "3.prems"(2) by auto
    with op show ?thesis using closes_open[of d s n] by (auto intro!: exI[of _ "Suc n"])
  next
    case last_close
    then show ?thesis using closes_close[OF closes_0, of s] by auto
  next
    case cl
    then obtain n where "closes (Suc e) s n" "j + 1 = i + 1 + n" using "3.IH"(3)[of e] "3.prems"(2) by auto
    with cl show ?thesis using closes_close[of "Suc e" s n] by (auto intro!: exI[of _ "Suc n"])
  next
    case char
    then obtain n where "closes (Suc d) s n" "j + 1 = i + 1 + n" using "3.IH"(4)[of d] "3.prems"(2) by auto
    with char show ?thesis using closes_char[of d s n c] by (auto intro!: exI[of _ "Suc n"])
  qed
qed simp

lemma matchBrace_term: "w \<in> braceBody \<Longrightarrow> matchBrace (p @ openBrace # w @ closeBrace # r) (length p) = Some (length p + length w + 1)"
  by (simp add: matchBrace_def nth_append braceEnd_body)

text \<open>Matching a brace is correct: the scanner finds index \<open>j\<close> for the brace at index \<open>i\<close> if and
  only if the text between the two, both included, is a term of the grammar, with
  braces nested and strings, escapes included, passed over.\<close>

theorem matchBrace_iff:
  "matchBrace s i = Some j \<longleftrightarrow> i \<le> j \<and> j < length s \<and> braceTerm (slice s i (j + 1))"
proof
  assume m: "matchBrace s i = Some j"
  then have i: "i < length s" "s ! i = openBrace" and b: "braceEnd 0 False i (drop i s) = Some j"
    by (auto simp: matchBrace_def split: if_splits)
  have d: "drop i s = openBrace # drop (Suc i) s" using i by (metis Cons_nth_drop_Suc)
  then have "braceEnd 1 False (i + 1) (drop (Suc i) s) = Some j" using b by simp
  from braceEnd_sound[OF this, of 0] obtain n where n: "closes 1 (drop (Suc i) s) n" "j + 1 = i + 1 + n" by auto
  then obtain w r where w: "w \<in> braceBody" "drop (Suc i) s = w @ closeBrace # r" "n = Suc (length w)"
    by (auto simp: closes_def closedText_def length_Suc_conv)
  have j: "j = i + length w + 1" using n(2) w(3) by simp
  have "slice s i (j + 1) = openBrace # w @ [closeBrace]"
    unfolding slice_def d w(2) j by simp
  moreover have "j < length s" using arg_cong[OF w(2), of length] i(1) j by simp
  ultimately show "i \<le> j \<and> j < length s \<and> braceTerm (slice s i (j + 1))" using w(1) j by (auto simp: braceTerm_def)
next
  assume a: "i \<le> j \<and> j < length s \<and> braceTerm (slice s i (j + 1))"
  then obtain w where w: "w \<in> braceBody" "slice s i (j + 1) = openBrace # w @ [closeBrace]" by (auto simp: braceTerm_def)
  have "s = take i s @ slice s i (j + 1) @ drop (j + 1) s"
    using a by (simp add: slice_def) (metis append_take_drop_id add.commute drop_drop le_Suc_eq le_add_diff_inverse2)
  then have s: "s = take i s @ openBrace # w @ closeBrace # drop (j + 1) s" using w(2) by simp
  have i: "length (take i s) = i" using a by simp
  have "j + 1 - i \<le> length s - i" using a by linarith
  then have "length (slice s i (j + 1)) = j + 1 - i" by (simp only: slice_def length_take length_drop min_absorb2)
  then have "j = i + length w + 1" using a w(2) by simp
  then show "matchBrace s i = Some j" using matchBrace_term[OF w(1), of "take i s" "drop (j + 1) s"] s i by simp
qed

section \<open>Reading back a lockfile\<close>

lemma skipSpace_at: "skipSpace (p @ s) (length p) = length p + skipLen s"
  by (simp add: skipSpace_def)

lemma stringEnd_at: "u \<in> strBody \<Longrightarrow> stringEnd i (u @ dquote # s) = Some (i + length u)"
  by (induction arbitrary: i rule: strBody.induct) simp_all

lemma findStringEnd_at: "u \<in> strBody \<Longrightarrow> findStringEnd (p @ dquote # u @ dquote # s) (length p) = Some (length p + 1 + length u)"
  by (simp add: findStringEnd_def nth_append stringEnd_at)

lemma slice_at: "slice (p @ w @ s) (length p) (length p + length w) = w"
  by (simp add: slice_def)

lemma skipLen_stop: "\<not> mixSpace c \<Longrightarrow> c \<noteq> CHR ''#'' \<Longrightarrow> skipLen (c # s) = 0"
  by (simp add: skipLen.simps)

lemma skipLen_space: "mixSpace c \<Longrightarrow> skipLen (c # s) = Suc (skipLen s)"
  by (subst skipLen.simps) simp

lemma stop_chars:
  "\<not> mixSpace dquote" "\<not> mixSpace openBrace" "\<not> mixSpace (CHR '':'')" "\<not> mixSpace (CHR '','')"
  "dquote \<noteq> CHR ''#''" "openBrace \<noteq> CHR ''#''" "mixSpace newline" "mixSpace (CHR '' '')"
  by code_simp+

text \<open>An entry as Mix writes it: a key, and a tuple.\<close>

definition mixText :: "string \<times> string \<Rightarrow> string" where
  "mixText kv = newline # ''  '' @ dquote # fst kv @ dquote # '': '' @ snd kv @ '',''"

lemma mixLoop_entry:
  assumes k: "k \<in> strBody" and val: "braceTerm val"
  shows "mixLoop (pre @ mixText (k, val) @ rest) (length pre) vs
    = mixLoop (pre @ mixText (k, val) @ rest) (length pre + length (mixText (k, val))) (vs @ [mixEntry k val])"
proof -
  obtain w where w: "w \<in> braceBody" "val = openBrace # w @ [closeBrace]" using val by (auto simp: braceTerm_def)
  let ?b = "pre @ mixText (k, val) @ rest"
  let ?p1 = "pre @ newline # ''  ''" let ?p2 = "?p1 @ [dquote]" let ?p3 = "?p2 @ k @ [dquote]"
  let ?p4 = "?p3 @ '':''" let ?p5 = "?p4 @ '' ''" let ?p6 = "?p5 @ val"
  have b1: "?b = ?p1 @ dquote # k @ dquote # '': '' @ val @ CHR '','' # rest" by (simp add: mixText_def)
  have b2: "?b = ?p2 @ k @ dquote # '': '' @ val @ CHR '','' # rest" by (simp add: mixText_def)
  have b3: "?b = ?p3 @ CHR '':'' # '' '' @ val @ CHR '','' # rest" by (simp add: mixText_def)
  have b4: "?b = ?p4 @ CHR '' '' # val @ CHR '','' # rest" by (simp add: mixText_def)
  have b5: "?b = ?p5 @ openBrace # w @ closeBrace # CHR '','' # rest" by (simp add: mixText_def w)
  have b5': "?b = ?p5 @ val @ CHR '','' # rest" by (simp add: mixText_def)
  have b6: "?b = ?p6 @ CHR '','' # rest" by (simp add: mixText_def)
  have pos: "skipSpace ?b (length pre) = length ?p1"
    unfolding skipSpace_at by (simp add: mixText_def skipLen_space skipLen_stop stop_chars)
  have quote: "?b ! length ?p1 = dquote" unfolding b1 by (rule nth_append_length)
  have keyEnd: "findStringEnd ?b (length ?p1) = Some (length ?p2 + length k)" unfolding b1 findStringEnd_at[OF k] by simp
  have key: "slice ?b (length ?p2) (length ?p2 + length k) = k" unfolding b2 by (rule slice_at)
  have p2: "skipSpace ?b (length ?p3) = length ?p3" unfolding b3 skipSpace_at by (simp add: skipLen_stop stop_chars)
  have sep: "keySeparator ?b (length ?p3) = Some (length ?p4)" unfolding b3 keySeparator_def by (simp add: nth_append)
  have p4: "skipSpace ?b (length ?p4) = length ?p5"
    unfolding b4 skipSpace_at by (simp add: w(2) skipLen_space skipLen_stop stop_chars)
  have tuple: "?b ! length ?p5 = openBrace" unfolding b5 by (rule nth_append_length)
  have valueEnd: "matchBrace ?b (length ?p5) = Some (length ?p5 + length w + 1)" unfolding b5 by (rule matchBrace_term[OF w(1)])
  have sl: "slice ?b (length ?p5) (length ?p6) = val" 
  proof -
    have "length ?p6 = length ?p5 + length val" by simp
    then show ?thesis unfolding b5' by (simp only: slice_at)
  qed
  have p5: "skipSpace ?b (length ?p6) = length ?p6" unfolding b6 skipSpace_at by (simp add: skipLen_stop stop_chars)
  have comma: "?b ! length ?p6 = CHR '',''" unfolding b6 by (rule nth_append_length)
  have len: "length ?b = length ?p6 + 1 + length rest" unfolding b6 by simp
  have less: "length pre < length ?b" "length ?p1 < length ?b" "length ?p5 < length ?b" "length ?p6 < length ?b"
    unfolding len by simp_all
  have steps: "length ?p2 + length k + 1 = length ?p3" "length ?p1 + 1 = length ?p2" "length ?p5 + length w + 1 + 1 = length ?p6"
    "length ?p6 + 1 = length pre + length (mixText (k, val))" by (simp_all add: w(2) mixText_def)
  show ?thesis
    apply (subst mixLoop.simps)
    unfolding Let_def pos quote keyEnd option.case steps key p2 sep p4 tuple valueEnd sl p5 comma
    using less by (simp add: not_le[symmetric] del: length_append)
qed

lemma mixLoop_entries:
  assumes "list_all (\<lambda>(k, val). k \<in> strBody \<and> braceTerm val) kvs"
  shows "mixLoop (pre @ concat (map mixText kvs) @ rest) (length pre) vs
    = mixLoop (pre @ concat (map mixText kvs) @ rest) (length pre + length (concat (map mixText kvs)))
        (vs @ map (\<lambda>(k, val). mixEntry k val) kvs)"
  using assms
proof (induction kvs arbitrary: pre vs)
  case (Cons kv kvs)
  obtain k val where kv: "kv = (k, val)" by fastforce
  have "mixLoop (pre @ mixText (k, val) @ concat (map mixText kvs) @ rest) (length pre) vs
      = mixLoop (pre @ mixText (k, val) @ concat (map mixText kvs) @ rest) (length pre + length (mixText (k, val))) (vs @ [mixEntry k val])"
    by (rule mixLoop_entry) (use Cons.prems in \<open>auto simp: kv\<close>)
  also have "\<dots> = mixLoop ((pre @ mixText (k, val)) @ concat (map mixText kvs) @ rest)
      (length (pre @ mixText (k, val)) + length (concat (map mixText kvs)))
      ((vs @ [mixEntry k val]) @ map (\<lambda>(k, val). mixEntry k val) kvs)"
    using Cons.IH[of "pre @ mixText (k, val)" "vs @ [mixEntry k val]"] Cons.prems by simp
  finally show ?case by (simp add: kv add.assoc)
qed simp

lemma mixLoop_end: "mixLoop (pre @ [newline]) (length pre) vs = Inr vs"
proof -
  have "skipSpace (pre @ [newline]) (length pre) = length pre + 1"
    unfolding skipSpace_at by (simp add: skipLen_space stop_chars) (simp add: skipLen.simps)
  then show ?thesis by (subst mixLoop.simps) simp
qed

lemma braceBody_append: "a \<in> braceBody \<Longrightarrow> b \<in> braceBody \<Longrightarrow> a @ b \<in> braceBody"
  by (induction rule: braceBody.induct) (auto intro: braceBody.intros)

lemma plain_body: "list_all (\<lambda>c. c \<noteq> dquote \<and> c \<noteq> openBrace \<and> c \<noteq> closeBrace) a \<Longrightarrow> a \<in> braceBody"
  by (induction a) (auto intro: braceBody.intros)

lemma mixText_body:
  assumes "k \<in> strBody" and "braceTerm val"
  shows "mixText (k, val) \<in> braceBody"
proof -
  obtain w where w: "w \<in> braceBody" "val = openBrace # w @ [closeBrace]" using assms(2) by (auto simp: braceTerm_def)
  have "newline # ''  '' \<in> braceBody" "'': '' \<in> braceBody" "'','' \<in> braceBody" by (rule plain_body; code_simp)+
  moreover have "dquote # k @ dquote # [] \<in> braceBody" using body_string[OF assms(1) body_Nil] .
  moreover have "openBrace # w @ closeBrace # [] \<in> braceBody" using body_braces[OF w(1) body_Nil] .
  ultimately have "(newline # ''  '') @ (dquote # k @ [dquote]) @ '': '' @ (openBrace # w @ [closeBrace]) @ '','' \<in> braceBody"
    by (intro braceBody_append)
  then show ?thesis by (simp add: mixText_def w(2))
qed

text \<open>C35: A lockfile of Mix is read back: for a list of entries, each a quoted key and a tuple of the
  grammar that starts as a Hex package, the packages are exactly those of the entries,
  in their order and without a warning.\<close>

theorem parseMixLock_entries:
  assumes ok: "list_all (\<lambda>(k, val). k \<in> strBody \<and> braceTerm val) kvs"
    and hex: "map (\<lambda>(k, val). hexEntryRE val) kvs = map Some nvs" and d: "distinct nvs"
  shows "parseMixLock (''%{'' @ concat (map mixText kvs) @ newline # ''}'' @ tail)
    = Inr (map (\<lambda>(n, v). flatRef ''hexpm'' n v []) nvs, [])"
proof -
  let ?body = "concat (map mixText kvs) @ [newline]"
  let ?s = "''%{'' @ concat (map mixText kvs) @ newline # ''}'' @ tail"
  have "[newline] \<in> braceBody" by (rule plain_body) code_simp
  moreover have "concat (map mixText kvs) \<in> braceBody"
    using ok by (induction kvs) (auto intro: braceBody_append mixText_body body_Nil)
  ultimately have body: "?body \<in> braceBody" by (rule braceBody_append[rotated])
  have s: "?s = ''%'' @ openBrace # ?body @ closeBrace # tail" by (simp add: openBrace_def closeBrace_def)
  have m: "matchBrace ?s (0 + 1) = Some (length ?body + 2)"
    using matchBrace_term[OF body, of "''%''" tail] unfolding s by simp
  have sl: "slice ?s (0 + 2) (length ?body + 2) = ?body"
    using slice_at[of "''%{''" ?body "''}'' @ tail"] by (simp add: add.commute numeral_2_eq_2)
  have i: "indexOf ?s ''%{'' = Some 0" by (simp add: hasPrefix_def)
  have vs: "map (\<lambda>(k, val). mixEntry k val) kvs = map Pinned (map (\<lambda>(n, v). flatRef ''hexpm'' n v []) nvs)"
    using hex by (induction kvs arbitrary: nvs) (auto simp: mixEntry_def)
  have l: "mixLoop ?body 0 [] = Inr (map Pinned (map (\<lambda>(n, v). flatRef ''hexpm'' n v []) nvs))"
    using mixLoop_entries[OF ok, of "[]" "[newline]" "[]"] mixLoop_end[of "concat (map mixText kvs)"] vs by simp
  have "distinct (map pkgName (map (\<lambda>(n, v). flatRef ''hexpm'' n v []) nvs))"
    using d by (simp add: comp_def case_prod_beta pkgName_def)
  then show ?thesis
    unfolding parseMixLock_def i option.case m sl l sum.case by (simp only: collect_all)
qed

end
