(* ===== verification/Lock_Rebar.thy ===== *)
theory Lock_Rebar
  imports Lock_Mix
begin

text \<open>
  The parser of \<open>rebar.lock\<close>, Erlang terms that are searched with regular expressions:
  \<open>rebarlock.go\<close>.  A pattern is a scan of the text behind a position, and all matches are
  found from left to right without overlap.
\<close>

section \<open>Patterns\<close>

text \<open>A binary \<open><<"text">>\<close>, and a comma between spaces.\<close>

definition scanBinary :: "string \<Rightarrow> (string \<times> string) option" where
  "scanBinary s = do {
     r1 \<leftarrow> scanLit (''<<'' @ [dquote]) s;
     (text, r2) \<leftarrow> scanRun (\<lambda>c. c \<noteq> dquote) r1;
     r3 \<leftarrow> scanLit (dquote # ''>>'') r2;
     Some (text, r3) }"

definition scanComma :: "string \<Rightarrow> string option" where
  "scanComma s = do { r \<leftarrow> scanLit '','' (skipRe s); Some (skipRe r) }"

definition rebarPkgEntryRE :: "string \<Rightarrow> ((string \<times> string \<times> string) \<times> string) option" where
  "rebarPkgEntryRE s = do {
     r1 \<leftarrow> scanLit ''{'' s;
     (alias, r2) \<leftarrow> scanBinary r1;
     r3 \<leftarrow> scanComma r2;
     r4 \<leftarrow> scanLit ''{pkg'' r3;
     r5 \<leftarrow> scanComma r4;
     (name, r6) \<leftarrow> scanBinary r5;
     r7 \<leftarrow> scanComma r6;
     (version, r8) \<leftarrow> scanBinary r7;
     r9 \<leftarrow> scanLit ''}'' (skipRe r8);
     Some ((alias, name, version), r9) }"

definition lowerStart :: "char \<Rightarrow> bool" where
  "lowerStart c \<longleftrightarrow> isLower c \<or> c = CHR ''_''"

definition rebarOtherSourceRE :: "string \<Rightarrow> ((string \<times> string) \<times> string) option" where
  "rebarOtherSourceRE s = do {
     r1 \<leftarrow> scanLit ''{'' s;
     (alias, r2) \<leftarrow> scanBinary r1;
     r3 \<leftarrow> scanComma r2;
     r4 \<leftarrow> scanLit ''{'' r3;
     (source, r5) \<leftarrow> scanRun wordChar r4;
     r6 \<leftarrow> scanLit '','' (skipRe r5);
     if lowerStart (hd source) then Some ((alias, source), r6) else None }"

definition rebarHashEntryRE :: "string \<Rightarrow> ((string \<times> string) \<times> string) option" where
  "rebarHashEntryRE s = do {
     r1 \<leftarrow> scanLit ''{'' s;
     (alias, r2) \<leftarrow> scanBinary r1;
     r3 \<leftarrow> scanComma r2;
     (hash, r4) \<leftarrow> scanBinary r3;
     r5 \<leftarrow> scanLit ''}'' (skipRe r4);
     Some ((alias, hash), r5) }"

text \<open>The text up to the first bracket that a brace follows, and the first section.\<close>

fun lazyEnd :: "string \<Rightarrow> string option" where
  "lazyEnd [] = None"
| "lazyEnd (c # s) =
     (if c = CHR '']'' \<and> scanLit ''}'' (skipRe s) \<noteq> None then Some [] else map_option (Cons c) (lazyEnd s))"

fun rebarPkgHashSectionRE :: "string \<Rightarrow> string option" where
  "rebarPkgHashSectionRE [] = None"
| "rebarPkgHashSectionRE (c # s) =
     (case do { r1 \<leftarrow> scanLit ''{pkg_hash'' (c # s); r2 \<leftarrow> scanComma r1; r3 \<leftarrow> scanLit ''['' r2; lazyEnd r3 } of
        Some body \<Rightarrow> Some body
      | None \<Rightarrow> rebarPkgHashSectionRE s)"

text \<open>\<open>FindAll\<close>: start, end and captures of each match.\<close>

function findAll :: "(string \<Rightarrow> ('a \<times> string) option) \<Rightarrow> nat \<Rightarrow> string \<Rightarrow> (nat \<times> nat \<times> 'a) list" where
  "findAll m i s = (case s of [] \<Rightarrow> [] | c # r \<Rightarrow>
     (case m s of
        Some (a, rest) \<Rightarrow>
          if length rest < length s then (i, i + (length s - length rest), a) # findAll m (i + (length s - length rest)) rest
          else findAll m (i + 1) r
      | None \<Rightarrow> findAll m (i + 1) r))"
  by auto
termination
  by (relation "measure (\<lambda>(m, i, s). length s)") auto

declare findAll.simps [simp del]

section \<open>The parser\<close>

definition hashByAlias :: "string \<Rightarrow> (string \<times> string) list" where
  "hashByAlias src = (case rebarPkgHashSectionRE src of
     None \<Rightarrow> []
   | Some body \<Rightarrow> fold (\<lambda>(_, _, alias, hash). putEntry alias hash) (findAll rebarHashEntryRE 0 body) [])"

definition insideAny :: "nat \<Rightarrow> (nat \<times> nat) list \<Rightarrow> bool" where
  "insideAny pos spans \<longleftrightarrow> list_ex (\<lambda>(a, b). a \<le> pos \<and> pos < b) spans"

text \<open>The two passes: the Hex packages, then the sources that cannot be vetted.\<close>

definition rebarPkg :: "(string \<times> string) list \<Rightarrow> nat \<times> nat \<times> string \<times> string \<times> string \<Rightarrow> entryVerdict" where
  "rebarPkg hashes m = (case m of (_, _, alias, name, version) \<Rightarrow>
     Pinned (flatRef ''hexpm'' name version (case map_of hashes alias of None \<Rightarrow> [] | Some h \<Rightarrow> h)))"

definition rebarOther :: "(nat \<times> nat \<times> string \<times> string \<times> string) list \<Rightarrow> nat \<times> nat \<times> string \<times> string \<Rightarrow> entryVerdict" where
  "rebarOther hex m = (case m of (start, _, alias, source) \<Rightarrow>
     if insideAny start (map (\<lambda>(a, b, _). (a, b)) hex) then Quiet
     else if source = ''pkg'' \<or> alias \<in> (\<lambda>(_, _, alias, _). alias) ` set hex then Quiet
     else Warned (SkippedName alias (Reason (source @ '' source''))))"

definition parseRebarLock :: "string \<Rightarrow> packageRef list \<times> lockWarning list" where
  "parseRebarLock src =
     (let hex = findAll rebarPkgEntryRE 0 src in
      collect (map (rebarPkg (hashByAlias src)) hex @ map (rebarOther hex) (findAll rebarOtherSourceRE 0 src)))"

definition rebar_Parse :: "files \<Rightarrow> string \<Rightarrow> parseError + parseResult" where
  "rebar_Parse = parseFile (\<lambda>src. Inr (flatResult (parseRebarLock src)))"

text \<open>A package with more fields than the pattern has is dropped without a warning.\<close>

definition rebarHashed :: string where
  "rebarHashed = ''[{<<'' @ [dquote] @ ''a'' @ [dquote] @ ''>>,{pkg,<<'' @ [dquote] @ ''a'' @ [dquote] @ ''>>,<<''
     @ [dquote] @ ''1.0.0'' @ [dquote] @ ''>>,<<'' @ [dquote] @ ''h'' @ [dquote] @ ''>>},0}].''"

lemma rebar_drops_hashed: "parseRebarLock rebarHashed = ([], [])"
  by code_simp

end
