(* ===== verification/Lock_Npm.thy ===== *)
theory Lock_Npm
  imports Lockfile
begin

text \<open>
  The lockfiles of npm and Yarn: \<open>package-lock.json\<close> from the decoded document, whose maps are
  lists in the order in which Go ranges over them, and \<open>yarn.lock\<close> by its text.
  \<open>srtP\<close> is \<open>sort.Slice\<close> on packages.
\<close>

section \<open>package-lock.json\<close>

record rawLockNode =
  rnName :: string
  rnVersion :: string
  rnResolved :: string
  rnIntegrity :: string
  rnDependencies :: "(string \<times> string) list"
  rnDevDependencies :: "(string \<times> string) list"
  rnOptionalDeps :: "(string \<times> string) list"
  rnPeerDeps :: "(string \<times> string) list"
  rnDev :: bool
  rnOptional :: bool

record rawLockfile =
  rlLockfileVersion :: int
  rlPackages :: "(string \<times> rawLockNode) list"

text \<open>The text behind the last occurrence of a separator.\<close>

fun afterLast :: "string \<Rightarrow> string \<Rightarrow> string option" where
  "afterLast sep [] = None"
| "afterLast sep (c # s) = (case afterLast sep s of
     Some r \<Rightarrow> Some r
   | None \<Rightarrow> if hasPrefix (c # s) sep then Some (drop (length sep) (c # s)) else None)"

definition nodePackageName :: "string \<Rightarrow> rawLockNode \<Rightarrow> string" where
  "nodePackageName path node =
     (if rnName node \<noteq> [] then rnName node
      else (case afterLast ''node_modules/'' path of
          None \<Rightarrow> []
        | Some rest \<Rightarrow>
            if hasPrefix rest ''@'' then
              (case splitChar (CHR ''/'') rest of a # b # _ \<Rightarrow> a @ ''/'' @ b | _ \<Rightarrow> [])
            else takeWhile (\<lambda>c. c \<noteq> CHR ''/'') rest))"

definition refLess :: "packageRef \<Rightarrow> packageRef \<Rightarrow> bool" where
  "refLess a b = (if pkPackageID a \<noteq> pkPackageID b then pkPackageID a < pkPackageID b else pkVersion a < pkVersion b)"

type_synonym refSort = "(packageRef \<Rightarrow> packageRef \<Rightarrow> bool) \<Rightarrow> packageRef list \<Rightarrow> packageRef list"

definition resolvable :: "string \<times> rawLockNode \<Rightarrow> bool" where
  "resolvable pn \<longleftrightarrow> nodePackageName (fst pn) (snd pn) \<noteq> [] \<and> rnVersion (snd pn) \<noteq> []"

text \<open>The nodes other than the root; the map from names to keys, where the last node wins.\<close>

definition lockNodes :: "rawLockfile \<Rightarrow> (string \<times> rawLockNode) list" where
  "lockNodes lock = filter (\<lambda>pn. fst pn \<noteq> []) (rlPackages lock)"

definition nodeKey :: "string \<times> rawLockNode \<Rightarrow> string" where
  "nodeKey pn = nodePackageName (fst pn) (snd pn) @ ''@'' @ rnVersion (snd pn)"

definition nameToKey :: "rawLockfile \<Rightarrow> (string \<times> string) list" where
  "nameToKey lock = fold (\<lambda>pn. putEntry (nodePackageName (fst pn) (snd pn)) (nodeKey pn)) (filter resolvable (lockNodes lock)) []"

definition rootDirects :: "rawLockfile \<Rightarrow> string list" where
  "rootDirects lock = (case map_of (rlPackages lock) [] of
     None \<Rightarrow> []
   | Some root \<Rightarrow> map fst (rnDependencies root) @ map fst (rnDevDependencies root) @ map fst (rnOptionalDeps root))"

definition nodeRef :: "string list \<Rightarrow> string \<times> rawLockNode \<Rightarrow> packageRef" where
  "nodeRef directs pn =
     \<lparr>pkEcosystem = ''npm'', pkPackageID = nodePackageName (fst pn) (snd pn), pkVersion = rnVersion (snd pn),
      pkDirect = nodePackageName (fst pn) (snd pn) \<in> set directs, pkHash = rnIntegrity (snd pn), pkSource = rnResolved (snd pn)\<rparr>"

definition nodeDeps :: "(string \<times> string) list \<Rightarrow> string \<times> rawLockNode \<Rightarrow> string list" where
  "nodeDeps keys pn = sort (List.map_filter (map_of keys) (map fst (rnDependencies (snd pn)) @ map fst (rnOptionalDeps (snd pn))))"

definition lockEdges :: "rawLockfile \<Rightarrow> edgeMap" where
  "lockEdges lock = fold (\<lambda>pn edges. let deps = nodeDeps (nameToKey lock) pn in
     if deps \<noteq> [] then putEntry (nodeKey pn) deps edges else edges) (filter resolvable (lockNodes lock)) []"

definition convertPackageLock :: "refSort \<Rightarrow> rawLockfile \<Rightarrow> parseResult" where
  "convertPackageLock srtP lock =
     (if rlLockfileVersion lock < 2 then
        \<lparr>psPackages = [], psEdges = None, psWarnings = [OldLockfileVersion (rlLockfileVersion lock)]\<rparr>
      else
        \<lparr>psPackages = srtP refLess (map (nodeRef (rootDirects lock)) (filter resolvable (lockNodes lock))),
         psEdges = Some (lockEdges lock),
         psWarnings = map (\<lambda>pn. NoNameVersion (fst pn)) (filter (\<lambda>pn. \<not> resolvable pn) (lockNodes lock))\<rparr>)"

definition packageLock_Parse :: "refSort \<Rightarrow> (string \<Rightarrow> rawLockfile option) \<Rightarrow> files \<Rightarrow> string \<Rightarrow> parseError + parseResult" where
  "packageLock_Parse srtP decode = decodeFile decode (convertPackageLock srtP)"

section \<open>yarn.lock\<close>

definition unquote :: "string \<Rightarrow> string" where
  "unquote s0 = (let s = trimSpace s0 in
     if 2 \<le> length s \<and> byte (hd s) = 34 \<and> byte (last s) = 34 then butlast (tl s) else s)"

text \<open>\<open>strings.Split\<close> at a comma and a space.\<close>

fun splitComma :: "string \<Rightarrow> string list" where
  "splitComma [] = [[]]"
| "splitComma (c # s) =
     (case s of
        d # s' \<Rightarrow> if c = CHR '','' \<and> d = CHR '' '' then [] # splitComma s'
          else (case splitComma s of [] \<Rightarrow> [[c]] | p # ps \<Rightarrow> (c # p) # ps)
      | [] \<Rightarrow> [[c]])"

definition parseYarnHeaders :: "string \<Rightarrow> string list" where
  "parseYarnHeaders line = map (\<lambda>p. unquote (trimSpace p)) (splitComma (trimSuffix (trimSpace line) '':''))"

text \<open>Name and constraint, at the last at-sign that is not the first character of a scope.\<close>

definition splitYarnHeader :: "string \<Rightarrow> string \<times> string" where
  "splitYarnHeader h =
     (let k = (if hasPrefix h ''@'' then 1 else 0) in
      case afterLast ''@'' (drop k h) of
        None \<Rightarrow> (h, [])
      | Some constraint \<Rightarrow> (take (length h - length constraint - 1) h, constraint))"

definition isYarnNonRegistryConstraint :: "string \<Rightarrow> bool" where
  "isYarnNonRegistryConstraint s \<longleftrightarrow> list_ex (hasPrefix s)
     [''git+'', ''git://'', ''git@'', ''file:'', ''http://'', ''link:'', ''portal:'', ''patch:'', ''exec:'']"

definition classifyYarnNonRegistry :: "string \<Rightarrow> string" where
  "classifyYarnNonRegistry s =
     (if list_ex (hasPrefix s) [''git+'', ''git://'', ''git@''] then ''git source''
      else if hasPrefix s ''file:'' then ''file source''
      else if hasPrefix s ''link:'' \<or> hasPrefix s ''portal:'' then ''workspace link''
      else if hasPrefix s ''patch:'' then ''patched package''
      else if hasPrefix s ''exec:'' then ''exec source'' else ''non-registry source'')"

record yarnBlock =
  ybHeaders :: "string list"
  ybVersion :: string
  ybIntegrity :: string
  ybResolved :: string

definition yarnBody :: "string \<Rightarrow> yarnBlock \<Rightarrow> yarnBlock" where
  "yarnBody line b =
     (let body = dropWhile (\<lambda>c. c = CHR '' '') line in
      if \<not> hasPrefix line ''  '' \<or> hasPrefix line ''    '' then b
      else if hasPrefix body ''version '' then b\<lparr>ybVersion := unquote (trimPrefix body ''version '')\<rparr>
      else if hasPrefix body ''integrity '' then b\<lparr>ybIntegrity := unquote (trimPrefix body ''integrity '')\<rparr>
      else if hasPrefix body ''resolved '' then b\<lparr>ybResolved := unquote (trimPrefix body ''resolved '')\<rparr>
      else b)"

text \<open>The blocks so far and the current one.\<close>

fun yarnLine :: "string \<Rightarrow> yarnBlock list \<times> yarnBlock option \<Rightarrow> yarnBlock list \<times> yarnBlock option" where
  "yarnLine line (blocks, current) =
     (if hasPrefix (trimSpace line) ''#'' then (blocks, current)
      else if line = [] then (blocks @ (case current of None \<Rightarrow> [] | Some b \<Rightarrow> [b]), None)
      else if hd line \<noteq> CHR '' '' then
        (blocks @ (case current of None \<Rightarrow> [] | Some b \<Rightarrow> [b]),
         Some \<lparr>ybHeaders = parseYarnHeaders line, ybVersion = [], ybIntegrity = [], ybResolved = []\<rparr>)
      else (blocks, map_option (yarnBody line) current))"

definition yarnBlocks :: "string list \<Rightarrow> yarnBlock list" where
  "yarnBlocks ls = (case fold yarnLine ls ([], None) of (blocks, current) \<Rightarrow>
     blocks @ (case current of None \<Rightarrow> [] | Some b \<Rightarrow> [b]))"

definition yarnEntry :: "yarnBlock \<Rightarrow> entryVerdict" where
  "yarnEntry b =
     (case ybHeaders b of [] \<Rightarrow> Quiet | h # _ \<Rightarrow>
       (case splitYarnHeader h of (name, constraint) \<Rightarrow>
          if name = [] then Quiet
          else if isYarnNonRegistryConstraint constraint then
            Warned (SkippedName name (Reason (classifyYarnNonRegistry constraint)))
          else if ybVersion b = [] then Warned (SkippedName name (Reason ''no version''))
          else if isYarnNonRegistryConstraint (ybResolved b) then
            Warned (SkippedEntry name (ybVersion b) (Reason (classifyYarnNonRegistry (ybResolved b))))
          else Pinned ((flatRef ''npm'' name (ybVersion b) (ybIntegrity b))\<lparr>pkSource := ybResolved b\<rparr>)))"

definition parseYarnLock :: "refSort \<Rightarrow> string \<Rightarrow> packageRef list \<times> lockWarning list" where
  "parseYarnLock srtP body =
     (case collect (map yarnEntry (yarnBlocks (fst (scanText body)))) of (pkgs, ws) \<Rightarrow> (srtP refLess pkgs, ws))"

definition yarn_Parse :: "refSort \<Rightarrow> files \<Rightarrow> string \<Rightarrow> parseError + parseResult" where
  "yarn_Parse srtP = parseFile (\<lambda>body. Inr (flatResult (parseYarnLock srtP body)))"

interpretation yarn: lock_entries "''npm''" yarnEntry "\<lambda>n. n \<noteq> []"
proof
  fix e r
  assume "yarnEntry e = Pinned r"
  then obtain n where "r = (flatRef ''npm'' n (ybVersion e) (ybIntegrity e))\<lparr>pkSource := ybResolved e\<rparr>" "n \<noteq> []" "ybVersion e \<noteq> []"
    by (auto simp: yarnEntry_def split: list.splits prod.splits if_splits)
  then show "pkEcosystem r = ''npm''" "pkVersion r \<noteq> [] \<and> pkPackageID r \<noteq> []" by simp_all
qed

section \<open>What is lost or doubled\<close>

text \<open>An alias such as \<open>x@npm:real@1\<close> is listed under a name that is no package of the registry.\<close>

lemma splitYarnHeader_alias: "splitYarnHeader ''x@npm:real@1'' = (''x@npm:real'', ''1'')"
  by code_simp

text \<open>Two copies of a package in one tree are two rows with the same name and version.\<close>

definition twoCopies :: rawLockfile where
  "twoCopies = (let n = \<lparr>rnName = [], rnVersion = ''1'', rnResolved = [], rnIntegrity = [], rnDependencies = [],
      rnDevDependencies = [], rnOptionalDeps = [], rnPeerDeps = [], rnDev = False, rnOptional = False\<rparr> in
    \<lparr>rlLockfileVersion = 3, rlPackages = [(''node_modules/a/node_modules/c'', n), (''node_modules/b/node_modules/c'', n)]\<rparr>)"

lemma packageLock_doubles: "map pkgName (psPackages (convertPackageLock (\<lambda>lt rs. rs) twoCopies)) = [(''c'', ''1''), (''c'', ''1'')]"
  by code_simp

end
