(* ===== verification/Lock_Examples.thy ===== *)
theory Lock_Examples
  imports Lock_Gosum Lock_Pypi Lock_Decoded Lock_Rebar Lock_Npm
begin

text \<open>The properties of the parsers are applied to small lockfiles.\<close>

lemma plain_words:
  "plainText ''m''" "plainText ''v1''" "plainText ''v1/go.mod''" "plainText ''h1''" "plainText ''h2''"
  by code_simp+

definition demoSum :: "string list" where
  "demoSum = [''m v1 h1'', ''m v1/go.mod h2'']"

lemma demoSum_entries: "sumEntries demoSum = [(''m'', ''v1'', False, ''h1''), (''m'', ''v1'', True, ''h2'')]"
  by code_simp

lemma parseGoSum_exact_witness:
  "\<exists>pkgs ws. parseGoSum (concat (map (\<lambda>l. l @ [newline]) demoSum)) = Inr (pkgs, ws)
     \<and> pkgName ` set pkgs = {(''m'', ''v1'')}"
proof -
  have "list_all plainLine demoSum" by code_simp
  then have s: "scanText (concat (map (\<lambda>l. l @ [newline]) demoSum)) = (demoSum, True)" by (rule scanText_lines)
  have k: "(\<lambda>(m, v, b, h). (m, v)) ` set (sumEntries demoSum) = {(''m'', ''v1'')}" by (simp add: demoSum_entries)
  from parseGoSum_exact[OF s] show ?thesis unfolding k by blast
qed

lemma parseRequirements_frozen_witness:
  "parseRequirements (concat (map (\<lambda>nv. frozenLine nv @ [newline]) [(''ab-c'', ''1.0''), (''z'', ''2'')]))
    = Inr ([flatRef ''pypi'' ''ab-c'' ''1.0'' [], flatRef ''pypi'' ''z'' ''2'' []], [])"
proof -
  have "list_all frozen [(''ab-c'', ''1.0''), (''z'', ''2'')]" by code_simp
  from parseRequirements_frozen[OF this] show ?thesis by simp
qed

text \<open>A line of exactly a mebibyte in front of another one.\<close>

lemma long_line_hides_packages_witness:
  "gemfile_Parse [''f'' \<mapsto> ''a'' @ newline # replicate (nat maxToken) (CHR ''x'') @ newline # ''b''] ''f''
    = gemfile_Parse [''f'' \<mapsto> ''a'' @ [newline]] ''f''"
proof -
  have "list_all plainLine [''a'']" by code_simp
  moreover have "newline \<notin> set (replicate (nat maxToken) (CHR ''x''))"
  proof -
    have "newline \<noteq> CHR ''x''" by code_simp
    then show ?thesis by (simp only: in_set_replicate) simp
  qed
  moreover have "maxToken \<le> int (length (replicate (nat maxToken) (CHR ''x'')))" by simp
  ultimately show ?thesis
    using long_line_hides_packages[of "[''a'']" "replicate (nat maxToken) (CHR ''x'')"
        "[''f'' \<mapsto> ''a'' @ newline # replicate (nat maxToken) (CHR ''x'') @ newline # ''b'']" "''f''" "''b''"
        "[''f'' \<mapsto> ''a'' @ [newline]]"] by simp
qed

definition demoTuple :: string where
  "demoTuple = ''{:hex, :jason, '' @ [dquote] @ ''1.4.0'' @ [dquote] @ '', [:mix], []}''"

lemma demoTuple_term: "braceTerm demoTuple"
proof -
  have "'':hex, :jason, '' \<in> braceBody" "'', [:mix], []'' \<in> braceBody" by (rule plain_body; code_simp)+
  moreover have "''1.4.0'' \<in> strBody" by (intro strBody.intros; code_simp)
  then have "dquote # ''1.4.0'' @ dquote # [] \<in> braceBody" by (rule body_string) (rule body_Nil)
  ultimately have "'':hex, :jason, '' @ (dquote # ''1.4.0'' @ dquote # []) @ '', [:mix], []'' \<in> braceBody"
    by (intro braceBody_append)
  moreover have "demoTuple = openBrace # ('':hex, :jason, '' @ (dquote # ''1.4.0'' @ dquote # []) @ '', [:mix], []'') @ [closeBrace]"
    by code_simp
  ultimately show ?thesis unfolding braceTerm_def by blast
qed

lemma parseMixLock_entries_witness:
  "parseMixLock (''%{'' @ mixText (''jason'', demoTuple) @ newline # ''}'' @ [newline])
    = Inr ([flatRef ''hexpm'' ''jason'' ''1.4.0'' []], [])"
proof -
  have "''jason'' \<in> strBody" by (intro strBody.intros; code_simp)
  then have "list_all (\<lambda>(k, val). k \<in> strBody \<and> braceTerm val) [(''jason'', demoTuple)]" using demoTuple_term by simp
  moreover have "map (\<lambda>(k, val). hexEntryRE val) [(''jason'', demoTuple)] = map Some [(''jason'', ''1.4.0'')]" by code_simp
  ultimately show ?thesis using parseMixLock_entries[of "[(''jason'', demoTuple)]" "[(''jason'', ''1.4.0'')]" "[newline]"] by simp
qed

end
