(* ===== verification/Registries.thy ===== *)
theory Registries
  imports Gosum_Version Pypi_Names Lockfile
begin

text \<open>
  The registries that a signing command asks whether a version exists: \<open>resolve.go\<close> of the
  ecosystems.  The environment of the process, the network and the decoders of the
  replies are parameters; \<open>http url\<close> is \<open>None\<close> when nobody answers, otherwise a status
  and the body, which is \<open>None\<close> when it cannot be read.
\<close>

section \<open>Requests\<close>

type_synonym environment = "string \<Rightarrow> string"

type_synonym httpGet = "string \<Rightarrow> (nat \<times> string option) option"

datatype resolveError =
    NoRegistry | ContactFailed | NotInRegistry | StatusRefused nat | ReplyUnread | ReplyUnparsed
  | BadModulePath | RegistrySays string | NoVersionField

record versionInfo =
  viPackageID :: string
  viVersion :: string
  viHash :: string
  viHashAlgo :: string

text \<open>Without a hash there is no name of an algorithm.\<close>

definition versionInfo :: "string \<Rightarrow> string \<Rightarrow> string \<Rightarrow> string \<Rightarrow> versionInfo" where
  "versionInfo p v hash algo =
     \<lparr>viPackageID = p, viVersion = v, viHash = hash, viHashAlgo = (if hash = [] then [] else algo)\<rparr>"

lemma versionInfo_sel [simp]:
  "viPackageID (versionInfo p v h a) = p" "viVersion (versionInfo p v h a) = v" "viHash (versionInfo p v h a) = h"
  by (simp_all add: versionInfo_def)

definition pickURL :: "environment \<Rightarrow> string \<Rightarrow> string \<Rightarrow> string" where
  "pickURL env name fallback = (if env name \<noteq> [] then env name else fallback)"

text \<open>The base URLs, from the environment or the default.\<close>

definition pickCargoURL :: "environment \<Rightarrow> string" where
  "pickCargoURL env = pickURL env ''TILLIT_CARGO_URL'' ''https://crates.io''"

definition pickHexpmURL :: "environment \<Rightarrow> string" where
  "pickHexpmURL env = pickURL env ''TILLIT_HEXPM_URL'' ''https://hex.pm''"

definition pickPubURL :: "environment \<Rightarrow> string" where
  "pickPubURL env = pickURL env ''TILLIT_PUB_URL'' ''https://pub.dev''"

definition pickPyPIURL :: "environment \<Rightarrow> string" where
  "pickPyPIURL env = pickURL env ''TILLIT_PYPI_URL'' ''https://pypi.org''"

definition pickNugetURL :: "environment \<Rightarrow> string" where
  "pickNugetURL env = pickURL env ''TILLIT_NUGET_URL'' ''https://api.nuget.org''"

definition pickCocoapodsURL :: "environment \<Rightarrow> string" where
  "pickCocoapodsURL env = pickURL env ''TILLIT_COCOAPODS_URL'' ''https://trunk.cocoapods.org''"

definition pickRubygemsURL :: "environment \<Rightarrow> string" where
  "pickRubygemsURL env = pickURL env ''TILLIT_RUBYGEMS_URL'' ''https://rubygems.org''"

definition pickComposerURL :: "environment \<Rightarrow> string" where
  "pickComposerURL env = pickURL env ''TILLIT_COMPOSER_URL'' ''https://repo.packagist.org''"

text \<open>The reply to a request: 404 and 410 say that there is no such version.\<close>

definition registryGet :: "httpGet \<Rightarrow> string \<Rightarrow> resolveError + string option" where
  "registryGet http url =
     (case http url of
        None \<Rightarrow> Inl ContactFailed
      | Some (code, body) \<Rightarrow>
          if code = 200 then Inr body
          else if code = 404 \<or> code = 410 then Inl NotInRegistry else Inl (StatusRefused code))"

text \<open>At most \<open>limit\<close> bytes are read.\<close>

definition registryBody :: "nat \<Rightarrow> httpGet \<Rightarrow> string \<Rightarrow> resolveError + string" where
  "registryBody limit http url = bindE (registryGet http url) (\<lambda>body.
     case body of None \<Rightarrow> Inl ReplyUnread | Some b \<Rightarrow> Inr (take limit b))"

definition decodeReply :: "(string \<Rightarrow> 'd option) \<Rightarrow> nat \<Rightarrow> httpGet \<Rightarrow> string \<Rightarrow> resolveError + 'd" where
  "decodeReply dec limit http url = bindE (registryBody limit http url) (\<lambda>b.
     case dec b of None \<Rightarrow> Inl ReplyUnparsed | Some d \<Rightarrow> Inr d)"

section \<open>URLs\<close>

text \<open>\<open>url.PathEscape\<close>.\<close>

definition unescaped :: "char \<Rightarrow> bool" where
  "unescaped c \<longleftrightarrow> isAlnum c \<or> c \<in> {CHR ''-'', CHR ''_'', CHR ''.'', CHR ''~'', CHR ''$'', CHR ''&'', CHR ''+'', CHR ''='', CHR '':'', CHR ''@''}"

definition upperHex :: "nat \<Rightarrow> char" where
  "upperHex n = char_of (if n < 10 then 48 + n else 55 + n)"

definition escapeByte :: "char \<Rightarrow> string" where
  "escapeByte c = (if unescaped c then [c] else [CHR ''%'', upperHex (byte c div 16), upperHex (byte c mod 16)])"

definition pathEscape :: "string \<Rightarrow> string" where
  "pathEscape s = concat (map escapeByte s)"

lemma byte_upperHex: "n < 16 \<Longrightarrow> byte (upperHex n) = (if n < 10 then 48 + n else 55 + n)"
  by (simp add: byte_def upperHex_def)

lemma upperHex_inj: "m < 16 \<Longrightarrow> n < 16 \<Longrightarrow> upperHex m = upperHex n \<Longrightarrow> m = n"
proof -
  assume "m < 16" "n < 16" "upperHex m = upperHex n"
  then have "(if m < 10 then 48 + m else 55 + m) = (if n < 10 then 48 + n else 55 + n)"
    using byte_upperHex by metis
  then show "m = n" by (simp split: if_splits)
qed

lemma byte_split: "byte c div 16 < 16 \<and> byte c mod 16 < 16 \<and> byte c = 16 * (byte c div 16) + byte c mod 16"
proof -
  have "byte c < 256" by (simp add: byte_def)
  then show ?thesis by simp
qed

lemma escapeByte_cancel:
  assumes "escapeByte c @ s = escapeByte d @ t"
  shows "c = d \<and> s = t"
proof -
  have percent: "\<not> unescaped (CHR ''%'')" by code_simp
  consider "unescaped c" "unescaped d" | "\<not> unescaped c" "\<not> unescaped d"
    using assms percent by (auto simp: escapeByte_def split: if_splits)
  then show ?thesis
  proof cases
    case 1
    with assms show ?thesis by (simp add: escapeByte_def)
  next
    case 2
    then have "upperHex (byte c div 16) = upperHex (byte d div 16)" "upperHex (byte c mod 16) = upperHex (byte d mod 16)" "s = t"
      using assms by (simp_all add: escapeByte_def)
    then have "byte c = byte d" using byte_split[of c] byte_split[of d] upperHex_inj by metis
    with \<open>s = t\<close> show ?thesis by (simp add: byte_def)
  qed
qed

lemma pathEscape_inj: "pathEscape s = pathEscape t \<longleftrightarrow> s = t"
proof
  assume "pathEscape s = pathEscape t"
  then show "s = t"
  proof (induction s arbitrary: t)
    case Nil
    then show ?case by (cases t) (auto simp: pathEscape_def escapeByte_def split: if_splits)
  next
    case (Cons c s)
    then obtain d t' where t: "t = d # t'" by (cases t) (auto simp: pathEscape_def escapeByte_def split: if_splits)
    have "escapeByte c @ pathEscape s = escapeByte d @ pathEscape t'" using Cons.prems by (simp add: t pathEscape_def)
    from escapeByte_cancel[OF this] show ?case using Cons.IH[of t'] by (simp add: t)
  qed
qed simp

lemma upperHex_no_slash: "n < 16 \<Longrightarrow> upperHex n \<noteq> CHR ''/''"
proof
  assume "n < 16" "upperHex n = CHR ''/''"
  moreover have "byte (CHR ''/'') = 47" by code_simp
  ultimately show False using byte_upperHex[of n] by (simp split: if_splits)
qed

lemma pathEscape_no_slash: "CHR ''/'' \<notin> set (pathEscape s)"
proof -
  have "CHR ''/'' \<notin> set (escapeByte c)" for c
  proof (cases "unescaped c")
    case True
    moreover have "\<not> unescaped (CHR ''/'')" by code_simp
    ultimately have "CHR ''/'' \<noteq> c" by blast
    with True show ?thesis by (simp add: escapeByte_def)
  next
    case False
    moreover have "CHR ''/'' \<noteq> upperHex (byte c div 16)" "CHR ''/'' \<noteq> upperHex (byte c mod 16)"
      using byte_split[of c] upperHex_no_slash by metis+
    ultimately show ?thesis by (simp add: escapeByte_def)
  qed
  then show ?thesis by (induction s) (simp_all add: pathEscape_def)
qed

text \<open>Elements without a slash are read off a path.\<close>

lemma slash_cancel:
  assumes "CHR ''/'' \<notin> set a" and "CHR ''/'' \<notin> set a'"
  shows "a @ CHR ''/'' # b = a' @ CHR ''/'' # b' \<longleftrightarrow> a = a' \<and> b = b'"
  using assms by (induction a arbitrary: a') (case_tac a'; auto)+

lemma pathEscape_cancel:
  "pathEscape s @ CHR ''/'' # b = pathEscape t @ CHR ''/'' # b' \<longleftrightarrow> s = t \<and> b = b'"
  using pathEscape_no_slash by (simp add: slash_cancel pathEscape_inj)

section \<open>crates.io, hex.pm, pub.dev\<close>

definition cratesURL :: "string \<Rightarrow> string \<Rightarrow> string \<Rightarrow> string" where
  "cratesURL base p v = trimRightChar (CHR ''/'') base @ ''/api/v1/crates/'' @ pathEscape p @ ''/'' @ pathEscape v"

text \<open>The decoders yield the checksum of the reply.\<close>

definition cargo_Resolve :: "environment \<Rightarrow> httpGet \<Rightarrow> (string \<Rightarrow> string option) \<Rightarrow> string \<Rightarrow> string \<Rightarrow> resolveError + versionInfo" where
  "cargo_Resolve env http dec p v =
     (let base = pickCargoURL env in
      if base = [] then Inl NoRegistry
      else bindE (decodeReply dec (2 ^ 20) http (cratesURL base p v)) (\<lambda>checksum. Inr (versionInfo p v checksum ''sha256'')))"

definition hexpmURL :: "string \<Rightarrow> string \<Rightarrow> string \<Rightarrow> string" where
  "hexpmURL base p v = trimRightChar (CHR ''/'') base @ ''/api/packages/'' @ pathEscape p @ ''/releases/'' @ pathEscape v"

definition hexpm_Resolve :: "environment \<Rightarrow> httpGet \<Rightarrow> (string \<Rightarrow> string option) \<Rightarrow> string \<Rightarrow> string \<Rightarrow> resolveError + versionInfo" where
  "hexpm_Resolve env http dec p v =
     (let base = pickHexpmURL env in
      if base = [] then Inl NoRegistry
      else bindE (decodeReply dec (2 ^ 20) http (hexpmURL base p v)) (\<lambda>checksum. Inr (versionInfo p v checksum ''sha256'')))"

definition pubURL :: "string \<Rightarrow> string \<Rightarrow> string \<Rightarrow> string" where
  "pubURL base p v = trimRightChar (CHR ''/'') base @ ''/api/packages/'' @ pathEscape p @ ''/versions/'' @ pathEscape v"

definition pub_Resolve :: "environment \<Rightarrow> httpGet \<Rightarrow> (string \<Rightarrow> string option) \<Rightarrow> string \<Rightarrow> string \<Rightarrow> resolveError + versionInfo" where
  "pub_Resolve env http dec p v =
     (let base = pickPubURL env in
      if base = [] then Inl NoRegistry
      else bindE (decodeReply dec (2 ^ 20) http (pubURL base p v)) (\<lambda>checksum. Inr (versionInfo p v checksum ''sha256'')))"

section \<open>PyPI\<close>

record pypiArtifact =
  paPackageType :: string
  paSHA256 :: string

definition pickArtifactHash :: "pypiArtifact list \<Rightarrow> string" where
  "pickArtifactHash urls =
     (case find (\<lambda>u. paPackageType u = ''sdist'' \<and> paSHA256 u \<noteq> []) urls of
        Some u \<Rightarrow> paSHA256 u
      | None \<Rightarrow> (case find (\<lambda>u. paSHA256 u \<noteq> []) urls of Some u \<Rightarrow> paSHA256 u | None \<Rightarrow> []))"

definition pypiURL :: "string \<Rightarrow> string \<Rightarrow> string \<Rightarrow> string" where
  "pypiURL base p v = trimRightChar (CHR ''/'') base @ ''/pypi/'' @ pathEscape (normalizePackageName p) @ ''/'' @ pathEscape v @ ''/json''"

definition pypi_Resolve :: "environment \<Rightarrow> httpGet \<Rightarrow> (string \<Rightarrow> pypiArtifact list option) \<Rightarrow> string \<Rightarrow> string \<Rightarrow> resolveError + versionInfo" where
  "pypi_Resolve env http dec p v =
     (let base = pickPyPIURL env in
      if base = [] then Inl NoRegistry
      else bindE (decodeReply dec (2 ^ 20) http (pypiURL base p v)) (\<lambda>urls.
        Inr (versionInfo (normalizePackageName p) v (pickArtifactHash urls) ''sha256'')))"

section \<open>NuGet and CocoaPods\<close>

definition nugetURL :: "string \<Rightarrow> string \<Rightarrow> string \<Rightarrow> string" where
  "nugetURL base p v =
     (let i = pathEscape (toLower p); w = pathEscape (toLower v)
      in trimRightChar (CHR ''/'') base @ ''/v3-flatcontainer/'' @ i @ ''/'' @ w @ ''/'' @ i @ ''.'' @ w @ ''.nupkg.sha512'')"

definition nuget_Resolve :: "environment \<Rightarrow> httpGet \<Rightarrow> string \<Rightarrow> string \<Rightarrow> resolveError + versionInfo" where
  "nuget_Resolve env http p v =
     (let base = pickNugetURL env in
      if base = [] then Inl NoRegistry
      else bindE (registryBody 4096 http (nugetURL base p v)) (\<lambda>body. Inr (versionInfo p v (trimSpace body) ''sha512'')))"

text \<open>A subspec is looked up by its pod; the body is not looked at.\<close>

definition podsURL :: "string \<Rightarrow> string \<Rightarrow> string \<Rightarrow> string" where
  "podsURL base p v = trimRightChar (CHR ''/'') base @ ''/api/v1/pods/'' @ pathEscape (takeWhile (\<lambda>c. c \<noteq> CHR ''/'') p)
     @ ''/specs/'' @ pathEscape v"

definition cocoapods_Resolve :: "environment \<Rightarrow> httpGet \<Rightarrow> string \<Rightarrow> string \<Rightarrow> resolveError + versionInfo" where
  "cocoapods_Resolve env http p v =
     (let base = pickCocoapodsURL env in
      if base = [] then Inl NoRegistry
      else bindE (registryGet http (podsURL base p v)) (\<lambda>_. Inr (versionInfo p v [] [])))"

section \<open>RubyGems and Packagist\<close>

text \<open>These registries list all versions of a package.\<close>

record rubygemsVersion =
  rvNumber :: string
  rvSHA :: string

definition rubygemsURL :: "string \<Rightarrow> string \<Rightarrow> string" where
  "rubygemsURL base p = trimRightChar (CHR ''/'') base @ ''/api/v1/versions/'' @ pathEscape p @ ''.json''"

definition rubygems_Resolve :: "environment \<Rightarrow> httpGet \<Rightarrow> (string \<Rightarrow> rubygemsVersion list option) \<Rightarrow> string \<Rightarrow> string \<Rightarrow> resolveError + versionInfo" where
  "rubygems_Resolve env http dec p v =
     (let base = pickRubygemsURL env in
      if base = [] then Inl NoRegistry
      else bindE (decodeReply dec (2 ^ 24) http (rubygemsURL base p)) (\<lambda>versions.
        case find (\<lambda>w. rvNumber w = v) versions of
          None \<Rightarrow> Inl NotInRegistry
        | Some w \<Rightarrow> Inr (versionInfo p v (rvSHA w) ''sha256'')))"

record packagistVersion =
  pvVersion :: string
  pvShasum :: "string option"

text \<open>\<open>SplitN\<close> at the first slash, each part escaped.\<close>

definition escapePackageName :: "string \<Rightarrow> string" where
  "escapePackageName p = (case cutChar (CHR ''/'') p of (vendor, name, found) \<Rightarrow>
     if found then pathEscape vendor @ ''/'' @ pathEscape name else pathEscape p)"

definition packagistURL :: "string \<Rightarrow> string \<Rightarrow> string" where
  "packagistURL base p = trimRightChar (CHR ''/'') base @ ''/p2/'' @ escapePackageName p @ ''.json''"

text \<open>The reply is a map, a list in the order in which Go ranges over it; \<open>eqFold\<close> is
  \<open>strings.EqualFold\<close>.\<close>

definition packagistVersions ::
  "(string \<Rightarrow> string \<Rightarrow> bool) \<Rightarrow> string \<Rightarrow> (string \<times> packagistVersion list) list \<Rightarrow> packagistVersion list" where
  "packagistVersions eqFold p packages =
     (case map_of packages p of
        Some vs \<Rightarrow> vs
      | None \<Rightarrow> (case find (\<lambda>kv. eqFold (fst kv) p) packages of Some kv \<Rightarrow> snd kv | None \<Rightarrow> []))"

definition composer_Resolve ::
  "environment \<Rightarrow> httpGet \<Rightarrow> (string \<Rightarrow> string \<Rightarrow> bool) \<Rightarrow> (string \<Rightarrow> (string \<times> packagistVersion list) list option)
     \<Rightarrow> string \<Rightarrow> string \<Rightarrow> resolveError + versionInfo" where
  "composer_Resolve env http eqFold dec p v =
     (let base = pickComposerURL env in
      if base = [] then Inl NoRegistry
      else bindE (decodeReply dec (2 ^ 24) http (packagistURL base p)) (\<lambda>packages.
        case find (\<lambda>w. trimPrefix (pvVersion w) ''v'' = trimPrefix v ''v'') (packagistVersions eqFold p packages) of
          None \<Rightarrow> Inl NotInRegistry
        | Some w \<Rightarrow> Inr (versionInfo p v (case pvShasum w of None \<Rightarrow> [] | Some h \<Rightarrow> h) ''sha1'')))"

section \<open>npm\<close>

record npmReply =
  nrName :: string
  nrVersion :: string
  nrIntegrity :: string
  nrShasum :: string
  nrError :: string

definition pickRegistry :: "environment \<Rightarrow> string" where
  "pickRegistry env = pickURL env ''npm_config_registry'' (pickURL env ''NPM_CONFIG_REGISTRY'' ''https://registry.npmjs.org'')"

text \<open>The name is not escaped.\<close>

definition encodePackageName :: "string \<Rightarrow> string" where
  "encodePackageName name = name"

definition npmURL :: "string \<Rightarrow> string \<Rightarrow> string \<Rightarrow> string" where
  "npmURL base p v = trimRightChar (CHR ''/'') base @ ''/'' @ encodePackageName p @ ''/'' @ pathEscape v"

definition parseRegistryResponse :: "(string \<Rightarrow> npmReply option) \<Rightarrow> string \<Rightarrow> string \<Rightarrow> string \<Rightarrow> resolveError + versionInfo" where
  "parseRegistryResponse dec body p v =
     (case dec body of
        None \<Rightarrow> Inl ReplyUnparsed
      | Some r \<Rightarrow>
          if nrError r \<noteq> [] then Inl (RegistrySays (nrError r))
          else if nrVersion r = [] then Inl NoVersionField
          else if nrIntegrity r \<noteq> [] then
            Inr \<lparr>viPackageID = p, viVersion = v, viHash = nrIntegrity r,
              viHashAlgo = (case indexOf (nrIntegrity r) ''-'' of None \<Rightarrow> [] | Some i \<Rightarrow> take i (nrIntegrity r))\<rparr>
          else if nrShasum r \<noteq> [] then Inr (versionInfo p v (''sha1-'' @ nrShasum r) ''sha1'')
          else Inr (versionInfo p v [] []))"

definition npm_Resolve :: "environment \<Rightarrow> httpGet \<Rightarrow> (string \<Rightarrow> npmReply option) \<Rightarrow> string \<Rightarrow> string \<Rightarrow> resolveError + versionInfo" where
  "npm_Resolve env http dec p v =
     (let base = pickRegistry env in
      if base = [] then Inl NoRegistry
      else bindE (registryBody (2 ^ 20) http (npmURL base p v)) (\<lambda>body. parseRegistryResponse dec body p v))"

section \<open>Go\<close>

text \<open>Only the first of the two separators that occurs in the list is split at.\<close>

definition trimmedItems :: "char \<Rightarrow> string \<Rightarrow> string list" where
  "trimmedItems sep s = filter (\<lambda>p. p \<noteq> []) (map trimSpace (splitChar sep s))"

definition splitProxyList :: "string \<Rightarrow> string list" where
  "splitProxyList s =
     (if CHR '','' \<in> set s then trimmedItems (CHR '','') s
      else if CHR ''|'' \<in> set s then trimmedItems (CHR ''|'') s
      else [trimSpace s])"

definition isHttpURL :: "string \<Rightarrow> bool" where
  "isHttpURL s \<longleftrightarrow> hasPrefix s ''http://'' \<or> hasPrefix s ''https://''"

definition defaultGoProxy :: string where "defaultGoProxy = ''https://proxy.golang.org''"

definition defaultGoSumDB :: string where "defaultGoSumDB = ''https://sum.golang.org''"

fun proxyLoop :: "string list \<Rightarrow> string" where
  "proxyLoop [] = defaultGoProxy"
| "proxyLoop (item # items) =
     (if item = ''off'' then []
      else if item = ''direct'' then proxyLoop items
      else if isHttpURL item then item else proxyLoop items)"

definition pickGoProxy :: "environment \<Rightarrow> string" where
  "pickGoProxy env = (if env ''GOPROXY'' = [] then defaultGoProxy else proxyLoop (splitProxyList (env ''GOPROXY'')))"

definition pickGoSumDB :: "environment \<Rightarrow> string" where
  "pickGoSumDB env =
     (let raw = env ''GOSUMDB'' in
      if raw = ''off'' then [] else if raw = [] then defaultGoSumDB
      else (case find isHttpURL (Go_Strings.fields raw) of Some f \<Rightarrow> f | None \<Rightarrow> defaultGoSumDB))"

text \<open>\<open>getInfo\<close> looks at the status only.\<close>

definition getInfo :: "httpGet \<Rightarrow> string \<Rightarrow> resolveError option" where
  "getInfo http url = (case registryGet http url of Inl e \<Rightarrow> Some e | Inr _ \<Rightarrow> None)"

text \<open>The scanner has its default buffer here, so that a line of 65536 bytes stops it.\<close>

definition sumdbLine :: "string \<Rightarrow> string option" where
  "sumdbLine line =
     (case Go_Strings.fields line of
        _ # v # h # _ \<Rightarrow> if hasSuffix v ''/go.mod'' \<or> \<not> hasPrefix h ''h1:'' then None else Some h
      | _ \<Rightarrow> None)"

definition sumdbHash :: "string \<Rightarrow> string option" where
  "sumdbHash body =
     (case List.map_filter sumdbLine (map dropCR (takeWhile (\<lambda>l. length l < 2 ^ 16) (rawLines (take (2 ^ 16) body)))) of
        [] \<Rightarrow> None | h # _ \<Rightarrow> Some h)"

definition lookupSumDB :: "httpGet \<Rightarrow> string \<Rightarrow> string option" where
  "lookupSumDB http url = (case http url of
     Some (code, Some body) \<Rightarrow> if code = 200 then sumdbHash body else None
   | _ \<Rightarrow> None)"

definition goInfoURL :: "string \<Rightarrow> string \<Rightarrow> string \<Rightarrow> string" where
  "goInfoURL proxy m v = trimRightChar (CHR ''/'') proxy @ ''/'' @ m @ ''/@v/'' @ v @ ''.info''"

definition goSumURL :: "string \<Rightarrow> string \<Rightarrow> string \<Rightarrow> string" where
  "goSumURL sumdb p v = trimRightChar (CHR ''/'') sumdb @ ''/lookup/'' @ p @ ''@'' @ v"

definition gosum_Resolve :: "environment \<Rightarrow> httpGet \<Rightarrow> string \<Rightarrow> string \<Rightarrow> resolveError + versionInfo" where
  "gosum_Resolve env http p v =
     (if pickGoProxy env = [] then Inl NoRegistry
      else (case (escapeModulePath p, escapeVersion v) of
          (Some m, Some w) \<Rightarrow>
            (case getInfo http (goInfoURL (pickGoProxy env) m w) of
               Some e \<Rightarrow> Inl e
             | None \<Rightarrow>
                 (let hash = (if pickGoSumDB env = [] then None else lookupSumDB http (goSumURL (pickGoSumDB env) p v)) in
                  Inr (case hash of Some h \<Rightarrow> versionInfo p v h ''h1'' | None \<Rightarrow> versionInfo p v [] [])))
        | _ \<Rightarrow> Inl BadModulePath))"

text \<open>Swift packages have no registry.\<close>

definition swiftpm_Resolve :: "string \<Rightarrow> string \<Rightarrow> resolveError + versionInfo" where
  "swiftpm_Resolve p v = Inr (versionInfo p v [] [])"

section \<open>What a registry confirms\<close>

lemma registryGet_Inr: "registryGet http u = Inr b \<longleftrightarrow> http u = Some (200, b)"
  by (auto simp: registryGet_def split: option.splits prod.splits)

lemma registryBody_Inr: "registryBody limit http u = Inr b \<longleftrightarrow> (\<exists>body. http u = Some (200, Some body) \<and> b = take limit body)"
  by (auto simp: registryBody_def bindE_eq_Inr registryGet_Inr split: option.splits)

lemma decodeReply_Inr:
  "decodeReply dec limit http u = Inr d \<longleftrightarrow> (\<exists>body. http u = Some (200, Some body) \<and> dec (take limit body) = Some d)"
  by (auto simp: decodeReply_def bindE_eq_Inr registryBody_Inr split: option.splits)

lemmas reply_simps = bindE_eq_Inr registryGet_Inr registryBody_Inr decodeReply_Inr Let_def

text \<open>
  A version passes only when the registry answers the request for it with 200, and the
  answer to no other request matters.
\<close>

locale registry_check =
  fixes url :: "string \<Rightarrow> string \<Rightarrow> string" and resolve :: "httpGet \<Rightarrow> string \<Rightarrow> string \<Rightarrow> resolveError + versionInfo"
  assumes answered: "resolve http p v = Inr info \<Longrightarrow> \<exists>body. http (url p v) = Some (200, body)"
    and asked: "resolve http p v = Inr info \<Longrightarrow> viVersion info = v"
begin

lemma refused: "(\<And>body. http (url p v) \<noteq> Some (200, body)) \<Longrightarrow> \<exists>e. resolve http p v = Inl e"
  using answered[of http p v] by (cases "resolve http p v") auto

end

text \<open>Requests for different releases differ, where \<open>same\<close> says which releases are one.\<close>

locale registry_urls = registry_check url resolve
  for url :: "string \<Rightarrow> string \<Rightarrow> string" and resolve :: "httpGet \<Rightarrow> string \<Rightarrow> string \<Rightarrow> resolveError + versionInfo" +
  fixes same :: "string \<times> string \<Rightarrow> string \<times> string \<Rightarrow> bool"
  assumes apart: "url p v = url p' v' \<Longrightarrow> same (p, v) (p', v')"
begin

lemma confirms_known:
  assumes "\<And>u body. http u = Some (200, body) \<Longrightarrow> u \<in> (\<lambda>(p, v). url p v) ` known"
    and "resolve http p v = Inr info"
  shows "\<exists>x\<in>known. same (p, v) x"
proof -
  obtain body where "http (url p v) = Some (200, body)" using answered[OF assms(2)] by blast
  then have "url p v \<in> (\<lambda>(p, v). url p v) ` known" by (rule assms(1))
  then obtain p' v' where "(p', v') \<in> known" "url p v = url p' v'" by auto
  with apart[OF this(2)] show ?thesis by blast
qed

end

interpretation cargoReg: registry_urls "cratesURL (pickCargoURL env)"
    "\<lambda>http. cargo_Resolve env http dec" "(=)" for env dec
  by standard (auto simp: cargo_Resolve_def cratesURL_def reply_simps pathEscape_cancel pathEscape_inj split: if_splits)

interpretation hexpmReg: registry_urls "hexpmURL (pickHexpmURL env)"
    "\<lambda>http. hexpm_Resolve env http dec" "(=)" for env dec
  by standard (auto simp: hexpm_Resolve_def hexpmURL_def reply_simps pathEscape_cancel pathEscape_inj split: if_splits)

interpretation pubReg: registry_urls "pubURL (pickPubURL env)"
    "\<lambda>http. pub_Resolve env http dec" "(=)" for env dec
  by standard (auto simp: pub_Resolve_def pubURL_def reply_simps pathEscape_cancel pathEscape_inj split: if_splits)

definition samePypi :: "string \<times> string \<Rightarrow> string \<times> string \<Rightarrow> bool" where
  "samePypi x y \<longleftrightarrow> normalizePackageName (fst x) = normalizePackageName (fst y) \<and> snd x = snd y"

interpretation pypiReg: registry_urls "pypiURL (pickPyPIURL env)"
    "\<lambda>http. pypi_Resolve env http dec" samePypi for env dec
  by standard (auto simp: pypi_Resolve_def pypiURL_def samePypi_def reply_simps pathEscape_cancel pathEscape_inj split: if_splits)

definition sameNuget :: "string \<times> string \<Rightarrow> string \<times> string \<Rightarrow> bool" where
  "sameNuget x y \<longleftrightarrow> toLower (fst x) = toLower (fst y) \<and> toLower (snd x) = toLower (snd y)"

interpretation nugetReg: registry_urls "nugetURL (pickNugetURL env)"
    "nuget_Resolve env" sameNuget for env
  by standard (auto simp: nuget_Resolve_def nugetURL_def sameNuget_def reply_simps pathEscape_cancel pathEscape_inj split: if_splits)

definition samePod :: "string \<times> string \<Rightarrow> string \<times> string \<Rightarrow> bool" where
  "samePod x y \<longleftrightarrow> takeWhile (\<lambda>c. c \<noteq> CHR ''/'') (fst x) = takeWhile (\<lambda>c. c \<noteq> CHR ''/'') (fst y) \<and> snd x = snd y"

interpretation podsReg: registry_urls "podsURL (pickCocoapodsURL env)"
    "cocoapods_Resolve env" samePod for env
  by standard (auto simp: cocoapods_Resolve_def podsURL_def samePod_def reply_simps pathEscape_cancel pathEscape_inj split: if_splits)

lemma parseRegistryResponse_version: "parseRegistryResponse dec body p v = Inr info \<Longrightarrow> viVersion info = v"
  by (cases "dec body") (auto simp: parseRegistryResponse_def split: if_splits)

interpretation npmReg: registry_check "npmURL (pickRegistry env)" "\<lambda>http. npm_Resolve env http dec" for env dec
  by standard (auto simp: npm_Resolve_def reply_simps dest: parseRegistryResponse_version split: if_splits)

lemma rubygems_Resolve_Inr:
  assumes "rubygems_Resolve env http dec p v = Inr info"
  obtains versions w where
    "decodeReply dec (2 ^ 24) http (rubygemsURL (pickRubygemsURL env) p) = Inr versions"
    "find (\<lambda>w. rvNumber w = v) versions = Some w" "info = versionInfo p v (rvSHA w) ''sha256''"
proof -
  obtain versions where d: "decodeReply dec (2 ^ 24) http (rubygemsURL (pickRubygemsURL env) p) = Inr versions"
      and c: "(case find (\<lambda>w. rvNumber w = v) versions of None \<Rightarrow> Inl NotInRegistry
        | Some w \<Rightarrow> Inr (versionInfo p v (rvSHA w) ''sha256'')) = Inr info"
    using assms by (auto simp: rubygems_Resolve_def Let_def bindE_eq_Inr split: if_splits)
  from c obtain w where "find (\<lambda>w. rvNumber w = v) versions = Some w" "info = versionInfo p v (rvSHA w) ''sha256''"
    by (cases "find (\<lambda>w. rvNumber w = v) versions") simp_all
  with d that show ?thesis by blast
qed

interpretation gemReg: registry_check "\<lambda>p v. rubygemsURL (pickRubygemsURL env) p"
    "\<lambda>http. rubygems_Resolve env http dec" for env dec
  by standard (auto simp: decodeReply_Inr elim!: rubygems_Resolve_Inr)

lemma composer_Resolve_Inr:
  assumes "composer_Resolve env http eqFold dec p v = Inr info"
  obtains packages w where
    "decodeReply dec (2 ^ 24) http (packagistURL (pickComposerURL env) p) = Inr packages"
    "find (\<lambda>w. trimPrefix (pvVersion w) ''v'' = trimPrefix v ''v'') (packagistVersions eqFold p packages) = Some w"
    "info = versionInfo p v (case pvShasum w of None \<Rightarrow> [] | Some h \<Rightarrow> h) ''sha1''"
proof -
  let ?find = "\<lambda>packages. find (\<lambda>w. trimPrefix (pvVersion w) ''v'' = trimPrefix v ''v'') (packagistVersions eqFold p packages)"
  obtain packages where d: "decodeReply dec (2 ^ 24) http (packagistURL (pickComposerURL env) p)
        = Inr packages"
      and c: "(case ?find packages of None \<Rightarrow> Inl NotInRegistry
        | Some w \<Rightarrow> Inr (versionInfo p v (case pvShasum w of None \<Rightarrow> [] | Some h \<Rightarrow> h) ''sha1'')) = Inr info"
    using assms by (auto simp: composer_Resolve_def Let_def bindE_eq_Inr split: if_splits)
  from c obtain w where "?find packages = Some w" "info = versionInfo p v (case pvShasum w of None \<Rightarrow> [] | Some h \<Rightarrow> h) ''sha1''"
    by (cases "?find packages") simp_all
  with d that show ?thesis by blast
qed

interpretation packagistReg: registry_check
    "\<lambda>p v. packagistURL (pickComposerURL env) p"
    "\<lambda>http. composer_Resolve env http eqFold dec" for env eqFold dec
  by standard (auto simp: decodeReply_Inr elim!: composer_Resolve_Inr)

section \<open>Go\<close>

lemma getInfo_None: "getInfo http u = None \<longleftrightarrow> (\<exists>body. http u = Some (200, body))"
  using registryGet_Inr[of http u] by (cases "registryGet http u") (auto simp: getInfo_def)

lemma gosum_Resolve_Inr:
  assumes "gosum_Resolve env http p v = Inr info"
  obtains m w body where "escapeModulePath p = Some m" "escapeVersion v = Some w"
    "http (goInfoURL (pickGoProxy env) m w) = Some (200, body)" "viVersion info = v"
  using assms that
  by (auto simp: gosum_Resolve_def Let_def getInfo_None split: if_splits option.splits)

interpretation goReg: registry_check
    "\<lambda>p v. goInfoURL (pickGoProxy env) (the (escapeModulePath p)) (the (escapeVersion v))" "gosum_Resolve env" for env
  by standard (erule gosum_Resolve_Inr, force)+

text \<open>An entry \<open>off\<close> behind a proxy is not honoured, and of two separators only the comma is.\<close>

lemma proxyLoop_off_late: "isHttpURL u \<Longrightarrow> proxyLoop [u, ''off''] = u"
  by (auto simp: isHttpURL_def hasPrefix_def)

lemma splitProxyList_mixed: "splitProxyList ''a|b,c'' = [''a|b'', ''c'']"
  by code_simp

text \<open>The name of an npm package reaches the URL as it is: one with a question mark asks for
  another version than the one that is confirmed.\<close>

lemma npmURL_confused: "npmURL ''r'' ''p/1?'' ''2'' = ''r/p/1?/2''"
  by code_simp

text \<open>An exclamation mark in a module path is not refused, and then collides with a capital letter.\<close>

lemma escapeModulePath_collides: "escapeModulePath ''a/!b'' = escapeModulePath ''a/B''"
  by code_simp

end
