(* ===== verification/Adapters.thy ===== *)
theory Adapters
  imports Registries Cli_Check Lock_Gosum Lock_Pypi Lock_Decoded Lock_Rebar Lock_Npm Semver Gem_Version Pypi_Version
begin

text \<open>
  The list \<open>adapters\<close> of \<open>check.go\<close>: every lockfile format with its ecosystem, its names, its
  parser, its order of versions, its validation and its registry.  What the
  adapters share within an ecosystem is the type that they embed, \<open>common.go\<close>.
\<close>

section \<open>Environment\<close>

text \<open>
  The decoders of lockfiles and of replies, the process, the network, \<open>sort.Slice\<close>,
  \<open>strings.EqualFold\<close>, the \<open>go\<close> command and the wording of errors are parameters.
\<close>

record adapterEnv =
  aeEnv :: environment
  aeHttp :: httpGet
  aeSort :: refSort
  aeFold :: "string \<Rightarrow> string \<Rightarrow> bool"
  aeModGraph :: "string \<Rightarrow> string + string"
  aePackageLock :: "string \<Rightarrow> rawLockfile option"
  aeUv :: "string \<Rightarrow> uvLockPackage list option"
  aePoetry :: "string \<Rightarrow> poetryLockPackage list option"
  aePipfile :: "string \<Rightarrow> pipfileLockFile option"
  aePdm :: "string \<Rightarrow> pdmLockPackage list option"
  aeGleam :: "string \<Rightarrow> gleamManifestPackage list option"
  aeCargo :: "string \<Rightarrow> cargoLockPackage list option"
  aeComposer :: "string \<Rightarrow> composerLockFile option"
  aeNuget :: "string \<Rightarrow> (string \<times> (string \<times> packagesLockEntry) list) list option"
  aePub :: "string \<Rightarrow> (string \<times> pubspecLockPackage) list option"
  aeSwift :: "string \<Rightarrow> packageResolvedFile option"
  aeCrateReply :: "string \<Rightarrow> string option"
  aeHexReply :: "string \<Rightarrow> string option"
  aePubReply :: "string \<Rightarrow> string option"
  aePypiReply :: "string \<Rightarrow> pypiArtifact list option"
  aeGemReply :: "string \<Rightarrow> rubygemsVersion list option"
  aePackagistReply :: "string \<Rightarrow> (string \<times> packagistVersion list) list option"
  aeNpmReply :: "string \<Rightarrow> npmReply option"
  aeSemverText :: "semverError \<Rightarrow> string"
  aeGoText :: "goVersionError \<Rightarrow> string"
  aePepText :: "pepError \<Rightarrow> string"
  aeGemText :: "gemError \<Rightarrow> string"
  aeResolveText :: "resolveError \<Rightarrow> string"

section \<open>Ecosystems\<close>

text \<open>What the adapters of an ecosystem share.\<close>

record adapterCommon =
  acEcosystem :: string
  acCompare :: "string \<Rightarrow> string \<Rightarrow> int"
  acValidate :: "string \<Rightarrow> string option"
  acResolve :: "string \<Rightarrow> string \<Rightarrow> resolveError + versionInfo"

definition semverCommon :: "adapterEnv \<Rightarrow> string \<Rightarrow> (string \<Rightarrow> string \<Rightarrow> resolveError + versionInfo) \<Rightarrow> adapterCommon" where
  "semverCommon ae eco resolve =
     \<lparr>acEcosystem = eco, acCompare = semver_Compare, acValidate = (\<lambda>v. map_option (aeSemverText ae) (semver_Validate v)),
      acResolve = resolve\<rparr>"

definition goCommon :: "adapterEnv \<Rightarrow> adapterCommon" where
  "goCommon ae =
     \<lparr>acEcosystem = ''go'', acCompare = compareGoVersion, acValidate = (\<lambda>v. map_option (aeGoText ae) (ValidateVersion v)),
      acResolve = gosum_Resolve (aeEnv ae) (aeHttp ae)\<rparr>"

definition npmCommon :: "adapterEnv \<Rightarrow> adapterCommon" where
  "npmCommon ae = semverCommon ae ''npm'' (npm_Resolve (aeEnv ae) (aeHttp ae) (aeNpmReply ae))"

definition pypiCommon :: "adapterEnv \<Rightarrow> adapterCommon" where
  "pypiCommon ae =
     \<lparr>acEcosystem = ''pypi'', acCompare = comparePEP440, acValidate = (\<lambda>v. map_option (aePepText ae) (pypi_ValidateVersion v)),
      acResolve = pypi_Resolve (aeEnv ae) (aeHttp ae) (aePypiReply ae)\<rparr>"

definition hexpmCommon :: "adapterEnv \<Rightarrow> adapterCommon" where
  "hexpmCommon ae = semverCommon ae ''hexpm'' (hexpm_Resolve (aeEnv ae) (aeHttp ae) (aeHexReply ae))"

definition cargoCommon :: "adapterEnv \<Rightarrow> adapterCommon" where
  "cargoCommon ae = semverCommon ae ''cargo'' (cargo_Resolve (aeEnv ae) (aeHttp ae) (aeCrateReply ae))"

definition composerCommon :: "adapterEnv \<Rightarrow> adapterCommon" where
  "composerCommon ae = semverCommon ae ''composer'' (composer_Resolve (aeEnv ae) (aeHttp ae) (aeFold ae) (aePackagistReply ae))"

definition nugetCommon :: "adapterEnv \<Rightarrow> adapterCommon" where
  "nugetCommon ae = semverCommon ae ''nuget'' (nuget_Resolve (aeEnv ae) (aeHttp ae))"

definition pubCommon :: "adapterEnv \<Rightarrow> adapterCommon" where
  "pubCommon ae = semverCommon ae ''pub'' (pub_Resolve (aeEnv ae) (aeHttp ae) (aePubReply ae))"

definition rubygemsCommon :: "adapterEnv \<Rightarrow> adapterCommon" where
  "rubygemsCommon ae =
     \<lparr>acEcosystem = ''rubygems'', acCompare = compareGemVersion, acValidate = (\<lambda>v. map_option (aeGemText ae) (validateGemVersion v)),
      acResolve = rubygems_Resolve (aeEnv ae) (aeHttp ae) (aeGemReply ae)\<rparr>"

definition swiftpmCommon :: "adapterEnv \<Rightarrow> adapterCommon" where
  "swiftpmCommon ae = semverCommon ae ''swiftpm'' swiftpm_Resolve"

definition cocoapodsCommon :: "adapterEnv \<Rightarrow> adapterCommon" where
  "cocoapodsCommon ae = semverCommon ae ''cocoapods'' (cocoapods_Resolve (aeEnv ae) (aeHttp ae))"

definition commons :: "adapterEnv \<Rightarrow> adapterCommon list" where
  "commons ae = [goCommon ae, npmCommon ae, pypiCommon ae, hexpmCommon ae, cargoCommon ae, composerCommon ae,
     nugetCommon ae, pubCommon ae, rubygemsCommon ae, swiftpmCommon ae, cocoapodsCommon ae]"

section \<open>Formats\<close>

definition lockFormat ::
  "adapterEnv \<Rightarrow> adapterCommon \<Rightarrow> string \<Rightarrow> (string \<Rightarrow> bool) \<Rightarrow> (files \<Rightarrow> string \<Rightarrow> parseError + parseResult) \<Rightarrow> lockAdapter" where
  "lockFormat ae c name canParse parse =
     \<lparr>adName = name, adEcosystem = acEcosystem c, adCanParse = canParse, adCompare = acCompare c, adValidate = acValidate c,
      adResolve = (\<lambda>p v. case acResolve c p v of Inl e \<Rightarrow> Some (aeResolveText ae e) | Inr _ \<Rightarrow> None),
      adParse = parse, adGraph = None\<rparr>"

text \<open>Most formats have one file name.\<close>

definition namedFormat ::
  "adapterEnv \<Rightarrow> adapterCommon \<Rightarrow> string \<Rightarrow> (files \<Rightarrow> string \<Rightarrow> parseError + parseResult) \<Rightarrow> lockAdapter" where
  "namedFormat ae c name parse = lockFormat ae c name (baseIs name) parse"

definition adapters :: "adapterEnv \<Rightarrow> lockAdapter list" where
  "adapters ae =
     [(lockFormat ae (goCommon ae) ''go.sum'' gosum_CanParse gosum_Parse)\<lparr>adGraph := Some (gosum_Graph (aeModGraph ae))\<rparr>,
      namedFormat ae (npmCommon ae) ''package-lock.json'' (packageLock_Parse (aeSort ae) (aePackageLock ae)),
      namedFormat ae (npmCommon ae) ''yarn.lock'' (yarn_Parse (aeSort ae)),
      lockFormat ae (pypiCommon ae) ''requirements.txt'' requirements_CanParse requirements_Parse,
      namedFormat ae (pypiCommon ae) ''uv.lock'' (uv_Parse (aeUv ae)),
      namedFormat ae (pypiCommon ae) ''poetry.lock'' (poetry_Parse (aePoetry ae)),
      namedFormat ae (pypiCommon ae) ''Pipfile.lock'' (pipfile_Parse (aePipfile ae)),
      namedFormat ae (pypiCommon ae) ''pdm.lock'' (pdm_Parse (aePdm ae)),
      namedFormat ae (hexpmCommon ae) ''mix.lock'' mix_Parse,
      namedFormat ae (hexpmCommon ae) ''manifest.toml'' (gleam_Parse (aeGleam ae)),
      namedFormat ae (hexpmCommon ae) ''rebar.lock'' rebar_Parse,
      namedFormat ae (cargoCommon ae) ''Cargo.lock'' (cargo_Parse (aeCargo ae)),
      namedFormat ae (composerCommon ae) ''composer.lock'' (composer_Parse (aeComposer ae)),
      namedFormat ae (nugetCommon ae) ''packages.lock.json'' (nuget_Parse (aeNuget ae)),
      namedFormat ae (pubCommon ae) ''pubspec.lock'' (pub_Parse (aePub ae)),
      namedFormat ae (rubygemsCommon ae) ''Gemfile.lock'' gemfile_Parse,
      namedFormat ae (swiftpmCommon ae) ''Package.resolved'' (swift_Parse (aeSwift ae)),
      namedFormat ae (cocoapodsCommon ae) ''Podfile.lock'' podfile_Parse]"

section \<open>The contract\<close>

text \<open>The packages of a format have its ecosystem and a name that is normal there.\<close>

definition normalName :: "string \<Rightarrow> string \<Rightarrow> bool" where
  "normalName eco n \<longleftrightarrow> (eco = ''pypi'' \<longrightarrow> pypiName n)"

definition ownRefs :: "string \<Rightarrow> packageRef list \<Rightarrow> bool" where
  "ownRefs eco rs \<longleftrightarrow> (\<forall>r\<in>set rs. pkEcosystem r = eco \<and> normalName eco (pkPackageID r))"

definition ownParse :: "string \<Rightarrow> (files \<Rightarrow> string \<Rightarrow> parseError + parseResult) \<Rightarrow> bool" where
  "ownParse eco parse \<longleftrightarrow> (\<forall>fs f res. parse fs f = Inr res \<longrightarrow> ownRefs eco (psPackages res))"

lemma psPackages_flat [simp]: "psPackages (flatResult r) = fst r"
  by (simp add: flatResult_def)

lemma normalName_other: "eco \<noteq> ''pypi'' \<Longrightarrow> normalName eco n"
  by (simp add: normalName_def)

lemma ownParse_file: "(\<And>body res. parse body = Inr res \<Longrightarrow> ownRefs eco (psPackages res)) \<Longrightarrow> ownParse eco (parseFile parse)"
  by (auto simp: ownParse_def parseFile_def split: option.splits)

lemma ownParse_decode: "(\<And>d. ownRefs eco (psPackages (convert d))) \<Longrightarrow> ownParse eco (decodeFile dec convert)"
  unfolding decodeFile_def by (rule ownParse_file) (auto split: option.splits)

lemma ownRefs_collect: "(\<And>r. Pinned r \<in> set vs \<Longrightarrow> pkEcosystem r = eco \<and> normalName eco (pkPackageID r)) \<Longrightarrow> ownRefs eco (fst (collect vs))"
  by (auto simp: ownRefs_def dest: collect_sound)

lemma ownRefs_sort: "mset rs' = mset rs \<Longrightarrow> ownRefs eco rs' = ownRefs eco rs"
  unfolding ownRefs_def by (metis set_mset_mset)

lemma refsOk_own: "refsOk eco normal rs \<Longrightarrow> (\<And>n. normal n \<Longrightarrow> normalName eco n) \<Longrightarrow> ownRefs eco rs"
  by (simp add: refsOk_def ownRefs_def)

section \<open>Every format keeps it\<close>

named_theorems own_formats \<open>the formats keep the contract\<close>

lemma ownRefs_setSum: "ownRefs ''go'' pkgs \<Longrightarrow> ownRefs ''go'' (setSum m v b h pkgs)"
  by (auto simp: ownRefs_def setSum_def normalName_other)

lemma ownRefs_goSumLine: "ownRefs ''go'' (fst acc) \<Longrightarrow> ownRefs ''go'' (fst (goSumLine nl acc))"
  by (cases "(nl, acc)" rule: goSumLine.cases) (auto simp: Let_def ownRefs_setSum split: list.splits)

lemma own_gosum [own_formats]: "ownParse ''go'' gosum_Parse"
proof -
  have sums: "ownRefs ''go'' (fst r)" if p: "parseGoSum body = Inr r" for body r
  proof -
    obtain ls ok where l: "scanText body = (ls, ok)" by fastforce
    have "ownRefs ''go'' (fst (fold goSumLine (enumerate 1 ls) ([], [])))"
      by (rule fold_invariant') (simp_all add: ownRefs_def[of _ "[]"] ownRefs_goSumLine)
    with p l show ?thesis by (auto simp: parseGoSum_def split: if_splits)
  qed
  show ?thesis
    unfolding ownParse_def
  proof (intro allI impI)
    fix fs f res
    assume "gosum_Parse fs f = Inr res"
    moreover from this obtain body where f: "fs f = Some body" by (auto simp: gosum_Parse_def split: option.splits)
    moreover from calculation obtain pkgs ws where p: "parseGoSum body = Inr (pkgs, ws)"
      by (auto simp: gosum_Parse_def split: sum.splits prod.splits)
    moreover obtain ds mw where "readDirectModules fs (pathJoin (pathDir f) ''go.mod'') = (ds, mw)" by fastforce
    ultimately have r: "psPackages res = map (\<lambda>r. if pkPackageID r \<in> set ds then r\<lparr>pkDirect := True\<rparr> else r) pkgs"
      by (auto simp: gosum_Parse_def)
    from sums[OF p] r show "ownRefs ''go'' (psPackages res)" by (auto simp: ownRefs_def normalName_other)
  qed
qed

lemma parseRequirements_entries:
  assumes "parseRequirements body = Inr r"
  obtains es where "r = collect (map reqEntry es)"
  using assms by (cases "scanText body") (auto simp: parseRequirements_def split: if_splits)

lemma own_requirements [own_formats]: "ownParse ''pypi'' requirements_Parse"
  unfolding requirements_Parse_def
proof (rule ownParse_file)
  fix body res
  assume "(case parseRequirements body of Inl e \<Rightarrow> Inl e | Inr r \<Rightarrow> Inr (flatResult r)) = Inr res"
  then obtain r where r: "parseRequirements body = Inr r" "res = flatResult r" by (cases "parseRequirements body") auto
  obtain es where "r = collect (map reqEntry es)" using r(1) by (rule parseRequirements_entries)
  then show "ownRefs ''pypi'' (psPackages res)"
    using refsOk_own[OF requirements.refs_ok] r(2) by (simp add: normalName_def)
qed

lemma own_pypi [own_formats]:
  "ownParse ''pypi'' (uv_Parse d1)" "ownParse ''pypi'' (poetry_Parse d2)" "ownParse ''pypi'' (pipfile_Parse d3)" "ownParse ''pypi'' (pdm_Parse d4)"
proof -
  note ok = refsOk_own[OF uv.refs_ok] refsOk_own[OF poetry.refs_ok] refsOk_own[OF pipfile.refs_ok] refsOk_own[OF pdm.refs_ok]
  show "ownParse ''pypi'' (uv_Parse d1)" unfolding uv_Parse_def by (rule ownParse_decode) (simp add: ok normalName_def)
  show "ownParse ''pypi'' (poetry_Parse d2)" unfolding poetry_Parse_def by (rule ownParse_decode) (simp add: ok normalName_def)
  show "ownParse ''pypi'' (pipfile_Parse d3)" unfolding pipfile_Parse_def by (rule ownParse_decode) (simp add: ok normalName_def del: map_append)
  show "ownParse ''pypi'' (pdm_Parse d4)" unfolding pdm_Parse_def by (rule ownParse_decode) (simp add: ok normalName_def)
qed

lemma own_entries:
  assumes "\<And>r. r \<in> set (fst (collect (map verdict es))) \<Longrightarrow> pkEcosystem r = eco" and "eco \<noteq> ''pypi''"
  shows "ownRefs eco (fst (collect (map verdict es)))"
  using assms by (simp add: ownRefs_def normalName_other)

lemma own_decoded [own_formats]:
  "ownParse ''cargo'' (cargo_Parse d1)" "ownParse ''composer'' (composer_Parse d2)" "ownParse ''nuget'' (nuget_Parse d3)"
  "ownParse ''pub'' (pub_Parse d4)" "ownParse ''hexpm'' (gleam_Parse d5)" "ownParse ''swiftpm'' (swift_Parse d6)"
proof -
  show "ownParse ''cargo'' (cargo_Parse d1)" unfolding cargo_Parse_def psPackages_flat
    by (rule ownParse_decode, simp only: psPackages_flat, rule own_entries[OF cargo.refs_own]) simp_all
  show "ownParse ''composer'' (composer_Parse d2)" unfolding composer_Parse_def psPackages_flat
    by (rule ownParse_decode, simp only: psPackages_flat, rule own_entries, erule composer.refs_own) simp
  show "ownParse ''nuget'' (nuget_Parse d3)" unfolding nuget_Parse_def psPackages_flat
    by (rule ownParse_decode, simp only: psPackages_flat, rule own_entries[OF nuget.refs_own]) simp_all
  show "ownParse ''pub'' (pub_Parse d4)" unfolding pub_Parse_def psPackages_flat
    by (rule ownParse_decode, simp only: psPackages_flat, rule own_entries[OF pub.refs_own]) simp_all
  show "ownParse ''hexpm'' (gleam_Parse d5)" unfolding gleam_Parse_def psPackages_flat
    by (rule ownParse_decode, simp only: psPackages_flat, rule own_entries[OF gleam.refs_own]) simp_all
  show "ownParse ''swiftpm'' (swift_Parse d6)" unfolding swift_Parse_def psPackages_flat
    by (rule ownParse_decode, simp only: psPackages_flat, rule own_entries[OF swift.refs_own]) simp_all
qed

text \<open>The scanners make their verdicts in several places.\<close>

lemma gemScan_own: "Pinned r \<in> set (gemScan sec b ls) \<Longrightarrow> pkEcosystem r = ''rubygems''"
  by (induction sec b ls rule: gemScan.induct)
    (auto simp: gemEntry_def split: if_splits option.splits gemSection.splits)

lemma own_gemfile [own_formats]: "ownParse ''rubygems'' gemfile_Parse"
  unfolding gemfile_Parse_def parseGemfileLock_def
  by (rule ownParse_file) (auto intro!: ownRefs_collect dest: gemScan_own simp: normalName_other)

interpretation podfile: entries_of "''cocoapods''" "podEntry s" for s
  by standard (auto simp: podEntry_def split: if_splits)

lemma own_podfile [own_formats]: "ownParse ''cocoapods'' podfile_Parse"
  unfolding podfile_Parse_def parsePodfileLock_def Let_def
  by (rule ownParse_file) (auto intro!: own_entries dest: podfile.refs_own)

lemma mixEntry_own: "mixEntry k w = Pinned r \<Longrightarrow> pkEcosystem r = ''hexpm''"
  by (auto simp: mixEntry_def split: option.splits)

lemma mixLoop_own:
  "mixLoop body pos vs = Inr vs' \<Longrightarrow> Pinned r \<in> set vs' \<Longrightarrow> Pinned r \<in> set vs \<or> pkEcosystem r = ''hexpm''"
proof (induction body pos vs rule: mixLoop.induct)
  case (1 body pos0 vs)
  let ?pos = "skipSpace body pos0"
  note step = "1.prems"(1)[unfolded mixLoop.simps[of body pos0 vs] Let_def]
  show ?case
  proof (cases "length body \<le> pos0 \<or> length body \<le> ?pos")
    case True
    with step "1.prems"(2) show ?thesis by simp
  next
    case inside: False
    show ?thesis
    proof (cases "body ! ?pos = dquote")
      case False
      with step inside show ?thesis using "1.IH"(1)[OF refl inside _ _ "1.prems"(2)] by simp
    next
      case quoted: True
      then obtain keyEnd where k: "findStringEnd body ?pos = Some keyEnd"
        using step inside by (cases "findStringEnd body ?pos") simp_all
      let ?key = "slice body (?pos + 1) keyEnd" and ?p2 = "skipSpace body (keyEnd + 1)"
      show ?thesis
      proof (cases "keySeparator body ?p2")
        case None
        with step inside quoted k show ?thesis
          using "1.IH"(2)[OF refl inside _ k refl refl None _ "1.prems"(2)] by simp
      next
        case sep: (Some p3)
        let ?p4 = "skipSpace body p3"
        show ?thesis
        proof (cases "length body \<le> ?p4 \<or> body ! ?p4 \<noteq> openBrace")
          case True
          with step inside quoted k sep show ?thesis
            using "1.IH"(3)[OF refl inside _ k refl refl sep refl True _ "1.prems"(2)] by simp
        next
          case tuple: False
          then obtain valueEnd where m: "matchBrace body ?p4 = Some valueEnd"
            using step inside quoted k sep by (cases "matchBrace body ?p4") simp_all
          then show ?thesis
            using step inside quoted k sep tuple mixEntry_own[OF sym]
              "1.IH"(4)[OF refl inside _ k refl refl sep refl tuple m refl refl _ "1.prems"(2)] by auto
        qed
      qed
    qed
  qed
qed

lemma own_hexpm [own_formats]: "ownParse ''hexpm'' mix_Parse" "ownParse ''hexpm'' rebar_Parse"
proof -
  show "ownParse ''hexpm'' mix_Parse"
    unfolding mix_Parse_def
  proof (rule ownParse_file)
    fix body res
    assume "(case parseMixLock body of Inl e \<Rightarrow> Inl e | Inr r \<Rightarrow> Inr (flatResult r)) = Inr res"
    then obtain part vs where "mixLoop part 0 [] = Inr vs" "psPackages res = fst (collect vs)"
      by (auto simp: parseMixLock_def split: sum.splits option.splits)
    then show "ownRefs ''hexpm'' (psPackages res)"
      by (auto intro!: ownRefs_collect dest: mixLoop_own simp: normalName_other)
  qed
  show "ownParse ''hexpm'' rebar_Parse"
    unfolding rebar_Parse_def parseRebarLock_def Let_def
    by (rule ownParse_file) (auto intro!: ownRefs_collect simp: rebarPkg_def rebarOther_def normalName_other split: prod.splits if_splits)
qed

lemma own_npm [own_formats]:
  assumes srt: "\<And>lt rs. mset (srtP lt rs) = mset rs"
  shows "ownParse ''npm'' (packageLock_Parse srtP d)" "ownParse ''npm'' (yarn_Parse srtP)"
proof -
  have "ownRefs ''npm'' (map (nodeRef ds) pns)" for ds pns by (simp add: ownRefs_def nodeRef_def normalName_other)
  then show "ownParse ''npm'' (packageLock_Parse srtP d)"
    unfolding packageLock_Parse_def
    by (intro ownParse_decode) (simp add: convertPackageLock_def ownRefs_sort[OF srt] ownRefs_def[of _ "[]"])
  show "ownParse ''npm'' (yarn_Parse srtP)"
    unfolding yarn_Parse_def
  proof (rule ownParse_file)
    fix body res
    assume r: "Inr (flatResult (parseYarnLock srtP body)) = (Inr res :: parseError + parseResult)"
    have "ownRefs ''npm'' (fst (collect (map yarnEntry bs)))" for bs by (rule own_entries[OF yarn.refs_own]) simp_all
    with r show "ownRefs ''npm'' (psPackages res)"
      by (auto simp: parseYarnLock_def ownRefs_sort[OF srt] split: prod.splits) (metis fst_conv)
  qed
qed

lemmas common_defs = goCommon_def npmCommon_def pypiCommon_def hexpmCommon_def cargoCommon_def composerCommon_def nugetCommon_def
  pubCommon_def rubygemsCommon_def swiftpmCommon_def cocoapodsCommon_def semverCommon_def

lemma lockFormat_sel [simp]:
  "adEcosystem (lockFormat ae c n cp p) = acEcosystem c" "adCanParse (lockFormat ae c n cp p) = cp"
  "adCompare (lockFormat ae c n cp p) = acCompare c" "adValidate (lockFormat ae c n cp p) = acValidate c"
  "adParse (lockFormat ae c n cp p) = p" "adName (lockFormat ae c n cp p) = n"
  "adResolve (lockFormat ae c n cp p) = (\<lambda>p v. case acResolve c p v of Inl e \<Rightarrow> Some (aeResolveText ae e) | Inr _ \<Rightarrow> None)"
  by (simp_all add: lockFormat_def)

lemma common_ecosystem [simp]:
  "acEcosystem (goCommon ae) = ''go''" "acEcosystem (npmCommon ae) = ''npm''" "acEcosystem (pypiCommon ae) = ''pypi''"
  "acEcosystem (hexpmCommon ae) = ''hexpm''" "acEcosystem (cargoCommon ae) = ''cargo''" "acEcosystem (composerCommon ae) = ''composer''"
  "acEcosystem (nugetCommon ae) = ''nuget''" "acEcosystem (pubCommon ae) = ''pub''" "acEcosystem (rubygemsCommon ae) = ''rubygems''"
  "acEcosystem (swiftpmCommon ae) = ''swiftpm''" "acEcosystem (cocoapodsCommon ae) = ''cocoapods''"
  by (simp_all add: common_defs)

lemma adapters_own:
  assumes "\<And>lt rs. mset (aeSort ae lt rs) = mset rs"
  shows "list_all (\<lambda>a. ownParse (adEcosystem a) (adParse a)) (adapters ae)"
  using own_npm[OF assms] by (simp add: adapters_def namedFormat_def own_formats)

text \<open>C8: Whatever lockfile an adapter of the list reads, every package it reports carries the
  ecosystem of the adapter, and a Python package carries its canonical name: with
  these the resolver looks for decisions.\<close>

theorem adapters_contract:
  assumes "\<And>lt rs. mset (aeSort ae lt rs) = mset rs" and "a \<in> set (adapters ae)"
    and "adParse a fs f = Inr res" and "r \<in> set (psPackages res)"
  shows "pkEcosystem r = adEcosystem a \<and> (adEcosystem a = ''pypi'' \<longrightarrow> normalizePackageName (pkPackageID r) = pkPackageID r)"
proof -
  have "ownParse (adEcosystem a) (adParse a)" using adapters_own[OF assms(1)] assms(2) by (auto simp: list_all_iff)
  then show ?thesis using assms(3,4) by (simp add: ownParse_def ownRefs_def normalName_def pypiName_def)
qed

text \<open>A Python package that was signed under another spelling than the canonical one is not found by
  any check, although the registry confirms it.\<close>

lemma typed_name_unseen:
  assumes "\<And>lt rs. mset (aeSort ae lt rs) = mset rs" and "a \<in> set (adapters ae)" and "adEcosystem a = ''pypi''"
    and "adParse a fs f = Inr res" and "normalizePackageName n \<noteq> n"
  shows "\<forall>r\<in>set (psPackages res). pkPackageID r \<noteq> n"
proof -
  have "ownParse (adEcosystem a) (adParse a)" using adapters_own[OF assms(1)] assms(2) by (auto simp: list_all_iff)
  then show ?thesis using assms(3-5) by (auto simp: ownParse_def ownRefs_def normalName_def pypiName_def)
qed

lemma adapters_common:
  "list_all (\<lambda>a. \<exists>c\<in>set (commons ae). adEcosystem a = acEcosystem c \<and> adCompare a = acCompare c \<and> adValidate a = acValidate c
     \<and> adResolve a = (\<lambda>p v. case acResolve c p v of Inl e \<Rightarrow> Some (aeResolveText ae e) | Inr _ \<Rightarrow> None)) (adapters ae)"
  by (simp add: adapters_def namedFormat_def commons_def)

lemma commons_distinct: "distinct (map acEcosystem (commons ae))"
  by (simp add: commons_def)

lemma adapters_names:
  "list_all (\<lambda>a. adCanParse a p \<longrightarrow> adName a = pathBase p \<or> adName a = ''requirements.txt'' \<and> hasPrefix (pathBase p) ''requirements-'')
     (adapters ae)"
  by (auto simp: adapters_def namedFormat_def baseIs_def gosum_CanParse_def requirements_CanParse_def)

lemma adapters_distinct:
  "distinct (map adName (adapters ae))" "list_all (\<lambda>a. \<not> hasPrefix (adName a) ''requirements-'') (adapters ae)"
  by (simp_all add: adapters_def namedFormat_def hasPrefix_def)

text \<open>Adapters of one ecosystem agree on the order of versions, on validation and on the
  registry, as the interface demands, and no file name is recognised by two adapters:
  which one reads a lockfile does not depend on the order of the list.\<close>

theorem adapters_agree:
  assumes a: "a \<in> set (adapters ae)" and b: "b \<in> set (adapters ae)"
  shows "(adEcosystem a = adEcosystem b \<longrightarrow> adCompare a = adCompare b \<and> adValidate a = adValidate b \<and> adResolve a = adResolve b)
    \<and> (adCanParse a p \<and> adCanParse b p \<longrightarrow> a = b)"
proof (intro conjI impI)
  assume eco: "adEcosystem a = adEcosystem b"
  obtain c d where c: "c \<in> set (commons ae)" "adEcosystem a = acEcosystem c" "adCompare a = acCompare c" "adValidate a = acValidate c"
      "adResolve a = (\<lambda>p v. case acResolve c p v of Inl e \<Rightarrow> Some (aeResolveText ae e) | Inr _ \<Rightarrow> None)"
    and d: "d \<in> set (commons ae)" "adEcosystem b = acEcosystem d" "adCompare b = acCompare d" "adValidate b = acValidate d"
      "adResolve b = (\<lambda>p v. case acResolve d p v of Inl e \<Rightarrow> Some (aeResolveText ae e) | Inr _ \<Rightarrow> None)"
    using adapters_common[of ae] a b unfolding list_all_iff by blast
  have "c = d" using distinct_map_inj[OF commons_distinct c(1) d(1)] eco c(2) d(2) by simp
  with c d show "adCompare a = adCompare b" "adValidate a = adValidate b" "adResolve a = adResolve b" by simp_all
next
  assume p: "adCanParse a p \<and> adCanParse b p"
  have "adName a = adName b"
    using adapters_names[of p ae] adapters_distinct(2)[of ae] a b p unfolding list_all_iff by metis
  with distinct_map_inj[OF adapters_distinct(1) a b] show "a = b" by blast
qed

end
