(* ===== verification/Sign_Registry.thy ===== *)
theory Sign_Registry
  imports Adapters Cli_Examples
begin

text \<open>
  The sign command with the adapters of the program: without \<open>--skip-verify\<close> it signs only
  what is a version in the ecosystem's syntax and what the registry confirms.
\<close>

section \<open>Releases and their URLs\<close>

text \<open>The request for a release, for the ecosystems that have one URL for each, and which
  releases it does not tell apart.\<close>

definition releaseURL :: "environment \<Rightarrow> string \<Rightarrow> string \<Rightarrow> string \<Rightarrow> string" where
  "releaseURL env eco =
     (if eco = ''cargo'' then cratesURL (pickCargoURL env)
      else if eco = ''hexpm'' then hexpmURL (pickHexpmURL env)
      else if eco = ''pub'' then pubURL (pickPubURL env)
      else if eco = ''pypi'' then pypiURL (pickPyPIURL env)
      else if eco = ''nuget'' then nugetURL (pickNugetURL env)
      else podsURL (pickCocoapodsURL env))"

definition sameRelease :: "string \<Rightarrow> string \<times> string \<Rightarrow> string \<times> string \<Rightarrow> bool" where
  "sameRelease eco =
     (if eco = ''pypi'' then samePypi else if eco = ''nuget'' then sameNuget else if eco = ''cocoapods'' then samePod else (=))"

definition oneURL :: "string list" where
  "oneURL = [''cargo'', ''hexpm'', ''pub'', ''pypi'', ''nuget'', ''cocoapods'']"

text \<open>The registry answers only for releases that it knows.\<close>

definition answersFor :: "adapterEnv \<Rightarrow> string \<Rightarrow> (string \<times> string) set \<Rightarrow> bool" where
  "answersFor ae eco known \<longleftrightarrow>
     (\<forall>u body. aeHttp ae u = Some (200, body) \<longrightarrow> u \<in> (\<lambda>(p, v). releaseURL (aeEnv ae) eco p v) ` known)"

lemma confirmed_known:
  assumes eco: "c \<in> set (commons ae)" "acEcosystem c \<in> set oneURL" and known: "answersFor ae (acEcosystem c) known"
    and ok: "acResolve c p v = Inr info"
  shows "\<exists>x\<in>known. sameRelease (acEcosystem c) (p, v) x"
proof -
  have served: "\<And>u body. aeHttp ae u = Some (200, body) \<Longrightarrow> u \<in> (\<lambda>(p, v). releaseURL (aeEnv ae) (acEcosystem c) p v) ` known"
    using known by (simp add: answersFor_def)
  consider "c = cargoCommon ae" | "c = hexpmCommon ae" | "c = pubCommon ae" | "c = pypiCommon ae" | "c = nugetCommon ae" | "c = cocoapodsCommon ae"
    using eco by (auto simp: commons_def oneURL_def)
  then show ?thesis
  proof cases
    case 1
    with ok have "cargo_Resolve (aeEnv ae) (aeHttp ae) (aeCrateReply ae) p v = Inr info" by (simp add: common_defs)
    from cargoReg.confirms_known[OF _ this, of known] served 1 show ?thesis by (simp add: common_defs releaseURL_def sameRelease_def)
  next
    case 2
    with ok have "hexpm_Resolve (aeEnv ae) (aeHttp ae) (aeHexReply ae) p v = Inr info" by (simp add: common_defs)
    from hexpmReg.confirms_known[OF _ this, of known] served 2 show ?thesis by (simp add: common_defs releaseURL_def sameRelease_def)
  next
    case 3
    with ok have "pub_Resolve (aeEnv ae) (aeHttp ae) (aePubReply ae) p v = Inr info" by (simp add: common_defs)
    from pubReg.confirms_known[OF _ this, of known] served 3 show ?thesis by (simp add: common_defs releaseURL_def sameRelease_def)
  next
    case 4
    with ok have "pypi_Resolve (aeEnv ae) (aeHttp ae) (aePypiReply ae) p v = Inr info" by (simp add: common_defs)
    from pypiReg.confirms_known[OF _ this, of known] served 4 show ?thesis by (simp add: common_defs releaseURL_def sameRelease_def)
  next
    case 5
    with ok have "nuget_Resolve (aeEnv ae) (aeHttp ae) p v = Inr info" by (simp add: common_defs)
    from nugetReg.confirms_known[OF _ this, of known] served 5 show ?thesis by (simp add: common_defs releaseURL_def sameRelease_def)
  next
    case 6
    with ok have "cocoapods_Resolve (aeEnv ae) (aeHttp ae) p v = Inr info" by (simp add: common_defs)
    from podsReg.confirms_known[OF _ this, of known] served 6 show ?thesis by (simp add: common_defs releaseURL_def sameRelease_def)
  qed
qed

section \<open>Signing with the adapters\<close>

definition signAdapters :: "adapterEnv \<Rightarrow> adapter list" where
  "signAdapters ae = map adapter.truncate (adapters ae)"

lemma truncate_sel [simp]:
  "adEcosystem (adapter.truncate a) = adEcosystem a" "adValidate (adapter.truncate a) = adValidate a"
  "adCompare (adapter.truncate a) = adCompare a" "adResolve (adapter.truncate a) = adResolve a"
  by (simp_all add: adapter.truncate_def)

text \<open>The adapter that a sign command takes behaves as its ecosystem does.\<close>

lemma adapter_of_common:
  assumes c: "c \<in> set (commons ae)"
  obtains a where "adapterForEcosystem (signAdapters ae) (acEcosystem c) = Some a" "adValidate a = acValidate c" "adCompare a = acCompare c"
    "adResolve a = (\<lambda>p v. case acResolve c p v of Inl e \<Rightarrow> Some (aeResolveText ae e) | Inr _ \<Rightarrow> None)"
proof -
  have "\<exists>b\<in>set (adapters ae). adEcosystem b = acEcosystem c"
    using c by (auto simp: commons_def adapters_def namedFormat_def)
  then obtain a where a: "find (\<lambda>a. adEcosystem a = acEcosystem c) (signAdapters ae) = Some a"
    by (cases "find (\<lambda>a. adEcosystem a = acEcosystem c) (signAdapters ae)") (auto simp: find_None_iff signAdapters_def)
  then have "adEcosystem a = acEcosystem c" "a \<in> set (signAdapters ae)" by (auto dest: find_Some_D)
  then obtain b where b: "b \<in> set (adapters ae)" "a = adapter.truncate b" by (auto simp: signAdapters_def)
  obtain d where d: "d \<in> set (commons ae)" "adEcosystem b = acEcosystem d" "adCompare b = acCompare d" "adValidate b = acValidate d"
      "adResolve b = (\<lambda>p v. case acResolve d p v of Inl e \<Rightarrow> Some (aeResolveText ae e) | Inr _ \<Rightarrow> None)"
    using adapters_common[of ae] b(1) unfolding list_all_iff by blast
  have "c = d" using distinct_map_inj[OF commons_distinct c d(1)] \<open>adEcosystem a = _\<close> b(2) d(2) by simp
  with a b(2) d that show ?thesis by (simp add: adapterForEcosystem_def)
qed

lemma checkVersion_confirms:
  assumes c: "c \<in> set (commons ae)" and n: "checkVersion (adapterForEcosystem (signAdapters ae) (acEcosystem c)) p v False = None"
  shows "acValidate c v = None \<and> (\<exists>info. acResolve c p v = Inr info)"
proof -
  obtain a where a: "adapterForEcosystem (signAdapters ae) (acEcosystem c) = Some a" "adValidate a = acValidate c"
    "adResolve a = (\<lambda>p v. case acResolve c p v of Inl e \<Rightarrow> Some (aeResolveText ae e) | Inr _ \<Rightarrow> None)"
    by (rule adapter_of_common[OF c])
  show ?thesis
    using n unfolding checkVersion_def a option.case by (cases "acValidate c v"; cases "acResolve c p v") simp_all
qed

lemma checkDelta_confirms:
  assumes c: "c \<in> set (commons ae)" and n: "checkDelta (adapterForEcosystem (signAdapters ae) (acEcosystem c)) p v w False = None"
  shows "acCompare c v w < 0 \<and> acValidate c v = None \<and> acValidate c w = None
     \<and> (\<exists>info. acResolve c p v = Inr info) \<and> (\<exists>info. acResolve c p w = Inr info)"
proof -
  obtain a where a: "adapterForEcosystem (signAdapters ae) (acEcosystem c) = Some a" "adValidate a = acValidate c" "adCompare a = acCompare c"
    "adResolve a = (\<lambda>p v. case acResolve c p v of Inl e \<Rightarrow> Some (aeResolveText ae e) | Inr _ \<Rightarrow> None)"
    by (rule adapter_of_common[OF c])
  show ?thesis
    using n unfolding checkDelta_def a option.case
    by (cases "acValidate c v"; cases "acValidate c w"; cases "acResolve c p v"; cases "acResolve c p w") (simp_all split: if_splits)
qed

lemma Sign_version_checked:
  "Sign env ads io (''version'' # eco # p # v # flags) s = Inr r \<Longrightarrow> parseSignFlags flags = Inr (level, why, False) \<Longrightarrow>
     checkVersion (adapterForEcosystem ads eco) p v False = None"
  by (auto simp: Sign_def signVersion_def split: option.splits)

lemma Sign_delta_checked:
  "Sign env ads io (''delta'' # eco # p # v # w # flags) s = Inr r \<Longrightarrow> parseSignFlags flags = Inr (level, why, False) \<Longrightarrow>
     checkDelta (adapterForEcosystem ads eco) p v w False = None"
  by (auto simp: Sign_def signDelta_def split: option.splits)

text \<open>C27: What the sign command checks without \<open>--skip-verify\<close>, in each of the eleven ecosystems that have an adapter: the
  version is one in the syntax of the ecosystem and the adapter's look-up of the release succeeds; for a delta this holds of
  both ends, and the first comes before the second in the order of the ecosystem.  In six of them, cargo, hexpm, pub,
  PyPI, NuGet and CocoaPods, the release is then one that the registry knows, up to names that the registry does
  not tell apart: no package name or version, however odd, is taken for another one on its way into the URL.  Of
  the others npm and Go do confuse odd names, RubyGems and Packagist are asked for the list of all versions, and Swift has
  no registry; in an ecosystem without an adapter nothing is checked.\<close>

theorem signed_releases_known:
  assumes c: "c \<in> set (commons ae)" and flags: "parseSignFlags flags = Inr (level, why, False)"
  shows "(Sign env (signAdapters ae) io (''version'' # acEcosystem c # p # v # flags) s = Inr r \<longrightarrow>
        acValidate c v = None \<and> (\<exists>info. acResolve c p v = Inr info)
        \<and> (acEcosystem c \<in> set oneURL \<and> answersFor ae (acEcosystem c) known \<longrightarrow> (\<exists>x\<in>known. sameRelease (acEcosystem c) (p, v) x)))
    \<and> (Sign env (signAdapters ae) io (''delta'' # acEcosystem c # p # v # w # flags) s = Inr r \<longrightarrow>
        acCompare c v w < 0 \<and> acValidate c v = None \<and> acValidate c w = None
        \<and> (\<exists>info. acResolve c p v = Inr info) \<and> (\<exists>info. acResolve c p w = Inr info)
        \<and> (acEcosystem c \<in> set oneURL \<and> answersFor ae (acEcosystem c) known \<longrightarrow>
             (\<exists>x\<in>known. sameRelease (acEcosystem c) (p, v) x) \<and> (\<exists>x\<in>known. sameRelease (acEcosystem c) (p, w) x)))"
proof (intro conjI[of "_ \<longrightarrow> _" "_ \<longrightarrow> _"] impI)
  assume "Sign env (signAdapters ae) io (''version'' # acEcosystem c # p # v # flags) s = Inr r"
  from checkVersion_confirms[OF c Sign_version_checked[OF this flags]]
  show "acValidate c v = None \<and> (\<exists>info. acResolve c p v = Inr info)
      \<and> (acEcosystem c \<in> set oneURL \<and> answersFor ae (acEcosystem c) known \<longrightarrow> (\<exists>x\<in>known. sameRelease (acEcosystem c) (p, v) x))"
    using confirmed_known[OF c] by blast
next
  assume "Sign env (signAdapters ae) io (''delta'' # acEcosystem c # p # v # w # flags) s = Inr r"
  from checkDelta_confirms[OF c Sign_delta_checked[OF this flags]]
  show "acCompare c v w < 0 \<and> acValidate c v = None \<and> acValidate c w = None
      \<and> (\<exists>info. acResolve c p v = Inr info) \<and> (\<exists>info. acResolve c p w = Inr info)
      \<and> (acEcosystem c \<in> set oneURL \<and> answersFor ae (acEcosystem c) known \<longrightarrow>
           (\<exists>x\<in>known. sameRelease (acEcosystem c) (p, v) x) \<and> (\<exists>x\<in>known. sameRelease (acEcosystem c) (p, w) x))"
    using confirmed_known[OF c] by blast
qed

end
