(* ===== verification/Adapter_Examples.thy ===== *)
theory Adapter_Examples
  imports Sign_Registry
begin

text \<open>The properties of the adapters and of the registries at concrete inputs.\<close>

definition demoCrate :: cargoLockPackage where
  "demoCrate = \<lparr>cgName = ''p'', cgVersion = ''1.0.0'', cgSource = ''registry+r'', cgChecksum = []\<rparr>"

definition crateURL :: string where
  "crateURL = cratesURL ''https://crates.io'' ''p'' ''1.0.0''"

definition demoAE :: adapterEnv where
  "demoAE = \<lparr>aeEnv = (\<lambda>_. []), aeHttp = (\<lambda>u. if u = crateURL then Some (200, Some []) else None), aeSort = (\<lambda>lt rs. rs),
     aeFold = (=), aeModGraph = (\<lambda>_. Inl []), aePackageLock = (\<lambda>_. None), aeUv = (\<lambda>_. None), aePoetry = (\<lambda>_. None),
     aePipfile = (\<lambda>_. None), aePdm = (\<lambda>_. None), aeGleam = (\<lambda>_. None), aeCargo = (\<lambda>_. Some [demoCrate]),
     aeComposer = (\<lambda>_. None), aeNuget = (\<lambda>_. None), aePub = (\<lambda>_. None), aeSwift = (\<lambda>_. None),
     aeCrateReply = (\<lambda>_. Some []), aeHexReply = (\<lambda>_. None), aePubReply = (\<lambda>_. None), aePypiReply = (\<lambda>_. None),
     aeGemReply = (\<lambda>_. None), aePackagistReply = (\<lambda>_. None), aeNpmReply = (\<lambda>_. None),
     aeSemverText = (\<lambda>_. []), aeGoText = (\<lambda>_. []), aePepText = (\<lambda>_. []), aeGemText = (\<lambda>_. []), aeResolveText = (\<lambda>_. [])\<rparr>"

lemma adapters_agree_witness: "adCompare (adapters demoAE ! 1) = adCompare (adapters demoAE ! 2)"
proof -
  have "adapters demoAE ! 1 \<in> set (adapters demoAE)" "adapters demoAE ! 2 \<in> set (adapters demoAE)"
    by (rule nth_mem, simp add: adapters_def)+
  from adapters_agree[OF this] show ?thesis by (simp add: adapters_def namedFormat_def)
qed

lemma adapters_contract_witness:
  "adParse (adapters demoAE ! 11) [''f'' \<mapsto> []] ''f'' = Inr (flatResult ([flatRef ''cargo'' ''p'' ''1.0.0'' []], []))
   \<and> pkEcosystem (flatRef ''cargo'' ''p'' ''1.0.0'' []) = adEcosystem (adapters demoAE ! 11)"
proof -
  have a: "adapters demoAE ! 11 \<in> set (adapters demoAE)" by (rule nth_mem) (simp add: adapters_def)
  have s: "\<And>lt rs. mset (aeSort demoAE lt rs) = mset rs" by (simp add: demoAE_def)
  have "cargoVerdict demoCrate = Pinned (flatRef ''cargo'' ''p'' ''1.0.0'' [])" by code_simp
  then have p: "adParse (adapters demoAE ! 11) [''f'' \<mapsto> []] ''f'' = Inr (flatResult ([flatRef ''cargo'' ''p'' ''1.0.0'' []], []))"
    by (simp add: adapters_def namedFormat_def cargo_Parse_def decodeFile_def parseFile_def demoAE_def collect_def)
  show ?thesis using adapters_contract[OF s a p, of "flatRef ''cargo'' ''p'' ''1.0.0'' []"] p by simp
qed

lemma signed_releases_known_witness:
  "\<exists>r x. Sign demoCli (signAdapters demoAE) demoIO [''version'', ''cargo'', ''p'', ''1.0.0'', ''--level'', ''vetted''] demoStore = Inr r
     \<and> x \<in> {(''p'', ''1.0.0'')} \<and> sameRelease ''cargo'' (''p'', ''1.0.0'') x"
proof -
  let ?c = "cargoCommon demoAE"
  have c: "?c \<in> set (commons demoAE)" "acEcosystem ?c \<in> set oneURL" by (simp_all add: commons_def oneURL_def)
  have flags: "parseSignFlags [''--level'', ''vetted''] = Inr (''vetted'', [], False)" by (simp add: parseSignFlags_def)
  have known: "answersFor demoAE (acEcosystem ?c) {(''p'', ''1.0.0'')}"
    by (simp add: answersFor_def demoAE_def releaseURL_def crateURL_def pickCargoURL_def pickURL_def)
  have "semver_Validate ''1.0.0'' = None" by code_simp
  then have val: "acValidate ?c ''1.0.0'' = None" by (simp add: common_defs)
  have res: "acResolve ?c ''p'' ''1.0.0'' = Inr (versionInfo ''p'' ''1.0.0'' [] ''sha256'')"
    by (simp add: common_defs cargo_Resolve_def demoAE_def pickCargoURL_def pickURL_def crateURL_def decodeReply_def registryBody_def registryGet_def)
  obtain a where a: "adapterForEcosystem (signAdapters demoAE) (acEcosystem ?c) = Some a" "adValidate a = acValidate ?c"
    "adResolve a = (\<lambda>p v. case acResolve ?c p v of Inl e \<Rightarrow> Some (aeResolveText demoAE e) | Inr _ \<Rightarrow> None)"
    by (rule adapter_of_common[OF c(1)])
  have check: "checkVersion (adapterForEcosystem (signAdapters demoAE) ''cargo'') ''p'' ''1.0.0'' False = None"
    using a val res by (simp add: checkVersion_def)
  have valid: "Validate (emptyPayload\<lparr>pType := ''decision'', pSigner := demoUserID, pEcosystem := ''cargo'',
      pPackageID := ''p'', pVersion := ''1.0.0'', pLevel := ''vetted'', pReason := []\<rparr>) = None"
    by (simp add: Validate_def emptyPayload_def demoUserID_val validLevels_def)
  obtain r where r: "Sign demoCli (signAdapters demoAE) demoIO [''version'', ''cargo'', ''p'', ''1.0.0'', ''--level'', ''vetted''] demoStore = Inr r"
    using flags check valid demo_active by (simp add: Sign_def signVersion_def signAndCache_def signPayload_def Let_def)
  have "\<exists>x\<in>{(''p'', ''1.0.0'')}. sameRelease (acEcosystem ?c) (''p'', ''1.0.0'') x"
    using signed_releases_known[OF c(1) flags, of demoCli demoIO "''p''" "''1.0.0''" demoStore r "{(''p'', ''1.0.0'')}"] r c(2) known by auto
  with r show ?thesis by auto
qed

end
