(* ===== verification/Cli_Show.thy ===== *)
theory Cli_Show
  imports Cli_Check Cli_Clean Cli_Sync Pypi_Names
begin

text \<open>
  The commands that only print: \<open>query.go\<close>, \<open>inspect.go\<close>, \<open>status.go\<close>, the lists of keys and
  peers, and what \<open>check.go\<close> and \<open>clean.go\<close> print.  A command yields its lines; the
  format of times and of indented JSON are parameters.
\<close>

section \<open>Words\<close>

definition ellipsis :: string where "ellipsis = map char_of [0xE2 :: nat, 0x80, 0xA6]"

definition apostrophe :: string where "apostrophe = [char_of (39 :: nat)]"

definition emDash :: string where "emDash = map char_of [0xE2 :: nat, 0x80, 0x94]"

definition rightArrow :: string where "rightArrow = map char_of [0xE2 :: nat, 0x86, 0x92]"

definition showInt :: "int \<Rightarrow> string" where
  "showInt i = (if i < 0 then CHR ''-'' # itoa (nat (- i)) else itoa (nat i))"

definition shortID :: "string \<Rightarrow> string" where
  "shortID i = (if length i \<le> 12 then i else take 8 i @ ellipsis)"

definition shortHash :: "string \<Rightarrow> string" where
  "shortHash i = (if length i \<le> 12 then i else take 12 i)"

definition shortPath :: "string list \<Rightarrow> string list" where
  "shortPath p = map shortID p"

text \<open>A field of at least \<open>n\<close> runes, filled up on the right.\<close>

definition padRight :: "nat \<Rightarrow> string \<Rightarrow> string" where
  "padRight n s = s @ replicate (n - length (runes s)) (CHR '' '')"

section \<open>Queries\<close>

definition verboseDecisionLine :: "contributingDecision \<Rightarrow> string" where
  "verboseDecisionLine d =
     (let head = (case cdKind d of
            KindExact \<Rightarrow> cdLevel d @ '' @ '' @ cdVersion d
          | KindDelta \<Rightarrow> cdLevel d @ '' delta '' @ cdFromVersion d @ '' '' @ rightArrow @ '' '' @ cdToVersion d);
          signer = ''by '' @ shortID (cdSignerID d) @ (if cdVetoOnly d then '' (veto-only)'' else [])
            @ (if length (cdPath d) > 1 then '' via '' @ join ('' '' @ rightArrow @ '' '') (shortPath (butlast (cdPath d))) else [])
      in head @ '' '' @ signer
         @ (if cdSignatureID d \<noteq> [] then '' '' @ shortHash (cdSignatureID d) else [])
         @ (if cdReason d \<noteq> [] then '': '' @ cdReason d else []))"

text \<open>The signers in order, each with the signature of its first decision.\<close>

definition signerEntry :: "contributingDecision list \<Rightarrow> string \<Rightarrow> string" where
  "signerEntry ds i =
     (let h = (case find (\<lambda>d. cdSignerID d = i) ds of Some d \<Rightarrow> cdSignatureID d | None \<Rightarrow> [])
      in shortID i @ (if h \<noteq> [] then '' '' @ shortHash h else []))"

definition reasonSuffix :: "string list \<Rightarrow> string" where
  "reasonSuffix reasons = (case reasons of
     [] \<Rightarrow> []
   | r # others \<Rightarrow> '': '' @ (if length r > 60 then take 57 r @ ''...'' else r)
       @ (if others \<noteq> [] then '' +'' @ itoa (length others) @ '' more'' else []))"

definition decisionsSummary :: "contributingDecision list \<Rightarrow> string" where
  "decisionsSummary ds =
     (let names = sort (remdups (map cdSignerID ds)) in
      if names = [] then []
      else '' ('' @ join '', '' (map (signerEntry ds) names) @ reasonSuffix (filter (\<lambda>r. r \<noteq> []) (map cdReason ds)) @ '')'')"

definition printSpan :: "bool \<Rightarrow> versionSpan \<Rightarrow> string list" where
  "printSpan verbose sp =
     (let label = (if spFrom sp \<noteq> spTo sp then spFrom sp @ '' '' @ emDash @ '' '' @ spTo sp else spFrom sp);
          line = ''  '' @ padRight 22 label @ '' '' @ statusName (spStatus sp)
      in if \<not> verbose then [line @ decisionsSummary (spDecisions sp)]
         else line # map (\<lambda>d. ''    '' @ verboseDecisionLine d) (spDecisions sp))"

definition printRevokedSection :: "contributingDecision list \<Rightarrow> string list" where
  "printRevokedSection revoked = ''Revoked:'' # map (\<lambda>d. ''  '' @ verboseDecisionLine d @ '' [revoked]'') revoked"

definition isVerbose :: "string \<Rightarrow> bool" where
  "isVerbose a \<longleftrightarrow> a = ''--verbose'' \<or> a = ''-v''"

definition queryLines :: "bool \<Rightarrow> string \<Rightarrow> string \<Rightarrow> packageVerdict \<Rightarrow> string list" where
  "queryLines verbose ecosystem packageID pv =
     (let name = ecosystem @ ''/'' @ packageID in
      if pvSpans pv = [] then
        (if verbose \<and> pvRevoked pv \<noteq> [] then
           (''No active decisions about '' @ name @ '' '' @ emDash @ '' all have been revoked.'') # printRevokedSection (pvRevoked pv)
         else [''No trusted decisions about '' @ name @ ''.'']
           @ (if \<not> verbose \<and> pvRevoked pv \<noteq> [] then
                [CHR ''('' # itoa (length (pvRevoked pv)) @ '' revoked signature(s) hidden '' @ emDash
                   @ '' re-run with --verbose to see them.)''] else [])
           @ [''Try '' @ apostrophe @ ''tillit sync'' @ apostrophe
                @ '' to fetch fresh data from your peers.''])
      else (''Versions for '' @ name @ '':'') # concat (map (printSpan verbose) (pvSpans pv))
        @ (if verbose \<and> pvRevoked pv \<noteq> [] then printRevokedSection (pvRevoked pv) else []))"

definition Query ::
  "schemes \<Rightarrow> ((versionSpan \<Rightarrow> versionSpan \<Rightarrow> bool) \<Rightarrow> versionSpan list \<Rightarrow> versionSpan list) \<Rightarrow> mapOrder \<Rightarrow> codec
     \<Rightarrow> string list \<Rightarrow> store \<Rightarrow> cliError + string list" where
  "Query sch srt iter c args s =
     (case filter (\<lambda>a. \<not> isVerbose a) args of
        [ecosystem, packageID] \<Rightarrow> bindE (activeUserID sch s) (\<lambda>userID.
          Inr (queryLines (list_ex isVerbose args) ecosystem packageID (Package srt iter c s userID userID ecosystem packageID)))
      | _ \<Rightarrow> Inl (Usage ''tillit query <ecosystem> <package_id> [--verbose]''))"

section \<open>One signature\<close>

record showEnv =
  shTime :: "int \<Rightarrow> string"
  shIndented :: "payload \<Rightarrow> string"

definition prettyJSON :: "showEnv \<Rightarrow> codec \<Rightarrow> string \<Rightarrow> string option" where
  "prettyJSON sh c s = map_option (shIndented sh) (decPayload c s)"

definition indentLines :: "string \<Rightarrow> string \<Rightarrow> string" where
  "indentLines s prefix = join [newline] (map (\<lambda>l. prefix @ l) (splitChar newline s))"

definition payloadLines :: "showEnv \<Rightarrow> codec \<Rightarrow> string \<Rightarrow> string \<Rightarrow> string" where
  "payloadLines sh c p prefix = indentLines (case prettyJSON sh c p of Some t \<Rightarrow> t | None \<Rightarrow> p) prefix"

definition runInspect :: "showEnv \<Rightarrow> codec \<Rightarrow> string \<Rightarrow> store \<Rightarrow> cliError + string list" where
  "runInspect sh c i s =
     (if i = [] then Inl (Usage ''signature id is empty'')
      else bindE (liftStore (LookupCachedSignature i s)) (\<lambda>g. Inr
        ([''ID:          '' @ csID g, ''Signer:      '' @ csSigner g, ''Algorithm:   '' @ csAlgorithm g,
          ''Uploaded at: '' @ shTime sh (csUploadedAt g), ''Fetched at:  '' @ shTime sh (csFetchedAt g)]
         @ (case findRevocationFor c g s of
              Some r0 \<Rightarrow> [''Revoked:     yes at '' @ shTime sh (csUploadedAt r0), ''Revocation:'', ''  ID:          '' @ csID r0,
                ''  Uploaded at: '' @ shTime sh (csUploadedAt r0), ''  Payload:'', payloadLines sh c (csPayload r0) ''    '',
                ''  Sig:         '' @ csSig r0]
            | None \<Rightarrow> [''Revoked:     no''])
         @ [''Payload:'', payloadLines sh c (csPayload g) ''  '', ''Sig:         '' @ csSig g])))"

definition Inspect :: "showEnv \<Rightarrow> codec \<Rightarrow> string list \<Rightarrow> store \<Rightarrow> cliError + string list" where
  "Inspect sh c args s = (case args of [i] \<Rightarrow> runInspect sh c i s | _ \<Rightarrow> Inl (Usage ''tillit inspect <signature_id>''))"

section \<open>Status\<close>

definition countPending :: "store \<Rightarrow> 'a list \<Rightarrow> itemType \<Rightarrow> string \<Rightarrow> ('a \<Rightarrow> string) \<Rightarrow> ('a \<Rightarrow> bool) \<Rightarrow> nat" where
  "countPending s items kind serverURL idOf shouldPush =
     length (filter (\<lambda>x. shouldPush x \<and> \<not> IsPushed (idOf x) kind serverURL s) items)"

definition peerSummary :: "codec \<Rightarrow> store \<Rightarrow> string \<Rightarrow> string list" where
  "peerSummary c s userID =
     (let peers = ListPeers s; entries = map snd (buildTrustSet c s userID userID);
          distrusted = length (filter peDistrusted peers);
          vetoOnly = length (filter (\<lambda>p. \<not> peDistrusted p \<and> peVetoOnly p) peers);
          trusted = length (filter (\<lambda>p. \<not> peDistrusted p \<and> \<not> peVetoOnly p) peers);
          direct = length (filter (\<lambda>e. length (tePath e) = 1) entries);
          transitive = length (filter (\<lambda>e. length (tePath e) > 1) entries)
      in [''Peers: '' @ itoa (length peers) @ '' configured ('' @ itoa trusted @ '' trusted, '' @ itoa vetoOnly @ '' veto-only, ''
            @ itoa distrusted @ '' distrusted)'',
          ''Trust set: '' @ itoa (direct + transitive) @ '' reachable signers ('' @ itoa direct @ '' direct, '' @ itoa transitive
            @ '' transitive)'', []])"

definition dataSummary :: "mapOrder \<Rightarrow> codec \<Rightarrow> store \<Rightarrow> string \<Rightarrow> string list" where
  "dataSummary iter c s userID =
     (let cleanable = pruneTotal (findPruneCandidates iter c s userID) in
      [''Local data: '' @ itoa (length (GetCachedSignaturesBySigner userID s)) @ '' signature(s), ''
         @ itoa (length (GetCachedConnectionsBySigner userID s)) @ '' connection(s) signed by you'']
      @ (if cleanable > 0 then [''Cleanable: '' @ itoa cleanable @ '' row(s) cached from signers no longer in your trust graph '' @ emDash
           @ '' run '' @ apostrophe @ ''tillit clean'' @ apostrophe @ '' to remove.''] else [])
      @ [[]])"

text \<open>The connections and signatures that await a push to a server.\<close>

definition pendingAt :: "codec \<Rightarrow> store \<Rightarrow> string \<Rightarrow> server \<Rightarrow> nat \<times> nat" where
  "pendingAt c s userID srv =
     (countPending s (GetCachedConnectionsBySigner userID s) ItemConnection (svURL srv) ccID (connectionShouldBePushed c),
      countPending s (GetCachedSignaturesBySigner userID s) ItemSignature (svURL srv) csID (\<lambda>_. True))"

definition serverLines :: "showEnv \<Rightarrow> server \<Rightarrow> nat \<times> nat \<Rightarrow> string list" where
  "serverLines sh srv pending =
     [svURL srv,
      (case svLastSyncedAt srv of None \<Rightarrow> ''  last synced: never'' | Some t \<Rightarrow> ''  last synced: '' @ shTime sh t),
      (if pending = (0, 0) then ''  pending push: none''
       else ''  pending push: '' @ itoa (fst pending) @ '' connection(s), '' @ itoa (snd pending) @ '' signature(s)'')]"

definition serverSummary :: "showEnv \<Rightarrow> codec \<Rightarrow> store \<Rightarrow> string \<Rightarrow> string list" where
  "serverSummary sh c s userID =
     (let servers = ListServers s; total = sum_list (map (\<lambda>v. fst (pendingAt c s userID v) + snd (pendingAt c s userID v)) servers) in
      if servers = [] then
        [''No servers registered.'', ''Use '' @ apostrophe @ ''tillit register <url>'' @ apostrophe @ '' to start publishing.'']
      else concat (map (\<lambda>v. serverLines sh v (pendingAt c s userID v)) servers)
        @ (if total > 0 then [[], ''Run '' @ apostrophe @ ''tillit publish'' @ apostrophe @ '' to push '' @ itoa total
             @ '' pending item(s).''] else []))"

definition Status :: "showEnv \<Rightarrow> schemes \<Rightarrow> mapOrder \<Rightarrow> codec \<Rightarrow> string list \<Rightarrow> store \<Rightarrow> cliError + string list" where
  "Status sh sch iter c args s =
     (if args \<noteq> [] then Inl (Usage ''tillit status'')
      else if activeNameOf s = [] then
        Inr [''No active key. Run '' @ apostrophe @ ''tillit init'' @ apostrophe @ '' to generate one.'']
      else bindE (liftStore (GetKey (activeNameOf s) s)) (\<lambda>k. bindE (activeUserID sch s) (\<lambda>userID.
        Inr ([''Active key: '' @ kyName k @ '' ('' @ kyAlgorithm k @ '')'', ''User ID:    '' @ userID, []]
          @ peerSummary c s userID @ dataSummary iter c s userID @ serverSummary sh c s userID))))"

section \<open>Keys and peers\<close>

definition keyList :: "store \<Rightarrow> string list" where
  "keyList s =
     (if ListKeys s = [] then [''No keys found. Run '' @ apostrophe @ ''tillit init'' @ apostrophe @ '' or ''
        @ apostrophe @ ''tillit key generate <name>'' @ apostrophe @ ''.'']
      else map (\<lambda>k. (if kyName k = activeNameOf s then ''* '' else ''  '') @ kyName k @ '' ('' @ kyAlgorithm k @ '')'') (ListKeys s))"

definition keyShow :: "string list \<Rightarrow> store \<Rightarrow> cliError + string list" where
  "keyShow args s =
     (case args of
        [] \<Rightarrow> Inl (Usage ''tillit key show <name>'')
      | name # _ \<Rightarrow> bindE (liftStore (GetKey name s)) (\<lambda>k.
          Inr [''Name:      '' @ kyName k, ''Algorithm: '' @ kyAlgorithm k, ''Public key: '' @ kyPubKey k]))"

definition peerLine :: "peer \<Rightarrow> string" where
  "peerLine p =
     (let loc = peID p @ ''@'' @ peServerURL p;
          depth = '' (depth='' @ showInt (peTrustDepth p) @ (if pePublic p then '', public'' else []) @ '')''
      in if peDistrusted p then ''  DISTRUST  '' @ loc
         else if peVetoOnly p then ''  veto-only '' @ loc @ depth
         else ''  trust     '' @ loc @ depth)"

definition TrustList :: "store \<Rightarrow> string list" where
  "TrustList s = (if ListPeers s = [] then [''No peers configured.''] else map peerLine (ListPeers s))"

section \<open>Checking and cleaning\<close>

definition upperStatus :: "status \<Rightarrow> string" where
  "upperStatus st = (case st of StatusRejected \<Rightarrow> ''REJECTED'' | StatusUnknown \<Rightarrow> ''UNKNOWN''
     | StatusAllowed \<Rightarrow> ''ALLOWED'' | StatusVetted \<Rightarrow> ''VETTED'')"

text \<open>The signers are shortened first and sorted then.\<close>

definition decisionsInline :: "contributingDecision list \<Rightarrow> string" where
  "decisionsInline ds =
     (if ds = [] then [] else '' ('' @ join '', '' (sort (map shortID (remdups (map cdSignerID ds)))) @ '')'')"

definition statusGroupLines :: "rowSort \<Rightarrow> checkRow list \<Rightarrow> status \<Rightarrow> string list" where
  "statusGroupLines srtR rows st =
     (let matching = printStatusGroup srtR rows st in
      if matching = [] then []
      else (upperStatus st @ '' ('' @ itoa (length matching) @ ''):'')
        # map (\<lambda>r. ''  '' @ (if pkDirect (rowPkg r) then ''*'' else '' '') @ '' '' @ pkPackageID (rowPkg r) @ '' '' @ pkVersion (rowPkg r)
            @ decisionsInline (vdDecisions (rowVerdict r))) matching @ [[]])"

definition knownEcosystems :: "lockAdapter list \<Rightarrow> string" where
  "knownEcosystems adapters = join '', '' (rev (remdups (rev (map adEcosystem adapters))))"

definition candidateFormats :: "lockAdapter list \<Rightarrow> string" where
  "candidateFormats adapters = join '', '' (map adName adapters)"

text \<open>\<open>knownFormats\<close> walks over all adapters.\<close>

definition knownFormats :: "lockAdapter list \<Rightarrow> string" where
  "knownFormats adapters = fold (\<lambda>(i, a) out. (if i > 0 then out @ '', '' else out) @ adName a) (enumerate 0 adapters) []"

definition ecosystemLine :: "lockAdapter list \<Rightarrow> string \<Rightarrow> string \<Rightarrow> string" where
  "ecosystemLine adapters ind eco = ind @ ''  - '' @ eco @ '' ('' @ candidateFormats (adaptersForEcosystem adapters eco) @ '')''"

definition ecosystemList :: "lockAdapter list \<Rightarrow> string \<Rightarrow> string" where
  "ecosystemList adapters ind =
     join [newline] ((ind @ ''available ecosystems:'') # map (ecosystemLine adapters ind) (rev (remdups (rev (map adEcosystem adapters)))))"

definition pruneSigners :: "pruneCandidates \<Rightarrow> string list" where
  "pruneSigners p = sort (remdups (map csSigner (pcSignatures p) @ map ccSigner (pcConnections p) @ map cuID (pcUsers p)))"

definition pruneLine :: "pruneCandidates \<Rightarrow> string \<Rightarrow> string" where
  "pruneLine p i =
     (let sigs = length (filter (\<lambda>g. csSigner g = i) (pcSignatures p));
          conns = length (filter (\<lambda>n. ccSigner n = i) (pcConnections p));
          users = length (filter (\<lambda>u. cuID u = i) (pcUsers p))
      in ''  '' @ shortID i @ '' '' @ emDash @ '' '' @ join '', ''
           ((if sigs > 0 then [itoa sigs @ '' sig''] else []) @ (if conns > 0 then [itoa conns @ '' conn''] else [])
            @ (if users > 0 then [''pubkey-cache''] else [])))"

definition printPruneSummary :: "pruneCandidates \<Rightarrow> string list" where
  "printPruneSummary p =
     [''Would prune cached data for '' @ itoa (length (pruneSigners p)) @ '' signer(s) outside your trust graph:'']
     @ map (pruneLine p) (pruneSigners p)
     @ [''Totals: '' @ itoa (length (pcSignatures p)) @ '' signature(s), '' @ itoa (length (pcConnections p)) @ '' connection(s), ''
          @ itoa (length (pcUsers p)) @ '' cached user(s).'', []]"

end
