(* ===== verification/Cli_Main.thy ===== *)
theory Cli_Main
  imports Cli_Show Cli_Mirror Cli_Export Sign_Registry
begin

text \<open>
  The program \<open>tillit\<close>, \<open>cmd/tillit/main.go\<close>: which command an argument list starts and how
  its result becomes an exit code.
\<close>

section \<open>Setting\<close>

text \<open>Everything that a command takes from outside: libraries, clock and randomness, what the user
  types, the file system, the network and the orders of Go.  \<open>suDraws\<close> has the keys that
  \<open>init\<close> and \<open>key generate\<close> draw, \<open>suTyped\<close> the line typed at a confirmation,
  \<open>suTypedKey\<close> the password typed for a key of an import, \<open>suFile\<close> the files, \<open>suEncode\<close> and \<open>suDecode\<close> the JSON of
  exports, and \<open>suFails\<close> the writes of an import that the database refuses.\<close>

record 'w cliSetup =
  suEnv :: cliEnv
  suIO :: cliIO
  suRnd2 :: string
  suHttp :: "'w http"
  suDraws :: keyDraws
  suTyped :: "string option"
  suTypedKey :: "string \<Rightarrow> string option"
  suPubNow :: "string \<Rightarrow> int"
  suRnds :: "string \<Rightarrow> string"
  suClocks :: "string \<Rightarrow> int"
  suPull :: "(string \<times> string) \<times> (int \<times> int)"
  suFile :: "string \<Rightarrow> string option"
  suEncode :: "exportDoc \<Rightarrow> string"
  suDecode :: "string \<Rightarrow> importDoc option"
  suFails :: "nat \<Rightarrow> bool"
  suAt :: string
  suShow :: showEnv
  suFs :: checkFs
  suAdapters :: adapterEnv
  suMapOrder :: mapOrder
  suMapOrders :: mapOrders
  suSpanSort :: "(versionSpan \<Rightarrow> versionSpan \<Rightarrow> bool) \<Rightarrow> versionSpan list \<Rightarrow> versionSpan list"
  suStringSort :: stringSort
  suRowSort :: rowSort

abbreviation suSchemes :: "'w cliSetup \<Rightarrow> schemes" where "suSchemes su \<equiv> ceSchemes (suEnv su)"
abbreviation suSealing :: "'w cliSetup \<Rightarrow> sealing" where "suSealing su \<equiv> ceSealing (suEnv su)"
abbreviation suCodec :: "'w cliSetup \<Rightarrow> codec" where "suCodec su \<equiv> ceCodec (suEnv su)"
abbreviation suKeyIO :: "'w cliSetup \<Rightarrow> keyIO" where "suKeyIO su \<equiv> ioKey (suIO su)"
abbreviation suNow :: "'w cliSetup \<Rightarrow> int" where "suNow su \<equiv> ioNow (suIO su)"

datatype failure = NoCommand | UnknownCommand string | Failed cliError | CheckFailed checkError

datatype answer = Finished | Printed "string list" | Reported checkReport | Snapshot "(string \<times> string) option"

type_synonym 'w ran = "(failure + answer) \<times> store \<times> 'w"

text \<open>A panic of the Go program ends with exit code 2.\<close>

fun exitCode :: "failure + answer \<Rightarrow> nat" where
  "exitCode (Inl (Failed NilPointer)) = 2"
| "exitCode (Inl (Failed (KeyErr LibraryPanic))) = 2"
| "exitCode (Inl f) = 1"
| "exitCode (Inr (Reported r)) = crExit r"
| "exitCode (Inr a) = 0"

section \<open>Commands\<close>

text \<open>Commands by the form of their result: a new store, a store even after an error, a text.  The commands of
  the first form make all their checks before they write, so that an error of theirs leaves the store as it was.\<close>

definition stored :: "cliError + store \<Rightarrow> store \<Rightarrow> 'w \<Rightarrow> 'w ran" where
  "stored r s w = (case r of Inl e \<Rightarrow> (Inl (Failed e), s, w) | Inr s' \<Rightarrow> (Inr Finished, s', w))"

definition ended :: "outcome \<times> 'w \<Rightarrow> 'w ran" where
  "ended r = (case r of ((s', e), w') \<Rightarrow> ((case e of None \<Rightarrow> Inr Finished | Some x \<Rightarrow> Inl (Failed x)), s', w'))"

definition shows_text :: "cliError + string list \<Rightarrow> store \<Rightarrow> 'w \<Rightarrow> 'w ran" where
  "shows_text r s w = ((case r of Inl e \<Rightarrow> Inl (Failed e) | Inr l \<Rightarrow> Inr (Printed l)), s, w)"

definition Key :: "'w cliSetup \<Rightarrow> string list \<Rightarrow> store \<Rightarrow> 'w \<Rightarrow> 'w ran" where
  "Key su args s w =
     (case args of
        [] \<Rightarrow> (Inl (Failed (Usage ''tillit key <generate|list|show|use|passwd|remove> [args]'')), s, w)
      | sub # rest \<Rightarrow>
          if sub = ''generate'' then stored (keyGenerate (suSchemes su) (suSealing su) (suDraws su) (suKeyIO su) rest s) s w
          else if sub = ''list'' then shows_text (Inr (keyList s)) s w
          else if sub = ''show'' then shows_text (keyShow rest s) s w
          else if sub = ''use'' then stored (keyUse rest s) s w
          else if sub = ''passwd'' then stored (keyPasswd (suSealing su) (suKeyIO su) rest s) s w
          else if sub = ''remove'' then
            (case rest of [name] \<Rightarrow> stored (runKeyRemove (suTyped su) name s) s w
             | _ \<Rightarrow> (Inl (Failed (Usage ''tillit key remove <name>'')), s, w))
          else (Inl (Failed (UnknownFlag sub)), s, w))"

text \<open>The request that \<open>trust\<close> makes, once its arguments are parsed and the own key is loaded.\<close>

definition trustRequest :: "cliEnv \<Rightarrow> cliIO \<Rightarrow> string list \<Rightarrow> store \<Rightarrow> (string \<times> string) option" where
  "trustRequest env io args s =
     (case args of [] \<Rightarrow> None
      | arg # flags \<Rightarrow> (case (parsePeer arg, trustFlagsLoop flags \<lparr>tfDepth = 1, tfPublic = False, tfVetoOnly = False\<rparr>,
            activeSignerAndID (ceSchemes env) (ceSealing env) (ioKey io) s) of
          (Inr (i, url), Inr _, Inr _) \<Rightarrow> Some (url, i) | _ \<Rightarrow> None))"

definition runTrust :: "'w cliSetup \<Rightarrow> string list \<Rightarrow> store \<Rightarrow> 'w \<Rightarrow> 'w ran" where
  "runTrust su args s w =
     ended (Trust (suEnv su) (suIO su) (suRnd2 su) (\<lambda>url i. fst (fetchUser (suHttp su) url i w)) args s,
       (case trustRequest (suEnv su) (suIO su) args s of None \<Rightarrow> w | Some (url, i) \<Rightarrow> snd (fetchUser (suHttp su) url i w)))"

definition Delete :: "string list \<Rightarrow> store \<Rightarrow> cliError + store" where
  "Delete args s = (case args of [i] \<Rightarrow> runDelete i s | _ \<Rightarrow> Inl (Usage ''tillit delete <signature_id>''))"

definition Clean :: "schemes \<Rightarrow> mapOrder \<Rightarrow> codec \<Rightarrow> string option \<Rightarrow> string list \<Rightarrow> store \<Rightarrow> cliError + store" where
  "Clean sch iter c typed args s = (if args \<noteq> [] then Inl (Usage ''tillit clean'') else runClean sch iter c typed s)"

definition runExport :: "'w cliSetup \<Rightarrow> string list \<Rightarrow> store \<Rightarrow> 'w \<Rightarrow> 'w ran" where
  "runExport su args s w =
     ((case Export (suSchemes su) (suMapOrder su) (suCodec su) (suAt su) (suEncode su) args s of
         Inl e \<Rightarrow> Inl (Failed e) | Inr d \<Rightarrow> Inr (Snapshot d)), s, w)"

definition runCheck :: "'w cliSetup \<Rightarrow> string list \<Rightarrow> store \<Rightarrow> 'w \<Rightarrow> 'w ran" where
  "runCheck su args s w =
     ((case Check (adapters (suAdapters su)) (suFs su) (suSchemes su) (suStringSort su) (suRowSort su) (suMapOrders su)
           (suCodec su) s args of
         Inl e \<Rightarrow> Inl (CheckFailed e) | Inr r \<Rightarrow> Inr (Reported r)), s, w)"

section \<open>The program\<close>

definition dispatch :: "'w cliSetup \<Rightarrow> string \<Rightarrow> string list \<Rightarrow> store \<Rightarrow> 'w \<Rightarrow> 'w ran" where
  "dispatch su cmd args s w =
     (if cmd = ''init'' then stored (InitCmd (suSchemes su) (suSealing su) (suDraws su) (suKeyIO su) s) s w
      else if cmd = ''key'' then Key su args s w
      else if cmd = ''register'' then ended (Register (suSchemes su) (suHttp su) args s w)
      else if cmd = ''trust'' then runTrust su args s w
      else if cmd = ''distrust'' then ended (Distrust (suEnv su) (suIO su) (suRnd2 su) args s, w)
      else if cmd = ''forget'' then ended (Forget (suEnv su) (suIO su) args s, w)
      else if cmd = ''peers'' then shows_text (Inr (TrustList s)) s w
      else if cmd = ''sign'' then
        stored (map_sum id fst (Sign (suEnv su) (signAdapters (suAdapters su)) (suIO su) args s)) s w
      else if cmd = ''revoke'' then stored (map_sum id fst (Revoke (suEnv su) (suIO su) args s)) s w
      else if cmd = ''delete'' then stored (Delete args s) s w
      else if cmd = ''clean'' then stored (Clean (suSchemes su) (suMapOrder su) (suCodec su) (suTyped su) args s) s w
      else if cmd = ''sync'' then ended (Sync (suSchemes su) (suHttp su) (suNow su) (suPubNow su) s w)
      else if cmd = ''publish'' then ended (Publish (suSchemes su) (suCodec su) (suHttp su) (suNow su) s w)
      else if cmd = ''mirror'' then
        ended (Mirror (suEnv su) (suHttp su) (suRnds su) (suClocks su) (fst (suPull su)) (snd (suPull su)) (suNow su) (suKeyIO su) args s w)
      else if cmd = ''export'' then runExport su args s w
      else if cmd = ''import'' then ended (Import (suSealing su) (suTypedKey su) (suFails su) (suFile su) (suDecode su) args s, w)
      else if cmd = ''status'' then shows_text (Status (suShow su) (suSchemes su) (suMapOrder su) (suCodec su) args s) s w
      else if cmd = ''query'' then shows_text (Query (suSchemes su) (suSpanSort su) (suMapOrder su) (suCodec su) args s) s w
      else if cmd = ''inspect'' then shows_text (Inspect (suShow su) (suCodec su) args s) s w
      else if cmd = ''check'' then runCheck su args s w
      else (Inl (UnknownCommand cmd), s, w))"

definition tillit :: "'w cliSetup \<Rightarrow> string list \<Rightarrow> store \<Rightarrow> 'w \<Rightarrow> 'w ran" where
  "tillit su argv s w = (case argv of [] \<Rightarrow> (Inl NoCommand, s, w) | cmd # args \<Rightarrow> dispatch su cmd args s w)"

definition exitOf :: "'w cliSetup \<Rightarrow> string list \<Rightarrow> store \<Rightarrow> 'w \<Rightarrow> nat" where
  "exitOf su argv s w = exitCode (fst (tillit su argv s w))"

abbreviation storeAfter :: "'w cliSetup \<Rightarrow> string list \<Rightarrow> store \<Rightarrow> 'w \<Rightarrow> store" where
  "storeAfter su argv s w \<equiv> fst (snd (tillit su argv s w))"

end
