(* ===== verification/Cli_Steps.thy ===== *)
theory Cli_Steps
  imports Cli_Main
begin

text \<open>
  What every command of the program may do to the local store: each run is a sequence of
  the store's operations, of the kinds that a table grants to the command.
\<close>

section \<open>What a command may do to the store\<close>

text \<open>The commands that use an operation of the local store.\<close>

fun usersOf :: "storeOp \<Rightarrow> string list" where
  "usersOf (OpSaveKey k) = [''init'', ''key'', ''import'']"
| "usersOf (OpDeleteKey n) = [''key'']"
| "usersOf OpClearActiveKey = [''key'']"
| "usersOf (OpSetActiveKey n) = [''init'', ''key'', ''import'']"
| "usersOf (OpSaveServer v) = [''register'', ''import'']"
| "usersOf (OpSetServerSynced url t) = []"
| "usersOf (OpSavePeer p) = [''trust'', ''distrust'', ''import'']"
| "usersOf (OpSetPeerSynced i t) = [''sync'']"
| "usersOf (OpRemovePeer i) = [''forget'']"
| "usersOf (OpSaveSignature g) = [''sign'', ''revoke'', ''sync'', ''mirror'', ''import'']"
| "usersOf (OpDeleteSignature i) = [''delete'', ''clean'']"
| "usersOf (OpSaveConnection c) = [''trust'', ''distrust'', ''forget'', ''sync'', ''mirror'', ''import'']"
| "usersOf (OpDeleteConnection i) = [''clean'']"
| "usersOf (OpSaveUser u) = [''trust'', ''sync'', ''import'']"
| "usersOf (OpDeleteUser i) = [''clean'']"
| "usersOf (OpRecordPush i ty url t) = [''publish'', ''import'']"

definition permitted :: "string \<Rightarrow> storeOp \<Rightarrow> bool" where
  "permitted cmd op \<longleftrightarrow> cmd \<in> set (usersOf op)"

text \<open>One store from another by operations that satisfy a predicate.\<close>

definition becomes :: "(storeOp \<Rightarrow> bool) \<Rightarrow> store \<Rightarrow> store \<Rightarrow> bool" where
  "becomes P s s' \<longleftrightarrow> (\<exists>ops. list_all P ops \<and> s' = runOps ops s)"

lemma runOps_append: "runOps (a @ b) s = runOps b (runOps a s)"
  by (simp add: runOps_def)

lemma becomes_refl [simp]: "becomes P s s"
  by (auto simp: becomes_def intro: exI[of _ "[]"])

lemma becomes_trans: "becomes P s s' \<Longrightarrow> becomes P s' s'' \<Longrightarrow> becomes P s s''"
  unfolding becomes_def by (metis list_all_append runOps_append)

lemma becomes_op: "becomes P s s' \<Longrightarrow> P op \<Longrightarrow> becomes P s (runOp op s')"
proof (rule becomes_trans)
  assume "P op"
  then show "becomes P s' (runOp op s')" by (auto simp: becomes_def intro: exI[of _ "[op]"])
qed

lemmas becomes_ops =
  becomes_op[where op = "OpSaveKey k" for k, simplified]
  becomes_op[where op = "OpDeleteKey n" for n, simplified]
  becomes_op[where op = "OpClearActiveKey", simplified]
  becomes_op[where op = "OpSetActiveKey n" for n, simplified]
  becomes_op[where op = "OpSaveServer v" for v, simplified]
  becomes_op[where op = "OpSetPeerSynced i t" for i t, simplified]
  becomes_op[where op = "OpSavePeer p" for p, simplified]
  becomes_op[where op = "OpRemovePeer i" for i, simplified]
  becomes_op[where op = "OpSaveSignature g" for g, simplified]
  becomes_op[where op = "OpDeleteSignature i" for i, simplified]
  becomes_op[where op = "OpSaveConnection n" for n, simplified]
  becomes_op[where op = "OpDeleteConnection i" for i, simplified]
  becomes_op[where op = "OpSaveUser u" for u, simplified]
  becomes_op[where op = "OpDeleteUser i" for i, simplified]
  becomes_op[where op = "OpRecordPush i ty u t" for i ty u t, simplified]

lemma becomes_fold:
  "becomes P s s0 \<Longrightarrow> (\<And>x s'. x \<in> set xs \<Longrightarrow> becomes P s' (f x s')) \<Longrightarrow> becomes P s (fold f xs s0)"
proof (induction xs arbitrary: s0)
  case (Cons x xs)
  have "becomes P s (f x s0)" using Cons.prems(1) by (rule becomes_trans) (simp add: Cons.prems(2))
  then show ?case using Cons.IH[of "f x s0"] Cons.prems(2) by simp
qed simp

lemma becomes_fold_fst:
  assumes "\<And>x sw. becomes P s (fst sw) \<Longrightarrow> becomes P s (fst (f x sw))"
  shows "becomes P s (fst sw) \<Longrightarrow> becomes P s (fst (fold f xs sw))"
  by (induction xs arbitrary: sw) (simp_all add: assms)

lemma orUnchanged_Inr: "r = Inr s' \<Longrightarrow> orUnchanged s r = s'"
  by (simp add: orUnchanged_def)

text \<open>An outcome, with or without an error.\<close>

lemma becomes_andThen:
  assumes "becomes P s (fst r)" and "\<And>s'. becomes P s s' \<Longrightarrow> becomes P s (fst (k s'))"
  shows "becomes P s (fst (andThen r k))"
  using assms by (cases r; cases "snd r") (auto simp: andThen_def)

lemma becomes_withValue:
  assumes "becomes P s s0" and "\<And>x. r = Inr x \<Longrightarrow> becomes P s (fst (k x))"
  shows "becomes P s (fst (withValue r s0 k))"
  using assms by (cases r) (auto simp: withValue_def)

subsection \<open>Keys\<close>

lemma keyGenerate_becomes: "keyGenerate sch sl draws io args s = Inr s' \<Longrightarrow> (\<And>k. P (OpSaveKey k)) \<Longrightarrow> becomes P s s'"
  by (auto simp: keyGenerate_def Let_def bindE_eq_Inr split: list.splits sum.splits intro!: becomes_ops)

lemma InitCmd_becomes:
  "InitCmd sch sl draws io s = Inr s' \<Longrightarrow> (\<And>k. P (OpSaveKey k)) \<Longrightarrow> (\<And>n. P (OpSetActiveKey n)) \<Longrightarrow> becomes P s s'"
  by (auto simp: InitCmd_def bindE_eq_Inr split: sum.splits intro!: becomes_ops)

lemma keyUse_becomes: "keyUse args s = Inr s' \<Longrightarrow> (\<And>n. P (OpSetActiveKey n)) \<Longrightarrow> becomes P s s'"
  by (auto simp: keyUse_def split: list.splits sum.splits intro!: becomes_ops)

lemma keyPasswd_becomes: "keyPasswd sl io args s = Inr s' \<Longrightarrow> (\<And>k. P (OpSaveKey k)) \<Longrightarrow> becomes P s s'"
  by (auto simp: keyPasswd_def bindE_eq_Inr split: if_splits intro!: becomes_ops)

lemma runKeyRemove_becomes:
  assumes "runKeyRemove typed name s = Inr s'" and "\<And>n. P (OpDeleteKey n)" and "P OpClearActiveKey"
  shows "becomes P s s'"
proof -
  obtain n s1 where "DeleteKey n s = Inr s1" and s': "s' = s1 \<or> s' = ClearActiveKey s1"
    using assms(1) by (auto simp: runKeyRemove_def Let_def bindE_eq_Inr split: if_splits)
  then have "becomes P s s1" using becomes_op[of P s s, OF _ assms(2)[of n]] by (simp add: orUnchanged_Inr)
  with s' assms(3) show ?thesis by (auto intro!: becomes_ops)
qed


subsection \<open>Signatures and trust\<close>

lemma signAndCache_becomes:
  "signAndCache env io sg userID p s = Inr r \<Longrightarrow> (\<And>g. P (OpSaveSignature g)) \<Longrightarrow> becomes P s (fst r)"
  by (auto simp: signAndCache_def bindE_eq_Inr intro!: becomes_ops)

lemma Revoke_becomes: "Revoke env io args s = Inr r \<Longrightarrow> (\<And>g. P (OpSaveSignature g)) \<Longrightarrow> becomes P s (fst r)"
  by (auto simp: Revoke_def bindE_eq_Inr split: list.splits intro: signAndCache_becomes)

lemma Sign_becomes:
  assumes "Sign env ads io args s = Inr r" and "\<And>g. P (OpSaveSignature g)"
  shows "becomes P s (fst r)"
proof -
  have "signVersion env ads io rest s = Inr r \<Longrightarrow> becomes P s (fst r)" for rest
    by (auto simp: signVersion_def bindE_eq_Inr split: list.splits option.splits intro: signAndCache_becomes assms(2))
  moreover have "signDelta env ads io rest s = Inr r \<Longrightarrow> becomes P s (fst r)" for rest
    by (auto simp: signDelta_def bindE_eq_Inr split: list.splits option.splits intro: signAndCache_becomes assms(2))
  ultimately show ?thesis
    using assms(1) by (auto simp: Sign_def split: list.splits if_splits)
qed

lemma Delete_becomes:
  assumes "Delete args s = Inr s'" and "\<And>i. P (OpDeleteSignature i)"
  shows "becomes P s s'"
proof -
  obtain i where "DeleteCachedSignature i s = Inr s'"
    using assms(1) by (auto simp: Delete_def runDelete_def bindE_eq_Inr split: list.splits if_splits)
  then show ?thesis using becomes_op[of P s s, OF _ assms(2)[of i]] by (simp add: orUnchanged_Inr)
qed

lemma revokeActiveConnection_becomes:
  assumes "becomes P s s0" and "\<And>c. P (OpSaveConnection c)"
  shows "becomes P s (fst (revokeActiveConnection env rnd now sg userID otherID s0))"
  unfolding revokeActiveConnection_def
  by (auto split: option.split simp: Let_def intro!: becomes_withValue becomes_ops assms)

lemma recordTrustChange_becomes:
  assumes "becomes P s s0" and "\<And>c. P (OpSaveConnection c)" and "\<And>p. P (OpSavePeer p)"
  shows "becomes P s (fst (recordTrustChange env rnd1 rnd2 now sg userID p s0))"
  unfolding recordTrustChange_def
  by (intro becomes_trans[OF assms(1)] becomes_andThen becomes_withValue revokeActiveConnection_becomes)
     (auto intro!: becomes_ops assms)

lemma fetchAndCachePubkey_becomes:
  "(\<And>u. P (OpSaveUser u)) \<Longrightarrow> becomes P s (fst (fetchAndCachePubkey sch now resp i s))"
  by (auto simp: fetchAndCachePubkey_def Let_def split: option.split intro!: becomes_ops)

lemma Trust_becomes:
  assumes "\<And>u. P (OpSaveUser u)" and "\<And>c. P (OpSaveConnection c)" and "\<And>p. P (OpSavePeer p)"
  shows "becomes P s (fst (Trust env io rnd2 fetch args s))"
  unfolding Trust_def
  by (auto split: list.split prod.split
      intro!: becomes_withValue becomes_andThen recordTrustChange_becomes fetchAndCachePubkey_becomes assms)

lemma Distrust_becomes:
  assumes "\<And>c. P (OpSaveConnection c)" and "\<And>p. P (OpSavePeer p)"
  shows "becomes P s (fst (Distrust env io rnd2 args s))"
  unfolding Distrust_def
  by (auto split: list.split prod.split simp: Let_def intro!: becomes_withValue recordTrustChange_becomes assms)

lemma Forget_becomes:
  assumes "\<And>c. P (OpSaveConnection c)" and "\<And>i. P (OpRemovePeer i)"
  shows "becomes P s (fst (Forget env io args s))"
  unfolding Forget_def
  by (auto split: list.split prod.split
      intro!: becomes_withValue becomes_andThen revokeActiveConnection_becomes becomes_ops assms)

subsection \<open>Cleaning and importing\<close>

lemma applyPrune_becomes:
  assumes "\<And>i. P (OpDeleteSignature i)" and "\<And>i. P (OpDeleteConnection i)" and "\<And>i. P (OpDeleteUser i)"
  shows "becomes P s (applyPrune p s)"
  unfolding applyPrune_def by (intro becomes_fold becomes_ops becomes_refl assms)

lemma Clean_becomes:
  assumes "Clean sch iter c typed args s = Inr s'"
    and "\<And>i. P (OpDeleteSignature i)" and "\<And>i. P (OpDeleteConnection i)" and "\<And>i. P (OpDeleteUser i)"
  shows "becomes P s s'"
  using assms(1)
  by (auto simp: Clean_def runClean_def Let_def bindE_eq_Inr split: if_splits intro!: applyPrune_becomes assms(2-))


lemma importRow_becomes:
  assumes "importRow t s = SavedRow s'" and "\<And>op. ''import'' \<in> set (usersOf op) \<Longrightarrow> P op"
  shows "becomes P s s'"
  using assms(1)
  by (cases t) (auto simp: onRow_def importKey_def importActive_def importPeer_def importServer_def
      split: option.splits sum.splits if_splits intro!: becomes_ops assms(2))

lemma runImport_becomes:
  assumes "\<And>op. ''import'' \<in> set (usersOf op) \<Longrightarrow> P op"
  shows "becomes P s (fst (runImport fails n ts s))"
proof (induction fails n ts s rule: runImport.induct)
  case (2 fails n t ts s)
  then show ?case
    by (auto split: rowResult.split intro: becomes_trans[OF importRow_becomes[OF _ assms]])
qed simp

lemma Import_becomes:
  assumes "\<And>op. ''import'' \<in> set (usersOf op) \<Longrightarrow> P op"
  shows "becomes P s (fst (Import sl typed fails files decode args s))"
  by (auto simp: Import_def applyImport_def split: list.split option.split intro!: runImport_becomes assms)

subsection \<open>Servers\<close>

lemma Register_becomes:
  assumes "\<And>v. P (OpSaveServer v)"
  shows "becomes P s (fst (fst (Register sch ht args s w)))"
  unfolding Register_def
  by (auto split: list.split sum.split option.split prod.split simp: Let_def intro!: becomes_ops assms)

lemma cacheVerified_becomes:
  assumes "\<And>x s. becomes P s (save x s)" and "becomes P s s0"
  shows "becomes P s (fst (cacheVerified ok save xs s0))"
proof -
  have "becomes P s s1 \<Longrightarrow> becomes P s (save x s1)" for x s1 by (rule becomes_trans[OF _ assms(1)])
  with assms(2) show ?thesis by (induction ok save xs s0 rule: cacheVerified.induct) simp_all
qed

lemma ensurePubkey_becomes:
  assumes "\<And>u. P (OpSaveUser u)" and "ensurePubkey sch ht t p s w = (s1, w1, b)"
  shows "becomes P s s1"
proof (cases "GetCachedUser (peID p) s")
  case (Inl e)
  have "s1 = fst (fetchAndCachePubkey sch t (fst (fetchUser ht (peServerURL p) (peID p) w)) (peID p) s)"
    using assms(2) Inl by (auto simp: ensurePubkey_def split: prod.splits option.splits)
  then show ?thesis using fetchAndCachePubkey_becomes[of P] assms(1) by simp
qed (use assms(2) in \<open>simp add: ensurePubkey_def\<close>)

lemma cacheRows_becomes:
  "becomes P s s0 \<Longrightarrow> (\<And>c. P (OpSaveConnection c)) \<Longrightarrow> becomes P s (fst (cacheConnections sch now i ns s0))"
  "becomes P s s0 \<Longrightarrow> (\<And>g. P (OpSaveSignature g)) \<Longrightarrow> becomes P s (fst (cacheSignatures sch now i gs s0))"
  unfolding cacheConnections_def cacheSignatures_def
  by (rule cacheVerified_becomes; auto intro!: becomes_ops)+

lemma syncPeer_becomes:
  assumes "\<And>u. P (OpSaveUser u)" and "\<And>c. P (OpSaveConnection c)" and "\<And>g. P (OpSaveSignature g)"
    and "\<And>i t. P (OpSetPeerSynced i t)"
  shows "becomes P s (fst (syncPeer sch ht now pubNow p s w))"
proof -
  obtain s1 w1 b where e: "ensurePubkey sch ht (pubNow (peID p)) p s w = (s1, w1, b)" by (metis prod_cases3)
  have key: "becomes P s s1" using assms(1) e by (rule ensurePubkey_becomes)
  obtain conns w2 where c: "fetchUserConnections ht (peServerURL p) (peID p) (peLastSyncedAt p) w1 = (conns, w2)" by fastforce
  obtain s2 d2 where s2: "cacheConnections sch now (peID p) (fetchedRows conns) s1 = (s2, d2)" by fastforce
  have conn: "becomes P s s2"
    using cacheRows_becomes(1)[OF key assms(2), of sch now "peID p" "fetchedRows conns"] s2 by simp
  obtain r w3 where g: "fetchUserSignatures ht (peServerURL p) (peID p) (peLastSyncedAt p) w2 = (r, w3)" by fastforce
  show ?thesis
  proof (cases r)
    case None
    with e c s2 g key conn show ?thesis by (simp add: syncPeer_def split: bool.split)
  next
    case (Some sigs)
    obtain s3 d3 where s3: "cacheSignatures sch now (peID p) sigs s2 = (s3, d3)" by fastforce
    have sig: "becomes P s s3"
      using cacheRows_becomes(2)[OF conn assms(3), of sch now "peID p" sigs] s3 by simp
    have "becomes P s (orUnchanged s3 (SetPeerLastSyncedAt (peID p) now s3))"
      using becomes_ops(6)[OF sig assms(4)] .
    with Some e c s2 g s3 key conn sig show ?thesis by (simp add: syncPeer_def split: bool.split)
  qed
qed

lemma syncPeers_becomes:
  assumes "\<And>u. P (OpSaveUser u)" and "\<And>c. P (OpSaveConnection c)" and "\<And>g. P (OpSaveSignature g)"
    and "\<And>i t. P (OpSetPeerSynced i t)"
  shows "syncPeers sch ht now pubNow ps s w = (s', w', d) \<Longrightarrow> becomes P s s'"
proof (induction ps arbitrary: s w)
  case (Cons p ps)
  obtain s1 w1 d1 where p: "syncPeer sch ht now pubNow p s w = (s1, w1, d1)" by (metis prod_cases3)
  have "becomes P s s1" using syncPeer_becomes[of P s sch ht now pubNow p w] assms p by simp
  with Cons p show ?case by (auto split: if_splits intro: becomes_trans)
qed simp

lemma publishTo_becomes:
  assumes "\<And>i ty url t. P (OpRecordPush i ty url t)"
  shows "becomes P s0 (fst sw) \<Longrightarrow> becomes P s0 (fst (publishTo c ht now userID sigs conns srv sw))"
proof -
  have sig: "becomes P s0 (fst sw) \<Longrightarrow> becomes P s0 (fst (fold (publishSignature ht now userID u) gs sw))" for u gs sw
    by (rule becomes_fold_fst)
      (auto simp: publishSignature_def split: prod.splits option.splits intro!: becomes_ops assms)
  have conn: "becomes P s0 (fst sw) \<Longrightarrow> becomes P s0 (fst (fold (publishConnection c ht now userID u) ns sw))" for u ns sw
    by (rule becomes_fold_fst)
      (auto simp: publishConnection_def split: prod.splits option.splits intro!: becomes_ops assms)
  show "becomes P s0 (fst sw) \<Longrightarrow> becomes P s0 (fst (publishTo c ht now userID sigs conns srv sw))"
    unfolding publishTo_def by (intro conn sig)
qed

lemma Publish_becomes:
  assumes "\<And>i ty url t. P (OpRecordPush i ty url t)"
  shows "becomes P s (fst (fst (Publish sch c ht now s w)))"
proof -
  have "becomes P s (fst sw) \<Longrightarrow> becomes P s (fst (fold (publishTo c ht now userID sigs conns) srvs sw))" for userID sigs conns srvs sw
    by (intro becomes_fold_fst publishTo_becomes assms)
  from this[of "(s, w)"] show ?thesis
    by (simp add: Publish_def Let_def split_def split: sum.split)
qed

lemma Mirror_becomes:
  assumes "\<And>c. P (OpSaveConnection c)" and "\<And>g. P (OpSaveSignature g)"
  shows "becomes P s (fst (fst (Mirror env ht rnd clock rnds clocks now io args s w)))"
proof -
  have push: "fst (fst (mirrorPush env ht rnd clock io rest s w)) = s" for rest
    by (auto simp: mirrorPush_def Let_def split: list.split sum.split prod.split option.split)
  have sig: "becomes P s0 s1 \<Longrightarrow> becomes P s0 (fst (cacheVerified (\<lambda>_ _. True) (\<lambda>g. SaveCachedSignature (pullSigRow now g)) xs s1))" for xs s0 s1
    by (rule cacheVerified_becomes) (auto intro!: becomes_ops assms)
  have conn: "becomes P s0 s1 \<Longrightarrow> becomes P s0 (fst (cacheVerified (\<lambda>_ _. True) (\<lambda>c. SaveCachedConnection (pullConnRow now c)) xs s1))" for xs s0 s1
    by (rule cacheVerified_becomes) (auto intro!: becomes_ops assms)
  have "becomes P s (fst (fst (mirrorPull env ht rnds clocks now io rest s w)))" for rest
    using sig[OF becomes_refl, of s] conn
    by (auto simp: mirrorPull_def Let_def split: list.split sum.split prod.split option.split bool.split) (metis fst_conv)+
  with push show ?thesis by (auto simp: Mirror_def split: list.split)
qed


section \<open>The table of operations\<close>

lemma becomes_stored:
  "(\<And>s'. r = Inr s' \<Longrightarrow> becomes P s s') \<Longrightarrow> becomes P s (fst (snd (stored r s w)))"
  by (simp add: stored_def split: sum.split)

lemma becomes_ended: "becomes P s (fst (fst r)) \<Longrightarrow> becomes P s (fst (snd (ended r)))"
  by (simp add: ended_def split_def)

lemma shows_text_store [simp]: "fst (snd (shows_text r s w)) = s" "snd (snd (shows_text r s w)) = w"
  by (simp_all add: shows_text_def)

lemma if_becomes:
  "becomes P s (fst (snd x)) \<Longrightarrow> becomes P s (fst (snd y)) \<Longrightarrow> becomes P s (fst (snd (if b then x else y)))"
  by simp

lemmas stored_becomes =
  becomes_stored[OF keyGenerate_becomes] becomes_stored[OF keyUse_becomes] becomes_stored[OF keyPasswd_becomes]
  becomes_stored[OF runKeyRemove_becomes] becomes_stored[OF InitCmd_becomes] becomes_stored[OF Delete_becomes]
  becomes_stored[OF Clean_becomes]

lemma Key_becomes: "becomes (permitted ''key'') s (fst (snd (Key su args s w)))"
proof (cases args)
  case (Cons sub rest)
  have p: "permitted ''key'' (OpSaveKey k)" "permitted ''key'' (OpDeleteKey n)" "permitted ''key'' OpClearActiveKey"
    "permitted ''key'' (OpSetActiveKey n)" for k n
    by (simp_all add: permitted_def)
  show ?thesis
    unfolding Key_def Cons list.case
    by (intro if_becomes stored_becomes p) (simp_all add: stored_becomes(4) p split: list.split)
qed (simp add: Key_def)

definition commands :: "string list" where
  "commands = [''init'', ''key'', ''register'', ''trust'', ''distrust'', ''forget'', ''peers'', ''sign'', ''revoke'', ''delete'', ''clean'', ''sync'', ''publish'', ''mirror'', ''export'', ''import'', ''status'', ''query'', ''inspect'', ''check'']"

text \<open>A case of the dispatcher.\<close>

lemma becomes_case:
  "becomes (permitted c) s (fst (snd x)) \<Longrightarrow> becomes (permitted cmd) s (fst (snd y)) \<Longrightarrow>
     becomes (permitted cmd) s (fst (snd (if cmd = c then x else y)))"
  by simp

lemma stored_fst_becomes:
  "(\<And>x. r = Inr x \<Longrightarrow> becomes P s (fst x)) \<Longrightarrow> becomes P s (fst (snd (stored (map_sum id fst r) s w)))"
  by (cases r) (simp_all add: stored_def)

lemma ended_pair_becomes: "becomes P s (fst r) \<Longrightarrow> becomes P s (fst (snd (ended (r, w))))"
  by (simp add: becomes_ended)

lemma unchanged_becomes:
  "becomes P s (fst (snd (shows_text r s w)))" "becomes P s (fst (snd (runExport su args s w)))"
  "becomes P s (fst (snd (runCheck su args s w)))" "becomes P s (fst (snd (f, s, w)))"
  by (simp_all add: runExport_def runCheck_def)

lemma Sync_becomes: "becomes (permitted ''sync'') s (fst (fst (Sync sch ht now pubNow s w)))"
proof -
  obtain s' w' d where "syncPeers sch ht now pubNow (ListPeers s) s w = (s', w', d)" by (metis prod_cases3)
  moreover from this have "becomes (permitted ''sync'') s s'"
    by (rule syncPeers_becomes[rotated -1]) (simp_all add: permitted_def)
  ultimately show ?thesis by (simp add: Sync_def)
qed

lemmas command_becomes =
  becomes_case unchanged_becomes stored_becomes stored_fst_becomes[OF Sign_becomes] stored_fst_becomes[OF Revoke_becomes]
  becomes_ended[OF Register_becomes] becomes_ended[OF Publish_becomes] becomes_ended[OF Mirror_becomes]
  becomes_ended[OF Sync_becomes] ended_pair_becomes[OF Trust_becomes] ended_pair_becomes[OF Distrust_becomes]
  ended_pair_becomes[OF Forget_becomes] ended_pair_becomes[OF Import_becomes] Key_becomes

lemma permitted_table:
  "permitted ''init'' (OpSaveKey k)" "permitted ''key'' (OpSaveKey k)" "permitted ''key'' (OpDeleteKey n)"
  "permitted ''key'' OpClearActiveKey" "permitted ''init'' (OpSetActiveKey n)"
  "permitted ''key'' (OpSetActiveKey n)" "permitted ''register'' (OpSaveServer v)"
  "permitted ''trust'' (OpSavePeer p)" "permitted ''distrust'' (OpSavePeer p)"
  "permitted ''sync'' (OpSetPeerSynced i t)" "permitted ''forget'' (OpRemovePeer i)"
  "permitted ''sign'' (OpSaveSignature g)" "permitted ''revoke'' (OpSaveSignature g)"
  "permitted ''sync'' (OpSaveSignature g)" "permitted ''mirror'' (OpSaveSignature g)"
  "permitted ''delete'' (OpDeleteSignature i)" "permitted ''clean'' (OpDeleteSignature i)"
  "permitted ''trust'' (OpSaveConnection c)" "permitted ''distrust'' (OpSaveConnection c)"
  "permitted ''forget'' (OpSaveConnection c)" "permitted ''sync'' (OpSaveConnection c)"
  "permitted ''mirror'' (OpSaveConnection c)" "permitted ''clean'' (OpDeleteConnection i)"
  "permitted ''trust'' (OpSaveUser u)" "permitted ''sync'' (OpSaveUser u)"
  "permitted ''clean'' (OpDeleteUser i)" "permitted ''publish'' (OpRecordPush i ty url t)"
  "''import'' \<in> set (usersOf op) \<Longrightarrow> permitted ''import'' op"
  by (simp_all add: permitted_def)

text \<open>The commands that talk to servers.\<close>

definition online :: "string list" where
  "online = [''register'', ''trust'', ''sync'', ''publish'', ''mirror'']"

definition quiet :: "string \<Rightarrow> 'w \<Rightarrow> 'w ran \<Rightarrow> bool" where
  "quiet cmd w r \<longleftrightarrow> cmd \<in> set online \<or> snd (snd r) = w"

lemma quiet_case: "quiet c w x \<Longrightarrow> quiet cmd w y \<Longrightarrow> quiet cmd w (if cmd = c then x else y)"
  by simp

lemma quiet_results:
  "quiet c w (stored r s w)" "quiet c w (shows_text t s w)" "quiet c w (runExport su args s w)"
  "quiet c w (runCheck su args s w)" "quiet c w (f, s, w)" "quiet c w (ended (o1, w))" "quiet c w (Key su args s w)"
  by (auto simp: quiet_def stored_def runExport_def runCheck_def ended_def split_def Key_def split: sum.split list.split)

lemma quiet_online: "quiet ''register'' w r" "quiet ''trust'' w r" "quiet ''sync'' w r" "quiet ''publish'' w r" "quiet ''mirror'' w r"
  by (simp_all add: quiet_def online_def)

lemma dispatch_becomes: "becomes (permitted cmd) s (fst (snd (dispatch su cmd args s w)))"
  unfolding dispatch_def runTrust_def by (rule command_becomes permitted_table | assumption)+

lemma dispatch_quiet: "quiet cmd w (dispatch su cmd args s w)"
  unfolding dispatch_def by (intro quiet_case quiet_results quiet_online)

text \<open>C7: Every command changes the store only by the operations that the table grants it:
  keys by init, key and import, peers by trust, distrust, forget and import, deletions by delete
  and clean, and so on; a command without an entry, such as check, leaves the store alone.  And
  only register, trust, sync, publish and mirror send anything to a tillit server (sign asks the
  registries, whose answers are parameters).\<close>

theorem command_permitted:
  "(\<exists>ops. list_all (permitted cmd) ops \<and> fst (snd (dispatch su cmd args s w)) = runOps ops s)
   \<and> (cmd \<in> set online \<or> snd (snd (dispatch su cmd args s w)) = w)"
  using dispatch_becomes[of cmd s su args w] dispatch_quiet[of cmd w su args s] by (auto simp: becomes_def quiet_def)

end
