(* ===== verification/Cli_Runs.thy ===== *)
theory Cli_Runs
  imports Cli_Steps
begin

text \<open>
  Runs of the program one after the other, each with its own input, network and clock, as a
  step relation on local stores: what holds in every store that they reach, what
  they never lose, and what a failed command leaves.
\<close>

section \<open>Runs of the program\<close>

lemma becomes_mono: "becomes Q s s' \<Longrightarrow> (\<And>op. Q op \<Longrightarrow> P op) \<Longrightarrow> becomes P s s'"
  by (auto simp: becomes_def list_all_iff)

text \<open>The stores that runs lead to, of the kinds allowed by \<open>A\<close>; setting and network are new each time.\<close>

inductive leads :: "('w cliSetup \<Rightarrow> string list \<Rightarrow> bool) \<Rightarrow> store \<Rightarrow> store \<Rightarrow> bool" for A s where
  leads_none: "leads A s s"
| leads_run: "leads A s s' \<Longrightarrow> A su argv \<Longrightarrow> leads A s (storeAfter su argv s' w)"

lemma storeAfter_becomes: "becomes (permitted (case argv of [] \<Rightarrow> [] | cmd # _ \<Rightarrow> cmd)) s (storeAfter su argv s w)"
  using dispatch_becomes by (cases argv) (simp_all add: tillit_def)

text \<open>Invariants of the operations are invariants of the runs.\<close>

lemma becomes_invariant:
  assumes "becomes P s s'" and "I s" and "\<And>op s. P op \<Longrightarrow> I s \<Longrightarrow> I (runOp op s)"
  shows "I s'"
proof -
  obtain ops where "list_all P ops" "s' = runOps ops s" using assms(1) by (auto simp: becomes_def)
  then show ?thesis using assms(2) by (induction ops arbitrary: s s') (auto simp: assms(3))
qed

text \<open>The interface of an invariant: a run of an allowed kind keeps it.  Then all stores that runs
  lead to have it.\<close>

locale run_invariant =
  fixes A :: "'w cliSetup \<Rightarrow> string list \<Rightarrow> bool" and I :: "store \<Rightarrow> bool"
  assumes run: "I s \<Longrightarrow> A su argv \<Longrightarrow> I (storeAfter su argv s w)"
begin

lemma kept: "leads A s s' \<Longrightarrow> I s \<Longrightarrow> I s'"
  by (induction rule: leads.induct) (simp_all add: run)

end

interpretation wfRuns: run_invariant A store_wf for A
  by unfold_locales (rule becomes_invariant[OF storeAfter_becomes]; simp add: store_wf_runOp)

definition neverSynced :: "store \<Rightarrow> bool" where
  "neverSynced s \<longleftrightarrow> (\<forall>v\<in>set (servers s). svLastSyncedAt v = None)"

lemma servers_upsert_never:
  "\<forall>v\<in>set vs. svLastSyncedAt v = None \<Longrightarrow>
     \<forall>v\<in>set (upsertRow svURL (\<lambda>old new. new\<lparr>svLastSyncedAt := svLastSyncedAt old\<rparr>) (x\<lparr>svLastSyncedAt := None\<rparr>) vs). svLastSyncedAt v = None"
  by (auto simp: upsertRow_def)

lemma neverSynced_runOp: "usersOf op \<noteq> [] \<Longrightarrow> neverSynced s \<Longrightarrow> neverSynced (runOp op s)"
  using servers_upsert_never[of "servers s"]
  by (cases op) (auto simp: neverSynced_def storeOp_defs orUnchanged_def)

interpretation syncRuns: run_invariant A neverSynced for A
  by unfold_locales
    (rule becomes_invariant[where I = neverSynced, OF storeAfter_becomes]; auto simp: permitted_def intro: neverSynced_runOp)

text \<open>C36: Whatever commands are run, with whatever the network, the user and the files put in, the
  tables of the local store keep their keys unique; and no run ever notes the time of a
  synchronisation with a server, so that status reports \<open>never\<close> for each of them.\<close>

theorem reached_store_ok:
  assumes "leads A emptyStore s"
  shows "store_wf s \<and> list_all (\<lambda>v. serverLines sh v pending ! 1 = ''  last synced: never'') (ListServers s)"
proof -
  have "neverSynced s" using syncRuns.kept[OF assms] by (simp add: neverSynced_def emptyStore_def)
  then show ?thesis
    using wfRuns.kept[OF assms store_wf_empty]
    by (simp add: neverSynced_def list_all_iff ListServers_def serverLines_def)
qed

section \<open>What runs keep\<close>

subsection \<open>Published signatures\<close>

lemma HasBeenPushed_iff: "HasBeenPushed i ty s \<longleftrightarrow> (\<exists>r\<in>set (pushState s). prItemID r = i \<and> prItemType r = ty)"
  by (auto simp: HasBeenPushed_def filter_empty_conv)

lemma HasBeenPushed_runOp: "HasBeenPushed i ty s \<Longrightarrow> HasBeenPushed i ty (runOp op s)"
proof (cases op)
  case (OpRecordPush j ty' url t)
  assume "HasBeenPushed i ty s"
  then obtain r where r: "r \<in> set (pushState s)" "prItemID r = i" "prItemType r = ty" by (auto simp: HasBeenPushed_iff)
  have "IsPushed i ty (prServerURL r) (RecordPush j ty' url t s)" using r by (auto simp: IsPushed_iff[of i ty "prServerURL r" s])
  with OpRecordPush show ?thesis by (auto simp: HasBeenPushed_iff IsPushed_iff)
qed (auto simp: HasBeenPushed_iff storeOp_defs orUnchanged_def)

lemma Delete_keeps_pushed:
  assumes "Delete args s = Inr s'" and "store_wf s" and "g \<in> set (cachedSignatures s)"
    and "HasBeenPushed (csID g) ItemSignature s"
  shows "g \<in> set (cachedSignatures s')"
proof -
  have "\<exists>h :: cachedSignature. \<not> HasBeenPushed (csID h) ItemSignature s \<and> DeleteCachedSignature (csID h) s = Inr s'"
    using assms(1) by (auto simp: Delete_def runDelete_def bindE_eq_Inr split: list.splits if_splits)
  then obtain h :: cachedSignature where "\<not> HasBeenPushed (csID h) ItemSignature s" "DeleteCachedSignature (csID h) s = Inr s'" by blast
  with assms(3,4) show ?thesis by (auto simp: DeleteCachedSignature_def deleteRows_def split: if_splits)
qed

definition published :: "cachedSignature \<Rightarrow> store \<Rightarrow> bool" where
  "published g s \<longleftrightarrow> g \<in> set (cachedSignatures s) \<and> HasBeenPushed (csID g) ItemSignature s"

lemma published_runOp: "\<not> deletesSignature op \<Longrightarrow> published g s \<Longrightarrow> published g (runOp op s)"
  using signatures_kept_runOp[of op s] by (auto simp: published_def HasBeenPushed_runOp)

lemma published_becomes: "becomes P s s' \<Longrightarrow> (\<And>op. P op \<Longrightarrow> \<not> deletesSignature op) \<Longrightarrow> published g s \<Longrightarrow> published g s'"
  by (erule becomes_invariant[where I = "published g"]) (simp_all add: published_runOp)

lemma published_delete:
  "store_wf s \<Longrightarrow> published g s \<Longrightarrow> published g (fst (snd (dispatch su ''delete'' args s w)))"
  using Delete_keeps_pushed[of args s _ g] becomes_invariant[OF dispatch_becomes[of "''delete''" s su args w], of "HasBeenPushed (csID g) ItemSignature"]
  by (auto simp: dispatch_def stored_def published_def HasBeenPushed_runOp split: sum.splits)

definition noClean :: "'w cliSetup \<Rightarrow> string list \<Rightarrow> bool" where
  "noClean su argv \<longleftrightarrow> (case argv of [] \<Rightarrow> True | cmd # _ \<Rightarrow> cmd \<noteq> ''clean'')"

lemma published_run:
  assumes "store_wf s" and "noClean su argv" and "published g s"
  shows "published g (storeAfter su argv s w)"
proof (cases argv)
  case (Cons cmd args)
  show ?thesis
  proof (cases "cmd = ''delete''")
    case True
    with Cons assms show ?thesis using published_delete by (simp add: tillit_def)
  next
    case False
    have "permitted cmd op \<Longrightarrow> \<not> deletesSignature op" for op
      using False assms(2) Cons by (cases op) (auto simp: permitted_def noClean_def)
    with Cons assms(3) show ?thesis
      using published_becomes[OF dispatch_becomes[of cmd s su args w]] by (simp add: tillit_def)
  qed
qed (use assms in \<open>simp add: tillit_def\<close>)

interpretation pubRuns: run_invariant noClean "\<lambda>s. store_wf s \<and> published g s" for g
  by unfold_locales (simp add: wfRuns.run[where A = "\<lambda>_ _. True"] published_run)

text \<open>C26: A signature that has been pushed to a server stays in the local store, unchanged and known
  as pushed, through every sequence of commands without clean, whatever they receive
  from servers, files and the user.\<close>

theorem published_signature_stays:
  assumes "leads noClean s s'" and "store_wf s" and "published g s"
  shows "published g s'"
  using pubRuns.kept[OF assms(1)] assms(2,3) by blast

subsection \<open>The active key\<close>

fun touchesKeys :: "storeOp \<Rightarrow> bool" where
  "touchesKeys (OpSaveKey k) = True"
| "touchesKeys (OpDeleteKey n) = True"
| "touchesKeys OpClearActiveKey = True"
| "touchesKeys (OpSetActiveKey n) = True"
| "touchesKeys _ = False"

definition activeOk :: "store \<Rightarrow> bool" where
  "activeOk s \<longleftrightarrow> (case activeKey s of None \<Rightarrow> True | Some n \<Rightarrow> n \<in> kyName ` set (keys s))"

lemma keys_runOp: "\<not> touchesKeys op \<Longrightarrow> keys (runOp op s) = keys s \<and> activeKey (runOp op s) = activeKey s"
  by (cases op) (auto simp: storeOp_defs orUnchanged_def)

lemma activeOk_runOp: "\<not> touchesKeys op \<Longrightarrow> activeOk s \<Longrightarrow> activeOk (runOp op s)"
  by (cases "activeKey s") (simp_all add: activeOk_def keys_runOp)

lemma keyNames_SaveKey: "kyName ` set (keys (SaveKey k s)) = insert (kyName k) (kyName ` set (keys s))"
  by (auto simp: SaveKey_def upsertRow_def list_ex_iff image_iff)

lemma activeOk_SaveKey: "activeOk s \<Longrightarrow> activeOk (SaveKey k s)"
  unfolding activeOk_def keyNames_SaveKey by (simp add: SaveKey_def split: option.splits)

lemma activeOk_SetActiveKey: "n \<in> kyName ` set (keys s) \<Longrightarrow> activeOk (SetActiveKey n s)"
  by (simp add: activeOk_def SetActiveKey_def)

lemma runKeyRemove_Inr:
  "runKeyRemove typed name s = Inr s' \<longleftrightarrow> (\<exists>k s1. GetKey name s = Inr k \<and> promptLine typed = Inr (kyName k)
     \<and> DeleteKey (kyName k) s = Inr s1 \<and> s' = (if activeNameOf s = kyName k then ClearActiveKey s1 else s1))"
  by (auto simp: runKeyRemove_def Let_def bindE_eq_Inr)

lemma activeOk_remove:
  assumes "runKeyRemove typed name s = Inr s'" and "activeOk s"
  shows "activeOk s'"
proof -
  obtain k :: key and s1 where k: "DeleteKey (kyName k) s = Inr s1"
    and s': "s' = (if activeNameOf s = kyName k then ClearActiveKey s1 else s1)"
    using assms(1) unfolding runKeyRemove_Inr by blast
  show ?thesis
    using k assms(2) unfolding s'
    by (auto simp: activeOk_def DeleteKey_def deleteRows_def ClearActiveKey_def activeNameOf_def GetActiveKey_def orNotFound_def
        split: if_splits option.splits)
qed

lemma stored_invariant: "(\<And>s'. r = Inr s' \<Longrightarrow> I s') \<Longrightarrow> I s \<Longrightarrow> I (fst (snd (stored r s w)))"
  by (simp add: stored_def split: sum.split)

lemma activeOk_generate: "keyGenerate sch sl draws io args s = Inr s' \<Longrightarrow> activeOk s \<Longrightarrow> activeOk s'"
  by (auto simp: keyGenerate_def Let_def bindE_eq_Inr split: list.splits sum.splits intro: activeOk_SaveKey)

lemma activeOk_passwd: "keyPasswd sl io args s = Inr s' \<Longrightarrow> activeOk s \<Longrightarrow> activeOk s'"
  by (auto simp: keyPasswd_def bindE_eq_Inr split: if_splits intro: activeOk_SaveKey)

lemma activeOk_use: "keyUse args s = Inr s' \<Longrightarrow> activeOk s'"
  by (auto simp: keyUse_def split: list.splits sum.splits dest!: GetKey_name intro!: activeOk_SetActiveKey)

lemma activeOk_init: "InitCmd sch sl draws io s = Inr s' \<Longrightarrow> activeOk s \<Longrightarrow> activeOk s'"
  by (auto simp: InitCmd_def bindE_eq_Inr keyNames_SaveKey split: sum.splits dest!: buildStoredKey_Inr intro!: activeOk_SetActiveKey)

lemma activeOk_Key:
  assumes "activeOk s"
  shows "activeOk (fst (snd (Key su args s w)))"
proof (cases args)
  case (Cons sub rest)
  have if_ok: "activeOk (fst (snd x)) \<Longrightarrow> activeOk (fst (snd y)) \<Longrightarrow> activeOk (fst (snd (if b then x else y)))" for b and x y :: "'a ran"
    by simp
  have removed: "activeOk (fst (snd (stored (runKeyRemove (suTyped su) n s) s w)))" for n
    by (rule stored_invariant[where I = activeOk]) (auto intro: activeOk_remove assms)
  show ?thesis
    unfolding Key_def Cons list.case
    by (intro if_ok stored_invariant[where I = activeOk] assms; (erule activeOk_generate activeOk_passwd activeOk_use)?;
        simp add: assms removed split: list.split)
qed (simp add: Key_def assms)

subsection \<open>Importing an active key\<close>

definition docOk :: "importDoc \<Rightarrow> bool" where
  "docOk doc \<longleftrightarrow> mdActiveKey doc = [] \<or> (\<exists>k. Some k \<in> set (mdKeys doc) \<and> kyName k = mdActiveKey doc)"

text \<open>The active key is set after all keys: no part of an import sets one that is not there.\<close>

lemma activeOk_steps:
  assumes "activeOk s" and "\<And>name. ActiveStep name \<in> set ts \<Longrightarrow> name = [] \<or> name \<in> kyName ` set (keys (fold stepped ts s))"
  shows "activeOk (fold stepped ts s)"
proof -
  have old: "kyName ` set (keys s) \<subseteq> kyName ` set (keys (fold stepped ts s))"
    by (simp add: steps_tables fold_insertIgnore_keys)
  have names: "name \<in> set (rowsIn activeIn id us) \<Longrightarrow> ActiveStep name \<in> set us" for name us
    by (induction us) (auto split: option.splits elim: activeIn.elims)
  show ?thesis
  proof (cases "activeKey (fold stepped ts s) = activeKey s")
    case True
    with assms(1) old show ?thesis by (auto simp: activeOk_def split: option.splits)
  next
    case False
    then obtain name where "find (\<lambda>n. n \<noteq> []) (rowsIn activeIn id ts) = Some name" "activeKey (fold stepped ts s) = Some name"
      by (auto simp: steps_tables fold_noted split: if_splits option.splits)
    moreover from this(1) have "name \<in> set (rowsIn activeIn id ts)" "name \<noteq> []" by (auto dest: find_Some_D)
    ultimately show ?thesis using assms(2) names by (auto simp: activeOk_def)
  qed
qed

lemma keys_first: "map KeyStep ks @ c = a @ ActiveStep name # b \<Longrightarrow> set (map KeyStep ks) \<subseteq> set a"
proof (induction ks arbitrary: a)
  case (Cons k ks)
  then obtain a' where "a = KeyStep k # a'" "map KeyStep ks @ c = a' @ ActiveStep name # b" by (cases a) auto
  with Cons.IH show ?case by auto
qed simp

lemma rowsIn_member: "t \<in> set ts \<Longrightarrow> sel t = Some r \<Longrightarrow> f r \<in> set (rowsIn sel f ts)"
  by (induction ts) (auto split: option.split)

lemma activeOk_import:
  assumes "docOk doc" and "activeOk s" and "importSteps doc = pre @ post"
  shows "activeOk (fold stepped pre s)"
proof (rule activeOk_steps[OF assms(2)])
  fix name assume name: "ActiveStep name \<in> set pre"
  then have doc: "name = mdActiveKey doc" using arg_cong[OF assms(3), of set] by (auto simp: importSteps_def)
  from name obtain a b where ab: "pre = a @ ActiveStep name # b" by (meson split_list)
  obtain c where "importSteps doc = map KeyStep (mdKeys doc) @ c" by (simp add: importSteps_def)
  with assms(3) ab have "map KeyStep (mdKeys doc) @ c = a @ ActiveStep name # b @ post" by simp
  from keys_first[OF this] ab have before: "KeyStep r \<in> set pre" if "r \<in> set (mdKeys doc)" for r using that by auto
  show "name = [] \<or> name \<in> kyName ` set (keys (fold stepped pre s))"
  proof (cases "name = []")
    case False
    then obtain k where "Some k \<in> set (mdKeys doc)" "kyName k = name" using assms(1) doc by (auto simp: docOk_def)
    moreover from this(1) have "k \<in> set (rowsIn keyIn id pre)" using rowsIn_member[OF before, of "Some k" keyIn k id] by simp
    ultimately show ?thesis by (auto simp: steps_tables fold_insertIgnore_keys)
  qed simp
qed

definition consistentFiles :: "'w cliSetup \<Rightarrow> string list \<Rightarrow> bool" where
  "consistentFiles su argv \<longleftrightarrow> (\<forall>path raw doc. suFile su path = Some raw \<longrightarrow> suDecode su raw = Some doc \<longrightarrow> docOk doc)"

lemma Import_activeOk:
  assumes "consistentFiles su argv" and "activeOk s"
  shows "activeOk (fst (Import (suSealing su) (suTypedKey su) (suFails su) (suFile su) (suDecode su) args s))"
proof (cases rule: Import_cases[where sl = "suSealing su" and typed = "suTypedKey su" and files = "suFile su" and decode = "suDecode su" and args = args])
  case (refused x)
  with assms(2) show ?thesis by simp
next
  case (run path raw doc)
  obtain s' e where r: "runImport (suFails su) 0 (importSteps doc) s = (s', e)" by fastforce
  obtain pre post where pre: "takeWhile (\<lambda>t. \<not> isNil t) (importSteps doc) = pre @ post" "s' = fold stepped pre s"
    using runImport_steps[OF r] by blast
  have "importSteps doc = pre @ post @ dropWhile (\<lambda>t. \<not> isNil t) (importSteps doc)"
    using pre(1) by (metis append.assoc takeWhile_dropWhile_id)
  moreover have "docOk doc" using run(2,3) assms(1) by (auto simp: consistentFiles_def)
  ultimately show ?thesis using activeOk_import assms(2) pre(2) r run(4) by (metis fst_conv)
qed

lemma activeOk_elsewhere:
  assumes "cmd \<notin> {''init'', ''key'', ''import''}" and "activeOk s"
  shows "activeOk (fst (snd (dispatch su cmd args s w)))"
proof (rule becomes_invariant[where I = activeOk, OF dispatch_becomes assms(2)])
  fix op s assume "permitted cmd op" and "activeOk s"
  moreover from this assms(1) have "\<not> touchesKeys op" by (cases op) (auto simp: permitted_def)
  ultimately show "activeOk (runOp op s)" by (simp add: activeOk_runOp)
qed

lemma dispatch_keys:
  "dispatch su ''init'' args s w = stored (InitCmd (suSchemes su) (suSealing su) (suDraws su) (suKeyIO su) s) s w"
  "dispatch su ''key'' args s w = Key su args s w"
  "dispatch su ''import'' args s w = ended (Import (suSealing su) (suTypedKey su) (suFails su) (suFile su) (suDecode su) args s, w)"
  unfolding dispatch_def by simp_all

lemma activeOk_run:
  assumes "consistentFiles su argv" and "activeOk s"
  shows "activeOk (storeAfter su argv s w)"
proof (cases argv)
  case (Cons cmd args)
  have "activeOk (fst (snd (dispatch su cmd args s w)))"
  proof (cases "cmd \<in> {''init'', ''key'', ''import''}")
    case True
    then consider "cmd = ''init''" | "cmd = ''key''" | "cmd = ''import''" by blast
    then show ?thesis
    proof cases
      case 1
      show ?thesis unfolding 1 dispatch_keys
        by (rule stored_invariant[where I = activeOk]) (auto intro: activeOk_init assms(2))
    next
      case 2
      show ?thesis unfolding 2 dispatch_keys by (rule activeOk_Key[OF assms(2)])
    next
      case 3
      show ?thesis
        unfolding 3 dispatch_keys using Import_activeOk[OF assms] by (simp add: ended_def split_def)
    qed
  next
    case False
    then show ?thesis using assms(2) by (rule activeOk_elsewhere)
  qed
  with Cons show ?thesis by (simp add: tillit_def)
qed (simp add: tillit_def assms)

interpretation keyRuns: run_invariant consistentFiles activeOk
  by unfold_locales (rule activeOk_run)

text \<open>As long as the imported files name an active key that they hold, the active key of a
  store that the program made is always among its keys: it is none or can be read.\<close>

theorem active_key_exists:
  assumes "leads consistentFiles emptyStore s"
  shows "GetActiveKey s = Inl NoActiveKey \<or> (\<exists>n k. GetActiveKey s = Inr n \<and> GetKey n s = Inr k \<and> kyName k = n)"
proof -
  have "activeOk s"
    using keyRuns.kept[OF assms] by (simp add: activeOk_def emptyStore_def)
  then show ?thesis
    by (cases "activeKey s")
      (auto simp: activeOk_def GetActiveKey_def GetKey_def orNotFound_def rowByKey_def find_None_iff find_Some_iff split: option.split)
qed

text \<open>The files that export writes are of that kind; a file that is not makes import report success
  and leaves an active key that no command can load.\<close>

lemma Export_built:
  "Export sch iter c at encode args s = Inr (Some (path, raw)) \<Longrightarrow>
     \<exists>scope name doc. buildExportDoc sch iter c at s scope name = Inr doc \<and> raw = encode doc"
  unfolding Export_def bindE_eq_Inr
proof (elim exE conjE, goal_cases)
  case (1 x)
  then show ?case
    by (cases x; cases "eoPositional (the x)"; cases "tl (eoPositional (the x))") (auto simp: bindE_eq_Inr split: if_split_asm)
qed

lemma Export_docOk:
  assumes "Export sch iter c at encode args s = Inr (Some (path, raw))" and "activeOk s"
  shows "\<exists>doc. raw = encode doc \<and> docOk (asRead doc)"
proof -
  obtain scope name doc where built: "buildExportDoc sch iter c at s scope name = Inr doc" "raw = encode doc"
    using Export_built[OF assms(1)] by blast
  then obtain i ks n where i: "exportIdentity sch s name = Inr (i, ks, n)" and doc: "xdActiveKey doc = n" "xdKeys doc = ks"
    by (cases scope) (auto simp: buildExportDoc_def bindE_eq_Inr Let_def split: if_splits)
  have "n = [] \<or> n \<in> kyName ` set ks"
  proof (cases "name = []")
    case True
    with i assms(2) show ?thesis
      by (auto simp: exportIdentity_def Let_def activeOk_def activeNameOf_def GetActiveKey_def orNotFound_def ListKeys_def
          split: option.splits)
  next
    case False
    with i show ?thesis by (auto simp: exportIdentity_def bindE_eq_Inr dest: GetKey_name)
  qed
  then have "docOk (asRead doc)" using doc by (auto simp: docOk_def)
  with built(2) show ?thesis by blast
qed

lemma Import_dangling:
  assumes "mdVersion doc = exportFormatVersion" and "mdKeys doc = []" and "mdActiveKey doc = c # n"
    and "\<not> list_ex isNil (importSteps doc)"
  shows "\<exists>s'. Import sl typed (\<lambda>_. False) (\<lambda>_. Some raw) (\<lambda>_. Some doc) [path] emptyStore = (s', None)
     \<and> activeUserID sch s' = Inl (StoreErr (KeyNotFound (c # n)))"
proof -
  let ?s = "fold stepped (importSteps doc) emptyStore"
  have all: "takeWhile (\<lambda>t. \<not> isNil t) (importSteps doc) = importSteps doc"
    using assms(4) by (simp add: takeWhile_eq_all_conv list_ex_iff)
  have run: "Import sl typed (\<lambda>_. False) (\<lambda>_. Some raw) (\<lambda>_. Some doc) [path] emptyStore = (?s, None)"
    using assms by (simp add: Import_def applyImport_def runImport_undisturbed all)
  have "keys ?s = []" "activeKey ?s = Some (c # n)"
    using assms(2,3) by (simp_all add: steps_tables importSteps_def rowsIn_none emptyStore_def noted_def)
  then have "activeUserID sch ?s = Inl (StoreErr (KeyNotFound (c # n)))"
    by (simp add: activeUserID_def GetActiveKey_def GetKey_def orNotFound_def rowByKey_def)
  with run show ?thesis by blast
qed

section \<open>Failures\<close>

text \<open>Registering and publishing note what they have done at the end only: the store is unchanged
  when they fail, though the server may have the account or rows by then.\<close>

lemma failed_register_keeps_store: "Register sch ht args s w = ((s', Some e), w') \<Longrightarrow> s' = s"
  by (auto simp: Register_def Let_def split: list.splits sum.splits option.splits prod.splits if_splits)

lemma failed_publish_keeps_store: "Publish sch c ht now s w = ((s', Some e), w') \<Longrightarrow> s' = s"
  by (auto simp: Publish_def Let_def split: sum.splits prod.splits if_splits)

lemma no_command_keeps_store:
  "tillit su [] s w = (Inl NoCommand, s, w)"
  "cmd \<notin> set commands \<Longrightarrow> storeAfter su (cmd # args) s w = s \<and> exitOf su (cmd # args) s w = 1"
  by (auto simp: tillit_def exitOf_def dispatch_def commands_def)

end
