(* ===== verification/Main_Examples.thy ===== *)
theory Main_Examples
  imports Cli_Runs Net_Examples Check_Examples Adapter_Examples
begin

text \<open>Runs of the program in a concrete setting, as witnesses.\<close>

definition demoSetup :: "serverDb cliSetup" where
  "demoSetup = \<lparr>suEnv = demoCli,
     suIO = \<lparr>ioKey = \<lparr>kiSalt = [], kiNonce = [], kiCurrent = None, kiNew = Some [], kiAgain = Some []\<rparr>, ioRnd = [], ioNow = 0\<rparr>,
     suRnd2 = [], suHttp = demoNet, suDraws = \<lparr>kdEd25519 = Some (replicate 64 CHR ''k''), kdSLHDSA = Some ''fresh''\<rparr>,
     suTyped = Some ''y'', suTypedKey = (\<lambda>_. None), suPubNow = (\<lambda>_. 0), suRnds = (\<lambda>_. []), suClocks = (\<lambda>_. 0),
     suPull = (([], []), (0, 0)), suFile = (\<lambda>_. None), suEncode = (\<lambda>_. ''{}''), suDecode = (\<lambda>_. None), suFails = (\<lambda>_. False), suAt = [],
     suShow = \<lparr>shTime = (\<lambda>t. []), shIndented = encPayload\<rparr>, suFs = demoFs, suAdapters = demoAE,
     suMapOrder = (\<lambda>m. m), suMapOrders = (\<lambda>_ m. m), suSpanSort = (\<lambda>_ l. l), suStringSort = (\<lambda>_ l. l), suRowSort = (\<lambda>_ l. l)\<rparr>"

abbreviation afterInit :: store where
  "afterInit \<equiv> storeAfter demoSetup [''init''] emptyStore emptyDb"

definition initKey :: key where
  "initKey = \<lparr>kyName = ''default'', kyAlgorithm = ''ed25519'', kyPubKey = b64Encode (replicate 32 CHR ''k''),
     kyPrivKey = b64Encode (replicate 64 CHR ''k'')\<rparr>"

lemma afterInit_keys: "keys afterInit = [initKey]" "activeKey afterInit = Some ''default''"
  unfolding tillit_def list.case dispatch_keys
  by (simp_all add: stored_def InitCmd_def GetKey_def orNotFound_def rowByKey_def emptyStore_def buildStoredKey_def demoSetup_def
      promptPasswordTwice_def promptPassword_def trimCRLF_def encodePrivKeyField_def SetActiveKey_def SaveKey_def upsertRow_def
      initKey_def NewEd25519Signer_def demoCli_def toySchemes_def)

lemma reached_store_ok_witness:
  "store_wf (storeAfter demoSetup [''register'', ''https://t''] afterInit emptyDb)"
proof -
  have "leads (\<lambda>(_ :: serverDb cliSetup) _. True) emptyStore (storeAfter demoSetup [''register'', ''https://t''] afterInit emptyDb)"
    by (intro leads_run leads_none) simp_all
  from reached_store_ok[OF this] show ?thesis by blast
qed

lemma active_key_exists_witness: "\<exists>k. GetActiveKey afterInit = Inr ''default'' \<and> GetKey ''default'' afterInit = Inr k"
proof -
  have "leads (consistentFiles :: serverDb cliSetup \<Rightarrow> _) emptyStore afterInit"
    by (intro leads_run leads_none) (simp add: consistentFiles_def demoSetup_def)
  moreover have "GetActiveKey afterInit = Inr ''default''" by (simp add: GetActiveKey_def orNotFound_def afterInit_keys)
  ultimately show ?thesis using active_key_exists[of afterInit] by auto
qed

definition pushedStore :: store where
  "pushedStore = demoStore\<lparr>pushState := [\<lparr>prItemID = ''t'', prItemType = ItemSignature, prServerURL = ''https://t'', prPushedAt = 0\<rparr>]\<rparr>"

lemma published_signature_stays_witness: "published demoTarget (storeAfter demoSetup [''delete'', ''t''] pushedStore emptyDb)"
proof -
  have "leads (noClean :: serverDb cliSetup \<Rightarrow> _) pushedStore (storeAfter demoSetup [''delete'', ''t''] pushedStore emptyDb)"
    by (intro leads_run leads_none) (simp add: noClean_def)
  moreover have "store_wf pushedStore"
    by (simp add: store_wf_def keysDistinct_def pushedStore_def demoStore_def emptyStore_def)
  moreover have "published demoTarget pushedStore"
    by (simp add: published_def HasBeenPushed_def pushedStore_def demoStore_def demoTarget_def)
  ultimately show ?thesis by (rule published_signature_stays)
qed

end
