(* ===== verification/Server_Main.thy ===== *)
theory Server_Main
  imports Cli_Http Server
begin

text \<open>
  The server program around the routes: \<open>config/config.go\<close>, the start in \<open>main.go\<close>, the chain of
  handlers of \<open>api/api.go\<close>, and the middleware that gives every request an id and logs
  it, \<open>middleware/logging.go\<close> and \<open>requestid.go\<close>.  The TOML decoder, the opening of the database,
  the rate limiter, the ids and the clock are parameters.
\<close>

section \<open>Configuration\<close>

record serverSection =
  scHostName :: string
  scPort :: int
  scPublicURL :: string

record ratelimitSection =
  rlRequestLimit :: int
  rlWindowLength :: int

record databaseSection =
  dcType :: string
  dcDSN :: string

record config =
  cfServer :: serverSection
  cfRatelimit :: ratelimitSection
  cfDatabase :: databaseSection

datatype configError =
    EmptyHostName | PortOutOfRange | BadRequestLimit | BadWindowLength
  | DatabaseTypeMissing | UnknownDBType string | MissingDSN | NotDecodable

definition server_Validate :: "serverSection \<Rightarrow> configError option" where
  "server_Validate s =
     (if length (scHostName s) = 0 then Some EmptyHostName
      else if scPort s \<le> 0 \<or> scPort s > 65535 then Some PortOutOfRange
      else None)"

definition ratelimit_Validate :: "ratelimitSection \<Rightarrow> configError option" where
  "ratelimit_Validate r =
     (if rlRequestLimit r \<le> 0 then Some BadRequestLimit
      else if rlWindowLength r \<le> 0 then Some BadWindowLength
      else None)"

definition database_Validate :: "databaseSection \<Rightarrow> configError option" where
  "database_Validate d =
     (if dcType d = ''sqlite'' then (if length (dcDSN d) = 0 then Some MissingDSN else None)
      else if dcType d = [] then Some DatabaseTypeMissing
      else Some (UnknownDBType (dcType d)))"

definition config_Validate :: "config \<Rightarrow> configError option" where
  "config_Validate cfg =
     (case server_Validate (cfServer cfg) of
        Some e \<Rightarrow> Some e
      | None \<Rightarrow> (case ratelimit_Validate (cfRatelimit cfg) of
          Some e \<Rightarrow> Some e
        | None \<Rightarrow> (case database_Validate (cfDatabase cfg) of Some e \<Rightarrow> Some e | None \<Rightarrow> None)))"

definition signedItoa :: "int \<Rightarrow> string" where
  "signedItoa i = (if i < 0 then CHR ''-'' # itoa (nat (- i)) else itoa (nat i))"

definition tab :: string where "tab = [char_of (9 :: nat)]"

definition config_String :: "config \<Rightarrow> string" where
  "config_String cfg = concat (map (\<lambda>l. l @ [char_of (10 :: nat)])
     [''Config'', ''Server:'', tab @ ''HostName: '' @ scHostName (cfServer cfg),
      tab @ ''Port: '' @ signedItoa (scPort (cfServer cfg)), ''Ratelimit:'',
      tab @ ''RequestLimit: '' @ signedItoa (rlRequestLimit (cfRatelimit cfg)),
      tab @ ''WindowLength: '' @ signedItoa (rlWindowLength (cfRatelimit cfg)) @ '' seconds'', ''Database:'',
      tab @ ''Type: '' @ dcType (cfDatabase cfg), tab @ ''DSN: '' @ dcDSN (cfDatabase cfg)])"

text \<open>\<open>decodeFile\<close> reads and decodes the file.\<close>

definition LoadConfig :: "(string \<Rightarrow> config option) \<Rightarrow> string \<Rightarrow> configError + config" where
  "LoadConfig decodeTOML path =
     (case decodeTOML path of
        None \<Rightarrow> Inl NotDecodable
      | Some cfg \<Rightarrow> (case config_Validate cfg of Some e \<Rightarrow> Inl e | None \<Rightarrow> Inr cfg))"

section \<open>Start\<close>

datatype startError = ConfigFailed configError | DatabaseFailed | NoSuchDatabase string

text \<open>\<open>net.JoinHostPort\<close>.\<close>

definition JoinHostPort :: "string \<Rightarrow> string \<Rightarrow> string" where
  "JoinHostPort host port = (if CHR '':'' \<in> set host then ''['' @ host @ '']:'' @ port else host @ '':'' @ port)"

text \<open>\<open>db.Init\<close>: \<open>opened\<close> says whether the file can be opened and the tables made.\<close>

definition dbInit :: "(string \<Rightarrow> bool) \<Rightarrow> string \<Rightarrow> string \<Rightarrow> startError + unit" where
  "dbInit opened connector dsn =
     (if connector = ''sqlite3'' then (if opened dsn then Inr () else Inl DatabaseFailed)
      else Inl (NoSuchDatabase connector))"

text \<open>The address that is served and the configuration, or what is fatal.\<close>

definition run :: "(string \<Rightarrow> config option) \<Rightarrow> (string \<Rightarrow> bool) \<Rightarrow> startError + string \<times> config" where
  "run decodeTOML opened =
     (case LoadConfig decodeTOML ''config.toml'' of
        Inl e \<Rightarrow> Inl (ConfigFailed e)
      | Inr conf \<Rightarrow>
          (if dcType (cfDatabase conf) = ''sqlite'' then
             bindE (dbInit opened ''sqlite3'' (dcDSN (cfDatabase conf))) (\<lambda>_.
               Inr (JoinHostPort (scHostName (cfServer conf)) (signedItoa (scPort (cfServer conf))), conf))
           else Inl (NoSuchDatabase (dcType (cfDatabase conf)))))"

section \<open>Logging\<close>

text \<open>What a handler does to its writer: set the header, write bytes.  \<open>sent\<close> is what the client
  gets: the first header, or 200 when bytes come first.\<close>

datatype writeOp = WriteHeader nat | WriteBytes nat

record wrappedWriter =
  wwStatus :: nat
  wwBytes :: nat
  wwSent :: "nat option"

fun wrappedWrite :: "writeOp \<Rightarrow> wrappedWriter \<Rightarrow> wrappedWriter" where
  "wrappedWrite (WriteHeader code) w =
     w\<lparr>wwStatus := code, wwSent := (case wwSent w of None \<Rightarrow> Some code | Some c \<Rightarrow> Some c)\<rparr>"
| "wrappedWrite (WriteBytes n) w =
     w\<lparr>wwBytes := wwBytes w + n, wwSent := (case wwSent w of None \<Rightarrow> Some 200 | Some c \<Rightarrow> Some c)\<rparr>"

definition logged :: "writeOp list \<Rightarrow> wrappedWriter" where
  "logged ops = fold wrappedWrite ops \<lparr>wwStatus = 200, wwBytes = 0, wwSent = None\<rparr>"

definition sentStatus :: "wrappedWriter \<Rightarrow> nat" where
  "sentStatus w = (case wwSent w of None \<Rightarrow> 200 | Some c \<Rightarrow> c)"

text \<open>The loop of \<open>humanReadableBytes\<close>; \<open>fixed1 a b\<close> prints the quotient with one decimal.\<close>

function unitLoop :: "nat \<Rightarrow> nat \<Rightarrow> nat \<Rightarrow> nat \<times> nat" where
  "unitLoop n dv ex = (if n \<ge> 1024 then unitLoop (n div 1024) (dv * 1024) (Suc ex) else (dv, ex))"
  by auto
termination by (relation "measure (\<lambda>(n, dv, ex). n)") auto

declare unitLoop.simps [simp del]

definition humanReadableBytes :: "(nat \<Rightarrow> nat \<Rightarrow> string) \<Rightarrow> nat \<Rightarrow> string" where
  "humanReadableBytes fixed1 bytes =
     (if bytes < 1024 then itoa bytes @ '' B''
      else (case unitLoop (bytes div 1024) 1024 0 of (dv, ex) \<Rightarrow>
        fixed1 bytes dv @ '' '' @ [''KMGTPE'' ! ex] @ ''B''))"

section \<open>The chain of handlers\<close>

record httpRequest = request +
  hrRealIP :: string
  hrForwardedFor :: string
  hrRemoteAddr :: string
  hrRawQuery :: string

definition readUserIP :: "httpRequest \<Rightarrow> string" where
  "readUserIP r = (if hrRealIP r = [] then (if hrForwardedFor r = [] then hrRemoteAddr r else hrForwardedFor r) else hrRealIP r)"

text \<open>The limiter counts the request and says whether it passes; \<open>dump\<close> is the path of a request
  as text, \<open>writes\<close> what a handler does to the writer for its answer.\<close>

record 'l front =
  frAllow :: "int \<Rightarrow> int \<Rightarrow> httpRequest \<Rightarrow> 'l \<Rightarrow> bool \<times> 'l"
  frPath :: "httpRequest \<Rightarrow> string"
  frWrites :: "response \<Rightarrow> writeOp list"
  frFixed1 :: "nat \<Rightarrow> nat \<Rightarrow> string"
  frSince :: "httpRequest \<Rightarrow> string"

definition tooManyRequests :: response where
  "tooManyRequests = httpError 429 ''Too Many Requests''"

definition LimitByRealIP :: "'l front \<Rightarrow> int \<Rightarrow> int \<Rightarrow> (httpRequest \<Rightarrow> serverDb \<Rightarrow> response \<times> serverDb)
     \<Rightarrow> httpRequest \<Rightarrow> serverDb \<times> 'l \<Rightarrow> response \<times> serverDb \<times> 'l" where
  "LimitByRealIP fr limit window h r = (\<lambda>(db, l).
     case frAllow fr limit window r l of
       (True, l') \<Rightarrow> (case h r db of (resp, db') \<Rightarrow> (resp, db', l'))
     | (False, l') \<Rightarrow> (tooManyRequests, db, l'))"

text \<open>\<open>None\<close> is a request without an id.\<close>

definition Logging :: "'l front \<Rightarrow> string option \<Rightarrow> (httpRequest \<Rightarrow> 's \<Rightarrow> response \<times> 's)
     \<Rightarrow> httpRequest \<Rightarrow> 's \<Rightarrow> (response \<times> 's) \<times> string list" where
  "Logging fr requestID h r s =
     (let rid = (case requestID of Some i \<Rightarrow> take 8 i | None \<Rightarrow> ''Unknown''); res = h r s;
          w = logged (frWrites fr (fst res)) in
      (res,
       [CHR ''['' # rid @ ''] '' @ rqMethod r @ '' '' @ frPath fr r @ '' '' @ hrRawQuery r @ '' '' @ readUserIP r,
        CHR ''['' # rid @ ''] '' @ itoa (wwStatus w) @ '' '' @ humanReadableBytes (frFixed1 fr) (wwBytes w) @ '' '' @ frSince fr r
          @ '' '' @ frPath fr r]))"

text \<open>\<open>uuid\<close> is the id drawn for the request, all zeros when none can be drawn.\<close>

definition AddRequestID :: "string \<Rightarrow> (string option \<Rightarrow> 'a) \<Rightarrow> 'a" where
  "AddRequestID uuid h = h (Some uuid)"

definition NewServer :: "config \<Rightarrow> 'l front \<Rightarrow> env \<Rightarrow> int \<Rightarrow> int \<Rightarrow> string \<Rightarrow> httpRequest \<Rightarrow> serverDb \<times> 'l
     \<Rightarrow> (response \<times> serverDb \<times> 'l) \<times> string list" where
  "NewServer cfg fr env authNow now uuid r s =
     (let mux = (\<lambda>r. serve (env\<lparr>evPublicURL := scPublicURL (cfServer cfg)\<rparr>) authNow now (request.truncate r));
          limited = LimitByRealIP fr (rlRequestLimit (cfRatelimit cfg)) (rlWindowLength (cfRatelimit cfg)) mux
      in AddRequestID uuid (\<lambda>i. Logging fr i limited r s))"


section \<open>What a started server is configured with\<close>

lemma config_Validate_None:
  "config_Validate cfg = None \<longleftrightarrow> scHostName (cfServer cfg) \<noteq> [] \<and> 1 \<le> scPort (cfServer cfg) \<and> scPort (cfServer cfg) \<le> 65535
     \<and> rlRequestLimit (cfRatelimit cfg) > 0 \<and> rlWindowLength (cfRatelimit cfg) > 0
     \<and> dcType (cfDatabase cfg) = ''sqlite'' \<and> dcDSN (cfDatabase cfg) \<noteq> []"
  by (auto simp: config_Validate_def server_Validate_def ratelimit_Validate_def database_Validate_def split: option.splits if_splits)

lemma LoadConfig_Inr: "LoadConfig decodeTOML path = Inr cfg \<longleftrightarrow> decodeTOML path = Some cfg \<and> config_Validate cfg = None"
  by (auto simp: LoadConfig_def split: option.splits)

text \<open>The server starts exactly with a configuration that names a host, a port, positive limits
  and an SQLite file that opens, and then listens at that host and port; the branch of
  the start for another database is never taken, since such a configuration does not load.\<close>

theorem run_valid:
  "(run decodeTOML opened = Inr (addr, cfg) \<longleftrightarrow>
     decodeTOML ''config.toml'' = Some cfg \<and> scHostName (cfServer cfg) \<noteq> [] \<and> scPort (cfServer cfg) \<in> {1..65535}
     \<and> rlRequestLimit (cfRatelimit cfg) > 0 \<and> rlWindowLength (cfRatelimit cfg) > 0
     \<and> dcType (cfDatabase cfg) = ''sqlite'' \<and> dcDSN (cfDatabase cfg) \<noteq> [] \<and> opened (dcDSN (cfDatabase cfg))
     \<and> addr = JoinHostPort (scHostName (cfServer cfg)) (itoa (nat (scPort (cfServer cfg)))))
   \<and> run decodeTOML opened \<noteq> Inl (NoSuchDatabase kind)"
proof -
  have load: "LoadConfig decodeTOML ''config.toml'' = Inr c \<Longrightarrow> dcType (cfDatabase c) = ''sqlite'' \<and> scPort (cfServer c) > 0" for c
    by (simp add: LoadConfig_Inr config_Validate_None)
  show ?thesis
  proof (cases "LoadConfig decodeTOML ''config.toml''")
    case (Inl e)
    then have "\<not> (decodeTOML ''config.toml'' = Some cfg \<and> config_Validate cfg = None)" by (auto simp: LoadConfig_def split: option.splits)
    with Inl show ?thesis by (auto simp: run_def config_Validate_None)
  next
    case (Inr c)
    have c: "decodeTOML ''config.toml'' = Some c" "config_Validate c = None" using Inr by (simp_all add: LoadConfig_Inr)
    have "run decodeTOML opened = (if opened (dcDSN (cfDatabase c))
        then Inr (JoinHostPort (scHostName (cfServer c)) (itoa (nat (scPort (cfServer c)))), c) else Inl DatabaseFailed)"
      using Inr load[OF Inr] by (simp add: run_def dbInit_def signedItoa_def)
    with c show ?thesis by (auto simp: config_Validate_None)
  qed
qed

text \<open>The configuration does not have to name the public URL, and without it nobody is ever
  authenticated: the tokens of the client name the scheme and host of the URL that it uses.\<close>

lemma withAuth_refused:
  assumes "authCoded ht env" and "evPublicURL env \<noteq> requestOrigin serverURL"
  shows "\<exists>e. authenticateRequest env (withAuth sch ht rnd now sg userID serverURL r) db serverNow = Inl e"
proof -
  let ?r = "withAuth sch ht rnd now sg userID serverURL r"
  have "authenticateRequest env ?r db serverNow \<noteq> Inr u" for u
  proof
    assume "authenticateRequest env ?r db serverNow = Inr u"
    then obtain enc bytes ae token where h: "rqAuthorization ?r = authScheme @ enc" "b64Decode enc = Some bytes"
      "evEnvelope env bytes = Some ae" "evToken env (aePayload ae) = Some token"
      "authToken_Validate (evTime env) serverNow (evPublicURL env) token = None"
      unfolding authenticateRequest_Inr tokenFor_def by blast
    then have "atServer token = requestOrigin serverURL"
      using assms(1) by (auto simp: withAuth_def mintAuthHeader_def Let_def authScheme_def b64Decode_Encode authCoded_def)
    with h(5) assms(2) show False by (simp add: authToken_Validate_None)
  qed
  then show ?thesis by (cases "authenticateRequest env ?r db serverNow") auto
qed

lemma requestOrigin_not_empty: "requestOrigin url \<noteq> []"
proof -
  obtain scheme rest where "splitScheme url = (scheme, rest)" by fastforce
  then have "requestOrigin url = trimRightSlash (toLower scheme @ ''://'' @ urlHost rest)" by (simp add: requestOrigin_def)
  moreover have "CHR '':'' \<in> set (toLower scheme @ ''://'' @ urlHost rest)" by simp
  ultimately show ?thesis
    unfolding trimRightSlash_def by (auto simp: dropWhile_eq_Nil_conv)
qed

lemma unset_public_url:
  assumes "authCoded ht env" and "evPublicURL env = []"
  shows "\<exists>e. authenticateRequest env (withAuth sch ht rnd now sg userID serverURL r) db serverNow = Inl e"
  using withAuth_refused[OF assms(1)] requestOrigin_not_empty assms(2) by metis

section \<open>What is logged\<close>

lemma logged_header_first:
  "(\<And>op. op \<in> set ops \<Longrightarrow> \<exists>n. op = WriteBytes n) \<Longrightarrow> sentStatus (logged (WriteHeader code # ops)) = wwStatus (logged (WriteHeader code # ops))"
proof -
  assume a: "\<And>op. op \<in> set ops \<Longrightarrow> \<exists>n. op = WriteBytes n"
  have "wwStatus (fold wrappedWrite ops w) = wwStatus w \<and> (wwSent w = Some c \<longrightarrow> wwSent (fold wrappedWrite ops w) = Some c)" for w c
    using a
  proof (induction ops arbitrary: w)
    case (Cons op ops)
    then obtain n where "op = WriteBytes n" by auto
    with Cons.IH[of "wrappedWrite op w"] Cons.prems show ?case by simp
  qed simp
  from this[of "\<lparr>wwStatus = code, wwBytes = 0, wwSent = Some code\<rparr>" code] show ?thesis by (simp add: logged_def sentStatus_def)
qed

text \<open>A second header is logged and never sent.\<close>

lemma logged_second_header:
  "wwStatus (logged [WriteHeader 200, WriteHeader 500]) = 500 \<and> sentStatus (logged [WriteHeader 200, WriteHeader 500]) = 200"
  by (simp add: logged_def sentStatus_def)

lemma unitLoop_spec: "\<exists>k. unitLoop n dv ex = (dv * 1024 ^ k, ex + k) \<and> n div 1024 ^ k < 1024 \<and> (n > 0 \<longrightarrow> n div 1024 ^ k > 0)"
proof (induction n dv ex rule: unitLoop.induct)
  case (1 n dv ex)
  show ?case
  proof (cases "n \<ge> 1024")
    case True
    then obtain k where k: "unitLoop (n div 1024) (dv * 1024) (Suc ex) = (dv * 1024 * 1024 ^ k, Suc ex + k)"
      "n div 1024 div 1024 ^ k < 1024" "n div 1024 > 0 \<longrightarrow> n div 1024 div 1024 ^ k > 0"
      using 1[OF True] by (elim exE conjE)
    have "unitLoop n dv ex = (dv * 1024 ^ Suc k, ex + Suc k)"
      by (subst unitLoop.simps) (simp add: True k(1))
    moreover have "n div 1024 ^ Suc k = n div 1024 div 1024 ^ k" by (simp add: div_mult2_eq)
    moreover have "n div 1024 > 0" using True by (simp add: div_greater_zero_iff)
    ultimately show ?thesis using k(2,3) by (intro exI[of _ "Suc k"]) simp
  next
    case False
    then have "unitLoop n dv ex = (dv, ex)" unfolding unitLoop.simps[of n dv ex] by simp
    with False show ?thesis by (intro exI[of _ 0]) simp
  qed
qed

text \<open>The unit fits: for every count of 63 bits the loop stops with an index into the letters and
  with a divisor of the right size.\<close>

theorem unitLoop_in_range:
  assumes "1024 \<le> bytes" and "bytes < 2 ^ 63"
  shows "\<exists>dv ex. unitLoop (bytes div 1024) 1024 0 = (dv, ex) \<and> ex < length ''KMGTPE'' \<and> dv = 1024 ^ Suc ex
    \<and> dv \<le> bytes \<and> bytes < 1024 * dv"
proof -
  obtain k where k: "unitLoop (bytes div 1024) 1024 0 = (1024 * 1024 ^ k, 0 + k)" "bytes div 1024 div 1024 ^ k < 1024"
    "bytes div 1024 > 0 \<longrightarrow> bytes div 1024 div 1024 ^ k > 0"
    using unitLoop_spec[of "bytes div 1024" 1024 0] by (elim exE conjE)
  have q: "0 < bytes div 1024 ^ Suc k" "bytes div 1024 ^ Suc k < 1024"
    using k(2,3) assms(1) by (simp_all add: div_mult2_eq div_greater_zero_iff)
  then have b: "1024 ^ Suc k \<le> bytes" "bytes < 1024 * 1024 ^ Suc k"
    by (simp_all add: div_greater_zero_iff div_less_iff_less_mult mult.commute)
  have "(2 :: nat) ^ (10 * Suc k) < 2 ^ 63"
    using b(1) assms(2) by (simp only: power_mult) simp
  then have "10 * Suc k < 63" by (rule power_less_imp_less_exp[rotated]) simp
  then show ?thesis using k(1) b by simp
qed

section \<open>The chain\<close>

text \<open>A request is answered by the routes, with the public URL of the configuration, or refused by
  the limiter without a look at the database; either way two lines are logged.\<close>

theorem NewServer_answers:
  "(case frAllow fr (rlRequestLimit (cfRatelimit cfg)) (rlWindowLength (cfRatelimit cfg)) r l of (ok, l') \<Rightarrow>
      fst (NewServer cfg fr env authNow now uuid r (db, l)) =
        (if ok then (case serve (env\<lparr>evPublicURL := scPublicURL (cfServer cfg)\<rparr>) authNow now (request.truncate r) db of
                       (resp, db') \<Rightarrow> (resp, db', l'))
         else (tooManyRequests, db, l')))
   \<and> length (snd (NewServer cfg fr env authNow now uuid r (db, l))) = 2"
  by (auto simp: NewServer_def AddRequestID_def Logging_def LimitByRealIP_def Let_def split: prod.split bool.split)

end
