(* ===== verification/Trust_Complete.thy ===== *)
theory Trust_Complete
  imports Trust_Set
begin

text \<open>
  When the walk of \<open>resolver/trustset.go\<close> finds everybody: if all direct edges have one
  depth budget and no connection cuts it, the trust set is exactly the set of the ends of the paths that the
  budgets allow, each with a shortest path.  The reason is the order of the queue: the paths in
  it are sorted by length and differ by one hop at most, so the first visit of a user
  comes with the largest budget.
\<close>

section \<open>The viewer is never walked over\<close>

text \<open>The viewer is in the result from the start, so nothing changes when the walk avoids him.\<close>

lemma expand_avoid:
  "expand out (v # distrusted) f = filter (\<lambda>g. frSigner g \<noteq> v) (expand out distrusted f)"
  by (simp add: expand_def filter_map o_def nextFrontier_def conj_commute)

lemma bfs_avoid:
  "v \<in> fst ` set result \<Longrightarrow>
     bfs out (v # distrusted) result (filter (\<lambda>g. frSigner g \<noteq> v) queue) = bfs out distrusted result queue"
proof (induction out distrusted result queue rule: bfs.induct)
  case (2 out distrusted result f queue)
  then show ?case
    by (cases "frSigner f = v"; cases "frSigner f \<in> set distrusted"; cases "frSigner f \<in> fst ` set result")
      (auto simp: expand_avoid)
qed simp

section \<open>The invariant of the walk\<close>

definition hops :: "frontier \<Rightarrow> nat" where
  "hops f = length (frPath f)"

text \<open>The user is recorded, or waits in the queue, with a path of at most so many hops.\<close>

definition found :: "(string \<times> trustEntry) list \<Rightarrow> frontier list \<Rightarrow> string \<Rightarrow> nat \<Rightarrow> bool" where
  "found result queue i k \<longleftrightarrow>
     (\<exists>e. (i, e) \<in> set result \<and> length (tePath e) \<le> k) \<or> (\<exists>f\<in>set queue. frSigner f = i \<and> hops f \<le> k)"

text \<open>The queue is sorted by hops, which differ by one at most and are not fewer than the recorded ones.\<close>

definition layered :: "(string \<times> trustEntry) list \<Rightarrow> frontier list \<Rightarrow> bool" where
  "layered result queue \<longleftrightarrow> sorted (map hops queue) \<and> (\<forall>f\<in>set queue. \<forall>g\<in>set queue. hops f \<le> Suc (hops g))
     \<and> (\<forall>ie\<in>set result. \<forall>f\<in>set queue. length (tePath (snd ie)) \<le> hops f)"

definition budgeted :: "int \<Rightarrow> frontier list \<Rightarrow> bool" where
  "budgeted B queue \<longleftrightarrow> (\<forall>f\<in>set queue. frDepthLeft f = B + 1 - int (hops f))"

text \<open>The neighbours of a recorded user whose budget is not used up are found, one hop further.\<close>

definition spread :: "(string \<Rightarrow> outgoingConn list) \<Rightarrow> string list \<Rightarrow> int \<Rightarrow> (string \<times> trustEntry) list \<Rightarrow> frontier list \<Rightarrow> bool" where
  "spread out distrusted B result queue \<longleftrightarrow>
     (\<forall>i e n. (i, e) \<in> set result \<longrightarrow> i \<notin> set distrusted \<longrightarrow> int (length (tePath e)) \<le> B \<longrightarrow> n \<in> set (out i) \<longrightarrow>
        ocOtherID n \<notin> set distrusted \<longrightarrow> found result queue (ocOtherID n) (Suc (length (tePath e))))"

lemma found_skip:
  assumes "layered result (f # queue)" and "frSigner f \<in> fst ` set result \<or> i \<noteq> frSigner f"
    and "found result (f # queue) i k"
  shows "found result queue i k"
  using assms by (fastforce simp: found_def layered_def)

lemma found_visit:
  "found result (f # queue) i k \<Longrightarrow>
     found (result @ [(frSigner f, \<lparr>tePath = frPath f, teVetoOnly = v\<rparr>)]) (queue @ new) i k"
  by (auto simp: found_def hops_def)

lemma layered_skip: "layered result (f # queue) \<Longrightarrow> layered result queue"
  by (auto simp: layered_def)

lemma layered_visit:
  assumes "layered result (f # queue)" and "\<forall>g\<in>set new. hops g = Suc (hops f)"
  shows "layered (result @ [(frSigner f, \<lparr>tePath = frPath f, teVetoOnly = v\<rparr>)]) (queue @ new)"
proof -
  have "sorted (map hops new)"
    using assms(2) by (induction new) (auto simp del: sorted_wrt.simps simp: sorted_simps)
  with assms show ?thesis
    unfolding layered_def by (auto simp: sorted_append hops_def intro: le_SucI)
qed

lemma expand_hops: "g \<in> set (expand out distrusted f) \<Longrightarrow> hops g = Suc (hops f)"
  by (auto simp: expand_def nextFrontier_def hops_def split: if_splits)

lemma expand_budget:
  assumes "budgeted B (f # queue)" and "0 < hops f" and "\<forall>n\<in>set (out (frSigner f)). B \<le> ocTrustExtends n + 1"
  shows "budgeted B (queue @ expand out distrusted f)"
  unfolding budgeted_def
proof
  fix g assume "g \<in> set (queue @ expand out distrusted f)"
  then consider "g \<in> set queue" | n where "n \<in> set (out (frSigner f))" "g = nextFrontier f n"
    by (auto simp: expand_def split: if_splits)
  then show "frDepthLeft g = B + 1 - int (hops g)"
  proof cases
    case 2
    with assms(3) have "B \<le> ocTrustExtends n + 1" by blast
    with assms(2) have "B - int (hops f) \<le> ocTrustExtends n" by linarith
    with assms(1,2) 2 show ?thesis by (simp add: budgeted_def nextFrontier_def hops_def Let_def)
  qed (use assms(1) in \<open>simp add: budgeted_def\<close>)
qed

lemma spread_skip:
  assumes "spread out distrusted B result (f # queue)" and "layered result (f # queue)"
    and "frSigner f \<in> set distrusted \<or> frSigner f \<in> fst ` set result"
  shows "spread out distrusted B result queue"
  using assms found_skip[OF assms(2)] unfolding spread_def by metis

lemma spread_visit:
  assumes "spread out distrusted B result (f # queue)" and "budgeted B (f # queue)"
  shows "spread out distrusted B (result @ [(frSigner f, \<lparr>tePath = frPath f, teVetoOnly = v\<rparr>)])
    (queue @ expand out distrusted f)"
  unfolding spread_def
proof (intro allI impI)
  let ?result = "result @ [(frSigner f, \<lparr>tePath = frPath f, teVetoOnly = v\<rparr>)]"
  fix i e n
  assume e: "(i, e) \<in> set ?result" "i \<notin> set distrusted" "int (length (tePath e)) \<le> B"
    and n: "n \<in> set (out i)" "ocOtherID n \<notin> set distrusted"
  show "found ?result (queue @ expand out distrusted f) (ocOtherID n) (Suc (length (tePath e)))"
  proof (cases "(i, e) \<in> set result")
    case True
    with e n assms(1) have "found result (f # queue) (ocOtherID n) (Suc (length (tePath e)))"
      unfolding spread_def by blast
    then show ?thesis by (rule found_visit)
  next
    case False
    with e(1) have f: "i = frSigner f" "e = \<lparr>tePath = frPath f, teVetoOnly = v\<rparr>" by simp_all
    with assms(2) e(3) have "0 < frDepthLeft f" by (simp add: budgeted_def hops_def)
    with n f have "nextFrontier f n \<in> set (expand out distrusted f)" by (simp add: expand_def)
    then show ?thesis
      unfolding found_def by (auto simp: nextFrontier_def hops_def f intro!: disjI2 bexI[of _ "nextFrontier f n"])
  qed
qed

section \<open>The end of the walk\<close>

text \<open>The invariant holds at the end, and whoever was found is recorded with as few hops.\<close>

lemma bfs_spread:
  assumes "layered result queue" and "budgeted B queue" and "spread out distrusted B result queue"
    and "\<forall>f\<in>set queue. 0 < hops f" and "\<forall>x. \<forall>n\<in>set (out x). B \<le> ocTrustExtends n + 1"
  shows "spread out distrusted B (bfs out distrusted result queue) []
    \<and> (\<forall>i k. i \<notin> set distrusted \<longrightarrow> found result queue i k \<longrightarrow> found (bfs out distrusted result queue) [] i k)"
  using assms
proof (induction out distrusted result queue rule: bfs.induct)
  case (2 out distrusted result f queue)
  have rest: "budgeted B queue" "\<forall>g\<in>set queue. 0 < hops g" using 2(5,7) by (simp_all add: budgeted_def)
  consider "frSigner f \<in> set distrusted" | "frSigner f \<notin> set distrusted" "frSigner f \<in> fst ` set result"
    | "frSigner f \<notin> set distrusted" "frSigner f \<notin> fst ` set result" by blast
  then show ?case
  proof cases
    case 1
    note IH = "2.IH"(1)[OF 1 layered_skip[OF 2(4)] rest(1) spread_skip[OF 2(6,4) disjI1[OF 1]] rest(2) 2(8)]
    have "bfs out distrusted result (f # queue) = bfs out distrusted result queue" using 1 by simp
    with IH 1 found_skip[OF 2(4)] show ?thesis by metis
  next
    case 2
    note IH = "2.IH"(2)[OF 2 layered_skip[OF "2.prems"(1)] rest(1) spread_skip[OF "2.prems"(3,1) disjI2[OF 2(2)]] rest(2) "2.prems"(5)]
    have "bfs out distrusted result (f # queue) = bfs out distrusted result queue" using 2 by simp
    with IH 2 found_skip[OF "2.prems"(1)] show ?thesis by metis
  next
    case 3
    let ?result = "result @ [(frSigner f, \<lparr>tePath = frPath f, teVetoOnly = frVetoOnly f\<rparr>)]"
    let ?queue = "queue @ expand out distrusted f"
    have "0 < hops f" using 2(7) by simp
    have new: "\<forall>g\<in>set ?queue. 0 < hops g" using rest(2) expand_hops by fastforce
    have b: "budgeted B ?queue" by (rule expand_budget[OF 2(5) \<open>0 < hops f\<close>]) (use 2(8) in blast)
    have l: "layered ?result ?queue" by (rule layered_visit[OF 2(4)]) (simp add: expand_hops)
    note IH = "2.IH"(3)[OF 3 l b spread_visit[OF 2(6,5)] new 2(8)]
    have "bfs out distrusted result (f # queue) = bfs out distrusted ?result ?queue" using 3 by simp
    with IH found_visit[of result f queue _ _ "frVetoOnly f" "expand out distrusted f"] show ?thesis by metis
  qed
qed simp

lemma trust_path_budget:
  assumes "trust_path out distrusted start p d v" and "\<forall>f\<in>set start. frDepthLeft f = B"
    and "\<forall>x. \<forall>n\<in>set (out x). B \<le> ocTrustExtends n + 1"
  shows "d = B + 1 - int (length p)"
  using assms
proof (induction rule: trust_path.induct)
  case (hop p d v n)
  have "0 < length p" using trust_path_not_Nil[OF hop.hyps(1)] by simp
  moreover have "B \<le> ocTrustExtends n + 1" using hop.hyps(3) hop.prems(2) by blast
  ultimately have "B - int (length p) \<le> ocTrustExtends n" by linarith
  then show ?case using hop.IH[OF hop.prems] by simp
qed simp

lemma trust_path_found:
  assumes "trust_path out distrusted start p d v" and "spread out distrusted B R []"
    and "\<forall>f\<in>set start. frDepthLeft f = B \<and> (frSigner f \<notin> set distrusted \<longrightarrow> found R [] (frSigner f) 1)"
    and "\<forall>x. \<forall>n\<in>set (out x). B \<le> ocTrustExtends n + 1"
  shows "found R [] (last p) (length p)"
  using assms
proof (induction rule: trust_path.induct)
  case (hop p d v n)
  have "d = B + 1 - int (length p)" using trust_path_budget[OF hop.hyps(1)] hop.prems(2,3) by blast
  moreover obtain e where e: "(last p, e) \<in> set R" "length (tePath e) \<le> length p"
    using hop.IH[OF hop.prems] by (auto simp: found_def)
  ultimately have "int (length (tePath e)) \<le> B" using hop.hyps(2) by simp
  moreover have "last p \<notin> set distrusted"
    using trust_path_avoids[OF hop.hyps(1)] trust_path_not_Nil[OF hop.hyps(1)] last_in_set by blast
  ultimately have "found R [] (ocOtherID n) (Suc (length (tePath e)))"
    using hop.prems(1) e(1) hop.hyps(3,4) unfolding spread_def by blast
  with e(2) show ?case by (auto simp: found_def)
qed simp

lemma seeds_layered:
  assumes "queue = filter P (seeds c s active viewer)" and "\<forall>f\<in>set (seeds c s active viewer). frDepthLeft f = B"
  shows "layered (initialTrust viewer) queue" and "budgeted B queue" and "\<forall>f\<in>set queue. 0 < hops f"
proof -
  have one: "hops f = 1" if "f \<in> set queue" for f using that seeds_path assms(1) by (auto simp: hops_def)
  then have "map hops queue = replicate (length queue) 1" by (simp add: map_replicate_const cong: map_cong)
  then have "sorted (map hops queue)" by simp
  with one show "layered (initialTrust viewer) queue" by (simp add: layered_def initialTrust_def)
  show "budgeted B queue" using one assms by (auto simp: budgeted_def)
  show "\<forall>f\<in>set queue. 0 < hops f" using one by simp
qed

text \<open>C10: When all direct edges have one depth budget and every connection passes on at least what can be left of
  it, the trust set is the viewer and exactly those users to whom a path leads that the budgets allow
  and that avoids the distrusted users and the viewer, and everybody is recorded with a shortest
  such path.\<close>

theorem buildTrustSet_complete:
  assumes "viewer \<noteq> []" and "\<forall>f\<in>set (seeds c s active viewer). frDepthLeft f = B"
    and "\<forall>x. \<forall>n\<in>set (signerOutgoing c s x). B \<le> ocTrustExtends n + 1"
  shows "fst ` set (buildTrustSet c s active viewer) = insert viewer {last p | p. \<exists>d v. trust_path (signerOutgoing c s)
       (viewer # distrustedOf s active viewer) (seeds c s active viewer) p d v}
    \<and> (\<forall>(i, e)\<in>set (buildTrustSet c s active viewer). \<forall>p d v. trust_path (signerOutgoing c s)
       (viewer # distrustedOf s active viewer) (seeds c s active viewer) p d v \<longrightarrow> last p = i \<longrightarrow> length (tePath e) \<le> length p)"
proof -
  let ?out = "signerOutgoing c s" and ?start = "seeds c s active viewer"
  let ?D = "viewer # distrustedOf s active viewer"
  let ?queue = "filter (\<lambda>g. frSigner g \<noteq> viewer) ?start"
  let ?R = "buildTrustSet c s active viewer"
  have R: "bfs ?out ?D (initialTrust viewer) ?queue = ?R"
    unfolding buildTrustSet_def by (rule bfs_avoid) (use assms(1) in \<open>simp add: initialTrust_def\<close>)
  note queue = seeds_layered[OF refl assms(2), of "\<lambda>g. frSigner g \<noteq> viewer"]
  have "spread ?out ?D B (initialTrust viewer) ?queue" by (simp add: spread_def initialTrust_def)
  from bfs_spread[OF queue(1,2) this queue(3) assms(3)] have fin: "spread ?out ?D B ?R []"
    "\<And>i k. i \<notin> set ?D \<Longrightarrow> found (initialTrust viewer) ?queue i k \<Longrightarrow> found ?R [] i k" unfolding R by auto
  have "found ?R [] (frSigner f) 1" if "f \<in> set ?start" "frSigner f \<notin> set ?D" for f
    using that seeds_path[of f] by (intro fin(2)) (auto simp: found_def hops_def)
  then have found: "found ?R [] (last p) (length p)" if "trust_path ?out ?D ?start p d v" for p d v
    using trust_path_found[OF that fin(1) _ assms(3)] assms(2) by blast
  have "\<forall>ie\<in>set (bfs ?out ?D (initialTrust viewer) ?queue). fst ie = viewer \<or> entry_ok ?out ?D ?start ie"
    by (rule bfs_sound[where start = ?start]) (use seeds_ok in \<open>auto simp: initialTrust_def\<close>)
  then have "fst ` set ?R \<subseteq> insert viewer {last p | p. \<exists>d v. trust_path ?out ?D ?start p d v}"
    unfolding R entry_ok_def by fastforce
  moreover have "viewer \<in> fst ` set ?R"
    using bfs_mono[of "initialTrust viewer"] assms(1) by (force simp: buildTrustSet_def initialTrust_def)
  moreover have "distinct (map fst ?R)"
    unfolding buildTrustSet_def by (rule bfs_distinct) (simp add: initialTrust_def)
  moreover have "last p \<in> fst ` set ?R" if "trust_path ?out ?D ?start p d v" for p d v
    using found[OF that] by (force simp: found_def)
  ultimately show ?thesis
    using found by (intro conjI subset_antisym) (blast, blast, fastforce simp: found_def dest: eq_key_imp_eq_value)
qed

lemma buildTrustSet_complete_witness:
  "\<exists>s. fst ` set (buildTrustSet (netCodec ''a'') s ''me'' ''me'') \<supseteq> {''me'', ''a'', ''x''}"
proof -
  let ?c = "netCodec ''a''"
  let ?s = "(netStore ''a'')\<lparr>peers := [(netPeer ''a'')\<lparr>peTrustDepth := 1\<rparr>]\<rparr>"
  let ?out = "signerOutgoing ?c ?s" and ?start = "seeds ?c ?s ''me'' ''me''"
  have start: "?start = [\<lparr>frSigner = ''a'', frPath = [''a''], frDepthLeft = 1, frVetoOnly = False\<rparr>]" by code_simp
  have none: "distrustedOf ?s ''me'' ''me'' = []" by code_simp
  have a: "?out ''a'' = [\<lparr>ocOtherID = ''x'', ocTrustExtends = 0\<rparr>]" by code_simp
  have wide: "1 \<le> ocTrustExtends n + 1" if "n \<in> set (?out x)" for x n
    using that by (auto simp: signerOutgoing_def outgoingOf_def netCodec_def netStore_def netPayload_def GetCachedConnectionsBySigner_def
        netConn_def emptyPayload_def Let_def split: if_splits)
  have one: "trust_path ?out [''me''] ?start [''a''] 1 False"
    using trust_path.direct[of "hd ?start" ?start "[''me'']" ?out] by (simp add: start)
  from trust_path.hop[OF this, of "\<lparr>ocOtherID = ''x'', ocTrustExtends = 0\<rparr>"]
  have two: "trust_path ?out [''me''] ?start [''a'', ''x''] 0 False" by (simp add: a)
  have "fst ` set (buildTrustSet ?c ?s ''me'' ''me'')
      = insert ''me'' {last p | p. \<exists>d v. trust_path ?out [''me''] ?start p d v}"
    using buildTrustSet_complete[of "''me''" ?c ?s "''me''" 1] wide none by (simp add: start)
  moreover have "''a'' \<in> {last p | p. \<exists>d v. trust_path ?out [''me''] ?start p d v}" using one by force
  moreover have "''x'' \<in> {last p | p. \<exists>d v. trust_path ?out [''me''] ?start p d v}" using two by force
  ultimately show ?thesis by (intro exI[of _ ?s]) simp
qed

end
