(* ===== verification/Net_Trust.thy ===== *)
theory Net_Trust
  imports Cli_Publish Cli_Clean Server Resolver
begin

text \<open>
  Trust and decisions from one client to another through the server: what a user has published
  there, a friend's client fetches, verifies and stores, so that the people whom the user
  trusts enter the friend's trust set and the user's rejections stop the friend's checks.
\<close>

section \<open>The answers of the server\<close>

text \<open>What the server encodes the client decodes: arrays, users, and times to the second.\<close>

definition answersCoded :: "'w http \<Rightarrow> env \<Rightarrow> bool" where
  "answersCoded ht env \<longleftrightarrow>
     (\<forall>l. htDecConns ht (ConnsBody l) = Some (map Some l)) \<and> (\<forall>l. htDecSigs ht (SigsBody l) = Some (map Some l))
     \<and> (\<forall>u. htDecUser ht (UserBody u) = Some u)
     \<and> (\<forall>t. htFormat ht t \<noteq> [] \<and> evTime env (htFormat ht t) = Some (cutToSecond t))"

lemma serve_get:
  assumes "userID \<noteq> []"
  shows "serve env ta tn (getRequest (connsURL userID) since) db
     = GetUserConnectionsHandler env userID None (getRequest (connsURL userID) since) db"
    and "serve env ta tn (getRequest (sigsURL userID) since) db
     = GetUserSignaturesHandler env userID None (getRequest (sigsURL userID) since) db"
    and "serve env ta tn (getRequest (userURL userID) since) db = GetUserIDHandler userID None (getRequest (userURL userID) since) db"
  using assms by (simp_all add: serve_def getRequest_def methodMatches_def usersPath_def userPath_def signaturesPath_def
      connectionsPath_def connsURL_def sigsURL_def userURL_def Authenticate_def Let_def)

lemma fetch_public_rows:
  assumes net: "talksTo ht env" "answersCoded ht env" "userID \<noteq> []"
  shows "fetchUserConnections ht url userID since db
      = (Some (map Some (GetUserPublicConnections userID (map_option cutToSecond since) False db)), db)"
    and "fetchUserSignatures ht url userID since db
      = (Some (map Some (GetUserSignatures userID (map_option cutToSecond since) False db)), db)"
    and "fetchUser ht url userID db = ((case GetUser userID db of Inl _ \<Rightarrow> None | Inr u \<Rightarrow> Some u), db)"
proof -
  note code = answersCoded_def okDecoded_def sinceParam_def Let_def notAuthedAs_def getRequest_def
  obtain ta tn where c: "htSend ht url (getRequest (connsURL userID) (sinceParam ht since)) db
      = (Some (fst (serve env ta tn (getRequest (connsURL userID) (sinceParam ht since)) db)),
         snd (serve env ta tn (getRequest (connsURL userID) (sinceParam ht since)) db))"
    by (rule talksTo_send[OF net(1)])
  show "fetchUserConnections ht url userID since db
      = (Some (map Some (GetUserPublicConnections userID (map_option cutToSecond since) False db)), db)"
    using c net(2) unfolding serve_get[OF net(3)]
    by (cases since) (simp_all add: fetchUserConnections_def GetUserConnectionsHandler_def code)
  obtain ta tn where g: "htSend ht url (getRequest (sigsURL userID) (sinceParam ht since)) db
      = (Some (fst (serve env ta tn (getRequest (sigsURL userID) (sinceParam ht since)) db)),
         snd (serve env ta tn (getRequest (sigsURL userID) (sinceParam ht since)) db))"
    by (rule talksTo_send[OF net(1)])
  show "fetchUserSignatures ht url userID since db
      = (Some (map Some (GetUserSignatures userID (map_option cutToSecond since) False db)), db)"
    using g net(2) unfolding serve_get[OF net(3)]
    by (cases since) (simp_all add: fetchUserSignatures_def GetUserSignaturesHandler_def code)
  obtain ta tn where u: "htSend ht url (getRequest (userURL userID) []) db
      = (Some (fst (serve env ta tn (getRequest (userURL userID) []) db)), snd (serve env ta tn (getRequest (userURL userID) []) db))"
    by (rule talksTo_send[OF net(1)])
  show "fetchUser ht url userID db = ((case GetUser userID db of Inl _ \<Rightarrow> None | Inr u \<Rightarrow> Some u), db)"
    using u net(2) unfolding serve_get[OF net(3)]
    by (cases "GetUser userID db") (simp_all add: fetchUser_def GetUserIDHandler_def code httpNotFound_def httpError_def)
qed

section \<open>Storing an answer\<close>

text \<open>What the two loops over an answer share: a row that passes the check is inserted unless its key is taken,
  and the check does not depend on the rows.\<close>

locale fetched_rows =
  fixes ok :: "'x \<Rightarrow> store \<Rightarrow> bool" and save :: "'x \<Rightarrow> store \<Rightarrow> store"
    and rows :: "store \<Rightarrow> 'r list" and key :: "'r \<Rightarrow> string" and row :: "'x \<Rightarrow> 'r"
  assumes rows_save: "set (rows (save x s)) = (if key (row x) \<in> key ` set (rows s) then set (rows s) else insert (row x) (set (rows s)))"
    and ok_save: "ok x (save y s) = ok x s"
begin

lemma alive: "\<not> snd (cacheVerified ok save (map Some xs) s)"
  by (induction xs arbitrary: s) auto

lemma kept: "set (rows s) \<subseteq> set (rows (fst (cacheVerified ok save (map Some xs) s)))"
proof (induction xs arbitrary: s)
  case (Cons x xs)
  have "set (rows s) \<subseteq> set (rows (if ok x s then save x s else s))" by (simp add: rows_save subset_insertI)
  also have "\<dots> \<subseteq> set (rows (fst (cacheVerified ok save (map Some xs) (if ok x s then save x s else s))))" by (rule Cons)
  finally show ?case by simp
qed simp

lemma from_answer: "set (rows (fst (cacheVerified ok save (map Some xs) s))) \<subseteq> set (rows s) \<union> row ` set xs"
proof (induction xs arbitrary: s)
  case (Cons x xs)
  have "set (rows (if ok x s then save x s else s)) \<subseteq> insert (row x) (set (rows s))" by (simp add: rows_save subset_insertI)
  with Cons[of "if ok x s then save x s else s"] show ?case by auto
qed simp

lemma stores:
  "distinct (map (\<lambda>x. key (row x)) xs) \<Longrightarrow> x \<in> set xs \<Longrightarrow> key (row x) \<notin> key ` set (rows s) \<Longrightarrow> ok x s \<Longrightarrow>
     row x \<in> set (rows (fst (cacheVerified ok save (map Some xs) s)))"
proof (induction xs arbitrary: s)
  case (Cons y ys)
  let ?s = "if ok y s then save y s else s"
  have step: "cacheVerified ok save (map Some (y # ys)) s = cacheVerified ok save (map Some ys) ?s" by simp
  show ?case
  proof (cases "x = y")
    case True
    with Cons.prems have "row x \<in> set (rows ?s)" by (simp add: rows_save)
    with kept[of ?s ys] step show ?thesis by auto
  next
    case False
    then have "x \<in> set ys" and "key (row x) \<noteq> key (row y)" using Cons.prems(1,2) by (auto simp: rev_image_eqI)
    moreover from this have "key (row x) \<notin> key ` set (rows ?s)" using Cons.prems(3) by (auto simp: rows_save)
    moreover have "ok x ?s" using Cons.prems(4) by (simp add: ok_save)
    ultimately show ?thesis using Cons.IH[of ?s] Cons.prems(1) step by simp
  qed
qed simp

end

lemma verifySigned_users:
  "cachedUsers s = cachedUsers s' \<Longrightarrow> verifySigned sch s = verifySigned sch s'"
  by (auto simp: verifySigned_def GetCachedUser_def fun_eq_iff)

lemma set_insertIgnore_image:
  "set (insertIgnore k r rows) = (if k r \<in> k ` set rows then set rows else insert r (set rows))"
proof -
  have "(\<exists>x\<in>set rows. k x = k r) \<longleftrightarrow> k r \<in> k ` set rows" by (metis imageE imageI)
  then show ?thesis by (simp add: set_insertIgnore)
qed

definition syncRow :: "int \<Rightarrow> string \<Rightarrow> connection \<Rightarrow> cachedConnection" where
  "syncRow now i n = storedConnection (syncConnRow now i n)"

definition syncSig :: "int \<Rightarrow> signature \<Rightarrow> cachedSignature" where
  "syncSig now g = storedSignature (syncSigRow now g)"

lemma syncRow_simps [simp]:
  "ccID (syncRow now i n) = cnID n" "ccSigner (syncRow now i n) = i" "ccPayload (syncRow now i n) = cnPayload n"
  "csID (syncSig now g) = sgID g" "csSigner (syncSig now g) = sgSigner g" "csPayload (syncSig now g) = sgPayload g"
  by (simp_all add: syncRow_def storedConnection_def syncConnRow_def syncSig_def storedSignature_def syncSigRow_def)

interpretation fetchedConns: fetched_rows
  "\<lambda>c s. verifySigned sch s i (cnPayload c) (cnAlgorithm c) (cnSig c) = None" "\<lambda>c s. SaveCachedConnection (syncConnRow now i c) s"
  cachedConnections ccID "syncRow now i" for sch i now
proof
  fix x y s
  show "set (cachedConnections (SaveCachedConnection (syncConnRow now i x) s)) = (if ccID (syncRow now i x) \<in> ccID ` set (cachedConnections s)
      then set (cachedConnections s) else insert (syncRow now i x) (set (cachedConnections s)))"
    by (auto simp: SaveCachedConnection_def set_insertIgnore_image syncRow_def)
  show "(verifySigned sch (SaveCachedConnection (syncConnRow now i y) s) i (cnPayload x) (cnAlgorithm x) (cnSig x) = None)
      = (verifySigned sch s i (cnPayload x) (cnAlgorithm x) (cnSig x) = None)"
    using verifySigned_users[of "SaveCachedConnection (syncConnRow now i y) s" s sch] by (simp add: SaveCachedConnection_def)
qed

interpretation fetchedSigs: fetched_rows
  "\<lambda>g s. verifySigned sch s i (sgPayload g) (sgAlgorithm g) (sgSig g) = None" "\<lambda>g s. SaveCachedSignature (syncSigRow now g) s"
  cachedSignatures csID "syncSig now" for sch i now
proof
  fix x y s
  show "set (cachedSignatures (SaveCachedSignature (syncSigRow now x) s)) = (if csID (syncSig now x) \<in> csID ` set (cachedSignatures s)
      then set (cachedSignatures s) else insert (syncSig now x) (set (cachedSignatures s)))"
    by (auto simp: SaveCachedSignature_def set_insertIgnore_image syncSig_def)
  show "(verifySigned sch (SaveCachedSignature (syncSigRow now y) s) i (sgPayload x) (sgAlgorithm x) (sgSig x) = None)
      = (verifySigned sch s i (sgPayload x) (sgAlgorithm x) (sgSig x) = None)"
    using verifySigned_users[of "SaveCachedSignature (syncSigRow now y) s" s sch] by (simp add: SaveCachedSignature_def)
qed

text \<open>The tables that a loop leaves alone.\<close>

lemma cacheVerified_frame:
  "(\<And>x s. view (save x s) = view s) \<Longrightarrow> view (fst (cacheVerified ok save xs s)) = view s"
  by (induction ok save xs s rule: cacheVerified.induct) simp_all

lemma cacheConnections_tables:
  "peers (fst (cacheConnections sch now i xs s)) = peers s"
  "cachedSignatures (fst (cacheConnections sch now i xs s)) = cachedSignatures s"
  "cachedUsers (fst (cacheConnections sch now i xs s)) = cachedUsers s"
  unfolding cacheConnections_def by (rule cacheVerified_frame, simp add: SaveCachedConnection_def)+

lemma cacheSignatures_tables:
  "peers (fst (cacheSignatures sch now i xs s)) = peers s"
  "cachedConnections (fst (cacheSignatures sch now i xs s)) = cachedConnections s"
  unfolding cacheSignatures_def by (rule cacheVerified_frame, simp add: SaveCachedSignature_def)+

lemma cacheSignatures_users: "cachedUsers (fst (cacheSignatures sch now i xs s)) = cachedUsers s"
  unfolding cacheSignatures_def by (rule cacheVerified_frame) (simp add: SaveCachedSignature_def)

section \<open>What one synchronisation fetches\<close>

text \<open>From the server's rows of the users \<open>I\<close> the store has grown; what it knew it still knows.\<close>

definition fetchedFrom :: "serverDb \<Rightarrow> int \<Rightarrow> string set \<Rightarrow> store \<Rightarrow> store \<Rightarrow> bool" where
  "fetchedFrom db now I s s' \<longleftrightarrow>
     map (peLastSyncedAt_update (\<lambda>_. None)) (peers s') = map (peLastSyncedAt_update (\<lambda>_. None)) (peers s)
     \<and> set (cachedSignatures s) \<subseteq> set (cachedSignatures s') \<and> set (cachedConnections s) \<subseteq> set (cachedConnections s')
     \<and> set (cachedSignatures s') \<subseteq> set (cachedSignatures s) \<union> syncSig now ` {x \<in> set (dbSignatures db). sgSigner x \<in> I}
     \<and> set (cachedConnections s') \<subseteq> set (cachedConnections s)
         \<union> (\<lambda>x. syncRow now (cnOwner x) x) ` {x \<in> set (dbConnections db). cnOwner x \<in> I}
     \<and> (\<forall>i u. GetCachedUser i s = Inr u \<longrightarrow> GetCachedUser i s' = Inr u)"

lemma fetchedFrom_refl: "fetchedFrom db now {} s s"
  by (simp add: fetchedFrom_def)

lemma fetchedFrom_trans:
  assumes "fetchedFrom db now I s s1" and "fetchedFrom db now J s1 s2"
  shows "fetchedFrom db now (I \<union> J) s s2"
  unfolding fetchedFrom_def
proof (intro conjI)
  note a = assms(1)[unfolded fetchedFrom_def] and b = assms(2)[unfolded fetchedFrom_def]
  show "map (peLastSyncedAt_update (\<lambda>_. None)) (peers s2) = map (peLastSyncedAt_update (\<lambda>_. None)) (peers s)"
    using a b by simp
  show "set (cachedSignatures s) \<subseteq> set (cachedSignatures s2)" "set (cachedConnections s) \<subseteq> set (cachedConnections s2)"
    using a b by blast+
  show "set (cachedSignatures s2) \<subseteq> set (cachedSignatures s) \<union> syncSig now ` {x \<in> set (dbSignatures db). sgSigner x \<in> I \<union> J}"
    using a b by blast
  show "set (cachedConnections s2) \<subseteq> set (cachedConnections s)
      \<union> (\<lambda>x. syncRow now (cnOwner x) x) ` {x \<in> set (dbConnections db). cnOwner x \<in> I \<union> J}"
    using a b by blast
  show "\<forall>i u. GetCachedUser i s = Inr u \<longrightarrow> GetCachedUser i s2 = Inr u" using a b by blast
qed

lemma fetchedFrom_mono: "fetchedFrom db now I s s' \<Longrightarrow> I \<subseteq> J \<Longrightarrow> fetchedFrom db now J s s'"
  unfolding fetchedFrom_def by blast


lemma fetchedFrom_signature:
  "fetchedFrom db now I s s' \<Longrightarrow> r \<in> set (cachedSignatures s') \<Longrightarrow> r \<notin> set (cachedSignatures s) \<Longrightarrow>
     \<exists>x\<in>set (dbSignatures db). sgSigner x \<in> I \<and> r = syncSig now x"
  unfolding fetchedFrom_def by blast

lemma verifySigned_kept:
  assumes "fetchedFrom db now I s s'" and "verifySigned sch s i pl alg sg = None"
  shows "verifySigned sch s' i pl alg sg = None"
  using assms unfolding verifySigned_None fetchedFrom_def by blast

text \<open>The user that the server names is the one asked for, so no cached key is replaced.\<close>

lemma ensurePubkey_served:
  assumes "talksTo ht env" and "answersCoded ht env" and "peID q \<noteq> []"
  obtains s1 b where "ensurePubkey sch ht pn q s db = (s1, db, b)" and "fetchedFrom db now {} s s1"
    and "(\<exists>u. GetCachedUser (peID q) s = Inr u) \<longrightarrow> s1 = s \<and> b"
proof (cases "GetCachedUser (peID q) s")
  case (Inr u)
  then show thesis using that[of s True] by (simp add: ensurePubkey_def fetchedFrom_refl)
next
  case (Inl e)
  define resp where "resp = (case GetUser (peID q) db of Inl _ \<Rightarrow> None | Inr u \<Rightarrow> Some u)"
  obtain s1 r where f: "fetchAndCachePubkey sch pn resp (peID q) s = (s1, r)" by fastforce
  have run: "ensurePubkey sch ht pn q s db = (s1, db, r = None)"
    using Inl f fetch_public_rows(3)[OF assms] by (cases r) (simp_all add: ensurePubkey_def resp_def)
  have "s1 = s \<or> (\<exists>u. resp = Some u \<and> s1 = SaveCachedUser \<lparr>cuID = usID u, cuUsername = usUsername u, cuPubKey = usPubKey u,
      cuAlgorithm = usAlgorithm u, cuFetchedAt = pn\<rparr> s)"
    using f by (auto simp: fetchAndCachePubkey_def Let_def split: option.splits if_splits)
  then have "fetchedFrom db now {} s s1"
  proof
    assume "\<exists>u. resp = Some u \<and> s1 = SaveCachedUser \<lparr>cuID = usID u, cuUsername = usUsername u, cuPubKey = usPubKey u,
      cuAlgorithm = usAlgorithm u, cuFetchedAt = pn\<rparr> s"
    then obtain u where u: "resp = Some u" and s1: "s1 = SaveCachedUser \<lparr>cuID = usID u, cuUsername = usUsername u,
      cuPubKey = usPubKey u, cuAlgorithm = usAlgorithm u, cuFetchedAt = pn\<rparr> s" by blast
    have id: "usID u = peID q" using u GetUser_props by (auto simp: resp_def split: sum.splits)
    have "GetCachedUser i s1 = Inr v" if "GetCachedUser i s = Inr v" for i v
    proof -
      have "i \<noteq> peID q" using that Inl by auto
      with that show ?thesis by (simp add: s1 id GetCachedUser_def userTable.get_put)
    qed
    then show ?thesis by (simp add: fetchedFrom_def s1 SaveCachedUser_def)
  qed (simp add: fetchedFrom_refl)
  with run Inl show thesis using that by auto
qed

lemma cutToSecond_twice [simp]: "cutToSecond (cutToSecond t) = cutToSecond t"
  by (simp add: cutToSecond_def second_def)

text \<open>The rest of the loop body, for a peer whose key is there.\<close>

abbreviation rowsSince :: "serverDb \<Rightarrow> peer \<Rightarrow> connection list" where
  "rowsSince db q \<equiv> GetUserPublicConnections (peID q) (map_option cutToSecond (peLastSyncedAt q)) False db"

abbreviation sigsSince :: "serverDb \<Rightarrow> peer \<Rightarrow> signature list" where
  "sigsSince db q \<equiv> GetUserSignatures (peID q) (map_option cutToSecond (peLastSyncedAt q)) False db"

text \<open>A connection made in the second of the last synchronisation, but after it, is in no later answer.\<close>

lemma late_connection_missed:
  "peLastSyncedAt q = Some t \<Longrightarrow> cnCreatedAt n \<le> cutToSecond t \<Longrightarrow> n \<notin> set (rowsSince db q)"
  by (simp add: GetUserPublicConnections_def)

lemma syncPeer_rows:
  assumes net: "talksTo ht env" "answersCoded ht env" "peID q \<noteq> []" and q: "\<not> peDistrusted q"
    and key: "ensurePubkey sch ht (pubNow (peID q)) q s db = (s1, db, True)"
  obtains s' s2 where "syncPeer sch ht now pubNow q s db = (s', db, False)" and "fetchedFrom db now {peID q} s1 s'"
    and "cachedConnections s' = cachedConnections (fst (cacheConnections sch now (peID q) (map Some (rowsSince db q)) s1))"
    and "cachedSignatures s' = cachedSignatures (fst (cacheSignatures sch now (peID q) (map Some (sigsSince db q)) s2))"
    and "cachedSignatures s2 = cachedSignatures s1" and "cachedUsers s2 = cachedUsers s1"
proof -
  obtain s2 d2 where s2: "cacheConnections sch now (peID q) (map Some (rowsSince db q)) s1 = (s2, d2)" by fastforce
  then have d2: "\<not> d2"
    using fetchedConns.alive[where sch = sch and i = "peID q" and now = now and xs = "rowsSince db q" and s = s1]
    by (simp add: cacheConnections_def)
  obtain s3 d3 where s3: "cacheSignatures sch now (peID q) (map Some (sigsSince db q)) s2 = (s3, d3)" by fastforce
  then have d3: "\<not> d3"
    using fetchedSigs.alive[where sch = sch and i = "peID q" and now = now and xs = "sigsSince db q" and s = s2]
    by (simp add: cacheSignatures_def)
  note t2 = cacheConnections_tables[of sch now "peID q" "map Some (rowsSince db q)" s1, unfolded s2 fst_conv]
  note t3 = cacheSignatures_tables[of sch now "peID q" "map Some (sigsSince db q)" s2, unfolded s3 fst_conv]
    cacheSignatures_users[of sch now "peID q" "map Some (sigsSince db q)" s2, unfolded s3 fst_conv]
  let ?s' = "orUnchanged s3 (SetPeerLastSyncedAt (peID q) now s3)"
  have rest: "cachedConnections ?s' = cachedConnections s2" "cachedSignatures ?s' = cachedSignatures s3" "cachedUsers ?s' = cachedUsers s3"
    "map (peLastSyncedAt_update (\<lambda>_. None)) (peers ?s') = map (peLastSyncedAt_update (\<lambda>_. None)) (peers s3)"
    using t3 by (auto simp: orUnchanged_def SetPeerLastSyncedAt_def)
  have run: "syncPeer sch ht now pubNow q s db = (?s', db, False)"
    using q key s2 s3 d2 d3 fetch_public_rows[OF net] by (simp add: syncPeer_def fetchedRows_def)
  have conns: "set (cachedConnections s2) \<subseteq> set (cachedConnections s1)
      \<union> (\<lambda>x. syncRow now (cnOwner x) x) ` {x \<in> set (dbConnections db). cnOwner x \<in> {peID q}}"
    using fetchedConns.from_answer[where sch = sch and i = "peID q" and now = now and xs = "rowsSince db q" and s = s1] s2
    by (force simp: cacheConnections_def GetUserPublicConnections_def)
  have sigs: "set (cachedSignatures s3) \<subseteq> set (cachedSignatures s2) \<union> syncSig now ` {x \<in> set (dbSignatures db). sgSigner x \<in> {peID q}}"
    using fetchedSigs.from_answer[where sch = sch and i = "peID q" and now = now and xs = "sigsSince db q" and s = s2] s3
    by (force simp: cacheSignatures_def GetUserSignatures_def)
  have "set (cachedConnections s1) \<subseteq> set (cachedConnections s2)"
    using fetchedConns.kept[where sch = sch and i = "peID q" and now = now and xs = "rowsSince db q" and s = s1] s2
    by (simp add: cacheConnections_def)
  moreover have "set (cachedSignatures s2) \<subseteq> set (cachedSignatures s3)"
    using fetchedSigs.kept[where sch = sch and i = "peID q" and now = now and xs = "sigsSince db q" and s = s2] s3
    by (simp add: cacheSignatures_def)
  ultimately have "fetchedFrom db now {peID q} s1 ?s'"
    unfolding fetchedFrom_def rest GetCachedUser_def using conns sigs t2 t3 by simp
  with run show thesis using that[of ?s' s2] s2 s3 t2 rest by simp
qed

lemma syncPeer_served:
  assumes net: "talksTo ht env" "answersCoded ht env" "peID q \<noteq> []"
  obtains s' where "syncPeer sch ht now pubNow q s db = (s', db, False)" and "fetchedFrom db now {peID q} s s'"
proof -
  obtain s1 b where k: "ensurePubkey sch ht (pubNow (peID q)) q s db = (s1, db, b)" "fetchedFrom db now {} s s1"
    by (rule ensurePubkey_served[OF net, of sch "pubNow (peID q)" s db now])
  consider "peDistrusted q" | "\<not> peDistrusted q" "\<not> b" | "\<not> peDistrusted q" "b" by blast
  then show thesis
  proof cases
    case 1
    then show thesis using that[of s] fetchedFrom_mono[OF fetchedFrom_refl] by (simp add: syncPeer_def)
  next
    case 2
    then show thesis using that[of s1] k fetchedFrom_mono[OF k(2)] by (simp add: syncPeer_def)
  next
    case 3
    then have key: "ensurePubkey sch ht (pubNow (peID q)) q s db = (s1, db, True)" using k(1) by simp
    obtain s' where s': "syncPeer sch ht now pubNow q s db = (s', db, False)" "fetchedFrom db now {peID q} s1 s'"
      by (rule syncPeer_rows[where pubNow = pubNow, OF net 3(1) key])
    show thesis using that[OF s'(1)] fetchedFrom_trans[OF k(2) s'(2)] by simp
  qed
qed

lemma syncPeers_served:
  assumes net: "talksTo ht env" "answersCoded ht env" and ids: "\<forall>q\<in>set ps. peID q \<noteq> []"
  obtains s' where "syncPeers sch ht now pubNow ps s db = (s', db, False)" and "fetchedFrom db now (peID ` set ps) s s'"
  using ids
proof (induction ps arbitrary: s thesis)
  case Nil
  then show ?case by (simp add: fetchedFrom_refl)
next
  case (Cons q ps)
  have "peID q \<noteq> []" using Cons.prems(2) by simp
  then obtain s1 where s1: "syncPeer sch ht now pubNow q s db = (s1, db, False)" "fetchedFrom db now {peID q} s s1"
    by (rule syncPeer_served[OF net])
  obtain s' where s': "syncPeers sch ht now pubNow ps s1 db = (s', db, False)" "fetchedFrom db now (peID ` set ps) s1 s'"
    by (rule Cons.IH[of s1]) (use Cons.prems(2) in simp_all)
  show ?case
    using Cons.prems(1)[of s'] s1 s'(1) fetchedFrom_trans[OF s1(2) s'(2)] by simp
qed

lemma syncPeers_append:
  "syncPeers sch ht now pubNow (ps @ qs) s w = (case syncPeers sch ht now pubNow ps s w of
     (s', w', died) \<Rightarrow> if died then (s', w', True) else syncPeers sch ht now pubNow qs s' w')"
  by (induction ps arbitrary: s w) (simp_all split: prod.split)

text \<open>A whole synchronisation, seen from one peer whose key is cached: before its turn the store has grown by
  rows of others, at its turn its rows are stored, and after it they stay.\<close>

lemma Sync_served:
  fixes p :: peer
  assumes net: "talksTo ht env" "answersCoded ht env"
    and ps: "distinct (map peID (peers s))" "\<forall>q\<in>set (peers s). peID q \<noteq> []"
    and p: "p \<in> set (peers s)" "\<not> peDistrusted p" and u: "GetCachedUser (peID p) s = Inr u"
  obtains s' s1 s2 I where "Sync sch ht now pubNow s db = ((s', None), db)"
    and "fetchedFrom db now (peID ` set (peers s)) s s'" and "fetchedFrom db now I s s1" and "peID p \<notin> I"
    and "set (cachedConnections (fst (cacheConnections sch now (peID p) (map Some (rowsSince db p)) s1))) \<subseteq> set (cachedConnections s')"
    and "set (cachedSignatures (fst (cacheSignatures sch now (peID p) (map Some (sigsSince db p)) s2))) \<subseteq> set (cachedSignatures s')"
    and "cachedSignatures s2 = cachedSignatures s1" and "cachedUsers s2 = cachedUsers s1"
proof -
  have "p \<in> set (ListPeers s)" using p(1) by simp
  then obtain as bs where split: "ListPeers s = as @ p # bs" by (meson split_list)
  have "distinct (map peID (ListPeers s))"
    using ps(1) by (simp add: ListPeers_def distinct_map inj_on_def)
  with split have fresh: "peID p \<notin> peID ` set as" by auto
  have ids: "\<forall>q\<in>set as. peID q \<noteq> []" "peID p \<noteq> []" "\<forall>q\<in>set bs. peID q \<noteq> []"
    using ps(2) arg_cong[OF split, of set] by auto
  obtain s1 where s1: "syncPeers sch ht now pubNow as s db = (s1, db, False)" "fetchedFrom db now (peID ` set as) s s1"
    by (rule syncPeers_served[OF net ids(1)])
  have "GetCachedUser (peID p) s1 = Inr u" using s1(2) u by (simp add: fetchedFrom_def)
  then have key: "ensurePubkey sch ht (pubNow (peID p)) p s1 db = (s1, db, True)" by (simp add: ensurePubkey_def)
  obtain s3 s2 where s3: "syncPeer sch ht now pubNow p s1 db = (s3, db, False)" "fetchedFrom db now {peID p} s1 s3"
    "cachedConnections s3 = cachedConnections (fst (cacheConnections sch now (peID p) (map Some (rowsSince db p)) s1))"
    "cachedSignatures s3 = cachedSignatures (fst (cacheSignatures sch now (peID p) (map Some (sigsSince db p)) s2))"
    "cachedSignatures s2 = cachedSignatures s1" "cachedUsers s2 = cachedUsers s1"
    by (rule syncPeer_rows[where pubNow = pubNow, OF net ids(2) p(2) key])
  obtain s' where s': "syncPeers sch ht now pubNow bs s3 db = (s', db, False)" "fetchedFrom db now (peID ` set bs) s3 s'"
    by (rule syncPeers_served[OF net ids(3)])
  have "Sync sch ht now pubNow s db = ((s', None), db)"
    using s1(1) s3(1) s'(1) by (simp add: Sync_def split syncPeers_append)
  moreover have "peID ` set (peers s) = peID ` set as \<union> {peID p} \<union> peID ` set bs"
    using arg_cong[OF split, of set] by auto
  then have "fetchedFrom db now (peID ` set (peers s)) s s'"
    using fetchedFrom_trans[OF fetchedFrom_trans[OF s1(2) s3(2)] s'(2)] by simp
  moreover have "set (cachedConnections s3) \<subseteq> set (cachedConnections s')" "set (cachedSignatures s3) \<subseteq> set (cachedSignatures s')"
    using s'(2) by (simp_all add: fetchedFrom_def)
  ultimately show thesis using that[of s' "peID ` set as" s1 s2] s1(2) fresh s3 by simp
qed

section \<open>The second hop\<close>



section \<open>From the server into the trust set\<close>

text \<open>The peers are walked from before anybody else, so a followed user keeps his own depth.\<close>

definition standing :: "peer \<Rightarrow> string \<times> bool \<times> int \<times> bool" where
  "standing p = (peID p, peDistrusted p, peTrustDepth p, peVetoOnly p)"

lemma fetchedFrom_standing:
  assumes "fetchedFrom db now I s s'"
  shows "map standing (peers s') = map standing (peers s)"
proof -
  have "map standing (map (peLastSyncedAt_update (\<lambda>_. None)) ps) = map standing ps" for ps :: "peer list"
    by (simp add: o_def standing_def)
  with assms show ?thesis unfolding fetchedFrom_def by metis
qed

lemma fetchedFrom_peer: "fetchedFrom db now I s s' \<Longrightarrow> standing ` set (peers s') = standing ` set (peers s)"
  using fetchedFrom_standing[of db now I s s'] by (simp flip: set_map)

lemma peer_seed:
  fixes p :: peer
  assumes "fetchedFrom db now I s s'" and "p \<in> set (peers s)" and "\<not> peDistrusted p" and "me \<noteq> []"
  shows "\<lparr>frSigner = peID p, frPath = [peID p], frDepthLeft = peTrustDepth p, frVetoOnly = peVetoOnly p\<rparr> \<in> set (seeds c s' me me)"
proof -
  have "standing p \<in> standing ` set (peers s')" using fetchedFrom_peer[OF assms(1)] assms(2) by simp
  then obtain p' where p': "p' \<in> set (peers s')" "standing p = standing p'" by (rule imageE)
  then have "\<lparr>frSigner = peID p, frPath = [peID p], frDepthLeft = peTrustDepth p, frVetoOnly = peVetoOnly p\<rparr>
      = \<lparr>frSigner = peID p', frPath = [peID p'], frDepthLeft = peTrustDepth p', frVetoOnly = peVetoOnly p'\<rparr>" "\<not> peDistrusted p'"
    using assms(3) by (simp_all add: standing_def)
  with p'(1) assms(4) show ?thesis by (simp add: seeds_def)
qed

lemma followed_distrusted:
  assumes "fetchedFrom db now I s s'" and "i \<in> set (distrustedOf s' me me)"
  shows "\<exists>q\<in>set (peers s). peID q = i \<and> peDistrusted q"
proof -
  obtain q where q: "q \<in> set (peers s')" "peID q = i" "peDistrusted q"
    using assms(2) by (auto simp: distrustedOf_def split: if_splits)
  then have "standing q \<in> standing ` set (peers s)" using fetchedFrom_peer[OF assms(1)] by blast
  then obtain q' where "q' \<in> set (peers s)" "standing q = standing q'" by (rule imageE)
  with q(2,3) show ?thesis by (auto simp: standing_def)
qed



section \<open>From the server into a verdict\<close>

text \<open>A row that is not marked as revoked is withdrawn by no row of an orderly database.\<close>

lemma not_withdrawn_on_server:
  assumes "dbOk env db" and "g \<in> set (dbSignatures db)" and "\<not> sgRevoked g"
    and "r \<in> set (dbSignatures db)" and "evPayload env (sgPayload r) = Some q" and "pType q = ''revocation''"
  shows "pTargetID q \<noteq> sgID g"
proof
  assume target: "pTargetID q = sgID g"
  have "IsRevocation q" using assms(6) by (simp add: IsRevocation_def PayloadTypeRevocation_def)
  with assms(1,4,5) obtain t where "t \<in> set (dbSignatures db)" "sgID t = sgID g" "sgRevoked t"
    unfolding dbOk_def revocationsDone_def target[symmetric] by blast
  moreover have "inj_on sgID (set (dbSignatures db))"
    using assms(1) by (simp add: dbOk_def keysDistinct_def distinct_map)
  ultimately show False using assms(2,3) by (metis inj_onD)
qed

text \<open>C21: A rejection travels through the server: when a user whom the client follows, for everything or for
  vetoes only, has an unrevoked public decision in an orderly server database that rejects a version, not older than
  the client's last synchronisation with the user, and the cached key of the user verifies it, then after one
  \<open>tillit sync\<close> with whatever peers the client rejects every version to which the decision applies, unless the client
  has already a row with its id or a withdrawal of it.\<close>

theorem published_rejection_arrives:
  fixes p :: peer and g :: signature
  assumes net: "talksTo ht env" "answersCoded ht env" and db: "dbOk env db" and codec: "decPayload c = evPayload env"
    and ps: "distinct (map peID (peers s))" "\<forall>q\<in>set (peers s). peID q \<noteq> []"
    and p: "p \<in> set (peers s)" "\<not> peDistrusted p" and me: "me \<noteq> []"
    and g: "g \<in> set (dbSignatures db)" "sgSigner g = peID p" "sgPublic g" "\<not> sgRevoked g"
      "\<And>t. peLastSyncedAt p = Some t \<Longrightarrow> cutToSecond t \<le> sgUploadedAt g"
    and q: "evPayload env (sgPayload g) = Some q" "pLevel q = ''rejected''"
      "pType q = ''decision'' \<and> pVersion q = v \<or> pType q = ''delta_decision'' \<and> inRange (pFromVersion q) (pToVersion q) v"
    and key: "verifySigned sch s (peID p) (sgPayload g) (sgAlgorithm g) (sgSig g) = None"
    and new: "sgID g \<notin> csID ` set (cachedSignatures s)" "\<not> withdrawnBy c s (peID p) (sgID g)"
    and iter: "\<forall>xs. set (iter xs) = set xs"
  shows "\<exists>s'. Sync sch ht now pubNow s db = ((s', None), db)
    \<and> vdStatus (Version iter c s' me me (pEcosystem q) (pPackageID q) v) = StatusRejected"
proof -
  obtain u where "GetCachedUser (peID p) s = Inr u" using key by (auto simp: verifySigned_None)
  then obtain s' s1 s2 I where s': "Sync sch ht now pubNow s db = ((s', None), db)" "fetchedFrom db now (peID ` set (peers s)) s s'"
    and s1: "fetchedFrom db now I s s1" "peID p \<notin> I"
    and s2: "set (cachedSignatures (fst (cacheSignatures sch now (peID p) (map Some (sigsSince db p)) s2))) \<subseteq> set (cachedSignatures s')"
      "cachedSignatures s2 = cachedSignatures s1" "cachedUsers s2 = cachedUsers s1"
    by (rule Sync_served[OF net ps p])
  have xs: "g \<in> set (sigsSince db p)" "distinct (map sgID (sigsSince db p))" and inj: "inj_on sgID (set (dbSignatures db))"
    using g db by (auto simp: GetUserSignatures_def dbOk_def keysDistinct_def distinct_map intro: inj_on_subset split: option.split)
  have "sgID g \<notin> csID ` set (cachedSignatures s1)"
  proof
    assume "sgID g \<in> csID ` set (cachedSignatures s1)"
    then obtain r where r: "r \<in> set (cachedSignatures s1)" "csID r = sgID g" by auto
    then have "r \<notin> set (cachedSignatures s)" using new(1) by (metis imageI)
    then obtain x where "x \<in> set (dbSignatures db)" "sgSigner x \<in> I" "sgID x = sgID g"
      using fetchedFrom_signature[OF s1(1) r(1)] r(2) by auto
    with g(1,2) s1(2) inj show False by (metis inj_onD)
  qed
  moreover have "verifySigned sch s2 (peID p) (sgPayload g) (sgAlgorithm g) (sgSig g) = None"
    using verifySigned_kept[OF s1(1) key] verifySigned_users[OF s2(3), of sch] by simp
  ultimately have row: "syncSig now g \<in> set (cachedSignatures s')"
    using fetchedSigs.stores[where sch = sch and i = "peID p" and now = now and xs = "sigsSince db p" and x = g and s = s2]
      xs s2(1,2) by (auto simp: cacheSignatures_def)
  have "\<not> withdrawnBy c s' (peID p) (sgID g)"
  proof
    assume "withdrawnBy c s' (peID p) (sgID g)"
    then obtain r t where r: "r \<in> set (cachedSignatures s')" "csSigner r = peID p" "decPayload c (csPayload r) = Some t"
      "pType t = ''revocation''" "pTargetID t = sgID g" by (auto simp: withdrawnBy_def)
    then have "r \<notin> set (cachedSignatures s)" using new(2) by (auto simp: withdrawnBy_def)
    then obtain x where "x \<in> set (dbSignatures db)" "r = syncSig now x"
      using fetchedFrom_signature[OF s'(2) r(1)] by auto
    with r codec show False using not_withdrawn_on_server[OF db g(1,4), of x t] by auto
  qed
  moreover have "peID p \<notin> set (distrustedOf s' me me)"
    using followed_distrusted[OF s'(2)] p ps(1) by (auto simp: distinct_map dest: inj_onD)
  with bfs_visits[OF peer_seed[OF s'(2) p me, of c], of "distrustedOf s' me me" "signerOutgoing c s'" "initialTrust me"]
  obtain e where "(peID p, e) \<in> set (buildTrustSet c s' me me)" by (auto simp: buildTrustSet_def)
  ultimately have "sigInfoOf (peID p) e (syncSig now g) q \<in> liveSet c s' me me (pEcosystem q) (pPackageID q)"
    using row q codec g(2) unfolding liveSet_def liveIn_def mem_Collect_eq
    by (intro exI[of _ "peID p"] exI[of _ e] exI[of _ "syncSig now g"] exI[of _ q]) auto
  moreover have "applies (sigInfoOf (peID p) e (syncSig now g) q) v" "rejects (sigInfoOf (peID p) e (syncSig now g) q)"
    using q(2,3) by (auto simp: sigInfoOf_def applies_def rejects_def decisionOf_def)
  ultimately have "rejectedAt (liveSet c s' me me (pEcosystem q) (pPackageID q)) v" by (auto simp: rejectedAt_def)
  with Version_sound[OF iter, of c s' me me "pEcosystem q" "pPackageID q" v] s'(1) show ?thesis by blast
qed

end
