(* ===== verification/Trust_Examples.thy ===== *)
theory Trust_Examples
  imports Net_Trust Net_Examples
begin




definition aliceAsPeer :: peer where
  "aliceAsPeer = \<lparr>peID = demoUserID, peServerURL = ''https://t'', peTrustDepth = 1, pePublic = False, peDistrusted = False,
     peVetoOnly = False, peLastSyncedAt = None\<rparr>"

definition bobStore :: store where
  "bobStore = emptyStore\<lparr>peers := [aliceAsPeer], cachedUsers := [\<lparr>cuID = demoUserID, cuUsername = ''default'',
     cuPubKey = b64Encode ''key'', cuAlgorithm = ''slh-dsa-shake-128s'', cuFetchedAt = 0\<rparr>]\<rparr>"


lemma encInt_nonempty: "encInt i \<noteq> []"
  by (simp add: encInt_def)

lemma demo_answersCoded: "answersCoded demoNet netEnv"
  by (simp add: answersCoded_def demoNet_def netEnv_def encInt_nonempty)


text \<open>The same with a rejection.\<close>

definition vetoPayload :: payload where
  "vetoPayload = emptyPayload\<lparr>pType := ''decision'', pSigner := demoUserID, pEcosystem := ''npm'', pPackageID := ''left-pad'',
     pVersion := ''1.0.0'', pLevel := ''rejected''\<rparr>"

abbreviation vetoItem :: signedItem where
  "vetoItem \<equiv> itemFor demoCli [] (SLHDSASigner ''key'') vetoPayload"

definition vetoSig :: signature where
  "vetoSig = \<lparr>sgID = itID vetoItem, sgSigner = demoUserID, sgPayload = itPayload vetoItem, sgAlgorithm = itAlgorithm vetoItem,
     sgSig = itSig vetoItem, sgUploadedAt = 0, sgRevoked = False, sgRevokedAt = None, sgPublic = True\<rparr>"

definition vetoDb :: serverDb where
  "vetoDb = aliceDb\<lparr>dbSignatures := [vetoSig]\<rparr>"

lemma veto_decoded: "evPayload netEnv (sgPayload vetoSig) = Some vetoPayload"
  by (simp add: netEnv_def vetoSig_def itemFor_def Let_def)

lemma vetoDb_ok: "dbOk netEnv vetoDb"
proof -
  have "Validate vetoPayload = None"
    by (simp add: Validate_def vetoPayload_def emptyPayload_def demoUserID_val validLevels_def)
  then have "uploadOk netEnv aliceUser (sgID vetoSig) (sgPayload vetoSig) (sgSig vetoSig) vetoPayload"
    using alice_verifies hex_not_empty veto_decoded
    by (simp add: uploadOk_def netEnv_def vetoSig_def itemFor_def Let_def)
  then have "sigRowOk netEnv [aliceUser] vetoSig"
    by (auto simp: sigRowOk_def aliceUser_def vetoSig_def)
  moreover have "revocationsDone netEnv [vetoSig]"
    by (simp add: revocationsDone_def veto_decoded vetoPayload_def IsRevocation_def PayloadTypeRevocation_def emptyPayload_def)
  ultimately show ?thesis
    by (simp add: dbOk_def vetoDb_def aliceDb_def emptyDb_def keysDistinct_def)
qed

lemma veto_signed:
  "verifySigned toySchemes bobStore demoUserID (sgPayload vetoSig) (sgAlgorithm vetoSig) (sgSig vetoSig) = None"
  unfolding verifySigned_None
  by (simp add: GetCachedUser_def bobStore_def emptyStore_def orNotFound_def rowByKey_def b64Decode_Encode
      vetoSig_def itemFor_def Let_def NewVerifier_def newSLHDSAVerifier_def toySchemes_def demoUserID_def userIDOf_def)

lemma published_rejection_arrives_witness:
  "\<exists>s'. Sync toySchemes demoNet 0 (\<lambda>_. 0) bobStore vetoDb = ((s', None), vetoDb)
     \<and> vdStatus (Version (\<lambda>xs. xs) (ceCodec demoCli) s' ''bob'' ''bob'' ''npm'' ''left-pad'' ''1.0.0'') = StatusRejected"
proof -
  have "decPayload (ceCodec demoCli) = evPayload netEnv" by (simp add: netEnv_def)
  note arrives = published_rejection_arrives[OF demo_talksTo demo_answersCoded vetoDb_ok this, of bobStore aliceAsPeer "''bob''" vetoSig vetoPayload
      "''1.0.0''" toySchemes "\<lambda>xs. xs" 0 "\<lambda>_. 0"]
  have "peers bobStore = [aliceAsPeer]" "cachedSignatures bobStore = []" by (simp_all add: bobStore_def emptyStore_def)
  moreover have "vetoSig \<in> set (dbSignatures vetoDb)" by (simp add: vetoDb_def)
  ultimately show ?thesis
    using arrives veto_signed veto_decoded
    by (simp add: aliceAsPeer_def demoUserID_val vetoSig_def vetoPayload_def emptyPayload_def withdrawnBy_def)
qed

end
