(* ===== verification/Opening.thy ===== *)
theory Opening
  imports Go_Path Local_Store Server
begin

text \<open>
  Opening the two databases: \<open>Init\<close> and the migrations of \<open>localstore/\<close>, \<open>Init\<close> and the
  creation of tables of \<open>db/sqliteconnector/\<close>, and where the client's file lies, \<open>store.go\<close>.  A file is
  a record of tables that may not be there yet; any statement may fail, and then the
  opening stops with the tables made so far.
\<close>

section \<open>Statements in sequence\<close>

text \<open>\<open>fails t\<close> says that the statement for \<open>t\<close> ends with an error.\<close>

fun runSteps :: "('t \<Rightarrow> bool) \<Rightarrow> ('t \<Rightarrow> 'f \<Rightarrow> 'f) \<Rightarrow> 't list \<Rightarrow> 'f \<Rightarrow> 'f \<times> bool" where
  "runSteps fails step [] f = (f, True)"
| "runSteps fails step (t # ts) f = (if fails t then (f, False) else runSteps fails step ts (step t f))"

definition andThen :: "('f \<Rightarrow> 'f \<times> bool) \<Rightarrow> ('f \<Rightarrow> 'f \<times> bool) \<Rightarrow> 'f \<Rightarrow> 'f \<times> bool" where
  "andThen m n f = (case m f of (f', True) \<Rightarrow> n f' | (f', False) \<Rightarrow> (f', False))"

lemma andThen_runSteps: "andThen (runSteps fails step ts) (runSteps fails step us) = runSteps fails step (ts @ us)"
proof
  show "andThen (runSteps fails step ts) (runSteps fails step us) f = runSteps fails step (ts @ us) f" for f
    by (induction ts arbitrary: f) (auto simp: andThen_def)
qed

lemma runSteps_keeps: "(\<And>t f. view (step t f) = view f) \<Longrightarrow> view (fst (runSteps fails step ts f)) = view f"
  by (induction ts arbitrary: f) simp_all

lemma runSteps_all: "(\<And>t. \<not> fails t) \<Longrightarrow> runSteps fails step ts f = (fold step ts f, True)"
  by (induction ts arbitrary: f) simp_all

lemma runSteps_done: "snd (runSteps fails step ts f) \<Longrightarrow> runSteps fails step ts f = (fold step ts f, True)"
  by (induction ts arbitrary: f) (auto split: if_splits)

definition ifMissing :: "'a list option \<Rightarrow> 'a list option" where
  "ifMissing t = Some (case t of None \<Rightarrow> [] | Some rows \<Rightarrow> rows)"

definition rowsOf :: "'a list option \<Rightarrow> 'a list" where
  "rowsOf t = (case t of None \<Rightarrow> [] | Some rows \<Rightarrow> rows)"

lemma rowsOf_simps [simp]: "rowsOf (ifMissing t) = rowsOf t" "rowsOf (Some r) = r"
  by (simp_all add: rowsOf_def ifMissing_def)

lemma ifMissing_eq: "ifMissing t = Some (rowsOf t)"
  by (simp add: rowsOf_def ifMissing_def)

section \<open>The client's file\<close>

datatype storeTable = KeysTable | ConfigTable | ServersTable | PeersTable | CachedSignaturesTable | CachedConnectionsTable
  | CachedUsersTable | PushStateTable

text \<open>Of the table \<open>config\<close> the program uses one row, the active key.\<close>

record storeFile =
  sfKeys :: "key list option"
  sfConfig :: "string list option"
  sfServers :: "server list option"
  sfPeers :: "peer list option"
  sfSignatures :: "cachedSignature list option"
  sfConnections :: "cachedConnection list option"
  sfUsers :: "cachedUser list option"
  sfPushState :: "pushRow list option"

fun createStoreTable :: "storeTable \<Rightarrow> storeFile \<Rightarrow> storeFile" where
  "createStoreTable KeysTable f = f\<lparr>sfKeys := ifMissing (sfKeys f)\<rparr>"
| "createStoreTable ConfigTable f = f\<lparr>sfConfig := ifMissing (sfConfig f)\<rparr>"
| "createStoreTable ServersTable f = f\<lparr>sfServers := ifMissing (sfServers f)\<rparr>"
| "createStoreTable PeersTable f = f\<lparr>sfPeers := ifMissing (sfPeers f)\<rparr>"
| "createStoreTable CachedSignaturesTable f = f\<lparr>sfSignatures := ifMissing (sfSignatures f)\<rparr>"
| "createStoreTable CachedConnectionsTable f = f\<lparr>sfConnections := ifMissing (sfConnections f)\<rparr>"
| "createStoreTable CachedUsersTable f = f\<lparr>sfUsers := ifMissing (sfUsers f)\<rparr>"
| "createStoreTable PushStateTable f = f\<lparr>sfPushState := ifMissing (sfPushState f)\<rparr>"

definition migratePeers :: "(storeTable \<Rightarrow> bool) \<Rightarrow> storeFile \<Rightarrow> storeFile \<times> bool" where
  "migratePeers fails = runSteps fails createStoreTable [ServersTable, PeersTable]"

definition migrateCache :: "(storeTable \<Rightarrow> bool) \<Rightarrow> storeFile \<Rightarrow> storeFile \<times> bool" where
  "migrateCache fails = runSteps fails createStoreTable [CachedSignaturesTable]"

definition migrateCachedConnections :: "(storeTable \<Rightarrow> bool) \<Rightarrow> storeFile \<Rightarrow> storeFile \<times> bool" where
  "migrateCachedConnections fails = runSteps fails createStoreTable [CachedConnectionsTable]"

definition migrateCachedUsers :: "(storeTable \<Rightarrow> bool) \<Rightarrow> storeFile \<Rightarrow> storeFile \<times> bool" where
  "migrateCachedUsers fails = runSteps fails createStoreTable [CachedUsersTable]"

definition migratePushState :: "(storeTable \<Rightarrow> bool) \<Rightarrow> storeFile \<Rightarrow> storeFile \<times> bool" where
  "migratePushState fails = runSteps fails createStoreTable [PushStateTable]"

definition migrate :: "(storeTable \<Rightarrow> bool) \<Rightarrow> storeFile \<Rightarrow> storeFile \<times> bool" where
  "migrate fails =
     andThen (runSteps fails createStoreTable [KeysTable, ConfigTable])
    (andThen (migratePeers fails)
    (andThen (migrateCache fails)
    (andThen (migrateCachedConnections fails)
    (andThen (migrateCachedUsers fails) (migratePushState fails)))))"

text \<open>What the operations of the store see of a file.\<close>

definition storeOf :: "storeFile \<Rightarrow> store" where
  "storeOf f = \<lparr>keys = rowsOf (sfKeys f), activeKey = (case rowsOf (sfConfig f) of [] \<Rightarrow> None | v # _ \<Rightarrow> Some v),
     servers = rowsOf (sfServers f), peers = rowsOf (sfPeers f), cachedSignatures = rowsOf (sfSignatures f),
     cachedConnections = rowsOf (sfConnections f), cachedUsers = rowsOf (sfUsers f), pushState = rowsOf (sfPushState f)\<rparr>"

definition fileOf :: "store \<Rightarrow> storeFile" where
  "fileOf s = \<lparr>sfKeys = Some (keys s), sfConfig = Some (case activeKey s of None \<Rightarrow> [] | Some v \<Rightarrow> [v]),
     sfServers = Some (servers s), sfPeers = Some (peers s), sfSignatures = Some (cachedSignatures s),
     sfConnections = Some (cachedConnections s), sfUsers = Some (cachedUsers s), sfPushState = Some (pushState s)\<rparr>"

text \<open>\<open>localstore.Init\<close>: the file afterwards, and the store if there was no error; \<open>opened\<close> is \<open>sql.Open\<close>.\<close>

definition localstore_Init :: "bool \<Rightarrow> (storeTable \<Rightarrow> bool) \<Rightarrow> storeFile \<Rightarrow> storeFile \<times> store option" where
  "localstore_Init opened fails f =
     (if \<not> opened then (f, None)
      else (case migrate fails f of (f', True) \<Rightarrow> (f', Some (storeOf f')) | (f', False) \<Rightarrow> (f', None)))"

datatype storeDirError = NoHomeDirectory | CannotCreate string

definition storeDir :: "string option \<Rightarrow> (string \<Rightarrow> bool) \<Rightarrow> storeDirError + string" where
  "storeDir home mkdirAll =
     (case home of
        None \<Rightarrow> Inl NoHomeDirectory
      | Some h \<Rightarrow> (let dir = pathJoin h ''.tillit'' in if mkdirAll dir then Inr dir else Inl (CannotCreate dir)))"

definition storeName :: string where "storeName = ''.tillit.db''"

text \<open>The files by their paths.\<close>

definition openStore :: "string option \<Rightarrow> (string \<Rightarrow> bool) \<Rightarrow> bool \<Rightarrow> (storeTable \<Rightarrow> bool) \<Rightarrow> (string \<Rightarrow> storeFile)
     \<Rightarrow> storeDirError + (string \<Rightarrow> storeFile) \<times> store option" where
  "openStore home mkdirAll opened fails files =
     bindE (storeDir home mkdirAll) (\<lambda>dir.
       (let dsn = pathJoin dir storeName in
        case localstore_Init opened fails (files dsn) of (f, s) \<Rightarrow> Inr (files(dsn := f), s)))"

lemma storeOf_create [simp]: "storeOf (createStoreTable t f) = storeOf f"
  by (cases t) (simp_all add: storeOf_def)

lemma migrate_steps: "migrate fails = runSteps fails createStoreTable
    [KeysTable, ConfigTable, ServersTable, PeersTable, CachedSignaturesTable, CachedConnectionsTable, CachedUsersTable, PushStateTable]"
  unfolding migrate_def migratePeers_def migrateCache_def migrateCachedConnections_def migrateCachedUsers_def migratePushState_def
    andThen_runSteps by simp

lemma storeOf_migrate: "storeOf (fst (migrate fails f)) = storeOf f"
  unfolding migrate_steps by (rule runSteps_keeps) simp

lemma storeOf_Init: "storeOf (fst (localstore_Init opened fails f)) = storeOf f"
  using storeOf_migrate[of fails f] by (auto simp: localstore_Init_def split: prod.splits bool.splits)

section \<open>The server's file\<close>

text \<open>A table of signatures may be older than its column \<open>public\<close>.\<close>

datatype signatureTable = NoTable | WithoutPublic "signature list" | WithPublic "signature list"

datatype serverStep = UserTable | ConnectionTable | SignatureTable | PublicColumn

record serverFile =
  vfUsers :: "user list option"
  vfConnections :: "connection list option"
  vfSignatures :: signatureTable

text \<open>Adding the column gives every row the default, 1; where the column exists, the error is taken for success.\<close>

definition addPublicColumn :: "signatureTable \<Rightarrow> signatureTable" where
  "addPublicColumn t = (case t of WithoutPublic rows \<Rightarrow> WithPublic (map (sgPublic_update (\<lambda>_. True)) rows) | _ \<Rightarrow> t)"

fun serverStepOn :: "serverStep \<Rightarrow> serverFile \<Rightarrow> serverFile" where
  "serverStepOn UserTable f = f\<lparr>vfUsers := ifMissing (vfUsers f)\<rparr>"
| "serverStepOn ConnectionTable f = f\<lparr>vfConnections := ifMissing (vfConnections f)\<rparr>"
| "serverStepOn SignatureTable f = f\<lparr>vfSignatures := (case vfSignatures f of NoTable \<Rightarrow> WithPublic [] | t \<Rightarrow> t)\<rparr>"
| "serverStepOn PublicColumn f = f\<lparr>vfSignatures := addPublicColumn (vfSignatures f)\<rparr>"

definition CreateUserTable :: "(serverStep \<Rightarrow> bool) \<Rightarrow> serverFile \<Rightarrow> serverFile \<times> bool" where
  "CreateUserTable fails = runSteps fails serverStepOn [UserTable]"

definition CreateConnectionTable :: "(serverStep \<Rightarrow> bool) \<Rightarrow> serverFile \<Rightarrow> serverFile \<times> bool" where
  "CreateConnectionTable fails = runSteps fails serverStepOn [ConnectionTable]"

definition CreateSignatureTable :: "(serverStep \<Rightarrow> bool) \<Rightarrow> serverFile \<Rightarrow> serverFile \<times> bool" where
  "CreateSignatureTable fails = runSteps fails serverStepOn [SignatureTable, PublicColumn]"

text \<open>What the operations of the server see of a file; their queries need the column.\<close>

definition dbOf :: "serverFile \<Rightarrow> serverDb" where
  "dbOf f = \<lparr>dbUsers = rowsOf (vfUsers f), dbConnections = rowsOf (vfConnections f),
     dbSignatures = (case vfSignatures f of WithPublic rows \<Rightarrow> rows | _ \<Rightarrow> [])\<rparr>"

text \<open>What a file holds, whatever its age: a signature from before the column was meant for everybody.\<close>

definition heldIn :: "serverFile \<Rightarrow> serverDb" where
  "heldIn f = \<lparr>dbUsers = (case vfUsers f of None \<Rightarrow> [] | Some us \<Rightarrow> us),
     dbConnections = (case vfConnections f of None \<Rightarrow> [] | Some ns \<Rightarrow> ns),
     dbSignatures = (case vfSignatures f of NoTable \<Rightarrow> [] | WithPublic gs \<Rightarrow> gs
       | WithoutPublic gs \<Rightarrow> map (\<lambda>g. g\<lparr>sgPublic := True\<rparr>) gs)\<rparr>"

definition serverFileOf :: "serverDb \<Rightarrow> serverFile" where
  "serverFileOf db = \<lparr>vfUsers = Some (dbUsers db), vfConnections = Some (dbConnections db), vfSignatures = WithPublic (dbSignatures db)\<rparr>"

definition sqlite_Init :: "bool \<Rightarrow> (serverStep \<Rightarrow> bool) \<Rightarrow> serverFile \<Rightarrow> serverFile \<times> serverDb option" where
  "sqlite_Init opened fails f =
     (if \<not> opened then (f, None)
      else (case andThen (CreateUserTable fails) (andThen (CreateConnectionTable fails) (CreateSignatureTable fails)) f of
          (f', True) \<Rightarrow> (f', Some (dbOf f'))
        | (f', False) \<Rightarrow> (f', None)))"

lemma heldIn_step [simp]: "heldIn (serverStepOn t f) = heldIn f"
  by (cases t) (auto simp: heldIn_def ifMissing_def addPublicColumn_def split: signatureTable.split)

lemma tables_steps: "andThen (CreateUserTable fails) (andThen (CreateConnectionTable fails) (CreateSignatureTable fails))
    = runSteps fails serverStepOn [UserTable, ConnectionTable, SignatureTable, PublicColumn]"
  unfolding CreateUserTable_def CreateConnectionTable_def CreateSignatureTable_def andThen_runSteps by simp

lemma heldIn_Init: "heldIn (fst (sqlite_Init opened fails f)) = heldIn f"
  using runSteps_keeps[of heldIn serverStepOn fails "[UserTable, ConnectionTable, SignatureTable, PublicColumn]" f]
  unfolding sqlite_Init_def tables_steps by (auto split: prod.split bool.split)

text \<open>A file all of whose tables are there is not changed, whatever fails.\<close>

lemma serverFileOf_step [simp]: "serverStepOn t (serverFileOf db) = serverFileOf db"
  by (cases t) (simp_all add: serverFileOf_def ifMissing_eq addPublicColumn_def)

section \<open>Interrupted and repeated openings\<close>

text \<open>Openings that fail somewhere, one after the other.\<close>

definition attempts :: "('e \<Rightarrow> 'f \<Rightarrow> 'f \<times> 'o) \<Rightarrow> 'e list \<Rightarrow> 'f \<Rightarrow> 'f" where
  "attempts init es f = fold (\<lambda>e g. fst (init e g)) es f"

lemma attempts_keep: "(\<And>e g. view (fst (init e g)) = view g) \<Longrightarrow> view (attempts init es f) = view f"
  unfolding attempts_def by (induction es arbitrary: f) simp_all

text \<open>An opening without an error.\<close>

lemma localstore_Init_opened: "snd (localstore_Init True (\<lambda>_. False) f) = Some (storeOf f)"
proof -
  have "snd (migrate (\<lambda>_. False) f)" by (simp add: migrate_steps)
  then show ?thesis
    using storeOf_migrate[of "\<lambda>_. False" f] by (auto simp: localstore_Init_def split: prod.split bool.split)
qed

lemma all_server_steps: "fold serverStepOn [UserTable, ConnectionTable, SignatureTable, PublicColumn] f = serverFileOf (heldIn f)"
  by (auto simp: serverFileOf_def heldIn_def ifMissing_def addPublicColumn_def split: signatureTable.split option.split)

lemma dbOf_serverFileOf [simp]: "dbOf (serverFileOf db) = db"
  by (simp add: dbOf_def serverFileOf_def)

lemma sqlite_Init_done:
  assumes "snd (sqlite_Init opened fails f) = Some db"
  shows "fst (sqlite_Init opened fails f) = serverFileOf (heldIn f) \<and> db = heldIn f"
  using assms runSteps_done[of fails serverStepOn "[UserTable, ConnectionTable, SignatureTable, PublicColumn]" f]
  unfolding sqlite_Init_def tables_steps all_server_steps by (auto split: if_splits prod.splits bool.splits)

lemma sqlite_Init_file: "sqlite_Init True (\<lambda>_. False) f = (serverFileOf (heldIn f), Some (heldIn f))"
proof -
  have "runSteps (\<lambda>_. False) serverStepOn [UserTable, ConnectionTable, SignatureTable, PublicColumn] f = (serverFileOf (heldIn f), True)"
    unfolding all_server_steps[symmetric] by (rule runSteps_all) simp
  then show ?thesis unfolding sqlite_Init_def tables_steps by (simp del: runSteps.simps)
qed

text \<open>C38: Opening a database neither loses nor invents a row: after any number of openings that failed at
  any statement, one in which no statement fails yields what the original file holds, the server's with every
  signature older than the column \<open>public\<close> made public and nothing else of it changed, and leaves all tables, so
  that a stopped program finds its state again; any opening yields this or nothing.\<close>

theorem opening_keeps_rows:
  "sqlite_Init True (\<lambda>_. False) (attempts (\<lambda>(b, e). sqlite_Init b e) es f) = (serverFileOf (heldIn f), Some (heldIn f))
   \<and> snd (sqlite_Init opened fails f) \<in> {None, Some (heldIn f)} \<and> heldIn (serverFileOf db) = db
   \<and> snd (localstore_Init True (\<lambda>_. False) (attempts (\<lambda>(b, e). localstore_Init b e) es' g)) = Some (storeOf g)
   \<and> snd (localstore_Init opened fails' g) \<in> {None, Some (storeOf g)} \<and> storeOf (fileOf s) = s"
proof (intro conjI)
  have "heldIn (attempts (\<lambda>(b, e). sqlite_Init b e) es f) = heldIn f"
    by (rule attempts_keep) (auto simp: heldIn_Init)
  then show "sqlite_Init True (\<lambda>_. False) (attempts (\<lambda>(b, e). sqlite_Init b e) es f) = (serverFileOf (heldIn f), Some (heldIn f))"
    by (simp add: sqlite_Init_file)
  show "snd (sqlite_Init opened fails f) \<in> {None, Some (heldIn f)}"
    using sqlite_Init_done[of opened fails f] by (cases "snd (sqlite_Init opened fails f)") auto
  show "heldIn (serverFileOf db) = db" by (simp add: heldIn_def serverFileOf_def)
  have "storeOf (attempts (\<lambda>(b, e). localstore_Init b e) es' g) = storeOf g"
    by (rule attempts_keep) (auto simp: storeOf_Init)
  then show "snd (localstore_Init True (\<lambda>_. False) (attempts (\<lambda>(b, e). localstore_Init b e) es' g)) = Some (storeOf g)"
    by (simp add: localstore_Init_opened)
  show "snd (localstore_Init opened fails' g) \<in> {None, Some (storeOf g)}"
    using storeOf_Init[of opened fails' g] by (auto simp: localstore_Init_def split: prod.splits bool.splits if_splits)
  show "storeOf (fileOf s) = s" by (simp add: storeOf_def fileOf_def split: option.split)
qed

text \<open>The invariant of the databases that requests reach survives the upgrade of an old file.\<close>

lemma upgrade_dbOk:
  assumes "dbOk env (db\<lparr>dbSignatures := rows\<rparr>)"
  shows "dbOk env (db\<lparr>dbSignatures := map (sgPublic_update (\<lambda>_. True)) rows\<rparr>)"
proof -
  have "revocationsDone env (map (sgPublic_update (\<lambda>_. True)) rows)"
    using assms by (fastforce simp: dbOk_def revocationsDone_def)
  then show ?thesis using assms by (auto simp: dbOk_def keysDistinct_def sigRowOk_def o_def)
qed

end
