(* ===== verification/Terminal.thy ===== *)
theory Terminal
  imports Cli_Keys
begin

text \<open>
  Reading what the user types, the second half of \<open>passprompt.go\<close>: a password without echo from a terminal, or a
  line of the standard input.  The input is a string of which every reading takes the first
  line; one buffered reader serves all of them, so what one reading leaves the next one finds.
\<close>

text \<open>\<open>br.ReadBytes('\\n')\<close>: the bytes up to and with the next line feed, whether there was one, and the rest.\<close>

fun ReadBytes :: "string \<Rightarrow> string \<times> bool \<times> string" where
  "ReadBytes [] = ([], False, [])"
| "ReadBytes (c # s) = (if byte c = 10 then ([c], True, s) else (case ReadBytes s of (l, ok, rest) \<Rightarrow> (c # l, ok, rest)))"

definition readLine :: "string \<Rightarrow> string option \<times> string" where
  "readLine br = (case ReadBytes br of (l, ok, rest) \<Rightarrow>
     (if \<not> ok \<and> length l = 0 then (None, rest) else (Some (trimCRLF l), rest)))"

text \<open>\<open>silent\<close> is \<open>term.ReadPassword\<close> where the standard input is a terminal.\<close>

definition readPasswordFromTerminal :: "(string \<Rightarrow> string option \<times> string) option \<Rightarrow> string \<Rightarrow> string option \<times> string" where
  "readPasswordFromTerminal silent stdin = (case silent of Some read \<Rightarrow> read stdin | None \<Rightarrow> readLine stdin)"

definition readLineFromTerminal :: "string \<Rightarrow> string option \<times> string" where
  "readLineFromTerminal stdin = readLine stdin"

text \<open>The answers to a number of prompts.\<close>

fun readLines :: "nat \<Rightarrow> string \<Rightarrow> string option list \<times> string" where
  "readLines 0 s = ([], s)"
| "readLines (Suc n) s = (case readLine s of (l, r) \<Rightarrow> (case readLines n r of (ls, r') \<Rightarrow> (l # ls, r')))"

section \<open>What is typed arrives\<close>

lemma ReadBytes_line: "\<forall>c\<in>set l. byte c \<noteq> 10 \<Longrightarrow> byte e = 10 \<Longrightarrow> ReadBytes (l @ e # rest) = (l @ [e], True, rest)"
  by (induction l) simp_all

lemma ReadBytes_end: "\<forall>c\<in>set l. byte c \<noteq> 10 \<Longrightarrow> ReadBytes l = (l, False, [])"
  by (induction l) simp_all

lemma readLine_line: "\<forall>c\<in>set l. byte c \<noteq> 10 \<Longrightarrow> byte e = 10 \<Longrightarrow> readLine (l @ e # rest) = (Some (trimCRLF l), rest)"
  by (simp add: readLine_def ReadBytes_line trimCRLF_def)

text \<open>A last line without a line feed is read; after it there is an error, not an empty answer.\<close>

lemma readLine_end: "\<forall>c\<in>set l. byte c \<noteq> 10 \<Longrightarrow> readLine l = ((if l = [] then None else Some (trimCRLF l)), [])"
  by (simp add: readLine_def ReadBytes_end)

text \<open>A script that pipes one line for every prompt is read as it is meant: no prompt sees the answer to another
  one, and what follows the answers stays unread.\<close>

lemma piped_answers:
  "\<forall>l\<in>set ls. \<forall>c\<in>set l. byte c \<noteq> 10 \<Longrightarrow> byte e = 10 \<Longrightarrow>
     readLines (length ls) (concat (map (\<lambda>l. l @ [e]) ls) @ rest) = (map (\<lambda>l. Some (trimCRLF l)) ls, rest)"
  by (induction ls) (simp_all add: readLine_line)

lemma trimCRLF_twice [simp]: "trimCRLF (trimCRLF s) = trimCRLF s"
proof -
  have "dropWhile P (dropWhile P l) = dropWhile P l" for P :: "char \<Rightarrow> bool" and l by (induction l) simp_all
  then show ?thesis by (simp add: trimCRLF_def)
qed

lemma piped_password:
  assumes "\<forall>c\<in>set pw. byte c \<noteq> 10" and "byte e = 10"
  shows "case readLines 2 (pw @ e # pw @ e # rest) of (ls, r) \<Rightarrow>
     promptPasswordTwice (ls ! 0) (ls ! 1) = Inr (trimCRLF pw) \<and> r = rest"
  using piped_answers[of "[pw, pw]" e rest] assms
  by (simp add: numeral_2_eq_2 promptPasswordTwice_def promptPassword_def split: prod.splits)

end
