(* ===== verification/Spec2Isabelle.thy ===== *)
theory Spec2Isabelle
  imports Resolver Semver Gem_Version Gosum_Version Pypi_Version Server_Examples Net_Examples Store_Examples Check_Examples
    Lock_Examples Adapter_Examples Main_Examples Server_Main Trust_Complete Trust_Examples Opening Terminal
begin

text \<open>
  Tillit is a tool with which people sign what they think of a version of a software
  package and find out what the people they trust think of it.  It has two programs: the
  command line client \<open>tillit\<close> (\<open>cmd/tillit/\<close>), which keeps keys, peers and signed rows in
  a local database (\<open>localstore/\<close>) and computes verdicts from them (\<open>resolver/\<close>), and a server
  (\<open>main.go\<close>, \<open>api/\<close>, \<open>handlers/\<close>, \<open>middleware/\<close>, \<open>db/\<close>), through which clients exchange the rows.
  The rows are signed payloads (\<open>models/\<close>, \<open>crypto/\<close>); packages are those of eleven ecosystems, each with
  adapters for its lockfiles, its order of versions and its registry (\<open>ecosystems/\<close>).

  \<^bold>\<open>Shared ground.\<close>  \<open>Tillit_Prelude\<close> (collections of facts, \<open>bindE\<close> for errors as sums, time to the
  second), \<open>Tables\<close> (SQL tables as lists of rows, with the locales \<open>write_once_table\<close> and
  \<open>upsert_table\<close> that the tables of both databases interpret), \<open>Go_Strings\<close> and \<open>Go_Path\<close> (the
  parts of \<open>strings\<close>, \<open>strconv\<close>, \<open>unicode/utf8\<close> and \<open>path\<close> that the program uses), \<open>Version_Order\<close> (the
  locale \<open>version_order\<close> of a comparator), \<open>Field_Encoding\<close> (an encoder for witnesses).

  \<^bold>\<open>Versions.\<close>  \<open>Resolver_Version\<close> (\<open>resolver/version.go\<close>), \<open>Semver\<close>, \<open>Gosum_Version\<close>, \<open>Pypi_Version\<close> and
  \<open>Gem_Version\<close> hold the parsers and comparators.  All but that of gems are total preorders, and interpret
  the locale; that of gems has a cycle.

  \<^bold>\<open>Signed data.\<close>  \<open>Models\<close> (payloads, their validation, content ids, authentication tokens) and
  \<open>Tillit_Crypto\<close> (signers, verifiers, base64url).  The content id determines payload and signature as far
  as the hash does, and what a signer signs its verifier accepts.

  \<^bold>\<open>Client.\<close>  \<open>Local_Store\<close> is the record of tables with one definition per method of \<open>localstore/\<close>, and
  \<open>storeOp\<close> with \<open>runOps\<close>, the abstract machine of its writes.  \<open>Trust_Set\<close> is the breadth-first walk of
  \<open>trustset.go\<close> with its specification \<open>trust_path\<close>, \<open>Trust_Complete\<close> says when the walk finds everybody; \<open>Resolver\<close> the verdicts of \<open>query.go\<close>, the relation
  \<open>supported\<close> as their specification, and the merging of spans.  \<open>Cli_Keys\<close>, \<open>Cli_Sign\<close>, \<open>Cli_Trust\<close>,
  \<open>Cli_Http\<close>, \<open>Cli_Sync\<close>, \<open>Cli_Publish\<close>, \<open>Cli_Mirror\<close>, \<open>Cli_Clean\<close>, \<open>Cli_Import\<close>, \<open>Cli_Export\<close>, \<open>Cli_Check\<close>, \<open>Check_Tree\<close>
  and \<open>Cli_Show\<close> model the commands by file; a command takes its arguments, the store and what it reads
  from outside, and yields a store or an error (\<open>cliError + store\<close>), or both where it keeps partial work
  (\<open>outcome\<close>), with the network threaded through as a state.  An import is a list of steps, each a row that is
  skipped, written, refused by the database or a null at which the program dies; \<open>failed_import_repeats\<close> says what is
  left of it and that it can be repeated.  \<open>Cli_Main\<close> is the dispatch of \<open>main.go\<close> and \<open>key.go\<close>
  with the exit codes.  \<open>Cli_Steps\<close> shows that every command refines the abstract machine, by operations
  that a table grants to it, and \<open>Cli_Runs\<close> draws the consequences for sequences of runs: a step
  relation \<open>leads\<close> with the locale \<open>run_invariant\<close>, interpreted by the invariants.

  \<open>Terminal\<close> reads what is typed or piped, and \<open>Opening\<close> opens and migrates both databases, a statement at a
  time, any of which may fail; \<open>heldIn\<close> says, apart from the statements, which rows a file holds, whatever
  version of the program wrote it.

  \<^bold>\<open>Lockfiles.\<close>  \<open>Lockfile\<close> has the result of an adapter and the loop that the adapters share, with the locales
  \<open>entries_of\<close> and \<open>lock_entries\<close>, which every adapter interprets: each kept entry is listed once, and every
  entry is listed, warned about or of a kind that is passed over.  \<open>Lock_Gosum\<close>, \<open>Lock_Pypi\<close>, \<open>Pypi_Names\<close>,
  \<open>Lock_Decoded\<close> (Cargo, Composer, NuGet, pub, Gleam, SwiftPM), \<open>Lock_Gem\<close> (RubyGems, CocoaPods),
  \<open>Lock_Mix\<close>, \<open>Lock_Rebar\<close> and \<open>Lock_Npm\<close> are the parsers.  \<open>Registries\<close> has the requests to the registries
  (locales \<open>registry_check\<close> and \<open>registry_urls\<close>), \<open>Adapters\<close> the list of adapters of \<open>check.go\<close>, and \<open>Sign_Registry\<close>
  what a registry's answer means for a signature.

  \<^bold>\<open>Server.\<close>  \<open>Server_Db\<close> (\<open>db/sqliteconnector/\<close>), \<open>Server_Handlers\<close> (handlers, middleware, routes;
  \<open>serve\<close> is one request and \<open>served\<close> the databases that requests reach) and \<open>Server_Main\<close>
  (configuration, start, limiter, request ids, log lines).  \<open>Server_Upload\<close> characterises the handlers, \<open>Server\<close>
  proves the invariant of all databases reached, \<open>Server_History\<close> what later requests can change, and
  \<open>Server_Access\<close> who can do and see what.  \<open>Cli_Http\<close> connects the two programs: the network of a
  client can be the server of this development (\<open>talksTo\<close>), and the theorems on publishing, mirroring,
  registering and authorization are about both ends.  \<open>Net_Trust\<close> follows a row from the server into another
  client's verdicts and trust set: \<open>fetchedFrom\<close> is what a synchronisation can add, and the loops over an
  answer share the locale \<open>fetched_rows\<close>.

  \<^bold>\<open>Examples.\<close>  \<open>Server_Examples\<close>, \<open>Cli_Examples\<close>, \<open>Net_Examples\<close>, \<open>Trust_Examples\<close>, \<open>Store_Examples\<close>, \<open>Check_Examples\<close>,
  \<open>Lock_Examples\<close>, \<open>Adapter_Examples\<close> and \<open>Main_Examples\<close> apply the properties at concrete inputs.

  \<^bold>\<open>Conventions.\<close>  A Go string is a list of bytes, an \<open>int\<close> of Go an \<open>int\<close> where the code cannot
  overflow it and cut to 64 bits where it can (\<open>Atoi\<close>, \<open>time.Sub\<close>); a time is a number of nanoseconds, cut to the
  second where the code stores it.  A Go map is a list of pairs in the order in which a range visits it; where the order
  matters it is a parameter (\<open>mapOrder\<close>), as is \<open>sort.Slice\<close>, of which the theorems use only that it
  permutes or sorts.  Parameters also stand for JSON, TOML and YAML decoders, the hash and the signature
  schemes, key derivation and cipher, the parser of times, the network, the file system, what a
  user types, randomness and the clock.  The hypotheses on them (\<open>schemes_ok\<close>, \<open>codec_ok\<close>, \<open>marshal_ok\<close>, \<open>sealing_ok\<close>,
  \<open>authCoded\<close>) say that what is encoded, sealed or signed can be decoded, opened or verified.
  Errors are constructors; the wording of messages is modelled only for the commands that print.

  \<^bold>\<open>Termination.\<close>  No fuel is used.  Each step of the walk of the trust set decreases the
  multiset of the depth budgets in the queue, whatever the graph; the recursion over deltas shrinks the set of base
  versions that are not being resolved; the tree of a check shrinks the set of keys not on the path; scanners shrink their
  input or the distance to its end.  \<open>renderTree_depth\<close> bounds the depth of a tree.

  \<^bold>\<open>Not modelled.\<close>  Errors of SQLite other than violated constraints, failing statements at the
  opening and refused writes of an import (a command with several writes that the database fails between two of them keeps
  the earlier ones, which the model does not show elsewhere); the loop of the HTTP server and its shutdown, the limiter of the library \<open>httprate\<close>; the progress messages
  of commands that change the store; the texts of lockfile warnings; the help texts; test helpers;
  \<open>requestdata\<close>, whose context values are the arguments of the handlers.
\<close>

end
